(* ===== verification/Prelude.thy ===== *)
theory Prelude
  imports Main
begin

text \<open>
  What the components share: event machines and their runs, a few facts on lists and
  option values, and the collections of simplification rules the component proofs use.
\<close>

subsection \<open>Collections\<close>

named_theorems js_simps \<open>evaluation of JavaScript strings, values and operators\<close>
named_theorems view_simps \<open>unfolding of what a component renders\<close>
named_theorems handler_defs \<open>the handlers a component's step function calls\<close>

subsection \<open>Event machines\<close>

text \<open>
  A component with state is a function from a state and an event to the next state and
  the effects of the event (requests sent, messages shown, windows opened). \<open>exec\<close> runs
  a list of events and collects the effects in order.
\<close>

fun exec :: "('s \<Rightarrow> 'e \<Rightarrow> 's \<times> 'o list) \<Rightarrow> 's \<Rightarrow> 'e list \<Rightarrow> 's \<times> 'o list" where
  "exec step s [] = (s, [])"
| "exec step s (e # es) =
     (let (s1, o1) = step s e; (s2, o2) = exec step s1 es in (s2, o1 @ o2))"

abbreviation final :: "('s \<Rightarrow> 'e \<Rightarrow> 's \<times> 'o list) \<Rightarrow> 's \<Rightarrow> 'e list \<Rightarrow> 's" where
  "final step s es \<equiv> fst (exec step s es)"

abbreviation outputs :: "('s \<Rightarrow> 'e \<Rightarrow> 's \<times> 'o list) \<Rightarrow> 's \<Rightarrow> 'e list \<Rightarrow> 'o list" where
  "outputs step s es \<equiv> snd (exec step s es)"

lemma final_Cons [simp]: "final step s (e # es) = final step (fst (step s e)) es"
  by (simp add: split_beta Let_def)

lemma outputs_Cons [simp]:
  "outputs step s (e # es) = snd (step s e) @ outputs step (fst (step s e)) es"
  by (simp add: split_beta Let_def)

declare exec.simps(2) [simp del]

lemma final_append: "final step s (xs @ ys) = final step (final step s xs) ys"
  by (induction xs arbitrary: s) simp_all

lemma outputs_append:
  "outputs step s (xs @ ys) = outputs step s xs @ outputs step (final step s xs) ys"
  by (induction xs arbitrary: s) simp_all

lemma final_snoc [simp]: "final step s (xs @ [e]) = fst (step (final step s xs) e)"
  by (simp add: final_append)

text \<open>An invariant of every step is an invariant of every run.\<close>

locale event_machine =
  fixes step :: "'s \<Rightarrow> 'e \<Rightarrow> 's \<times> 'o list"
    and inv :: "'s \<Rightarrow> bool"
  assumes step_inv: "inv s \<Longrightarrow> inv (fst (step s e))"
begin

lemma run_inv: "inv s \<Longrightarrow> inv (final step s es)"
  by (induction es arbitrary: s) (simp_all add: step_inv)

lemma run_inv_prefix: "inv s \<Longrightarrow> inv (final step s (take n es))"
  by (rule run_inv)

end

text \<open>No event of a run satisfies a condition on the state it meets and the event.\<close>

fun none_of :: "('s \<Rightarrow> 'e \<Rightarrow> 's \<times> 'o list) \<Rightarrow> ('s \<Rightarrow> 'e \<Rightarrow> bool) \<Rightarrow> 's \<Rightarrow> 'e list \<Rightarrow> bool" where
  "none_of step c s [] = True"
| "none_of step c s (e # es) = (\<not> c s e \<and> none_of step c (fst (step s e)) es)"

lemma none_of_snoc:
  "none_of step c s (es @ [e]) \<longleftrightarrow> none_of step c s es \<and> \<not> c (final step s es) e"
  by (induction es arbitrary: s) auto

lemma none_of_const [simp]: "none_of step (\<lambda>s. p) s es \<longleftrightarrow> (\<forall>e \<in> set es. \<not> p e)"
  by (induction es arbitrary: s) auto

text \<open>
  A machine with a goal condition that only some events can establish and some events
  destroy: where the condition holds at the end of a run and not at its start, the run
  has an establishing event with no destroying event after it.
\<close>

locale gated_machine = event_machine step inv
  for step :: "'s \<Rightarrow> 'e \<Rightarrow> 's \<times> 'o list" and inv :: "'s \<Rightarrow> bool" +
  fixes gate :: "'s \<Rightarrow> bool"
    and opens :: "'s \<Rightarrow> 'e \<Rightarrow> bool"
    and closes :: "'s \<Rightarrow> 'e \<Rightarrow> bool"
  assumes opened_by: "inv s \<Longrightarrow> gate (fst (step s e)) \<Longrightarrow> \<not> gate s \<Longrightarrow> opens s e"
    and closed_by: "inv s \<Longrightarrow> closes s e \<Longrightarrow> gate (fst (step s e)) \<Longrightarrow> opens s e"
begin

lemma gate_trace:
  "gate (final step s es) \<Longrightarrow> \<not> gate s \<Longrightarrow> inv s \<Longrightarrow>
     \<exists>xs e ys. es = xs @ e # ys \<and> opens (final step s xs) e \<and>
       none_of step closes (final step s (xs @ [e])) ys"
proof (induction es rule: rev_induct)
  case Nil
  then show ?case by simp
next
  case (snoc e es)
  let ?s = "final step s es"
  have inv: "inv ?s" using snoc.prems(3) by (rule run_inv)
  show ?case
  proof (cases "gate ?s \<and> \<not> closes ?s e")
    case True
    with snoc obtain xs o' ys where xs: "es = xs @ o' # ys" "opens (final step s xs) o'"
      "none_of step closes (final step s (xs @ [o'])) ys" by blast
    then have "none_of step closes (final step s (xs @ [o'])) (ys @ [e])"
      using True by (simp add: none_of_snoc final_append)
    with xs show ?thesis by (intro exI [of _ xs] exI [of _ o'] exI [of _ "ys @ [e]"]) simp
  next
    case False
    then have "opens ?s e"
      using snoc.prems(1) opened_by [OF inv, of e] closed_by [OF inv, of e] by auto
    then show ?thesis by (intro exI [of _ es] exI [of _ e] exI [of _ "[]"]) simp
  qed
qed

end

subsection \<open>Lists\<close>

lemma find_Some_in: "List.find p xs = Some x \<Longrightarrow> x \<in> set xs \<and> p x"
  by (auto simp: find_Some_iff)

lemma find_None_all: "List.find p xs = None \<longleftrightarrow> (\<forall>x \<in> set xs. \<not> p x)"
  by (auto simp: find_None_iff)

lemma filter_id_conv_all: "filter p xs = xs \<longleftrightarrow> (\<forall>x \<in> set xs. p x)"
  by (simp add: filter_id_conv)

end
