(* ===== verification/JsRuntime.thy ===== *)
theory JsRuntime
  imports Prelude Complex_Main
begin

text \<open>
  The part of the JavaScript runtime that the console (\<^verbatim>\<open>web/src\<close>) uses. A string is
  the list of its UTF-16 code units, so that \<^verbatim>\<open>length\<close>, \<^verbatim>\<open>trim\<close> and \<^verbatim>\<open>padStart\<close> count
  what JavaScript counts. The values of \<^verbatim>\<open>response.json()\<close> are \<open>jsval\<close>s. The text of a
  number (\<^verbatim>\<open>Number.prototype.toString\<close>) is an argument of the functions that need it.
\<close>

subsection \<open>Strings\<close>

type_synonym jstr = "nat list"

definition js :: "string \<Rightarrow> jstr" where
  "js s = map of_char s"

lemma js_Nil [simp]: "js [] = []"
  by (simp add: js_def)

lemma js_eq_Nil [simp]: "js s = [] \<longleftrightarrow> s = []"
  by (simp add: js_def)

text \<open>\<^verbatim>\<open>String(n)\<close> of a natural number below 10 to the 21: its decimal digits.\<close>

fun dec :: "nat \<Rightarrow> jstr" where
  "dec n = (if n < 10 then [48 + n] else dec (n div 10) @ [48 + n mod 10])"

declare dec.simps [simp del]

lemma dec_not_Nil [simp]: "dec n \<noteq> []"
  by (subst dec.simps) simp

lemma dec_digits: "c \<in> set (dec n) \<Longrightarrow> 48 \<le> c \<and> c \<le> 57"
proof (induction n rule: dec.induct)
  case (1 n)
  show ?case
  proof (cases "n < 10")
    case True
    with "1.prems" show ?thesis by (simp add: dec.simps [of n])
  next
    case False
    with "1.IH" "1.prems" have "c \<in> set (dec (n div 10)) \<or> c = 48 + n mod 10"
      by (simp add: dec.simps [of n]) blast
    with "1.IH" False show ?thesis by auto
  qed
qed

definition dec_int :: "int \<Rightarrow> jstr" where
  "dec_int i = (if i < 0 then 45 # dec (nat (- i)) else dec (nat i))"

definition pad_start :: "nat \<Rightarrow> nat \<Rightarrow> jstr \<Rightarrow> jstr" where
  "pad_start n c s = replicate (n - length s) c @ s"

definition pad_end :: "nat \<Rightarrow> nat \<Rightarrow> jstr \<Rightarrow> jstr" where
  "pad_end n c s = s @ replicate (n - length s) c"

lemma length_pad_start [simp]: "length (pad_start n c s) = max n (length s)"
  by (simp add: pad_start_def)

lemma length_pad_end [simp]: "length (pad_end n c s) = max n (length s)"
  by (simp add: pad_end_def)

text \<open>The prefix test, the substring test and the first replacement of a substring.\<close>

fun starts_with :: "jstr \<Rightarrow> jstr \<Rightarrow> bool" where
  "starts_with s [] = True"
| "starts_with [] (p # ps) = False"
| "starts_with (c # cs) (p # ps) = (c = p \<and> starts_with cs ps)"

fun str_includes :: "jstr \<Rightarrow> jstr \<Rightarrow> bool" where
  "str_includes [] p = (p = [])"
| "str_includes (c # cs) p = (starts_with (c # cs) p \<or> str_includes cs p)"

fun replace_first :: "jstr \<Rightarrow> jstr \<Rightarrow> jstr \<Rightarrow> jstr" where
  "replace_first [] p r = (if p = [] then r else [])"
| "replace_first (c # cs) p r =
     (if starts_with (c # cs) p then r @ drop (length p) (c # cs)
      else c # replace_first cs p r)"

lemma starts_with_append [simp]: "starts_with (p @ s) p"
  by (induction p) simp_all

lemma starts_with_conv: "starts_with s p \<longleftrightarrow> (\<exists>t. s = p @ t)"
proof (induction s p rule: starts_with.induct)
  case (3 c cs p ps)
  then show ?case by auto
qed auto

lemma str_includes_conv: "str_includes s p \<longleftrightarrow> (\<exists>a b. s = a @ p @ b)"
proof (induction s)
  case Nil
  then show ?case by auto
next
  case (Cons c cs)
  show ?case
  proof
    assume "str_includes (c # cs) p"
    then consider "starts_with (c # cs) p" | "str_includes cs p" by auto
    then show "\<exists>a b. c # cs = a @ p @ b"
    proof cases
      case 1
      then obtain t where "c # cs = [] @ p @ t" by (auto simp: starts_with_conv)
      then show ?thesis by blast
    next
      case 2
      with Cons obtain a b where "cs = a @ p @ b" by blast
      then have "c # cs = (c # a) @ p @ b" by simp
      then show ?thesis by blast
    qed
  next
    assume "\<exists>a b. c # cs = a @ p @ b"
    then obtain a b where eq: "c # cs = a @ p @ b" by blast
    show "str_includes (c # cs) p"
    proof (cases a)
      case Nil
      with eq have "starts_with (c # cs) p" by (auto simp: starts_with_conv)
      then show ?thesis by simp
    next
      case (Cons a0 a')
      with eq have "cs = a' @ p @ b" by simp
      with Cons.IH show ?thesis by auto
    qed
  qed
qed

text \<open>
  \<^verbatim>\<open>trim\<close>: the white space and line terminators of ECMAScript (TAB, LF, VT, FF, CR, SP,
  NBSP, OGHAM SPACE MARK, U+2000 to U+200A, LS, PS, NNBSP, MMSP, IDEOGRAPHIC SPACE, BOM).
\<close>

definition js_space :: "nat \<Rightarrow> bool" where
  "js_space c \<longleftrightarrow> (9 \<le> c \<and> c \<le> 13) \<or> c = 32 \<or> c = 160 \<or> c = 0x1680 \<or>
     (0x2000 \<le> c \<and> c \<le> 0x200A) \<or> c = 0x2028 \<or> c = 0x2029 \<or> c = 0x202F \<or> c = 0x205F \<or>
     c = 0x3000 \<or> c = 0xFEFF"

definition js_trim :: "jstr \<Rightarrow> jstr" where
  "js_trim s = rev (dropWhile js_space (rev (dropWhile js_space s)))"

lemma js_trim_Nil_conv: "js_trim s = [] \<longleftrightarrow> (\<forall>c \<in> set s. js_space c)"
proof -
  have "js_trim s = [] \<longleftrightarrow> (\<forall>c \<in> set (dropWhile js_space s). js_space c)"
    by (simp add: js_trim_def)
  also have "\<dots> \<longleftrightarrow> dropWhile js_space s = []"
  proof (cases "dropWhile js_space s")
    case (Cons a as)
    then have "\<not> js_space a" using hd_dropWhile [of js_space s] by simp
    with Cons show ?thesis by auto
  next
    case Nil
    show ?thesis unfolding Nil by simp
  qed
  finally show ?thesis by (simp only: dropWhile_eq_Nil_conv)
qed

subsection \<open>Values\<close>

datatype jsval =
    Undefined
  | Null
  | Boolean bool
  | Number real
  | Str jstr
  | Arr "jsval list"
  | Obj "(jstr \<times> jsval) list"

definition nullish :: "jsval \<Rightarrow> bool" where
  "nullish v \<longleftrightarrow> v = Undefined \<or> v = Null"

text \<open>\<^verbatim>\<open>a ?? b\<close>.\<close>

definition coalesce :: "jsval \<Rightarrow> jsval \<Rightarrow> jsval" where
  "coalesce a b = (if nullish a then b else a)"

text \<open>The truth value of a value; NaN is not represented.\<close>

fun truthy :: "jsval \<Rightarrow> bool" where
  "truthy Undefined = False"
| "truthy Null = False"
| "truthy (Boolean b) = b"
| "truthy (Number x) = (x \<noteq> 0)"
| "truthy (Str s) = (s \<noteq> [])"
| "truthy (Arr xs) = True"
| "truthy (Obj kvs) = True"

text \<open>\<^verbatim>\<open>typeof v === 'object'\<close>: objects, arrays and \<^verbatim>\<open>null\<close>.\<close>

fun typeof_object :: "jsval \<Rightarrow> bool" where
  "typeof_object Null = True"
| "typeof_object (Arr xs) = True"
| "typeof_object (Obj kvs) = True"
| "typeof_object v = False"

text \<open>
  \<^verbatim>\<open>v?.k\<close> for the names the console reads from payloads (\<^verbatim>\<open>error\<close>, \<^verbatim>\<open>message\<close>), which no
  prototype defines: undefined wherever the value has no property of its own.
\<close>

definition opt_prop :: "jsval \<Rightarrow> jstr \<Rightarrow> jsval" where
  "opt_prop v k =
     (case v of Obj kvs \<Rightarrow> (case map_of kvs k of None \<Rightarrow> Undefined | Some x \<Rightarrow> x)
      | _ \<Rightarrow> Undefined)"

text \<open>\<^verbatim>\<open>String(v)\<close>, for a given text of numbers.\<close>

fun intersperse_comma :: "jstr list \<Rightarrow> jstr" where
  "intersperse_comma [] = []"
| "intersperse_comma [x] = x"
| "intersperse_comma (x # y # xs) = x @ [44] @ intersperse_comma (y # xs)"

fun to_jstr :: "(real \<Rightarrow> jstr) \<Rightarrow> jsval \<Rightarrow> jstr" where
  "to_jstr nt Undefined = js ''undefined''"
| "to_jstr nt Null = js ''null''"
| "to_jstr nt (Boolean b) = (if b then js ''true'' else js ''false'')"
| "to_jstr nt (Number x) = nt x"
| "to_jstr nt (Str s) = s"
| "to_jstr nt (Arr xs) =
     intersperse_comma (map (\<lambda>v. if nullish v then [] else to_jstr nt v) xs)"
| "to_jstr nt (Obj kvs) = js ''[object Object]''"

lemmas value_simps [js_simps] = coalesce_def nullish_def opt_prop_def js_def

end
