(* ===== verification/WebTypes.thy ===== *)
theory WebTypes
  imports JsRuntime
begin

text \<open>
  The data types of the console (\<^verbatim>\<open>web/src/types.ts\<close>). Field names carry a prefix of
  their type, since different types share names. Whole numbers (counts, times in
  milliseconds or seconds, status codes) are \<open>int\<close>, percentages and averages \<open>real\<close>; an
  optional field or one that may be \<^verbatim>\<open>null\<close> is an \<open>option\<close>.
\<close>

datatype storage_kind = Sqlite | Postgres

record SessionInfo =
  si_authenticated :: bool
  si_base_url :: jstr
  si_storage :: storage_kind
  si_client :: jstr
  si_today :: jstr

record TodayStats =
  ts_requests :: int
  ts_successes :: int
  ts_success_rate :: real
  ts_average_ms :: real
  ts_input_tokens :: int
  ts_output_tokens :: int
  ts_reasoning_tokens :: int

record RequestEntry =
  re_id :: jstr
  re_request_id :: jstr
  re_api_key_id :: "jstr option"
  re_api_key_name :: "jstr option"
  re_method :: jstr
  re_path :: jstr
  re_model :: "jstr option"
  re_status :: int
  re_duration_ms :: int
  re_input_tokens :: int
  re_output_tokens :: int
  re_reasoning_tokens :: int
  re_reasoning_effort :: "jstr option"
  re_upstream_reasoning_effort :: "jstr option"
  re_first_reasoning_ms :: "int option"
  re_first_output_ms :: "int option"
  re_error :: "jstr option"
  re_created_at :: int

record OverviewData =
  od_date :: jstr
  od_stats :: TodayStats
  od_requests :: "RequestEntry list"
  od_base_url :: jstr
  od_account_connected :: bool

record LogEntry =
  le_timestamp :: int
  le_level :: jstr
  le_message :: jstr
  le_fields :: "(jstr \<times> jsval) list option"

record RateWindow =
  rw_used_percent :: real
  rw_limit_window_seconds :: "int option"
  rw_reset_after_seconds :: "int option"
  rw_reset_at :: "int option"

record RateLimit =
  rl_allowed :: "bool option"
  rl_limit_reached :: "bool option"
  rl_primary_window :: "RateWindow option"
  rl_secondary_window :: "RateWindow option"

record AdditionalRateLimit =
  al_limit_name :: "jstr option"
  al_metered_feature :: "jstr option"
  al_rate_limit :: "RateLimit option"

record QuotaPayload =
  qp_plan_type :: "jstr option"
  qp_rate_limit :: "RateLimit option"
  qp_additional_rate_limits :: "AdditionalRateLimit list option"

record AccountInfo =
  ai_connected :: bool
  ai_email :: "jstr option"
  ai_account_id :: "jstr option"
  ai_plan_type :: "jstr option"
  ai_expires_at :: "int option"
  ai_updated_at :: "int option"
  ai_quota :: "QuotaPayload option"
  ai_quota_fetched_at :: "int option"
  ai_client_name :: jstr

record DeviceFlow =
  df_flow_id :: jstr
  df_user_code :: jstr
  df_verification_url :: jstr
  df_expires_at :: int
  df_poll_interval :: int

record BrowserOAuthFlow =
  bf_flow_id :: jstr
  bf_authorization_url :: jstr
  bf_redirect_uri :: jstr
  bf_expires_at :: int

record APIKey =
  ak_id :: jstr
  ak_name :: jstr
  ak_prefix :: jstr
  ak_created_at :: int
  ak_last_used_at :: "int option"
  ak_revoked_at :: "int option"

text \<open>
  \<^verbatim>\<open>x || y\<close> on an optional string: the default also replaces the empty string. \<^verbatim>\<open>x ?? y\<close>
  is \<open>case_option y id x\<close>. An optional number is true where it is present and not zero.
\<close>

definition str_or :: "jstr option \<Rightarrow> jstr \<Rightarrow> jstr" where
  "str_or x y = (case x of None \<Rightarrow> y | Some s \<Rightarrow> if s = [] then y else s)"

definition str_true :: "jstr option \<Rightarrow> bool" where
  "str_true x = (case x of None \<Rightarrow> False | Some s \<Rightarrow> s \<noteq> [])"

definition int_true :: "int option \<Rightarrow> bool" where
  "int_true x = (case x of None \<Rightarrow> False | Some n \<Rightarrow> n \<noteq> 0)"

lemma str_or_not_Nil: "y \<noteq> [] \<Longrightarrow> str_or x y \<noteq> []"
  by (simp add: str_or_def split: option.split)

lemma int_true_Some [simp]: "int_true (Some n) \<longleftrightarrow> n \<noteq> 0"
  and int_true_None [simp]: "\<not> int_true None"
  by (simp_all add: int_true_def)

end
