(* ===== verification/Messages.thy ===== *)
theory Messages
  imports JsRuntime
begin

text \<open>
  The fixed texts of the console that are not ASCII, as lists of UTF-16 code units. The
  comment of each one is its meaning.
\<close>

definition msg_request_failed :: jstr where \<comment> \<open>request failed\<close>
  "msg_request_failed = 
     [0x8BF7, 0x6C42, 0x5931, 0x8D25]"

definition msg_logout_failed :: jstr where \<comment> \<open>sign out failed\<close>
  "msg_logout_failed = 
     [0x9000, 0x51FA, 0x5931, 0x8D25]"

definition msg_base_url_copied :: jstr where \<comment> \<open>base URL copied\<close>
  "msg_base_url_copied = 
     [0x0042, 0x0061, 0x0073, 0x0065, 0x0020, 0x0055, 0x0052, 0x004C, 0x0020, 0x5DF2, 0x590D,
     0x5236]"

definition msg_account_load_failed :: jstr where \<comment> \<open>account could not be loaded\<close>
  "msg_account_load_failed = 
     [0x8D26, 0x53F7, 0x52A0, 0x8F7D, 0x5931, 0x8D25]"

definition msg_device_expired :: jstr where \<comment> \<open>device code expired, sign in again\<close>
  "msg_device_expired = 
     [0x8BBE, 0x5907, 0x7801, 0x5DF2, 0x8FC7, 0x671F, 0xFF0C, 0x8BF7, 0x91CD, 0x65B0, 0x767B,
     0x5F55]"

definition msg_codex_connected :: jstr where \<comment> \<open>Codex sign-in succeeded\<close>
  "msg_codex_connected = 
     [0x0043, 0x006F, 0x0064, 0x0065, 0x0078, 0x0020, 0x767B, 0x5F55, 0x6210, 0x529F]"

definition msg_login_failed :: jstr where \<comment> \<open>sign-in failed\<close>
  "msg_login_failed = 
     [0x767B, 0x5F55, 0x5931, 0x8D25]"

definition msg_poll_retry_prefix :: jstr where \<comment> \<open>device code polling failed for now, retrying (\<close>
  "msg_poll_retry_prefix = 
     [0x8BBE, 0x5907, 0x7801, 0x8F6E, 0x8BE2, 0x6682, 0x65F6, 0x5931, 0x8D25, 0xFF0C, 0x6B63,
     0x5728, 0x91CD, 0x8BD5, 0xFF08]"

definition msg_poll_retry_suffix :: jstr where \<comment> \<open>of 3)\<close>
  "msg_poll_retry_suffix = 
     [0x002F, 0x0033, 0xFF09]"

definition msg_device_start_failed :: jstr where \<comment> \<open>cannot start the sign-in\<close>
  "msg_device_start_failed = 
     [0x65E0, 0x6CD5, 0x542F, 0x52A8, 0x767B, 0x5F55]"

definition msg_browser_start_failed :: jstr where \<comment> \<open>cannot start the browser sign-in\<close>
  "msg_browser_start_failed = 
     [0x65E0, 0x6CD5, 0x542F, 0x52A8, 0x6D4F, 0x89C8, 0x5668, 0x767B, 0x5F55]"

definition msg_quota_refreshed :: jstr where \<comment> \<open>quota refreshed\<close>
  "msg_quota_refreshed = 
     [0x989D, 0x5EA6, 0x5DF2, 0x5237, 0x65B0]"

definition msg_quota_failed :: jstr where \<comment> \<open>quota refresh failed\<close>
  "msg_quota_failed = 
     [0x989D, 0x5EA6, 0x5237, 0x65B0, 0x5931, 0x8D25]"

definition msg_account_disconnected :: jstr where \<comment> \<open>account disconnected\<close>
  "msg_account_disconnected = 
     [0x8D26, 0x53F7, 0x5DF2, 0x65AD, 0x5F00]"

definition msg_disconnect_failed :: jstr where \<comment> \<open>disconnecting the account failed\<close>
  "msg_disconnect_failed = 
     [0x65AD, 0x5F00, 0x8D26, 0x53F7, 0x5931, 0x8D25]"

definition msg_callback_failed :: jstr where \<comment> \<open>callback sign-in failed\<close>
  "msg_callback_failed = 
     [0x56DE, 0x8C03, 0x767B, 0x5F55, 0x5931, 0x8D25]"

definition msg_browser_connected :: jstr where \<comment> \<open>Codex browser sign-in succeeded\<close>
  "msg_browser_connected = 
     [0x0043, 0x006F, 0x0064, 0x0065, 0x0078, 0x0020, 0x6D4F, 0x89C8, 0x5668, 0x767B, 0x5F55,
     0x6210, 0x529F]"

definition msg_auth_imported :: jstr where \<comment> \<open>auth.json imported\<close>
  "msg_auth_imported = 
     [0x0061, 0x0075, 0x0074, 0x0068, 0x002E, 0x006A, 0x0073, 0x006F, 0x006E, 0x0020, 0x5DF2,
     0x5BFC, 0x5165]"

definition msg_password_changed :: jstr where \<comment> \<open>console password changed, sign in again\<close>
  "msg_password_changed = 
     [0x540E, 0x53F0, 0x5BC6, 0x7801, 0x5DF2, 0x4FEE, 0x6539, 0xFF0C, 0x8BF7, 0x91CD, 0x65B0,
     0x767B, 0x5F55]"

definition msg_import_failed :: jstr where \<comment> \<open>import failed\<close>
  "msg_import_failed = 
     [0x5BFC, 0x5165, 0x5931, 0x8D25]"

definition msg_change_failed :: jstr where \<comment> \<open>change failed\<close>
  "msg_change_failed = 
     [0x4FEE, 0x6539, 0x5931, 0x8D25]"

definition msg_device_code_copied :: jstr where \<comment> \<open>device code copied\<close>
  "msg_device_code_copied = 
     [0x8BBE, 0x5907, 0x7801, 0x5DF2, 0x590D, 0x5236]"

definition msg_plan_unknown :: jstr where \<comment> \<open>unknown\<close>
  "msg_plan_unknown = 
     [0x672A, 0x77E5]"

definition msg_extra_quota :: jstr where \<comment> \<open>additional quota\<close>
  "msg_extra_quota = 
     [0x9644, 0x52A0, 0x989D, 0x5EA6]"

definition msg_load_failed :: jstr where \<comment> \<open>loading failed\<close>
  "msg_load_failed = 
     [0x52A0, 0x8F7D, 0x5931, 0x8D25]"

definition text_total :: jstr where \<comment> \<open>in total\<close>
  "text_total = 
     [0x5171, 0x0020]"

definition text_only_latest :: jstr where \<comment> \<open>entries, showing only the latest\<close>
  "text_only_latest = 
     [0x0020, 0x6761, 0xFF0C, 0x4EC5, 0x663E, 0x793A, 0x6700, 0x8FD1, 0x0020]"

definition text_entries :: jstr where \<comment> \<open>entries\<close>
  "text_entries = 
     [0x0020, 0x6761]"

definition text_records :: jstr where \<comment> \<open>records\<close>
  "text_records = 
     [0x0020, 0x6761, 0x8BB0, 0x5F55]"

definition text_no_logs :: jstr where \<comment> \<open>waiting for the service log\<close>
  "text_no_logs = 
     [0x7B49, 0x5F85, 0x670D, 0x52A1, 0x65E5, 0x5FD7, 0x2026]"

definition msg_key_revoked :: jstr where \<comment> \<open>API key revoked\<close>
  "msg_key_revoked = 
     [0x0041, 0x0050, 0x0049, 0x0020, 0x004B, 0x0065, 0x0079, 0x0020, 0x5DF2, 0x64A4,
     0x9500]"

definition msg_revoke_failed :: jstr where \<comment> \<open>revoking failed\<close>
  "msg_revoke_failed = 
     [0x64A4, 0x9500, 0x5931, 0x8D25]"

definition msg_create_failed :: jstr where \<comment> \<open>creation failed\<close>
  "msg_create_failed = 
     [0x521B, 0x5EFA, 0x5931, 0x8D25]"

definition msg_key_copied :: jstr where \<comment> \<open>API key copied\<close>
  "msg_key_copied = 
     [0x0041, 0x0050, 0x0049, 0x0020, 0x004B, 0x0065, 0x0079, 0x0020, 0x5DF2, 0x590D,
     0x5236]"

definition label_overview :: jstr where \<comment> \<open>overview\<close>
  "label_overview = 
     [0x603B, 0x89C8]"

definition label_account :: jstr where \<comment> \<open>account\<close>
  "label_account = 
     [0x8D26, 0x53F7]"

definition text_default :: jstr where \<comment> \<open>default\<close>
  "text_default = 
     [0x9ED8, 0x8BA4]"

definition text_not_echoed :: jstr where \<comment> \<open>not echoed\<close>
  "text_not_echoed = 
     [0x672A, 0x56DE, 0x663E]"

definition text_dash :: jstr where \<comment> \<open>em dash\<close>
  "text_dash = 
     [0x2014]"

definition text_arrow :: jstr where \<comment> \<open>right arrow between blanks\<close>
  "text_arrow = 
     [0x0020, 0x2192, 0x0020]"

definition label_primary_window :: jstr where \<comment> \<open>main window\<close>
  "label_primary_window = 
     [0x4E3B, 0x7A97, 0x53E3]"

definition label_secondary_window :: jstr where \<comment> \<open>weekly window\<close>
  "label_secondary_window = 
     [0x5468, 0x7A97, 0x53E3]"

lemmas message_defs =
  msg_request_failed_def msg_logout_failed_def msg_base_url_copied_def
  msg_account_load_failed_def msg_device_expired_def msg_codex_connected_def
  msg_login_failed_def msg_poll_retry_prefix_def msg_poll_retry_suffix_def
  msg_device_start_failed_def msg_browser_start_failed_def msg_quota_refreshed_def
  msg_quota_failed_def msg_account_disconnected_def msg_disconnect_failed_def
  msg_callback_failed_def msg_browser_connected_def msg_auth_imported_def
  msg_password_changed_def msg_import_failed_def msg_change_failed_def
  msg_device_code_copied_def msg_plan_unknown_def msg_extra_quota_def
  msg_load_failed_def text_total_def text_only_latest_def
  text_entries_def text_records_def text_no_logs_def
  msg_key_revoked_def msg_revoke_failed_def msg_create_failed_def
  msg_key_copied_def label_overview_def label_account_def
  text_default_def text_not_echoed_def text_dash_def
  text_arrow_def label_primary_window_def label_secondary_window_def

end
