(* ===== verification/ApiClient.thy ===== *)
theory ApiClient
  imports WebTypes Messages
begin

text \<open>
  \<^verbatim>\<open>web/src/api.ts\<close>: the one function through which the console talks to the server, and
  the error values it rejects with. What the browser's \<^verbatim>\<open>fetch\<close> delivers is an argument:
  either the promise is rejected with an error, or there is a response, whose body may
  fail to be read or parsed.
\<close>

subsection \<open>Errors\<close>

text \<open>
  What a \<^verbatim>\<open>catch (cause)\<close> can see: an \<^verbatim>\<open>APIError\<close> with its status, another \<^verbatim>\<open>Error\<close>
  (network failure, invalid JSON), or a value that is no \<^verbatim>\<open>Error\<close>.
\<close>

datatype cause =
    APIError jstr int
  | OtherError jstr
  | NotAnError

text \<open>\<^verbatim>\<open>cause instanceof Error ? cause.message : fallback\<close>.\<close>

fun cause_message :: "jstr \<Rightarrow> cause \<Rightarrow> jstr" where
  "cause_message fallback (APIError m st) = m"
| "cause_message fallback (OtherError m) = m"
| "cause_message fallback NotAnError = fallback"

text \<open>\<^verbatim>\<open>cause instanceof APIError && cause.status === 401\<close>.\<close>

fun is_unauthorized :: "cause \<Rightarrow> bool" where
  "is_unauthorized (APIError m st) = (st = 401)"
| "is_unauthorized (OtherError m) = False"
| "is_unauthorized NotAnError = False"

subsection \<open>The request\<close>

record request_init =
  ri_method :: "jstr option"
  ri_body :: "jstr option"
  ri_headers :: "(jstr \<times> jstr) list"

record fetch_args =
  fa_path :: jstr
  fa_credentials :: jstr
  fa_method :: "jstr option"
  fa_body :: "jstr option"
  fa_headers :: "(jstr \<times> jstr) list"

text \<open>
  The spread of the caller's headers follows the default content type, so a caller's own
  \<^verbatim>\<open>Content-Type\<close> replaces it: object spread keeps one value per name, the last.
\<close>

definition spread :: "(jstr \<times> jstr) list \<Rightarrow> (jstr \<times> jstr) list \<Rightarrow> (jstr \<times> jstr) list" where
  "spread base over = filter (\<lambda>(k, v). k \<notin> fst ` set over) base @ over"

definition build_request :: "jstr \<Rightarrow> request_init option \<Rightarrow> fetch_args" where
  "build_request path i =
     \<lparr>fa_path = path,
      fa_credentials = js ''same-origin'',
      fa_method = (case i of None \<Rightarrow> None | Some r \<Rightarrow> ri_method r),
      fa_body = (case i of None \<Rightarrow> None | Some r \<Rightarrow> ri_body r),
      fa_headers =
        spread
          (if (case i of None \<Rightarrow> False | Some r \<Rightarrow> str_true (ri_body r))
           then [(js ''Content-Type'', js ''application/json'')] else [])
          (case i of None \<Rightarrow> [] | Some r \<Rightarrow> ri_headers r)\<rparr>"

subsection \<open>The response\<close>

record response =
  rs_status :: int
  rs_content_type :: "jstr option"
  rs_json :: "jstr + jsval"
  rs_text :: "jstr + jstr"

datatype fetch_outcome = Rejected jstr | Responded response

datatype browser_event = UnauthorizedEvent

definition response_ok :: "response \<Rightarrow> bool" where
  "response_ok r \<longleftrightarrow> 200 \<le> rs_status r \<and> rs_status r \<le> 299"

text \<open>The payload: JSON where the content type says so, else text; \<open>Inl\<close> is a rejection.\<close>

definition read_payload :: "response \<Rightarrow> jstr + jsval" where
  "read_payload r =
     (let content_type = (case rs_content_type r of None \<Rightarrow> [] | Some c \<Rightarrow> c)
      in if str_includes content_type (js ''application/json'') then rs_json r
         else map_sum id Str (rs_text r))"

definition error_value :: "jsval \<Rightarrow> jsval" where
  "error_value payload =
     (if typeof_object payload
      then coalesce (opt_prop (opt_prop payload (js ''error'')) (js ''message''))
             (coalesce (opt_prop payload (js ''error'')) (Str msg_request_failed))
      else if truthy payload then payload else Str msg_request_failed)"

text \<open>
  The whole call: the value or the rejection, and the browser events it dispatches on the
  way (the one that signs the console out).
\<close>

definition api :: "(real \<Rightarrow> jstr) \<Rightarrow> fetch_outcome \<Rightarrow> (cause + jsval) \<times> browser_event list" where
  "api nt outcome =
     (case outcome of
        Rejected m \<Rightarrow> (Inl (OtherError m), [])
      | Responded r \<Rightarrow>
          if rs_status r = 204 then (Inr Undefined, [])
          else
            (case read_payload r of
               Inl m \<Rightarrow> (Inl (OtherError m), [])
             | Inr payload \<Rightarrow>
                 if \<not> response_ok r
                 then (Inl (APIError (to_jstr nt (error_value payload)) (rs_status r)),
                       if rs_status r = 401 then [UnauthorizedEvent] else [])
                 else (Inr payload, [])))"

text \<open>\<^verbatim>\<open>copyText\<close>: the clipboard accepts the text or rejects.\<close>

definition copyText :: "bool \<Rightarrow> jstr \<Rightarrow> cause + unit" where
  "copyText clipboard_ok value = (if clipboard_ok then Inr () else Inl NotAnError)"

subsection \<open>Lemmas\<close>

lemma api_Rejected [simp]: "api nt (Rejected m) = (Inl (OtherError m), [])"
  by (simp add: api_def)

lemma api_204: "rs_status r = 204 \<Longrightarrow> api nt (Responded r) = (Inr Undefined, [])"
  by (simp add: api_def)

lemma api_ok:
  "response_ok r \<Longrightarrow> rs_status r \<noteq> 204 \<Longrightarrow> read_payload r = Inr p \<Longrightarrow>
     api nt (Responded r) = (Inr p, [])"
  by (simp add: api_def)

lemma api_error:
  "\<not> response_ok r \<Longrightarrow> read_payload r = Inr p \<Longrightarrow>
     api nt (Responded r) =
       (Inl (APIError (to_jstr nt (error_value p)) (rs_status r)),
        if rs_status r = 401 then [UnauthorizedEvent] else [])"
  by (auto simp: api_def response_ok_def)

lemma error_value_message:
  "map_of kvs (js ''error'') = Some (Obj es) \<Longrightarrow> map_of es (js ''message'') = Some (Str m) \<Longrightarrow>
     error_value (Obj kvs) = Str m"
  by (simp add: error_value_def opt_prop_def coalesce_def nullish_def)

lemma error_value_not_nullish: "\<not> nullish (error_value p)"
  by (cases p) (auto simp: error_value_def coalesce_def nullish_def)

subsection \<open>Properties\<close>

text \<open>The sign-out event is dispatched exactly for a rejection with status 401: whatever the
  browser delivers, a call dispatches at most one event, it does so if and only if it rejects with an
  API error of status 401, and a call that rejects for another reason or succeeds dispatches none.\<close>

lemma api_signals_401:
  "snd (api nt outcome) =
     (case fst (api nt outcome) of
        Inl c \<Rightarrow> if is_unauthorized c then [UnauthorizedEvent] else []
      | Inr v \<Rightarrow> [])"
  by (auto simp: api_def split: fetch_outcome.split sum.split)

text \<open>The message the server puts into its JSON error body is the message every page of the
  console shows: the call rejects with that text and the status, and the page's own fallback is not
  used.\<close>

lemma server_message_shown:
  assumes "\<not> response_ok r"
    and "rs_content_type r = Some ct" and "str_includes ct (js ''application/json'')"
    and "rs_json r = Inr (Obj kvs)"
    and "map_of kvs (js ''error'') = Some (Obj es)" and "map_of es (js ''message'') = Some (Str m)"
  shows "\<exists>c. fst (api nt (Responded r)) = Inl c \<and> cause_message fallback c = m \<and>
      c = APIError m (rs_status r)"
proof -
  have "read_payload r = Inr (Obj kvs)"
    using assms by (simp add: read_payload_def)
  with assms(1) show ?thesis
    by (simp add: api_error error_value_message [OF assms(5,6)])
qed

lemma server_message_shown_witness:
  "\<exists>c. fst (api (\<lambda>_. []) (Responded
       \<lparr>rs_status = 400, rs_content_type = Some (js ''application/json''),
        rs_json = Inr (Obj [(js ''error'', Obj [(js ''message'', Str [65])])]),
        rs_text = Inl []\<rparr>)) = Inl c \<and> cause_message [66] c = [65] \<and> c = APIError [65] 400"
  using server_message_shown [where r = "\<lparr>rs_status = 400, rs_content_type = Some (js ''application/json''),
        rs_json = Inr (Obj [(js ''error'', Obj [(js ''message'', Str [65])])]), rs_text = Inl []\<rparr>"
      and ct = "js ''application/json''" and kvs = "[(js ''error'', Obj [(js ''message'', Str [65])])]"
      and es = "[(js ''message'', Str [65])]" and m = "[65]" and nt = "\<lambda>_. []" and fallback = "[66]"]
  by (simp add: response_ok_def js_def)

end
