(* ===== verification/AppShell.thy ===== *)
theory AppShell
  imports ApiClient
begin

text \<open>
  \<^verbatim>\<open>web/src/App.tsx\<close> and \<^verbatim>\<open>web/src/components/Shell.tsx\<close>: the session the console has
  loaded, the page chosen by the location hash, the toast, and what is rendered. A
  handler that awaits a request is split at the await: the click shows the request among
  the effects, and the answer is an event of its own.
\<close>

subsection \<open>Pages and the location hash\<close>

datatype Page = OverviewPage | AccountPage | KeysPage

definition page_text :: "Page \<Rightarrow> jstr" where
  "page_text p = (case p of OverviewPage \<Rightarrow> js ''overview'' | AccountPage \<Rightarrow> js ''account''
                  | KeysPage \<Rightarrow> js ''keys'')"

definition pageFromHash :: "jstr \<Rightarrow> Page" where
  "pageFromHash hash =
     (let value = replace_first hash (js ''#/'') []
      in if value = js ''account'' then AccountPage
         else if value = js ''keys'' then KeysPage
         else OverviewPage)"

text \<open>\<^verbatim>\<open>localToday()\<close> for a calendar date: year, month (from 0) and day.\<close>

definition localToday :: "nat \<Rightarrow> nat \<Rightarrow> nat \<Rightarrow> jstr" where
  "localToday year month day =
     dec year @ [45] @ pad_start 2 48 (dec (month + 1)) @ [45] @ pad_start 2 48 (dec day)"

subsection \<open>State and events\<close>

record app =
  session :: "SessionInfo option"
  page :: Page
  toast :: jstr
  toast_timer :: bool
  hash :: jstr

definition app_init :: "jstr \<Rightarrow> app" where
  "app_init h = \<lparr>session = None, page = pageFromHash h, toast = [], toast_timer = False, hash = h\<rparr>"

datatype app_event =
    SessionChecked "cause + SessionInfo" jstr
  | HashChanged jstr
  | Unauthorized
  | Notify jstr
  | ToastTimeout
  | Navigate Page
  | LoginSucceeded
  | LogoutClicked
  | LogoutAnswered SessionInfo "cause + unit"

datatype app_effect =
    FetchSession
  | FetchLogout
  | ScrollToTop
  | SetHash jstr

text \<open>\<^verbatim>\<open>checkSession\<close> after its await: a failure of any kind is a signed-out session.\<close>

definition signed_out_session :: "jstr \<Rightarrow> SessionInfo" where
  "signed_out_session today =
     \<lparr>si_authenticated = False, si_base_url = js ''/v1'', si_storage = Sqlite,
      si_client = js ''codex-tui'', si_today = today\<rparr>"

definition checkSession :: "cause + SessionInfo \<Rightarrow> jstr \<Rightarrow> app \<Rightarrow> app" where
  "checkSession answer today s =
     (case answer of
        Inr info \<Rightarrow> s\<lparr>session := Some info\<rparr>
      | Inl c \<Rightarrow> s\<lparr>session := Some (signed_out_session today)\<rparr>)"

definition on_hashchange :: "jstr \<Rightarrow> app \<Rightarrow> app \<times> app_effect list" where
  "on_hashchange h s = (s\<lparr>hash := h, page := pageFromHash h\<rparr>, [ScrollToTop])"

definition on_unauthorized :: "app \<Rightarrow> app" where
  "on_unauthorized s =
     s\<lparr>session := map_option (\<lambda>current. current\<lparr>si_authenticated := False\<rparr>) (session s)\<rparr>"

text \<open>
  \<^verbatim>\<open>setToast\<close> with the effect on \<^verbatim>\<open>[toast]\<close>: a changed text clears the running timer and
  starts a new one, the empty text starts none, and an equal text changes nothing.
\<close>

definition setToast :: "jstr \<Rightarrow> app \<Rightarrow> app" where
  "setToast t s = (if t = toast s then s else s\<lparr>toast := t, toast_timer := (t \<noteq> [])\<rparr>)"

definition navigate :: "Page \<Rightarrow> app \<Rightarrow> app \<times> app_effect list" where
  "navigate next s =
     (s\<lparr>hash := js ''#/'' @ page_text next, page := next\<rparr>,
      [SetHash (js ''/'' @ page_text next), ScrollToTop])"

text \<open>
  \<^verbatim>\<open>logout\<close> after its await. The session it spreads is the one of the render in which the
  button was clicked, so the event carries it.
\<close>

definition logout :: "SessionInfo \<Rightarrow> cause + unit \<Rightarrow> app \<Rightarrow> app" where
  "logout captured answer s =
     (case answer of
        Inr u \<Rightarrow> s\<lparr>session := Some (captured\<lparr>si_authenticated := False\<rparr>)\<rparr>
      | Inl c \<Rightarrow> setToast (cause_message msg_logout_failed c) s)"

fun app_step :: "app \<Rightarrow> app_event \<Rightarrow> app \<times> app_effect list" where
  "app_step s (SessionChecked answer today) = (checkSession answer today s, [])"
| "app_step s (HashChanged h) = on_hashchange h s"
| "app_step s Unauthorized = (on_unauthorized s, [])"
| "app_step s (Notify t) = (setToast t s, [])"
| "app_step s ToastTimeout = (if toast_timer s then setToast [] s else s, [])"
| "app_step s (Navigate p) = navigate p s"
| "app_step s LoginSucceeded = (s, [FetchSession])"
| "app_step s LogoutClicked = (s, [FetchLogout])"
| "app_step s (LogoutAnswered captured answer) = (logout captured answer s, [])"

subsection \<open>What is rendered\<close>

datatype content = AccountContent | KeysContent | OverviewContent jstr

record shell_view =
  sv_label :: jstr
  sv_active :: "(jstr \<times> bool) list"
  sv_base_url :: jstr
  sv_runtime :: jstr
  sv_content :: content

datatype app_view =
    BootScreen
  | LoginScreen "jstr option"
  | Console shell_view "jstr option"

definition nav :: "(Page \<times> jstr) list" where
  "nav = [(OverviewPage, label_overview), (AccountPage, label_account), (KeysPage, js ''API Keys'')]"

definition shell :: "Page \<Rightarrow> SessionInfo \<Rightarrow> content \<Rightarrow> shell_view" where
  "shell p info c =
     \<lparr>sv_label = (case List.find (\<lambda>item. fst item = p) nav of
                     Some item \<Rightarrow> snd item | None \<Rightarrow> snd (hd nav)),
      sv_active = map (\<lambda>item. (snd item, p = fst item)) nav,
      sv_base_url = si_base_url info,
      sv_runtime = (case si_storage info of Sqlite \<Rightarrow> js ''SQLite'' | Postgres \<Rightarrow> js ''PostgreSQL + Redis''),
      sv_content = c\<rparr>"

text \<open>\<^verbatim>\<open>copyBaseURL\<close>: the message follows the copy, so a rejected copy shows none.\<close>

definition copyBaseURL :: "bool \<Rightarrow> SessionInfo \<Rightarrow> jstr option" where
  "copyBaseURL clipboard_ok info =
     (case copyText clipboard_ok (si_base_url info) of
        Inr u \<Rightarrow> Some msg_base_url_copied | Inl c \<Rightarrow> None)"

definition shown_toast :: "app \<Rightarrow> jstr option" where
  "shown_toast s = (if toast s = [] then None else Some (toast s))"

definition app_content :: "Page \<Rightarrow> SessionInfo \<Rightarrow> content" where
  "app_content p info = (case p of AccountPage \<Rightarrow> AccountContent | KeysPage \<Rightarrow> KeysContent
                         | OverviewPage \<Rightarrow> OverviewContent (si_today info))"

definition app_render :: "app \<Rightarrow> app_view" where
  "app_render s =
     (case session s of
        None \<Rightarrow> BootScreen
      | Some info \<Rightarrow>
          if \<not> si_authenticated info then LoginScreen (shown_toast s)
          else Console (shell (page s) info (app_content (page s) info)) (shown_toast s))"

definition console_shown :: "app \<Rightarrow> bool" where
  "console_shown s \<longleftrightarrow> (\<exists>v t. app_render s = Console v t)"

subsection \<open>Lemmas\<close>

lemmas app_handlers = checkSession_def on_hashchange_def on_unauthorized_def setToast_def
  navigate_def logout_def

lemma console_shown_iff:
  "console_shown s \<longleftrightarrow> (\<exists>info. session s = Some info \<and> si_authenticated info)"
  by (auto simp: console_shown_def app_render_def split: option.splits if_splits)

lemma session_setToast [simp]: "session (setToast t s) = session s"
  by (simp add: setToast_def)

lemma console_shown_setToast [simp]: "console_shown (setToast t s) = console_shown s"
  by (simp add: console_shown_iff)

definition opens_console :: "app_event \<Rightarrow> bool" where
  "opens_console e \<longleftrightarrow> (\<exists>info t. e = SessionChecked (Inr info) t \<and> si_authenticated info)"

definition closes_console :: "app_event \<Rightarrow> bool" where
  "closes_console e \<longleftrightarrow> e = Unauthorized \<or> (\<exists>i. e = LogoutAnswered i (Inr ())) \<or>
     (\<exists>c t. e = SessionChecked (Inl c) t) \<or>
     (\<exists>info t. e = SessionChecked (Inr info) t \<and> \<not> si_authenticated info)"

interpretation gate: gated_machine app_step "\<lambda>s. True" console_shown "\<lambda>s. opens_console"
  "\<lambda>s. closes_console"
proof unfold_locales
  fix s e
  show "console_shown (fst (app_step s e)) \<Longrightarrow> \<not> console_shown s \<Longrightarrow> opens_console e"
    by (cases e) (auto simp: console_shown_iff opens_console_def app_handlers signed_out_session_def
        split: sum.splits if_splits)
  show "closes_console e \<Longrightarrow> console_shown (fst (app_step s e)) \<Longrightarrow> opens_console e"
    by (auto simp: console_shown_iff closes_console_def app_handlers signed_out_session_def)
qed simp

text \<open>A timer runs exactly while a toast is shown.\<close>

definition toast_inv :: "app \<Rightarrow> bool" where
  "toast_inv s \<longleftrightarrow> (toast_timer s \<longleftrightarrow> toast s \<noteq> [])"

interpretation toasts: event_machine app_step toast_inv
proof unfold_locales
  fix s e
  show "toast_inv s \<Longrightarrow> toast_inv (fst (app_step s e))"
    by (cases e) (auto simp: toast_inv_def app_handlers split: sum.splits)
qed

text \<open>The page always agrees with the location hash.\<close>

definition hash_inv :: "app \<Rightarrow> bool" where
  "hash_inv s \<longleftrightarrow> page s = pageFromHash (hash s)"

lemma pageFromHash_page_text: "pageFromHash (js ''#/'' @ page_text p) = p"
  by (cases p) (simp_all add: pageFromHash_def page_text_def js_def)

interpretation hashes: event_machine app_step hash_inv
proof unfold_locales
  fix s e
  show "hash_inv s \<Longrightarrow> hash_inv (fst (app_step s e))"
    by (cases e) (auto simp: hash_inv_def app_handlers pageFromHash_page_text split: sum.splits)
qed

lemma app_init_simps [simp]:
  "\<not> console_shown (app_init h)" "toast_inv (app_init h)" "hash_inv (app_init h)"
  by (simp_all add: app_init_def console_shown_iff toast_inv_def hash_inv_def)

subsection \<open>Properties\<close>

text \<open>C6. The console proper is on screen only while the last word on the session was a check that
  the server answered as authenticated: some such check happened, and after it there was no
  unauthorized event, no logout the server confirmed, and no check that failed or said signed out.\<close>

theorem console_needs_session:
  assumes "console_shown (final app_step (app_init h) es)"
  shows "\<exists>xs info t ys. es = xs @ SessionChecked (Inr info) t # ys \<and> si_authenticated info \<and>
           (\<forall>y \<in> set ys. \<not> closes_console y)"
proof -
  obtain xs e ys where "es = xs @ e # ys" "opens_console e" "\<forall>y \<in> set ys. \<not> closes_console y"
    using gate.gate_trace [OF assms] by auto
  then show ?thesis unfolding opens_console_def by blast
qed

definition sample_session :: SessionInfo where
  "sample_session = \<lparr>si_authenticated = True, si_base_url = js ''/v1'', si_storage = Sqlite,
     si_client = js ''codex-tui'', si_today = js ''2026-01-01''\<rparr>"

theorem console_needs_session_witness:
  "\<exists>xs info t ys. [SessionChecked (Inr sample_session) [], Navigate KeysPage] =
       xs @ SessionChecked (Inr info) t # ys \<and> si_authenticated info \<and>
       (\<forall>y \<in> set ys. \<not> closes_console y)"
  by (rule console_needs_session [of "[]"])
    (simp add: console_shown_iff sample_session_def app_handlers app_init_def)

text \<open>
  A request that the server rejects with 401 takes the console to the sign-in page, from any
  state with a loaded session, and the page chosen in the navigation and the toast survive, so the user
  returns to where they were after signing in.\<close>

lemma unauthorized_shows_login:
  "app_render (fst (app_step (s\<lparr>session := Some info\<rparr>) Unauthorized)) = LoginScreen (shown_toast s) \<and>
   app_render (fst (app_step (fst (app_step (s\<lparr>session := Some info\<rparr>) Unauthorized))
       (SessionChecked (Inr (info'\<lparr>si_authenticated := True\<rparr>)) t))) =
     Console (shell (page s) (info'\<lparr>si_authenticated := True\<rparr>)
       (app_content (page s) (info'\<lparr>si_authenticated := True\<rparr>))) (shown_toast s)"
  by (simp add: app_handlers app_render_def shown_toast_def)

text \<open>The page on screen always agrees with the location hash, a toast always has its timer and
  the timer never outlives it, whatever the order of navigation, hash changes, messages and answers.\<close>

lemma hash_and_toast_agree:
  "page (final app_step (app_init h) es) = pageFromHash (hash (final app_step (app_init h) es)) \<and>
   toast_timer (final app_step (app_init h) es) = (toast (final app_step (app_init h) es) \<noteq> [])"
  using hashes.run_inv [OF app_init_simps(3)] toasts.run_inv [OF app_init_simps(2)]
  by (simp add: hash_inv_def toast_inv_def)

text \<open>Exactly one entry of the navigation is marked active, the one of the page shown.\<close>

lemma one_active_entry:
  "filter snd (sv_active (shell p info c)) = [(sv_label (shell p info c), True)]"
  by (cases p) (simp_all add: shell_def nav_def)

end
