(* ===== verification/UriEncoding.thy ===== *)
theory UriEncoding
  imports JsRuntime
begin

text \<open>
  \<^verbatim>\<open>encodeURIComponent\<close>, with which the console puts identifiers and dates into request
  paths: the code units are decoded to code points (a lone surrogate is a \<^verbatim>\<open>URIError\<close>,
  here \<open>None\<close>), the unreserved characters are kept, and every other code point becomes the
  percent-encoded bytes of its UTF-8 form.
\<close>

definition high_surrogate :: "nat \<Rightarrow> bool" where
  "high_surrogate c \<longleftrightarrow> 0xD800 \<le> c \<and> c \<le> 0xDBFF"

definition low_surrogate :: "nat \<Rightarrow> bool" where
  "low_surrogate c \<longleftrightarrow> 0xDC00 \<le> c \<and> c \<le> 0xDFFF"

fun code_points :: "jstr \<Rightarrow> nat list option" where
  "code_points [] = Some []"
| "code_points [c] = (if high_surrogate c \<or> low_surrogate c then None else Some [c])"
| "code_points (c # d # cs) =
     (if low_surrogate c then None
      else if high_surrogate c
      then (if low_surrogate d
            then map_option (\<lambda>ps. (0x10000 + (c - 0xD800) * 0x400 + (d - 0xDC00)) # ps)
                   (code_points cs)
            else None)
      else map_option (\<lambda>ps. c # ps) (code_points (d # cs)))"

definition utf8 :: "nat \<Rightarrow> nat list" where
  "utf8 p =
     (if p < 0x80 then [p]
      else if p < 0x800 then [0xC0 + p div 64, 0x80 + p mod 64]
      else if p < 0x10000 then [0xE0 + p div 4096, 0x80 + p div 64 mod 64, 0x80 + p mod 64]
      else [0xF0 + p div 262144, 0x80 + p div 4096 mod 64, 0x80 + p div 64 mod 64, 0x80 + p mod 64])"

text \<open>Letters, digits and \<^verbatim>\<open>- _ . ! ~ * ' ( )\<close>.\<close>

definition unreserved :: "nat \<Rightarrow> bool" where
  "unreserved c \<longleftrightarrow> (65 \<le> c \<and> c \<le> 90) \<or> (97 \<le> c \<and> c \<le> 122) \<or> (48 \<le> c \<and> c \<le> 57) \<or>
     c \<in> {45, 95, 46, 33, 126, 42, 39, 40, 41}"

definition hex_digit :: "nat \<Rightarrow> nat" where
  "hex_digit n = (if n < 10 then 48 + n else 55 + n)"

definition percent :: "nat \<Rightarrow> jstr" where
  "percent b = [37, hex_digit (b div 16 mod 16), hex_digit (b mod 16)]"

definition encode_point :: "nat \<Rightarrow> jstr" where
  "encode_point p = (if unreserved p then [p] else concat (map percent (utf8 p)))"

definition encodeURIComponent :: "jstr \<Rightarrow> jstr option" where
  "encodeURIComponent s = map_option (\<lambda>ps. concat (map encode_point ps)) (code_points s)"

lemma hex_digit_range: "n < 16 \<Longrightarrow> unreserved (hex_digit n)"
  by (auto simp: hex_digit_def unreserved_def)

lemma percent_chars: "c \<in> set (percent b) \<Longrightarrow> unreserved c \<or> c = 37"
  by (auto simp: percent_def intro: hex_digit_range)

lemma encode_point_chars: "c \<in> set (encode_point p) \<Longrightarrow> unreserved c \<or> c = 37"
  by (auto simp: encode_point_def dest: percent_chars split: if_splits)

lemma encodeURIComponent_chars:
  "encodeURIComponent s = Some e \<Longrightarrow> c \<in> set e \<Longrightarrow> unreserved c \<or> c = 37"
  by (auto simp: encodeURIComponent_def dest: encode_point_chars)

text \<open>The code of a segment has no \<^verbatim>\<open>/\<close>, no \<^verbatim>\<open>?\<close> and no number sign.\<close>

lemma encodeURIComponent_segment:
  assumes "encodeURIComponent s = Some e"
  shows "set e \<inter> {47, 63, 35} = {}"
proof -
  have "\<not> unreserved c \<and> c \<noteq> 37" if "c \<in> {47, 63, 35}" for c
    using that by (auto simp: unreserved_def)
  with encodeURIComponent_chars [OF assms] show ?thesis by blast
qed

text \<open>A string of unreserved characters, such as the server's identifiers, is its own code.\<close>

lemma unreserved_no_surrogate:
  "unreserved c \<Longrightarrow> \<not> high_surrogate c \<and> \<not> low_surrogate c"
  by (auto simp: unreserved_def high_surrogate_def low_surrogate_def)

lemma code_points_unreserved: "\<forall>c \<in> set s. unreserved c \<Longrightarrow> code_points s = Some s"
  by (induction s rule: code_points.induct) (auto dest: unreserved_no_surrogate)

lemma encodeURIComponent_unreserved:
  "\<forall>c \<in> set s. unreserved c \<Longrightarrow> encodeURIComponent s = Some s"
  by (induction s) (auto simp: encodeURIComponent_def code_points_unreserved encode_point_def)

text \<open>A path with one encoded segment.\<close>

definition path_with :: "jstr \<Rightarrow> jstr \<Rightarrow> jstr \<Rightarrow> jstr option" where
  "path_with before segment after =
     map_option (\<lambda>e. before @ e @ after) (encodeURIComponent segment)"

end
