(* ===== verification/Account.thy ===== *)
theory Account
  imports ApiClient UriEncoding "HOL-Library.Sublist"
begin

text \<open>
  \<^verbatim>\<open>web/src/pages/Account.tsx\<close>: the upstream account, the two sign-in flows, the poller of
  the device flow, the quota and the dialogs. Every handler is split at its await.

  The effect on \<^verbatim>\<open>[flow, notify]\<close> compares the flow object by identity, so each
  \<^verbatim>\<open>setFlow(result)\<close> gets a fresh number, and each run of the effect is a \<open>poller\<close>: the
  closure with its flow, its \<^verbatim>\<open>stopped\<close> flag and its failure counter. \<open>Commit\<close> is React's
  commit after a state change: it cleans the old effect up and starts the new one. Between
  a state change and its commit, answers still reach the old poller.
\<close>

subsection \<open>State, events and effects\<close>

record poller =
  pl_flow :: DeviceFlow
  pl_stopped :: bool
  pl_failures :: nat

record account_page =
  ap_account :: "AccountInfo option"
  ap_flow :: "(nat \<times> DeviceFlow) option"
  ap_browserFlow :: "BrowserOAuthFlow option"
  ap_importOpen :: bool
  ap_passwordOpen :: bool
  ap_loading :: bool
  ap_busy :: jstr
  ap_error :: jstr
  ap_next :: nat
  ap_alive :: bool
  ap_mounted :: "nat option"
  ap_pollers :: "nat \<Rightarrow> poller option"

definition account_init :: account_page where
  "account_init =
     \<lparr>ap_account = None, ap_flow = None, ap_browserFlow = None, ap_importOpen = False,
      ap_passwordOpen = False, ap_loading = True, ap_busy = [], ap_error = [], ap_next = 0,
      ap_alive = True, ap_mounted = None, ap_pollers = (\<lambda>_. None)\<rparr>"

record poll_result =
  pr_status :: jstr
  pr_account :: "AccountInfo option"

datatype account_event =
    LoadAnswered "cause + AccountInfo"
  | Commit
  | PollTick nat int
  | PollAnswered nat "cause + poll_result"
  | DeviceClicked
  | DeviceAnswered "cause + DeviceFlow"
  | BrowserClicked
  | BrowserAnswered "cause + BrowserOAuthFlow"
  | QuotaClicked
  | QuotaAnswered "cause + QuotaPayload \<times> int"
  | DisconnectClicked bool
  | DisconnectAnswered "AccountInfo option" "cause + unit"
  | ErrorDismissed
  | DeviceModalClosed
  | BrowserModalClosed
  | BrowserConnected AccountInfo
  | ImportOpened
  | ImportClosed
  | Imported AccountInfo
  | PasswordOpened
  | PasswordClosed
  | PasswordChanged
  | Unmounted

datatype account_effect =
    FetchPoll jstr
  | FetchDevice
  | FetchBrowser
  | FetchQuota
  | FetchDisconnect
  | OpenWindow jstr
  | ShowToast jstr
  | StartInterval nat int
  | ClearInterval nat
  | DispatchUnauthorized

text \<open>The request path of one poll.\<close>

definition poll_path :: "jstr \<Rightarrow> jstr option" where
  "poll_path flow_id = path_with (js ''/api/admin/account/device/'') flow_id []"

subsection \<open>Loading and polling\<close>

definition load_account :: "cause + AccountInfo \<Rightarrow> account_page \<Rightarrow> account_page" where
  "load_account answer s =
     (case answer of
        Inr info \<Rightarrow> s\<lparr>ap_account := Some info\<rparr>
      | Inl c \<Rightarrow> s\<lparr>ap_error := cause_message msg_account_load_failed c\<rparr>)\<lparr>ap_loading := False\<rparr>"

definition setFlow :: "DeviceFlow option \<Rightarrow> account_page \<Rightarrow> account_page" where
  "setFlow f s =
     (case f of None \<Rightarrow> s\<lparr>ap_flow := None\<rparr>
      | Some x \<Rightarrow> s\<lparr>ap_flow := Some (ap_next s, x), ap_next := ap_next s + 1\<rparr>)"

text \<open>\<^verbatim>\<open>Math.max(flow.poll_interval, 3) * 1000\<close>.\<close>

definition poll_delay :: "DeviceFlow \<Rightarrow> int" where
  "poll_delay f = max (df_poll_interval f) 3 * 1000"

definition stop_poller :: "nat option \<Rightarrow> (nat \<Rightarrow> poller option) \<Rightarrow> nat \<Rightarrow> poller option" where
  "stop_poller m ps =
     (case m of None \<Rightarrow> ps
      | Some i \<Rightarrow> ps(i := map_option (\<lambda>p. p\<lparr>pl_stopped := True\<rparr>) (ps i)))"

definition cleanup_effects :: "nat option \<Rightarrow> account_effect list" where
  "cleanup_effects m = (case m of None \<Rightarrow> [] | Some i \<Rightarrow> [ClearInterval i])"

definition commit :: "account_page \<Rightarrow> account_page \<times> account_effect list" where
  "commit s =
     (if \<not> ap_alive s \<or> map_option fst (ap_flow s) = ap_mounted s then (s, [])
      else
        let s1 = s\<lparr>ap_pollers := stop_poller (ap_mounted s) (ap_pollers s)\<rparr>
        in (case ap_flow s of
              None \<Rightarrow> (s1\<lparr>ap_mounted := None\<rparr>, cleanup_effects (ap_mounted s))
            | Some (i, f) \<Rightarrow>
                (s1\<lparr>ap_mounted := Some i,
                    ap_pollers := (ap_pollers s1)
                      (i := Some \<lparr>pl_flow = f, pl_stopped = False, pl_failures = 0\<rparr>)\<rparr>,
                 cleanup_effects (ap_mounted s) @ [StartInterval i (poll_delay f)])))"

definition unmount :: "account_page \<Rightarrow> account_page \<times> account_effect list" where
  "unmount s =
     (s\<lparr>ap_alive := False, ap_mounted := None,
        ap_pollers := stop_poller (ap_mounted s) (ap_pollers s)\<rparr>,
      cleanup_effects (ap_mounted s))"

text \<open>
  One run of \<^verbatim>\<open>poll\<close> up to its await. A stopped poller's interval is cleared, so it does
  not tick.
\<close>

definition poll_tick :: "nat \<Rightarrow> int \<Rightarrow> account_page \<Rightarrow> account_page \<times> account_effect list" where
  "poll_tick i now s =
     (case ap_pollers s i of
        None \<Rightarrow> (s, [])
      | Some p \<Rightarrow>
          if pl_stopped p then (s, [])
          else if now \<ge> df_expires_at (pl_flow p)
          then ((setFlow None s)\<lparr>ap_error := msg_device_expired\<rparr>, [])
          else (s, [FetchPoll (df_flow_id (pl_flow p))]))"

definition retry_text :: "nat \<Rightarrow> jstr" where
  "retry_text n = msg_poll_retry_prefix @ dec n @ msg_poll_retry_suffix"

definition set_poller :: "nat \<Rightarrow> poller \<Rightarrow> account_page \<Rightarrow> account_page" where
  "set_poller i p s = s\<lparr>ap_pollers := (ap_pollers s)(i := Some p)\<rparr>"

text \<open>The rest of \<^verbatim>\<open>poll\<close>, after its await.\<close>

definition poll_success ::
  "nat \<Rightarrow> poller \<Rightarrow> poll_result \<Rightarrow> account_page \<Rightarrow> account_page \<times> account_effect list" where
  "poll_success i p r s =
     (let s1 = set_poller i (p\<lparr>pl_failures := 0\<rparr>) s;
          s2 = (if pl_stopped p then s1 else s1\<lparr>ap_error := []\<rparr>)
      in if \<not> pl_stopped p \<and> pr_status r = js ''complete''
         then ((setFlow None s2)\<lparr>ap_account := pr_account r\<rparr>, [ShowToast msg_codex_connected])
         else (s2, []))"

definition poll_failure :: "nat \<Rightarrow> poller \<Rightarrow> cause \<Rightarrow> account_page \<Rightarrow> account_page" where
  "poll_failure i p c s =
     (if pl_stopped p then s
      else if is_unauthorized c then setFlow None s
      else
        let n = pl_failures p + 1; s1 = set_poller i (p\<lparr>pl_failures := n\<rparr>) s
        in if n \<ge> 3 then (setFlow None s1)\<lparr>ap_error := cause_message msg_login_failed c\<rparr>
           else s1\<lparr>ap_error := retry_text n\<rparr>)"

definition poll_answer ::
  "nat \<Rightarrow> cause + poll_result \<Rightarrow> account_page \<Rightarrow> account_page \<times> account_effect list" where
  "poll_answer i answer s =
     (case ap_pollers s i of
        None \<Rightarrow> (s, [])
      | Some p \<Rightarrow>
          (case answer of Inr r \<Rightarrow> poll_success i p r s | Inl c \<Rightarrow> (poll_failure i p c s, [])))"

subsection \<open>The buttons\<close>

definition begin_busy :: "jstr \<Rightarrow> account_page \<Rightarrow> account_page" where
  "begin_busy b s = s\<lparr>ap_busy := b, ap_error := []\<rparr>"

definition device_answer ::
  "cause + DeviceFlow \<Rightarrow> account_page \<Rightarrow> account_page \<times> account_effect list" where
  "device_answer answer s =
     (case answer of
        Inr f \<Rightarrow> ((setFlow (Some f) (s\<lparr>ap_browserFlow := None\<rparr>))\<lparr>ap_busy := []\<rparr>,
                  [OpenWindow (df_verification_url f)])
      | Inl c \<Rightarrow> (s\<lparr>ap_error := cause_message msg_device_start_failed c, ap_busy := []\<rparr>, []))"

definition browser_answer ::
  "cause + BrowserOAuthFlow \<Rightarrow> account_page \<Rightarrow> account_page \<times> account_effect list" where
  "browser_answer answer s =
     (case answer of
        Inr f \<Rightarrow> ((setFlow None s)\<lparr>ap_browserFlow := Some f, ap_busy := []\<rparr>,
                  [OpenWindow (bf_authorization_url f)])
      | Inl c \<Rightarrow> (s\<lparr>ap_error := cause_message msg_browser_start_failed c, ap_busy := []\<rparr>, []))"

definition quota_answer ::
  "cause + QuotaPayload \<times> int \<Rightarrow> account_page \<Rightarrow> account_page \<times> account_effect list" where
  "quota_answer answer s =
     (case answer of
        Inr (q, fetched) \<Rightarrow>
          (s\<lparr>ap_account := map_option
               (\<lambda>current. current\<lparr>ai_quota := Some q, ai_quota_fetched_at := Some fetched\<rparr>) (ap_account s),
             ap_busy := []\<rparr>, [ShowToast msg_quota_refreshed])
      | Inl c \<Rightarrow> (s\<lparr>ap_error := cause_message msg_quota_failed c, ap_busy := []\<rparr>, []))"

definition disconnected_account :: "AccountInfo option \<Rightarrow> AccountInfo" where
  "disconnected_account captured =
     \<lparr>ai_connected = False, ai_email = None, ai_account_id = None, ai_plan_type = None,
      ai_expires_at = None, ai_updated_at = None, ai_quota = None, ai_quota_fetched_at = None,
      ai_client_name = (case captured of None \<Rightarrow> js ''codex-tui'' | Some a \<Rightarrow> ai_client_name a)\<rparr>"

definition disconnect_click :: "bool \<Rightarrow> account_page \<Rightarrow> account_page \<times> account_effect list" where
  "disconnect_click confirmed s =
     (if \<not> confirmed then (s, []) else (begin_busy (js ''disconnect'') s, [FetchDisconnect]))"

definition disconnect_answer :: "AccountInfo option \<Rightarrow> cause + unit \<Rightarrow> account_page \<Rightarrow>
    account_page \<times> account_effect list" where
  "disconnect_answer captured answer s =
     (case answer of
        Inr u \<Rightarrow> (s\<lparr>ap_account := Some (disconnected_account captured), ap_busy := []\<rparr>,
                  [ShowToast msg_account_disconnected])
      | Inl c \<Rightarrow> (s\<lparr>ap_error := cause_message msg_disconnect_failed c, ap_busy := []\<rparr>, []))"

fun account_step :: "account_page \<Rightarrow> account_event \<Rightarrow> account_page \<times> account_effect list" where
  "account_step s (LoadAnswered a) = (load_account a s, [])"
| "account_step s Commit = commit s"
| "account_step s (PollTick i now) = poll_tick i now s"
| "account_step s (PollAnswered i a) = poll_answer i a s"
| "account_step s DeviceClicked = (begin_busy (js ''device-login'') s, [FetchDevice])"
| "account_step s (DeviceAnswered a) = device_answer a s"
| "account_step s BrowserClicked = (begin_busy (js ''browser-login'') s, [FetchBrowser])"
| "account_step s (BrowserAnswered a) = browser_answer a s"
| "account_step s QuotaClicked = (begin_busy (js ''quota'') s, [FetchQuota])"
| "account_step s (QuotaAnswered a) = quota_answer a s"
| "account_step s (DisconnectClicked ok) = disconnect_click ok s"
| "account_step s (DisconnectAnswered captured a) = disconnect_answer captured a s"
| "account_step s ErrorDismissed = (s\<lparr>ap_error := []\<rparr>, [])"
| "account_step s DeviceModalClosed = (setFlow None s, [])"
| "account_step s BrowserModalClosed = (s\<lparr>ap_browserFlow := None\<rparr>, [])"
| "account_step s (BrowserConnected v) =
     (s\<lparr>ap_account := Some v, ap_browserFlow := None\<rparr>, [ShowToast msg_browser_connected])"
| "account_step s ImportOpened = (s\<lparr>ap_importOpen := True\<rparr>, [])"
| "account_step s ImportClosed = (s\<lparr>ap_importOpen := False\<rparr>, [])"
| "account_step s (Imported v) =
     (s\<lparr>ap_account := Some v, ap_importOpen := False\<rparr>, [ShowToast msg_auth_imported])"
| "account_step s PasswordOpened = (s\<lparr>ap_passwordOpen := True\<rparr>, [])"
| "account_step s PasswordClosed = (s\<lparr>ap_passwordOpen := False\<rparr>, [])"
| "account_step s PasswordChanged =
     (s\<lparr>ap_passwordOpen := False\<rparr>, [ShowToast msg_password_changed, DispatchUnauthorized])"
| "account_step s Unmounted = unmount s"

subsection \<open>The invariant of the pollers\<close>

text \<open>
  A poller that is not stopped is the mounted one and the mounted one is not stopped; the
  numbers of flows are never reused; a flow that is still shown has a poller with fewer
  than three failures.
\<close>

lemmas account_handlers = load_account_def setFlow_def commit_def unmount_def poll_tick_def
  poll_answer_def poll_success_def poll_failure_def set_poller_def begin_busy_def
  device_answer_def browser_answer_def quota_answer_def disconnect_click_def
  disconnect_answer_def stop_poller_def cleanup_effects_def

definition pinv ::
  "(nat \<Rightarrow> poller option) \<Rightarrow> nat option \<Rightarrow> nat \<Rightarrow> (nat \<times> DeviceFlow) option \<Rightarrow> bool" where
  "pinv ps m n fl \<longleftrightarrow>
     (\<forall>i p. ps i = Some p \<longrightarrow>
        (pl_stopped p \<longleftrightarrow> m \<noteq> Some i) \<and> i < n \<and>
        (\<forall>f. fl = Some (i, f) \<longrightarrow> pl_failures p < 3 \<and> pl_flow p = f)) \<and>
     (\<forall>i. m = Some i \<longrightarrow> ps i \<noteq> None) \<and>
     (\<forall>i f. fl = Some (i, f) \<longrightarrow> i < n)"

definition poller_inv :: "account_page \<Rightarrow> bool" where
  "poller_inv s = pinv (ap_pollers s) (ap_mounted s) (ap_next s) (ap_flow s)"

lemma pinvD:
  assumes "pinv ps m n fl"
  shows "ps i = Some p \<Longrightarrow> pl_stopped p \<longleftrightarrow> m \<noteq> Some i"
    and "ps i = Some p \<Longrightarrow> i < n"
    and "ps i = Some p \<Longrightarrow> fl = Some (i, f) \<Longrightarrow> pl_failures p < 3 \<and> pl_flow p = f"
    and "m = Some i \<Longrightarrow> \<exists>p. ps i = Some p"
    and "fl = Some (i, f) \<Longrightarrow> i < n"
  using assms unfolding pinv_def by blast+

lemma pinv_None: "pinv ps m n fl \<Longrightarrow> pinv ps m n None"
  by (simp add: pinv_def)

lemma pinv_new: "pinv ps m n fl \<Longrightarrow> pinv ps m (Suc n) (Some (n, f))"
  unfolding pinv_def by (auto simp: less_Suc_eq)

lemma pinv_upd:
  assumes "pinv ps m n fl" "ps i = Some p"
    and "pl_stopped q = pl_stopped p" "pl_flow q = pl_flow p"
    and "\<And>f. fl = Some (i, f) \<Longrightarrow> pl_failures q < 3"
  shows "pinv (ps(i \<mapsto> q)) m n fl"
  using assms unfolding pinv_def by auto

lemma pinv_stop:
  assumes "pinv ps m n fl"
  shows "pinv (stop_poller m ps) None n fl"
proof (cases m)
  case None
  with assms show ?thesis by (simp add: stop_poller_def)
next
  case (Some i)
  with pinvD(4) [OF assms] obtain p where "ps i = Some p" by blast
  with assms Some show ?thesis
    unfolding pinv_def stop_poller_def by auto
qed

lemma pinv_start:
  "pinv ps None n (Some (i, f)) \<Longrightarrow>
     pinv (ps(i \<mapsto> \<lparr>pl_flow = f, pl_stopped = False, pl_failures = 0\<rparr>)) (Some i) n (Some (i, f))"
  unfolding pinv_def by auto

lemma poller_inv_commit:
  assumes "poller_inv s"
  shows "poller_inv (fst (commit s))"
proof -
  have stopped: "pinv (stop_poller (ap_mounted s) (ap_pollers s)) None (ap_next s) (ap_flow s)"
    using assms by (simp add: poller_inv_def pinv_stop)
  show ?thesis
  proof (cases "ap_flow s")
    case None
    with stopped assms show ?thesis by (simp add: poller_inv_def commit_def Let_def)
  next
    case (Some fl)
    obtain i f where "fl = (i, f)" by (cases fl)
    with Some stopped assms pinv_start [of _ "ap_next s" i f] show ?thesis
      by (simp add: poller_inv_def commit_def Let_def)
  qed
qed

lemma poller_inv_poll_success:
  "poller_inv s \<Longrightarrow> ap_pollers s i = Some p \<Longrightarrow> poller_inv (fst (poll_success i p r s))"
  by (auto simp: poller_inv_def poll_success_def set_poller_def setFlow_def Let_def
      intro: pinv_upd pinv_None)

lemma poller_inv_poll_failure:
  "poller_inv s \<Longrightarrow> ap_pollers s i = Some p \<Longrightarrow> poller_inv (poll_failure i p c s)"
  by (auto simp: poller_inv_def poll_failure_def set_poller_def setFlow_def Let_def
      intro: pinv_upd pinv_None)

interpretation pollers: event_machine account_step poller_inv
proof unfold_locales
  fix s e
  assume inv: "poller_inv s"
  show "poller_inv (fst (account_step s e))"
  proof (cases e)
    case (PollAnswered i a)
    with inv show ?thesis
      by (auto simp: poll_answer_def split: option.splits sum.splits
          intro: poller_inv_poll_success poller_inv_poll_failure)
  next
    case Commit
    with inv show ?thesis by (simp add: poller_inv_commit)
  qed (use inv in \<open>auto simp: poller_inv_def load_account_def unmount_def poll_tick_def begin_busy_def
      device_answer_def browser_answer_def quota_answer_def disconnect_click_def
      disconnect_answer_def setFlow_def split: option.splits sum.splits
      intro: pinv_None pinv_new pinv_stop\<close>)
qed

lemma poller_inv_init [simp]: "poller_inv account_init"
  by (simp add: poller_inv_def pinv_def account_init_def)

lemmas reachable_poller_inv = pollers.run_inv [OF poller_inv_init]

subsection \<open>Polling: when a flow stays open\<close>

text \<open>The answers that end a flow at once, and the failures that are retried.\<close>

definition ends_flow :: "cause + poll_result \<Rightarrow> bool" where
  "ends_flow a = (case a of Inl c \<Rightarrow> is_unauthorized c | Inr r \<Rightarrow> pr_status r = js ''complete'')"

definition transient :: "cause + poll_result \<Rightarrow> bool" where
  "transient a = (case a of Inl c \<Rightarrow> \<not> is_unauthorized c | Inr r \<Rightarrow> False)"

lemma flow_None_stays:
  "ap_flow s = None \<Longrightarrow> ap_flow (final account_step s (map (PollAnswered i) as)) = None"
proof (induction as arbitrary: s)
  case (Cons a as)
  have "ap_flow (fst (poll_answer i a s)) = None"
    using Cons.prems
    by (simp add: poll_answer_def poll_success_def poll_failure_def set_poller_def setFlow_def
        Let_def split: option.split sum.split)
  then show ?case using Cons.IH by simp
qed simp

lemma sublist3_False: "sublist [True, True, True] (False # bs) = sublist [True, True, True] bs"
  by (simp add: sublist_Cons_right)

lemma sublist3_reset:
  "k < 3 \<Longrightarrow>
     sublist [True, True, True] (replicate k True @ False # bs) = sublist [True, True, True] bs"
  by (cases k; cases "k - 1"; cases "k - 2") (auto simp: sublist_Cons_right)

lemma poll_answers_open:
  assumes "ap_pollers s i = Some p" "\<not> pl_stopped p" "ap_flow s = Some (i, f)" "pl_failures p < 3"
  shows "ap_flow (final account_step s (map (PollAnswered i) as)) \<noteq> None \<longleftrightarrow>
     (\<forall>a \<in> set as. \<not> ends_flow a) \<and>
     \<not> sublist [True, True, True] (replicate (pl_failures p) True @ map transient as)"
  using assms
proof (induction as arbitrary: s p)
  case Nil
  then have "\<not> sublist [True, True, True] (replicate (pl_failures p) True)"
    by (auto dest: sublist_length_le)
  with Nil show ?case by simp
next
  case (Cons a as)
  show ?case
  proof (cases "ends_flow a")
    case True
    then have "ap_flow (fst (poll_answer i a s)) = None"
      using Cons.prems
      by (auto simp: ends_flow_def poll_answer_def poll_success_def poll_failure_def set_poller_def
          setFlow_def Let_def split: sum.splits)
    with True flow_None_stays show ?thesis by simp
  next
    case alive: False
    show ?thesis
    proof (cases "transient a")
      case False
      with alive obtain r where a: "a = Inr r" "pr_status r \<noteq> js ''complete''"
        by (auto simp: ends_flow_def transient_def split: sum.splits)
      let ?s = "fst (poll_answer i a s)"
      have "ap_pollers ?s i = Some (p\<lparr>pl_failures := 0\<rparr>)" "ap_flow ?s = Some (i, f)"
        using Cons.prems a by (simp_all add: poll_answer_def poll_success_def set_poller_def)
      from Cons.IH [OF this(1) _ this(2)] Cons.prems alive False show ?thesis
        by (simp add: sublist3_reset)
    next
      case True
      with alive obtain c where a: "a = Inl c" "\<not> is_unauthorized c"
        by (auto simp: transient_def split: sum.splits)
      let ?s = "fst (poll_answer i a s)" and ?n = "pl_failures p + 1"
      have shift: "replicate (pl_failures p) True @ True # bs = replicate ?n True @ bs" for bs
        by (simp add: replicate_app_Cons_same)
      show ?thesis
      proof (cases "?n < 3")
        case True
        then have "ap_pollers ?s i = Some (p\<lparr>pl_failures := ?n\<rparr>)" "ap_flow ?s = Some (i, f)"
          using Cons.prems a
          by (simp_all add: poll_answer_def poll_failure_def set_poller_def Let_def)
        from Cons.IH [OF this(1) _ this(2)] Cons.prems alive True \<open>transient a\<close> show ?thesis
          by (simp add: shift)
      next
        case False
        with Cons.prems have n: "?n = 3" by simp
        have "ap_flow ?s = None"
          using Cons.prems a n
          by (simp add: poll_answer_def poll_failure_def set_poller_def setFlow_def Let_def)
        moreover have "sublist [True, True, True] (replicate (pl_failures p) True @ True # bs)" for bs
          unfolding shift n by (simp add: numeral_3_eq_3 sublist_def) blast
        ultimately show ?thesis using \<open>transient a\<close> flow_None_stays by simp
      qed
    qed
  qed
qed

subsection \<open>Intervals\<close>

text \<open>The intervals that are running after a list of effects, newest first.\<close>

definition run_interval :: "nat list \<Rightarrow> account_effect \<Rightarrow> nat list" where
  "run_interval is e =
     (case e of StartInterval i d \<Rightarrow> i # is | ClearInterval i \<Rightarrow> removeAll i is | _ \<Rightarrow> is)"

definition live_intervals :: "account_effect list \<Rightarrow> nat list" where
  "live_intervals es = foldl run_interval [] es"

lemma live_step:
  assumes "poller_inv s" "foldl run_interval is os = (case ap_mounted s of None \<Rightarrow> [] | Some i \<Rightarrow> [i])"
  shows "foldl run_interval is (os @ snd (account_step s e)) =
     (case ap_mounted (fst (account_step s e)) of None \<Rightarrow> [] | Some i \<Rightarrow> [i])"
  using assms(2)
  by (cases e) (auto simp: account_handlers run_interval_def Let_def
      split: option.splits sum.splits)

lemma live_intervals_run:
  "live_intervals (outputs account_step account_init es) =
     (case ap_mounted (final account_step account_init es) of None \<Rightarrow> [] | Some i \<Rightarrow> [i])"
proof (induction es rule: rev_induct)
  case Nil
  show ?case by (simp add: live_intervals_def account_init_def)
next
  case (snoc e es)
  from live_step [OF reachable_poller_inv snoc [unfolded live_intervals_def], of e]
  show ?case by (simp add: live_intervals_def outputs_append)
qed

subsection \<open>What is rendered\<close>

text \<open>
  \<^verbatim>\<open>QuotaWindow\<close>: the share used, its tone, and the time of the reset in milliseconds. An
  absent or zero \<^verbatim>\<open>reset_at\<close> falls back to the seconds left.
\<close>

datatype quota_item = NoQuota jstr | QuotaBar jstr real jstr int

definition QuotaWindow :: "int \<Rightarrow> jstr \<Rightarrow> RateWindow option \<Rightarrow> quota_item" where
  "QuotaWindow now title w =
     (case w of None \<Rightarrow> NoQuota title
      | Some x \<Rightarrow>
          let used = max 0 (min 100 (rw_used_percent x));
              reset = (if int_true (rw_reset_at x) then the (rw_reset_at x) * 1000
                       else now + case_option 0 id (rw_reset_after_seconds x) * 1000)
          in QuotaBar title used
               (if used \<ge> 90 then js ''danger'' else if used \<ge> 70 then js ''warning'' else []) reset)"

text \<open>The quota panel: nothing before the first read, else one item per window.\<close>

definition quota_items :: "int \<Rightarrow> QuotaPayload option \<Rightarrow> quota_item list option" where
  "quota_items now quota =
     (case Option.bind quota qp_rate_limit of
        None \<Rightarrow> None
      | Some limit \<Rightarrow>
          Some ([QuotaWindow now label_primary_window (rl_primary_window limit),
                 QuotaWindow now label_secondary_window (rl_secondary_window limit)] @
                map (\<lambda>l. QuotaWindow now
                       (str_or (al_limit_name l) (str_or (al_metered_feature l) msg_extra_quota))
                       (Option.bind (al_rate_limit l) rl_primary_window))
                  (case_option [] id (Option.bind quota qp_additional_rate_limits))))"

record connected_view =
  cv_email :: jstr
  cv_plan :: jstr
  cv_account_id :: "jstr option"
  cv_client :: jstr
  cv_login_disabled :: bool
  cv_disconnect_disabled :: bool
  cv_refresh_disabled :: bool
  cv_fetched_at :: "int option"
  cv_quota :: "quota_item list option"
  cv_expires_at :: "int option"

datatype account_body =
    EmptyAccount (browser_disabled: bool) (device_disabled: bool) (identity: jstr)
  | ConnectedAccount connected_view

datatype account_view =
    PageLoading
  | AccountShown (error_notice: "jstr option") (body: account_body) (device_modal: "DeviceFlow option")
      (browser_modal: "BrowserOAuthFlow option") (import_modal: bool) (password_modal: bool)

definition connected_body :: "int \<Rightarrow> AccountInfo \<Rightarrow> jstr \<Rightarrow> connected_view" where
  "connected_body now a busy =
     \<lparr>cv_email = str_or (ai_email a) (js ''Codex account''),
      cv_plan = str_or (ai_plan_type a)
        (str_or (Option.bind (ai_quota a) qp_plan_type) msg_plan_unknown),
      cv_account_id = ai_account_id a,
      cv_client = ai_client_name a,
      cv_login_disabled = (busy = js ''browser-login''),
      cv_disconnect_disabled = (busy = js ''disconnect''),
      cv_refresh_disabled = (busy = js ''quota''),
      cv_fetched_at = (if int_true (ai_quota_fetched_at a) then ai_quota_fetched_at a else None),
      cv_quota = quota_items now (ai_quota a),
      cv_expires_at = (if int_true (ai_expires_at a) then ai_expires_at a else None)\<rparr>"

definition account_body_of :: "int \<Rightarrow> account_page \<Rightarrow> account_body" where
  "account_body_of now s =
     (case ap_account s of
        Some a \<Rightarrow>
          if ai_connected a then ConnectedAccount (connected_body now a (ap_busy s))
          else EmptyAccount (ap_busy s = js ''browser-login'') (ap_busy s = js ''device-login'')
                 (str_or (Some (ai_client_name a)) (js ''codex-tui''))
      | None \<Rightarrow> EmptyAccount (ap_busy s = js ''browser-login'') (ap_busy s = js ''device-login'')
                 (js ''codex-tui''))"

definition account_render :: "int \<Rightarrow> account_page \<Rightarrow> account_view" where
  "account_render now s =
     (if ap_loading s then PageLoading
      else AccountShown
             (if ap_error s = [] then None else Some (ap_error s))
             (account_body_of now s)
             (map_option snd (ap_flow s)) (ap_browserFlow s)
             (ap_importOpen s) (ap_passwordOpen s))"

subsection \<open>Properties\<close>


definition sample_flow :: DeviceFlow where
  "sample_flow = \<lparr>df_flow_id = js ''abc'', df_user_code = js ''X'', df_verification_url = js ''u'',
     df_expires_at = 900000, df_poll_interval = 5\<rparr>"

definition sample_run :: "account_event list" where
  "sample_run = [DeviceAnswered (Inr sample_flow), Commit, DeviceModalClosed]"


text \<open>Polling a mounted device flow keeps the flow open exactly as long as no answer
  completes it, none is a 401, and no three consecutive answers fail otherwise: any success
  in between starts the count of failures anew.\<close>

lemma poll_keeps_flow_iff:
  assumes "ap_pollers s i = Some p" "\<not> pl_stopped p" "ap_flow s = Some (i, f)" "pl_failures p = 0"
  shows "ap_flow (final account_step s (map (PollAnswered i) as)) \<noteq> None \<longleftrightarrow>
     (\<forall>a \<in> set as. \<not> ends_flow a) \<and> \<not> sublist [True, True, True] (map transient as)"
  using poll_answers_open [OF assms(1-3)] assms(4) by simp

definition mounted_page :: account_page where
  "mounted_page = final account_step account_init [DeviceAnswered (Inr sample_flow), Commit]"

lemma poll_keeps_flow_iff_witness:
  "ap_flow (final account_step mounted_page
     (map (PollAnswered 0) [Inl NotAnError, Inl NotAnError,
        Inr \<lparr>pr_status = js ''pending'', pr_account = None\<rparr>, Inl NotAnError])) \<noteq> None"
proof -
  have h: "ap_pollers mounted_page 0 =
      Some \<lparr>pl_flow = sample_flow, pl_stopped = False, pl_failures = 0\<rparr>"
    "ap_flow mounted_page = Some (0, sample_flow)"
    by (simp_all add: mounted_page_def account_init_def account_handlers Let_def)
  show ?thesis
    by (subst poll_keeps_flow_iff [OF h(1) _ h(2)])
      (simp_all add: ends_flow_def transient_def js_def sublist_Cons_right)
qed

text \<open>C8. At most one poll interval is running at any time, namely that of the mounted flow:
  every interval that a run of the page starts is cleared when the flow changes, and none
  survives the page being left.\<close>

theorem single_poll_interval:
  "live_intervals (outputs account_step account_init es) =
     (case ap_mounted (final account_step account_init es) of None \<Rightarrow> [] | Some i \<Rightarrow> [i]) \<and>
   live_intervals (outputs account_step account_init (es @ [Unmounted])) = []"
  using live_intervals_run [of "es @ [Unmounted]"] live_intervals_run [of es]
  by (simp add: unmount_def)

text \<open>A poll request is sent only by the poller that is mounted, for its own flow, before
  that flow expires, and intervals are at least three seconds apart; the segment put into the
  request path cannot end the segment or start a query or fragment.\<close>

lemma poll_requests_current_flow:
  assumes "s = final account_step account_init es"
    and "FetchPoll fid \<in> set (snd (account_step s (PollTick i now)))"
  shows "ap_mounted s = Some i \<and>
     (\<exists>p. ap_pollers s i = Some p \<and> fid = df_flow_id (pl_flow p) \<and> now < df_expires_at (pl_flow p) \<and>
        3000 \<le> poll_delay (pl_flow p)) \<and>
     (\<forall>path. poll_path fid = Some path \<longrightarrow>
        (\<exists>e. path = js ''/api/admin/account/device/'' @ e \<and> set e \<inter> {47, 63, 35} = {}))"
proof -
  have inv: "poller_inv s" unfolding assms(1) by (rule reachable_poller_inv)
  from assms(2) obtain p where p: "ap_pollers s i = Some p" "\<not> pl_stopped p"
    "fid = df_flow_id (pl_flow p)" "now < df_expires_at (pl_flow p)"
    by (auto simp: poll_tick_def split: option.splits if_splits)
  moreover from inv p(1,2) have "ap_mounted s = Some i"
    using pinvD(1) by (simp add: poller_inv_def)
  moreover have "set e \<inter> {47, 63, 35} = {}" if "encodeURIComponent fid = Some e" for e
    using that by (rule encodeURIComponent_segment)
  then have "\<forall>path. poll_path fid = Some path \<longrightarrow>
      (\<exists>e. path = js ''/api/admin/account/device/'' @ e \<and> set e \<inter> {47, 63, 35} = {})"
    by (auto simp: poll_path_def path_with_def)
  ultimately show ?thesis by (auto simp: poll_delay_def)
qed

lemma poll_requests_current_flow_witness:
  "ap_mounted mounted_page = Some 0 \<and> FetchPoll (js ''abc'') \<in> set (snd (account_step mounted_page (PollTick 0 5)))"
proof -
  have f: "FetchPoll (js ''abc'') \<in> set (snd (account_step mounted_page (PollTick 0 5)))"
    by (simp add: mounted_page_def account_init_def account_handlers sample_flow_def Let_def)
  from poll_requests_current_flow [OF mounted_page_def f] f show ?thesis by blast
qed

text \<open>The bar of a quota window is between 0 and 100 percent wide whatever the server
  reports, marked as dangerous from 90 and as a warning from 70 percent on, and reports
  within range are shown unchanged.\<close>

lemma quota_bar_range:
  "\<exists>used tone reset. QuotaWindow now title (Some w) = QuotaBar title used tone reset \<and>
     0 \<le> used \<and> used \<le> 100 \<and> (0 \<le> rw_used_percent w \<and> rw_used_percent w \<le> 100 \<longrightarrow> used = rw_used_percent w) \<and>
     (tone = js ''danger'' \<longleftrightarrow> 90 \<le> rw_used_percent w) \<and>
     (tone = js ''warning'' \<longleftrightarrow> 70 \<le> rw_used_percent w \<and> rw_used_percent w < 90)"
  by (auto simp: QuotaWindow_def Let_def js_def min_def max_def)

lemma quota_bar_range_witness:
  "\<exists>used tone reset. QuotaWindow 0 [] (Some \<lparr>rw_used_percent = 150, rw_limit_window_seconds = None,
     rw_reset_after_seconds = None, rw_reset_at = None\<rparr>) = QuotaBar [] used tone reset \<and> used \<le> 100"
  using quota_bar_range [of 0 "[]" "\<lparr>rw_used_percent = 150, rw_limit_window_seconds = None,
     rw_reset_after_seconds = None, rw_reset_at = None\<rparr>"] by blast

end
