(* ===== verification/Overview.thy ===== *)
theory Overview
  imports ApiClient UriEncoding
begin

text \<open>
  \<^verbatim>\<open>web/src/pages/Overview.tsx\<close>: the statistics of one day, its requests, the application
  log and the selected request. \<open>ov_pending\<close> lists the loads that are in flight, oldest
  first, by the date each one asked for; the page itself keeps no such list, which is why
  an answer to an older load can overwrite a newer one (\<open>late_answer_replaces_day\<close>).
\<close>

subsection \<open>State and events\<close>

record overview_page =
  ov_date :: jstr
  ov_data :: "OverviewData option"
  ov_logs :: "LogEntry list"
  ov_selected :: "RequestEntry option"
  ov_loading :: bool
  ov_error :: jstr
  ov_pending :: "jstr list"

datatype overview_event =
    DateChanged jstr
  | RefreshClicked
  | OverviewAnswered jstr "cause + OverviewData \<times> LogEntry list"
  | RowClicked RequestEntry

datatype overview_effect = FetchOverview "jstr option" | FetchLogs

definition overview_path :: "jstr \<Rightarrow> jstr option" where
  "overview_path d = path_with (js ''/api/admin/overview?date='') d []"

text \<open>\<^verbatim>\<open>load\<close> up to its await: two requests at once.\<close>

definition begin_load :: "overview_page \<Rightarrow> overview_page \<times> overview_effect list" where
  "begin_load s =
     (s\<lparr>ov_loading := True, ov_error := [], ov_pending := ov_pending s @ [ov_date s]\<rparr>,
      [FetchOverview (overview_path (ov_date s)), FetchLogs])"

definition overview_mount :: "jstr \<Rightarrow> overview_page" where
  "overview_mount today =
     fst (begin_load \<lparr>ov_date = today, ov_data = None, ov_logs = [], ov_selected = None,
       ov_loading = True, ov_error = [], ov_pending = []\<rparr>)"

text \<open>\<^verbatim>\<open>Promise.all\<close>: both values, or the rejection that came first.\<close>

definition promise_all :: "bool \<Rightarrow> cause + 'a \<Rightarrow> cause + 'b \<Rightarrow> cause + 'a \<times> 'b" where
  "promise_all first_settled_first a b =
     (case (a, b) of
        (Inr x, Inr y) \<Rightarrow> Inr (x, y)
      | (Inl c, Inr y) \<Rightarrow> Inl c
      | (Inr x, Inl c) \<Rightarrow> Inl c
      | (Inl c, Inl d) \<Rightarrow> Inl (if first_settled_first then c else d))"

definition reselect :: "OverviewData \<Rightarrow> RequestEntry option \<Rightarrow> RequestEntry option" where
  "reselect overview current =
     (case current of None \<Rightarrow> None
      | Some c \<Rightarrow> List.find (\<lambda>item. re_id item = re_id c) (od_requests overview))"

text \<open>\<^verbatim>\<open>load\<close> after its await.\<close>

definition finish_load ::
  "jstr \<Rightarrow> cause + OverviewData \<times> LogEntry list \<Rightarrow> overview_page \<Rightarrow> overview_page" where
  "finish_load d answer s =
     (case answer of
        Inr (overview, logs) \<Rightarrow>
          s\<lparr>ov_data := Some overview, ov_logs := logs, ov_selected := reselect overview (ov_selected s)\<rparr>
      | Inl c \<Rightarrow> s\<lparr>ov_error := cause_message msg_load_failed c\<rparr>)
     \<lparr>ov_loading := False, ov_pending := remove1 d (ov_pending s)\<rparr>"

text \<open>
  A changed date makes a new \<^verbatim>\<open>load\<close>, which the effect on \<^verbatim>\<open>[load]\<close> runs. The refresh
  button is disabled while loading, and only rows on display can be clicked.
\<close>

fun overview_step :: "overview_page \<Rightarrow> overview_event \<Rightarrow> overview_page \<times> overview_effect list" where
  "overview_step s (DateChanged d) =
     (if d = ov_date s then (s, []) else begin_load (s\<lparr>ov_date := d\<rparr>))"
| "overview_step s RefreshClicked = (if ov_loading s then (s, []) else begin_load s)"
| "overview_step s (OverviewAnswered d a) = (finish_load d a s, [])"
| "overview_step s (RowClicked e) =
     (if (case ov_data s of None \<Rightarrow> False | Some d \<Rightarrow> e \<in> set (od_requests d))
      then (s\<lparr>ov_selected := Some e\<rparr>, []) else (s, []))"

subsection \<open>What is rendered\<close>

text \<open>
  The locale's number format, \<^verbatim>\<open>toFixed(1)\<close>, the time format and \<^verbatim>\<open>JSON.stringify\<close> are
  arguments.
\<close>

definition total_tokens :: "OverviewData option \<Rightarrow> int" where
  "total_tokens data =
     (case data of None \<Rightarrow> 0 | Some d \<Rightarrow> ts_input_tokens (od_stats d) + ts_output_tokens (od_stats d))"

definition requestSummary :: "(int \<Rightarrow> jstr) \<Rightarrow> OverviewData option \<Rightarrow> jstr" where
  "requestSummary formatNumber data =
     (case data of
        None \<Rightarrow> js ''0'' @ text_records
      | Some d \<Rightarrow>
          if ts_requests (od_stats d) > int (length (od_requests d))
          then text_total @ formatNumber (ts_requests (od_stats d)) @ text_only_latest @
               formatNumber (int (length (od_requests d))) @ text_entries
          else formatNumber (int (length (od_requests d))) @ text_records)"

definition log_line :: "(int \<Rightarrow> jstr) \<Rightarrow> ((jstr \<times> jsval) list \<Rightarrow> jstr) \<Rightarrow> LogEntry \<Rightarrow> jstr" where
  "log_line formatTime stringify entry =
     formatTime (le_timestamp entry) @ [32, 32] @ pad_end 5 32 (le_level entry) @ [32, 32] @
     le_message entry @
     (case le_fields entry of None \<Rightarrow> []
      | Some kvs \<Rightarrow> if kvs = [] then [] else [32] @ stringify kvs)"

fun join_lines :: "jstr list \<Rightarrow> jstr" where
  "join_lines [] = []"
| "join_lines [l] = l"
| "join_lines (l # m # ls) = l @ [10] @ join_lines (m # ls)"

definition log_text :: "(int \<Rightarrow> jstr) \<Rightarrow> ((jstr \<times> jsval) list \<Rightarrow> jstr) \<Rightarrow> LogEntry list \<Rightarrow> jstr" where
  "log_text formatTime stringify logs =
     (if logs = [] then text_no_logs else join_lines (map (log_line formatTime stringify) logs))"

definition status_tone :: "int \<Rightarrow> jstr" where
  "status_tone st =
     (if st \<ge> 200 \<and> st < 300 then js ''ok'' else if st = 499 then js ''muted'' else js ''bad'')"

definition formatLatency :: "int option \<Rightarrow> jstr" where
  "formatLatency value =
     (case value of Some v \<Rightarrow> if v > 0 then dec (nat v) @ js '' ms'' else text_dash
      | None \<Rightarrow> text_dash)"

definition reasoningLabel :: "RequestEntry \<Rightarrow> jstr" where
  "reasoningLabel entry =
     (let requested = str_or (re_reasoning_effort entry) text_default;
          upstream = str_or (re_upstream_reasoning_effort entry) []
      in if upstream \<noteq> [] \<and> upstream \<noteq> requested then requested @ text_arrow @ upstream
         else if upstream \<noteq> [] then upstream else requested)"

record metrics =
  mt_requests :: jstr
  mt_connected :: bool
  mt_success_rate :: jstr
  mt_successes :: jstr
  mt_average_ms :: int
  mt_tokens :: jstr

definition overview_metrics :: "(int \<Rightarrow> jstr) \<Rightarrow> (real \<Rightarrow> jstr) \<Rightarrow> overview_page \<Rightarrow> metrics" where
  "overview_metrics formatNumber toFixed1 s =
     (let stats = map_option od_stats (ov_data s)
      in \<lparr>mt_requests = formatNumber (case_option 0 ts_requests stats),
          mt_connected = (case ov_data s of None \<Rightarrow> False | Some d \<Rightarrow> od_account_connected d),
          mt_success_rate = toFixed1 (case_option 0 ts_success_rate stats) @ js ''%'',
          mt_successes = formatNumber (case_option 0 ts_successes stats),
          mt_average_ms = \<lfloor>case_option 0 ts_average_ms stats + 1 / 2\<rfloor>,
          mt_tokens = formatNumber (total_tokens (ov_data s))\<rparr>)"

record row =
  ro_selected :: bool
  ro_time :: jstr
  ro_status :: "int \<times> jstr"
  ro_model :: jstr
  ro_key :: jstr
  ro_duration :: jstr
  ro_reasoning :: jstr
  ro_tokens :: jstr
  ro_request_id :: jstr

definition overview_row ::
  "(int \<Rightarrow> jstr) \<Rightarrow> (int \<Rightarrow> jstr) \<Rightarrow> RequestEntry option \<Rightarrow> RequestEntry \<Rightarrow> row" where
  "overview_row formatNumber formatTime selected entry =
     \<lparr>ro_selected = (case selected of None \<Rightarrow> False | Some x \<Rightarrow> re_id x = re_id entry),
      ro_time = formatTime (re_created_at entry),
      ro_status = (re_status entry, status_tone (re_status entry)),
      ro_model = str_or (re_model entry) text_dash,
      ro_key = str_or (re_api_key_name entry) text_dash,
      ro_duration = dec_int (re_duration_ms entry) @ js '' ms'',
      ro_reasoning = reasoningLabel entry @
        (if re_reasoning_tokens entry > 0 then [32, 0xB7, 32] @ formatNumber (re_reasoning_tokens entry)
         else []),
      ro_tokens = formatNumber (re_input_tokens entry + re_output_tokens entry),
      ro_request_id = re_request_id entry\<rparr>"

definition overview_rows :: "(int \<Rightarrow> jstr) \<Rightarrow> (int \<Rightarrow> jstr) \<Rightarrow> overview_page \<Rightarrow> row list" where
  "overview_rows formatNumber formatTime s =
     (case ov_data s of None \<Rightarrow> []
      | Some d \<Rightarrow> map (overview_row formatNumber formatTime (ov_selected s)) (od_requests d))"

text \<open>The panel below the table, for the selected request.\<close>

record request_detail =
  rd_route :: jstr
  rd_tokens :: jstr
  rd_effort :: jstr
  rd_latency :: jstr
  rd_request_id :: jstr
  rd_error :: "jstr option"

definition request_detail_of :: "(int \<Rightarrow> jstr) \<Rightarrow> RequestEntry \<Rightarrow> request_detail" where
  "request_detail_of formatNumber selected =
     \<lparr>rd_route = re_method selected @ [32] @ re_path selected,
      rd_tokens = formatNumber (re_input_tokens selected) @ js '' / '' @
        formatNumber (re_output_tokens selected) @ js '' / '' @ formatNumber (re_reasoning_tokens selected),
      rd_effort = str_or (re_reasoning_effort selected) text_default @ js '' / '' @
        str_or (re_upstream_reasoning_effort selected) text_not_echoed,
      rd_latency = formatLatency (re_first_reasoning_ms selected) @ js '' / '' @
        formatLatency (re_first_output_ms selected),
      rd_request_id = re_request_id selected,
      rd_error = (if str_true (re_error selected) then re_error selected else None)\<rparr>"

definition overview_detail :: "(int \<Rightarrow> jstr) \<Rightarrow> overview_page \<Rightarrow> request_detail option" where
  "overview_detail formatNumber s = map_option (request_detail_of formatNumber) (ov_selected s)"

definition overview_empty :: "overview_page \<Rightarrow> bool" where
  "overview_empty s \<longleftrightarrow> \<not> ov_loading s \<and> (case ov_data s of None \<Rightarrow> True | Some d \<Rightarrow> od_requests d = [])"

subsection \<open>Lemmas\<close>

text \<open>The selected request is one of the requests on display.\<close>

definition selection_inv :: "overview_page \<Rightarrow> bool" where
  "selection_inv s \<longleftrightarrow>
     (\<forall>e. ov_selected s = Some e \<longrightarrow> (\<exists>d. ov_data s = Some d \<and> e \<in> set (od_requests d)))"

lemma reselect_in: "reselect d c = Some e \<Longrightarrow> e \<in> set (od_requests d)"
  by (auto simp: reselect_def dest: find_Some_in split: option.splits)

interpretation selection: event_machine overview_step selection_inv
proof unfold_locales
  fix s e
  show "selection_inv s \<Longrightarrow> selection_inv (fst (overview_step s e))"
    by (cases e) (auto simp: selection_inv_def begin_load_def finish_load_def dest: reselect_in
        split: sum.splits option.splits)
qed

text \<open>The last load asked for the date on display.\<close>

definition latest_inv :: "overview_page \<Rightarrow> bool" where
  "latest_inv s \<longleftrightarrow> (ov_pending s \<noteq> [] \<longrightarrow> last (ov_pending s) = ov_date s)"

text \<open>Answers in the order of the requests: each one is for the oldest load in flight.\<close>

definition in_order :: "overview_page \<Rightarrow> overview_event \<Rightarrow> bool" where
  "in_order s e =
     (case e of OverviewAnswered d a \<Rightarrow> ov_pending s \<noteq> [] \<and> hd (ov_pending s) = d | _ \<Rightarrow> True)"

fun in_order_run :: "overview_page \<Rightarrow> overview_event list \<Rightarrow> bool" where
  "in_order_run s [] = True"
| "in_order_run s (e # es) = (in_order s e \<and> in_order_run (fst (overview_step s e)) es)"

lemma in_order_run_append:
  "in_order_run s (xs @ ys) \<longleftrightarrow> in_order_run s xs \<and> in_order_run (final overview_step s xs) ys"
  by (induction xs arbitrary: s) simp_all

lemma latest_step:
  assumes "latest_inv s" "in_order s e"
  shows "latest_inv (fst (overview_step s e))"
proof (cases e)
  case (OverviewAnswered d a)
  with assms(2) obtain ds where "ov_pending s = d # ds"
    by (cases "ov_pending s") (auto simp: in_order_def)
  with OverviewAnswered assms(1) show ?thesis
    by (auto simp: latest_inv_def finish_load_def split: sum.split if_splits)
qed (use assms in \<open>auto simp: latest_inv_def begin_load_def split: option.splits\<close>)

lemma latest_run: "latest_inv s \<Longrightarrow> in_order_run s es \<Longrightarrow> latest_inv (final overview_step s es)"
  by (induction es arbitrary: s) (simp_all add: latest_step)

lemma latest_mount [simp]: "latest_inv (overview_mount d)"
  by (simp add: latest_inv_def overview_mount_def begin_load_def)

lemma selection_mount [simp]: "selection_inv (overview_mount d)"
  by (simp add: selection_inv_def overview_mount_def begin_load_def)

subsection \<open>Properties\<close>

text \<open>
  Whatever the user clicks and however loads are answered, the request shown in the
  detail panel is one of the requests in the table.\<close>

lemma selected_request_listed:
  "case ov_selected (final overview_step (overview_mount today) es) of
     None \<Rightarrow> True
   | Some e \<Rightarrow> \<exists>d. ov_data (final overview_step (overview_mount today) es) = Some d \<and> e \<in> set (od_requests d)"
  using selection.run_inv [OF selection_mount, of today es]
  by (simp add: selection_inv_def split: option.split)

text \<open>
  When the answers arrive in the order of the requests, the answer that leaves no load
  in flight is for the date on display, and it is what the page shows.\<close>

lemma in_order_answers_show_day:
  assumes "in_order_run (overview_mount today) (es @ [OverviewAnswered d (Inr (overview, logs))])"
    and "s = final overview_step (overview_mount today) (es @ [OverviewAnswered d (Inr (overview, logs))])"
    and "ov_pending s = []"
  shows "d = ov_date s \<and> ov_data s = Some overview \<and> ov_logs s = logs \<and> \<not> ov_loading s"
proof -
  let ?r = "final overview_step (overview_mount today) es"
  have inv: "latest_inv ?r" and ord: "in_order ?r (OverviewAnswered d (Inr (overview, logs)))"
    using assms(1) by (auto simp: in_order_run_append intro: latest_run)
  from ord obtain ds where ds: "ov_pending ?r = d # ds"
    by (cases "ov_pending ?r") (auto simp: in_order_def)
  with assms(2,3) have "ds = []" by (simp add: finish_load_def)
  with inv ds have "d = ov_date ?r" by (simp add: latest_inv_def)
  with assms(2) show ?thesis by (simp add: finish_load_def)
qed

definition sample_day :: "jstr \<Rightarrow> OverviewData" where
  "sample_day d = \<lparr>od_date = d, od_stats = \<lparr>ts_requests = 0, ts_successes = 0, ts_success_rate = 0,
     ts_average_ms = 0, ts_input_tokens = 0, ts_output_tokens = 0, ts_reasoning_tokens = 0\<rparr>,
     od_requests = [], od_base_url = [], od_account_connected = True\<rparr>"

lemma in_order_answers_show_day_witness:
  "ov_data (final overview_step (overview_mount [49])
     [DateChanged [50], OverviewAnswered [49] (Inr (sample_day [49], [])),
      OverviewAnswered [50] (Inr (sample_day [50], []))]) = Some (sample_day [50])"
proof -
  let ?es = "[DateChanged [50], OverviewAnswered [49] (Inr (sample_day [49], []))]"
  let ?e = "OverviewAnswered [50] (Inr (sample_day [50], []))"
  have o: "in_order_run (overview_mount [49]) (?es @ [?e])"
    by (simp add: overview_mount_def begin_load_def finish_load_def in_order_def)
  have n: "ov_pending (final overview_step (overview_mount [49]) (?es @ [?e])) = []"
    by (simp add: overview_mount_def begin_load_def finish_load_def)
  from in_order_answers_show_day [OF o refl n] show ?thesis by simp
qed

text \<open>
  Without that order the property fails: an answer to an older load that arrives last is
  what the page shows for the newer date, with no load in flight and no error.
\<close>

lemma late_answer_replaces_day:
  "\<exists>es. let s = final overview_step (overview_mount [49]) es in
     ov_date s = [50] \<and> ov_pending s = [] \<and> \<not> ov_loading s \<and> ov_error s = [] \<and>
     map_option od_date (ov_data s) = Some [49]"
  by (rule exI [of _ "[DateChanged [50], OverviewAnswered [50] (Inr (sample_day [50], [])),
      OverviewAnswered [49] (Inr (sample_day [49], []))]"])
    (simp add: overview_mount_def begin_load_def finish_load_def sample_day_def Let_def)

text \<open>The reasoning column never hides a change of effort: it shows the requested effort, or
  the default word where none was requested, followed by the effort the upstream echoed exactly when the upstream echoed a
  different one.\<close>

lemma reasoning_label_shows_change:
  "reasoningLabel entry =
     str_or (re_reasoning_effort entry) text_default @
     (if str_true (re_upstream_reasoning_effort entry) \<and>
         re_upstream_reasoning_effort entry \<noteq> Some (str_or (re_reasoning_effort entry) text_default)
      then text_arrow @ the (re_upstream_reasoning_effort entry) else [])"
  by (auto simp: reasoningLabel_def str_or_def str_true_def Let_def split: option.split)

end
