(* ===== verification/Forms.thy ===== *)
theory Forms
  imports ApiClient UriEncoding
begin

text \<open>
  The forms of the console: the sign-in page (\<^verbatim>\<open>Login.tsx\<close>), the dialogs of the account page
  (\<^verbatim>\<open>BrowserOAuthModal\<close>, \<^verbatim>\<open>ImportModal\<close>, \<^verbatim>\<open>PasswordModal\<close>) and \<^verbatim>\<open>CreateKeyModal\<close>. They all
  submit one request, wait, and then either report success to their parent or show the
  error. The locale \<open>async_form\<close> states that contract, and every form is an instance.
\<close>

subsection \<open>The contract\<close>

locale async_form =
  fixes submit :: "'f \<Rightarrow> 'f \<times> 'o list"
    and answer :: "cause + 'r \<Rightarrow> 'f \<Rightarrow> 'f \<times> 'o list"
    and waiting :: "'f \<Rightarrow> bool"
    and failure :: "'f \<Rightarrow> jstr"
    and enabled :: "'f \<Rightarrow> bool"
    and request :: "'f \<Rightarrow> 'o"
    and success :: "'r \<Rightarrow> 'o"
    and fallback :: jstr
  assumes submit_waiting: "waiting (fst (submit f))"
    and submit_clears: "failure (fst (submit f)) = []"
    and submit_request: "snd (submit f) = [request f]"
    and submit_keeps: "request (fst (submit f)) = request f"
    and answer_idle: "\<not> waiting (fst (answer a f))"
    and answer_failure: "failure (fst (answer (Inl c) f)) = cause_message fallback c"
    and answer_success: "failure (fst (answer (Inr r) f)) = failure f"
    and answer_output: "snd (answer a f) = (case a of Inl c \<Rightarrow> [] | Inr r \<Rightarrow> [success r])"
    and answer_keeps: "request (fst (answer a f)) = request f"
    and enabled_idle: "enabled f \<Longrightarrow> \<not> waiting f"
begin

text \<open>One attempt: submit and wait for the answer.\<close>

definition attempt :: "'f \<Rightarrow> cause + 'r \<Rightarrow> 'f \<times> 'o list" where
  "attempt f a =
     (let (f1, o1) = submit f; (f2, o2) = answer a f1 in (f2, o1 @ o2))"

lemma attempt_outcome:
  "failure (fst (attempt f a)) = (case a of Inl c \<Rightarrow> cause_message fallback c | Inr r \<Rightarrow> [])"
  "\<not> waiting (fst (attempt f a))"
  "snd (attempt f a) = request f # (case a of Inl c \<Rightarrow> [] | Inr r \<Rightarrow> [success r])"
  "request (fst (attempt f a)) = request f"
  by (cases a; simp add: attempt_def split_beta Let_def submit_request answer_output answer_idle
      answer_failure answer_success submit_clears answer_keeps submit_keeps)+

text \<open>No second request while one is under way, and none while the form is waiting.\<close>

lemma no_double_submit: "\<not> enabled (fst (submit f))"
  using submit_waiting enabled_idle by blast

text \<open>After any number of attempts, the error shown is that of the last one.\<close>

lemma attempts_failure:
  "failure (final attempt f (as @ [a])) = (case a of Inl c \<Rightarrow> cause_message fallback c | Inr r \<Rightarrow> [])"
  by (simp add: attempt_outcome)

lemma attempts_request: "request (final attempt f as) = request f"
  by (induction as arbitrary: f) (simp_all add: attempt_outcome)

text \<open>Every attempt sends one request, and only answers without an error report success.\<close>

lemma attempts_outputs:
  "outputs attempt f as =
     concat (map (\<lambda>a. request f # (case a of Inl c \<Rightarrow> [] | Inr r \<Rightarrow> [success r])) as)"
  by (induction as arbitrary: f) (simp_all add: attempt_outcome)

end

text \<open>
  \<^verbatim>\<open>PostEncoded\<close> posts to a path with an encoded segment: where it is \<open>None\<close>,
  \<^verbatim>\<open>encodeURIComponent\<close> threw inside the \<^verbatim>\<open>try\<close> and the answer is that error.
\<close>

datatype 'r form_effect =
    Post jstr "(jstr \<times> jstr) list"
  | PostEncoded "jstr option" "(jstr \<times> jstr) list"
  | Put jstr "(jstr \<times> jstr) list"
  | Succeeded 'r

subsection \<open>The sign-in page\<close>

record login_form =
  lf_password :: jstr
  lf_error :: jstr
  lf_loading :: bool
  lf_showPassword :: bool

definition login_submit :: "login_form \<Rightarrow> login_form \<times> unit form_effect list" where
  "login_submit f =
     (f\<lparr>lf_loading := True, lf_error := []\<rparr>,
      [Post (js ''/api/auth/login'') [(js ''password'', lf_password f)]])"

definition login_answer :: "cause + unit \<Rightarrow> login_form \<Rightarrow> login_form \<times> unit form_effect list" where
  "login_answer a f =
     (case a of
        Inr u \<Rightarrow> (f\<lparr>lf_loading := False\<rparr>, [Succeeded ()])
      | Inl c \<Rightarrow> (f\<lparr>lf_error := cause_message msg_login_failed c, lf_loading := False\<rparr>, []))"

definition login_enabled :: "login_form \<Rightarrow> bool" where
  "login_enabled f \<longleftrightarrow> \<not> (lf_loading f \<or> lf_password f = [])"

definition toggle_password :: "login_form \<Rightarrow> login_form" where
  "toggle_password f = f\<lparr>lf_showPassword := \<not> lf_showPassword f\<rparr>"

record login_view =
  lv_input_type :: jstr
  lv_error :: "jstr option"
  lv_disabled :: bool
  lv_spinner :: bool

definition login_render :: "login_form \<Rightarrow> login_view" where
  "login_render f =
     \<lparr>lv_input_type = (if lf_showPassword f then js ''text'' else js ''password''),
      lv_error = (if lf_error f = [] then None else Some (lf_error f)),
      lv_disabled = (lf_loading f \<or> lf_password f = []),
      lv_spinner = lf_loading f\<rparr>"

interpretation login: async_form login_submit login_answer lf_loading lf_error login_enabled
  "\<lambda>f. Post (js ''/api/auth/login'') [(js ''password'', lf_password f)]" Succeeded msg_login_failed
  by unfold_locales (auto simp: login_submit_def login_answer_def login_enabled_def split: sum.splits)

subsection \<open>The callback dialog of the browser sign-in\<close>

record callback_form =
  cf_flow :: BrowserOAuthFlow
  cf_callbackURL :: jstr
  cf_error :: jstr
  cf_loading :: bool

definition callback_path :: "BrowserOAuthFlow \<Rightarrow> jstr option" where
  "callback_path flow =
     path_with (js ''/api/admin/account/oauth/'') (bf_flow_id flow) (js ''/callback'')"

definition callback_submit :: "callback_form \<Rightarrow> callback_form \<times> AccountInfo form_effect list" where
  "callback_submit f =
     (f\<lparr>cf_loading := True, cf_error := []\<rparr>,
      [PostEncoded (callback_path (cf_flow f)) [(js ''callback_url'', cf_callbackURL f)]])"

definition callback_answer ::
  "cause + AccountInfo \<Rightarrow> callback_form \<Rightarrow> callback_form \<times> AccountInfo form_effect list" where
  "callback_answer a f =
     (case a of
        Inr v \<Rightarrow> (f\<lparr>cf_loading := False\<rparr>, [Succeeded v])
      | Inl c \<Rightarrow> (f\<lparr>cf_error := cause_message msg_callback_failed c, cf_loading := False\<rparr>, []))"

definition callback_enabled :: "callback_form \<Rightarrow> bool" where
  "callback_enabled f \<longleftrightarrow> \<not> (js_trim (cf_callbackURL f) = [] \<or> cf_loading f)"

interpretation callback: async_form callback_submit callback_answer cf_loading cf_error callback_enabled
  "\<lambda>f. PostEncoded (callback_path (cf_flow f)) [(js ''callback_url'', cf_callbackURL f)]" Succeeded
  msg_callback_failed
  by unfold_locales (auto simp: callback_submit_def callback_answer_def callback_enabled_def
      split: sum.splits)

subsection \<open>The import dialog\<close>

record import_form =
  if_content :: jstr
  if_error :: jstr
  if_loading :: bool

definition import_submit :: "import_form \<Rightarrow> import_form \<times> AccountInfo form_effect list" where
  "import_submit f =
     (f\<lparr>if_loading := True, if_error := []\<rparr>,
      [Post (js ''/api/admin/account/import'') [(js ''content'', if_content f)]])"

definition import_answer ::
  "cause + AccountInfo \<Rightarrow> import_form \<Rightarrow> import_form \<times> AccountInfo form_effect list" where
  "import_answer a f =
     (case a of
        Inr v \<Rightarrow> (f\<lparr>if_loading := False\<rparr>, [Succeeded v])
      | Inl c \<Rightarrow> (f\<lparr>if_error := cause_message msg_import_failed c, if_loading := False\<rparr>, []))"

definition import_enabled :: "import_form \<Rightarrow> bool" where
  "import_enabled f \<longleftrightarrow> \<not> (js_trim (if_content f) = [] \<or> if_loading f)"

interpretation import_dialog: async_form import_submit import_answer if_loading if_error import_enabled
  "\<lambda>f. Post (js ''/api/admin/account/import'') [(js ''content'', if_content f)]" Succeeded
  msg_import_failed
  by unfold_locales (auto simp: import_submit_def import_answer_def import_enabled_def
      split: sum.splits)

subsection \<open>The password dialog\<close>

record password_form =
  pf_current :: jstr
  pf_next :: jstr
  pf_error :: jstr
  pf_loading :: bool

definition password_submit :: "password_form \<Rightarrow> password_form \<times> unit form_effect list" where
  "password_submit f =
     (f\<lparr>pf_loading := True, pf_error := []\<rparr>,
      [Put (js ''/api/admin/password'')
         [(js ''current_password'', pf_current f), (js ''new_password'', pf_next f)]])"

definition password_answer :: "cause + unit \<Rightarrow> password_form \<Rightarrow> password_form \<times> unit form_effect list" where
  "password_answer a f =
     (case a of
        Inr u \<Rightarrow> (f\<lparr>pf_loading := False\<rparr>, [Succeeded ()])
      | Inl c \<Rightarrow> (f\<lparr>pf_error := cause_message msg_change_failed c, pf_loading := False\<rparr>, []))"

definition password_enabled :: "password_form \<Rightarrow> bool" where
  "password_enabled f \<longleftrightarrow> \<not> (pf_current f = [] \<or> length (pf_next f) < 12 \<or> pf_loading f)"

interpretation password: async_form password_submit password_answer pf_loading pf_error password_enabled
  "\<lambda>f. Put (js ''/api/admin/password'')
     [(js ''current_password'', pf_current f), (js ''new_password'', pf_next f)]" Succeeded
  msg_change_failed
  by unfold_locales (auto simp: password_submit_def password_answer_def password_enabled_def
      split: sum.splits)

subsection \<open>The dialog that creates a key\<close>

record key_form =
  kf_name :: jstr
  kf_error :: jstr
  kf_loading :: bool

definition key_submit :: "key_form \<Rightarrow> key_form \<times> jstr form_effect list" where
  "key_submit f =
     (f\<lparr>kf_loading := True, kf_error := []\<rparr>,
      [Post (js ''/api/admin/keys'') [(js ''name'', kf_name f)]])"

definition key_answer :: "cause + jstr \<Rightarrow> key_form \<Rightarrow> key_form \<times> jstr form_effect list" where
  "key_answer a f =
     (case a of
        Inr secret \<Rightarrow> (f\<lparr>kf_loading := False\<rparr>, [Succeeded secret])
      | Inl c \<Rightarrow> (f\<lparr>kf_error := cause_message msg_create_failed c, kf_loading := False\<rparr>, []))"

definition key_enabled :: "key_form \<Rightarrow> bool" where
  "key_enabled f \<longleftrightarrow> \<not> (js_trim (kf_name f) = [] \<or> kf_loading f)"

interpretation key_dialog: async_form key_submit key_answer kf_loading kf_error key_enabled
  "\<lambda>f. Post (js ''/api/admin/keys'') [(js ''name'', kf_name f)]" Succeeded msg_create_failed
  by unfold_locales (auto simp: key_submit_def key_answer_def key_enabled_def split: sum.splits)

subsection \<open>Attempts on the forms\<close>

definition login_attempt :: "login_form \<Rightarrow> cause + unit \<Rightarrow> login_form \<times> unit form_effect list" where
  "login_attempt f a =
     (let (f1, o1) = login_submit f; (f2, o2) = login_answer a f1 in (f2, o1 @ o2))"

definition password_attempt ::
  "password_form \<Rightarrow> cause + unit \<Rightarrow> password_form \<times> unit form_effect list" where
  "password_attempt f a =
     (let (f1, o1) = password_submit f; (f2, o2) = password_answer a f1 in (f2, o1 @ o2))"

lemma login_attempt_eq: "login_attempt = login.attempt"
  by (intro ext) (simp add: login_attempt_def login.attempt_def)

lemma password_attempt_eq: "password_attempt = password.attempt"
  by (intro ext) (simp add: password_attempt_def password.attempt_def)

subsection \<open>Properties\<close>

text \<open>
  After any number of sign-in attempts the page can be submitted again, shows the error
  of the last attempt only (none if that one succeeded), has sent exactly one request per
  attempt, always with the password typed, and has reported success once for every attempt the server accepted.\<close>

lemma login_attempts:
  "\<not> lf_loading (final login_attempt f (as @ [a])) \<and>
   lf_error (final login_attempt f (as @ [a])) =
     (case a of Inl c \<Rightarrow> cause_message msg_login_failed c | Inr r \<Rightarrow> []) \<and>
   outputs login_attempt f as =
     concat (map (\<lambda>a. Post (js ''/api/auth/login'') [(js ''password'', lf_password f)] #
       (case a of Inl c \<Rightarrow> [] | Inr r \<Rightarrow> [Succeeded r])) as)"
  unfolding login_attempt_eq
  by (simp only: login.attempts_failure login.attempts_outputs)
    (simp add: login.attempt_outcome)

text \<open>While a form waits for its answer its submit button is disabled, on every form of
  the console, so one submission never sends two requests.\<close>

lemma forms_no_double_submit:
  "lv_disabled (login_render (fst (login_submit l))) \<and> \<not> login_enabled (fst (login_submit l)) \<and>
   \<not> callback_enabled (fst (callback_submit c)) \<and> \<not> import_enabled (fst (import_submit i)) \<and>
   \<not> password_enabled (fst (password_submit p)) \<and> \<not> key_enabled (fst (key_submit k))"
  using login.no_double_submit callback.no_double_submit import_dialog.no_double_submit
    password.no_double_submit key_dialog.no_double_submit
  by (simp add: login_render_def login_submit_def)

end
