(* ===== verification/Keys.thy ===== *)
theory Keys
  imports ApiClient UriEncoding
begin

text \<open>
  \<^verbatim>\<open>web/src/pages/Keys.tsx\<close>: the API keys, the dialog that creates one and the dialog that
  shows its secret once. The dialog's own form is in \<open>Forms\<close>.
\<close>

subsection \<open>State and events\<close>

record keys_page =
  kp_keys :: "APIKey list"
  kp_loading :: bool
  kp_createOpen :: bool
  kp_secret :: jstr
  kp_error :: jstr

definition keys_init :: keys_page where
  "keys_init = \<lparr>kp_keys = [], kp_loading = True, kp_createOpen = False, kp_secret = [], kp_error = []\<rparr>"

datatype keys_event =
    KeysLoaded "cause + APIKey list"
  | RevokeClicked APIKey bool
  | RevokeAnswered "cause + unit"
  | RevokeReloaded "cause + APIKey list"
  | CreateOpened
  | CreateClosed
  | KeyCreated jstr
  | SecretClosed
  | KeysErrorDismissed

datatype keys_effect = FetchKeys | FetchRevoke "jstr option" | KeysToast jstr

definition revoke_path :: "jstr \<Rightarrow> jstr option" where
  "revoke_path key_id = path_with (js ''/api/admin/keys/'') key_id []"

text \<open>\<^verbatim>\<open>load\<close> after its await; it never rejects.\<close>

definition load_keys :: "cause + APIKey list \<Rightarrow> keys_page \<Rightarrow> keys_page" where
  "load_keys answer s =
     (case answer of
        Inr ks \<Rightarrow> s\<lparr>kp_keys := ks\<rparr>
      | Inl c \<Rightarrow> s\<lparr>kp_error := cause_message msg_load_failed c\<rparr>)\<lparr>kp_loading := False\<rparr>"

text \<open>
  \<^verbatim>\<open>revoke\<close>: the confirmation, the request, the reload, and the message last. A path of
  \<open>None\<close> is an identifier that \<^verbatim>\<open>encodeURIComponent\<close> rejects: the answer is then that error.
\<close>

definition revoke_click :: "APIKey \<Rightarrow> bool \<Rightarrow> keys_effect list" where
  "revoke_click key confirmed = (if \<not> confirmed then [] else [FetchRevoke (revoke_path (ak_id key))])"

definition revoke_answer :: "cause + unit \<Rightarrow> keys_page \<Rightarrow> keys_page \<times> keys_effect list" where
  "revoke_answer answer s =
     (case answer of
        Inr u \<Rightarrow> (s, [FetchKeys])
      | Inl c \<Rightarrow> (s\<lparr>kp_error := cause_message msg_revoke_failed c\<rparr>, []))"

definition key_created :: "jstr \<Rightarrow> keys_page \<Rightarrow> keys_page \<times> keys_effect list" where
  "key_created value s = (s\<lparr>kp_createOpen := False, kp_secret := value\<rparr>, [FetchKeys])"

fun keys_step :: "keys_page \<Rightarrow> keys_event \<Rightarrow> keys_page \<times> keys_effect list" where
  "keys_step s (KeysLoaded a) = (load_keys a s, [])"
| "keys_step s (RevokeClicked k ok) = (s, revoke_click k ok)"
| "keys_step s (RevokeAnswered a) = revoke_answer a s"
| "keys_step s (RevokeReloaded a) = (load_keys a s, [KeysToast msg_key_revoked])"
| "keys_step s CreateOpened = (s\<lparr>kp_createOpen := True\<rparr>, [])"
| "keys_step s CreateClosed = (s\<lparr>kp_createOpen := False\<rparr>, [])"
| "keys_step s (KeyCreated v) = key_created v s"
| "keys_step s SecretClosed = (s\<lparr>kp_secret := []\<rparr>, [])"
| "keys_step s KeysErrorDismissed = (s\<lparr>kp_error := []\<rparr>, [])"

text \<open>\<^verbatim>\<open>SecretModal\<close>'s copy: whether the mark is shown, and the message.\<close>

definition copy_secret :: "bool \<Rightarrow> jstr \<Rightarrow> bool \<times> keys_effect list" where
  "copy_secret clipboard_ok value =
     (case copyText clipboard_ok value of
        Inr u \<Rightarrow> (True, [KeysToast msg_key_copied]) | Inl c \<Rightarrow> (False, []))"

subsection \<open>What is rendered\<close>

definition key_active :: "APIKey \<Rightarrow> bool" where
  "key_active key \<longleftrightarrow> \<not> int_true (ak_revoked_at key)"

record key_row =
  kr_name :: jstr
  kr_prefix :: jstr
  kr_last_used :: "int option"
  kr_active :: bool
  kr_revoke_button :: bool

definition render_key :: "APIKey \<Rightarrow> key_row" where
  "render_key key =
     \<lparr>kr_name = ak_name key,
      kr_prefix = ak_prefix key @ replicate 6 0x2022,
      kr_last_used = (if int_true (ak_last_used_at key) then ak_last_used_at key else None),
      kr_active = (if int_true (ak_revoked_at key) then False else True),
      kr_revoke_button = (\<not> int_true (ak_revoked_at key))\<rparr>"

record keys_view =
  kv_error :: "jstr option"
  kv_active_count :: nat
  kv_empty :: bool
  kv_rows :: "key_row list"
  kv_create_modal :: bool
  kv_secret_modal :: "jstr option"

definition keys_render :: "keys_page \<Rightarrow> keys_view" where
  "keys_render s =
     \<lparr>kv_error = (if kp_error s = [] then None else Some (kp_error s)),
      kv_active_count = length (filter key_active (kp_keys s)),
      kv_empty = (\<not> kp_loading s \<and> length (kp_keys s) = 0),
      kv_rows = map render_key (kp_keys s),
      kv_create_modal = kp_createOpen s,
      kv_secret_modal = (if kp_secret s = [] then None else Some (kp_secret s))\<rparr>"

subsection \<open>Lemmas\<close>

definition secret_shown :: "keys_page \<Rightarrow> bool" where
  "secret_shown s \<longleftrightarrow> kv_secret_modal (keys_render s) \<noteq> None"

definition shows_secret :: "keys_event \<Rightarrow> bool" where
  "shows_secret e \<longleftrightarrow> (\<exists>v. e = KeyCreated v \<and> v \<noteq> [])"

lemma secret_shown_iff: "secret_shown s \<longleftrightarrow> kp_secret s \<noteq> []"
  by (simp add: secret_shown_def keys_render_def)

interpretation secrets: gated_machine keys_step "\<lambda>s. True" secret_shown "\<lambda>s. shows_secret"
  "\<lambda>s e. e = SecretClosed"
proof unfold_locales
  fix s e
  show "secret_shown (fst (keys_step s e)) \<Longrightarrow> \<not> secret_shown s \<Longrightarrow> shows_secret e"
    by (cases e) (auto simp: secret_shown_iff shows_secret_def load_keys_def revoke_answer_def
        key_created_def split: sum.splits)
  show "e = SecretClosed \<Longrightarrow> secret_shown (fst (keys_step s e)) \<Longrightarrow> shows_secret e"
    by (simp add: secret_shown_iff)
qed simp

lemma active_count_rows: "length (filter key_active ks) = length (filter kr_active (map render_key ks))"
  by (induction ks) (simp_all add: key_active_def render_key_def)

subsection \<open>Properties\<close>

text \<open>C10. A secret is on display only after a key was created in this visit of the page and the
  secret dialog has not been closed since: loading, revoking or reopening the page never
  shows one.\<close>

theorem secret_shown_once:
  assumes "kv_secret_modal (keys_render (final keys_step keys_init es)) \<noteq> None"
  shows "\<exists>xs v ys. es = xs @ KeyCreated v # ys \<and> v \<noteq> [] \<and> SecretClosed \<notin> set ys"
proof -
  have "secret_shown (final keys_step keys_init es)"
    using assms by (simp add: secret_shown_def)
  moreover have "\<not> secret_shown keys_init"
    by (simp add: secret_shown_iff keys_init_def)
  ultimately obtain xs e ys where "es = xs @ e # ys" "shows_secret e" "\<forall>y \<in> set ys. y \<noteq> SecretClosed"
    using secrets.gate_trace [of keys_init es] by auto
  then show ?thesis by (auto simp: shows_secret_def)
qed

theorem secret_shown_once_witness:
  "\<exists>xs v ys. [CreateOpened, KeyCreated [65]] = xs @ KeyCreated v # ys \<and> v \<noteq> [] \<and> SecretClosed \<notin> set ys"
proof -
  have "kv_secret_modal (keys_render (final keys_step keys_init [CreateOpened, KeyCreated [65]])) \<noteq> None"
    by (simp add: keys_render_def keys_init_def key_created_def)
  then show ?thesis by (rule secret_shown_once)
qed

text \<open>The count in the badge is the number of rows shown as active, which are exactly the
  rows with a revoke button.\<close>

lemma active_badge_agrees:
  "kv_active_count (keys_render s) = length (filter kr_active (kv_rows (keys_render s))) \<and>
   map kr_active (kv_rows (keys_render s)) = map kr_revoke_button (kv_rows (keys_render s)) \<and>
   map kr_active (kv_rows (keys_render s)) = map key_active (kp_keys s)"
  by (simp add: keys_render_def active_count_rows) (simp add: render_key_def key_active_def)

end
