(* ===== verification/Modal.thy ===== *)
theory Modal
  imports Prelude JsRuntime
begin

text \<open>
  \<^verbatim>\<open>web/src/components/Modal.tsx\<close>: the dialog all pages use. Its effect keeps the focus
  inside, locks the page's scrolling, closes on Escape and gives the focus back at the end.
  Elements of the document are numbers. What the browser does by itself, moving the focus to
  the next tab stop in document order, is modelled as the platform defines it.
\<close>

type_synonym element = nat

subsection \<open>The document around an open dialog\<close>

text \<open>
  The elements before the dialog, the dialog itself (which can hold the focus but is no tab
  stop), the elements inside and those after it, in document order. \<open>pd_tabstop\<close> tells
  which elements match the selector of focusable elements, \<open>pd_autofocus\<close> is the element
  with \<^verbatim>\<open>autoFocus\<close>, if the content has one.
\<close>

record modal_doc =
  pd_before :: "element list"
  pd_dialog :: element
  pd_inside :: "element list"
  pd_after :: "element list"
  pd_tabstop :: "element \<Rightarrow> bool"
  pd_autofocus :: "element option"

definition document_order :: "modal_doc \<Rightarrow> element list" where
  "document_order d = pd_before d @ pd_dialog d # pd_inside d @ pd_after d"

definition focusable :: "modal_doc \<Rightarrow> element list" where
  "focusable d = filter (pd_tabstop d) (pd_inside d)"

definition modal_contains :: "modal_doc \<Rightarrow> element option \<Rightarrow> bool" where
  "modal_contains d active =
     (case active of None \<Rightarrow> False | Some a \<Rightarrow> a = pd_dialog d \<or> a \<in> set (pd_inside d))"

subsection \<open>Keys\<close>

datatype key_outcome = CallClose | PreventAndFocus element | BrowserDefault

definition handleKeyDown :: "modal_doc \<Rightarrow> jstr \<Rightarrow> bool \<Rightarrow> element option \<Rightarrow> key_outcome" where
  "handleKeyDown d key shift active =
     (if key = js ''Escape'' then CallClose
      else if key \<noteq> js ''Tab'' then BrowserDefault
      else
        (let fs = focusable d
         in if fs = [] then PreventAndFocus (pd_dialog d)
            else if shift \<and> active = Some (hd fs) then PreventAndFocus (last fs)
            else if \<not> shift \<and> active = Some (last fs) then PreventAndFocus (hd fs)
            else BrowserDefault))"

text \<open>
  The browser's own Tab: the nearest tab stop after (with Shift, before) the active element,
  or \<open>None\<close>, the browser's own controls.
\<close>

definition tab_default :: "modal_doc \<Rightarrow> bool \<Rightarrow> element \<Rightarrow> element option" where
  "tab_default d shift a =
     (case filter (\<lambda>e. e \<noteq> pd_dialog d \<and> pd_tabstop d e)
         (if shift then rev (takeWhile (\<lambda>e. e \<noteq> a) (document_order d))
          else tl (dropWhile (\<lambda>e. e \<noteq> a) (document_order d))) of
        [] \<Rightarrow> None
      | e # es \<Rightarrow> Some e)"

definition tab_pressed :: "modal_doc \<Rightarrow> bool \<Rightarrow> element \<Rightarrow> element option" where
  "tab_pressed d shift a =
     (case handleKeyDown d (js ''Tab'') shift (Some a) of
        CallClose \<Rightarrow> Some a
      | PreventAndFocus e \<Rightarrow> Some e
      | BrowserDefault \<Rightarrow> tab_default d shift a)"

subsection \<open>The effect\<close>

text \<open>
  Callbacks of \<^verbatim>\<open>requestAnimationFrame\<close> wait in a queue under their handles. \<open>pg_present\<close>
  holds the elements in the document: focusing one that has left it does nothing.
\<close>

datatype frame = FocusInto | RestoreFocus "element option"

record page_env =
  pg_active :: "element option"
  pg_present :: "element list"
  pg_overflow :: jstr
  pg_frames :: "(nat \<times> frame) list"
  pg_handle :: nat
  pg_listeners :: "nat list"

text \<open>What the closures of one run of the effect hold.\<close>

record modal_effect =
  fx_previous :: "element option"
  fx_frame :: nat
  fx_overflow :: jstr
  fx_listener :: nat

definition focus :: "element \<Rightarrow> page_env \<Rightarrow> page_env" where
  "focus e s = (if e \<in> set (pg_present s) then s\<lparr>pg_active := Some e\<rparr> else s)"

definition request_frame :: "frame \<Rightarrow> page_env \<Rightarrow> page_env" where
  "request_frame f s = s\<lparr>pg_frames := pg_frames s @ [(pg_handle s, f)], pg_handle := pg_handle s + 1\<rparr>"

definition run_effect :: "page_env \<Rightarrow> modal_effect \<times> page_env" where
  "run_effect s =
     (let s1 = request_frame FocusInto s
      in (\<lparr>fx_previous = pg_active s, fx_frame = pg_handle s, fx_overflow = pg_overflow s,
           fx_listener = pg_handle s\<rparr>,
          s1\<lparr>pg_overflow := js ''hidden'', pg_listeners := pg_listeners s @ [pg_handle s]\<rparr>))"

definition cleanup_effect :: "modal_effect \<Rightarrow> page_env \<Rightarrow> page_env" where
  "cleanup_effect fx s =
     request_frame (RestoreFocus (fx_previous fx))
       (s\<lparr>pg_frames := filter (\<lambda>(h, f). h \<noteq> fx_frame fx) (pg_frames s),
          pg_overflow := fx_overflow fx,
          pg_listeners := filter (\<lambda>h. h \<noteq> fx_listener fx) (pg_listeners s)\<rparr>)"

text \<open>The callbacks themselves; without a dialog in the document \<^verbatim>\<open>modalRef.current\<close> is null.\<close>

definition run_frame :: "modal_doc \<Rightarrow> frame \<Rightarrow> page_env \<Rightarrow> page_env" where
  "run_frame d f s =
     (case f of
        FocusInto \<Rightarrow>
          if pd_dialog d \<in> set (pg_present s) \<and> \<not> modal_contains d (pg_active s)
          then (case focusable d of [] \<Rightarrow> focus (pd_dialog d) s | e # es \<Rightarrow> focus e s)
          else s
      | RestoreFocus None \<Rightarrow> s
      | RestoreFocus (Some e) \<Rightarrow> focus e s)"

definition next_frame :: "modal_doc \<Rightarrow> page_env \<Rightarrow> page_env" where
  "next_frame d s = fold (\<lambda>(h, f). run_frame d f) (pg_frames s) (s\<lparr>pg_frames := []\<rparr>)"

subsection \<open>The life of a dialog\<close>

text \<open>
  React inserts the dialog and focuses an \<^verbatim>\<open>autoFocus\<close> element when it commits, before the
  effect runs; a render with another \<^verbatim>\<open>onClose\<close> cleans the effect up and runs it again; on
  unmounting, the dialog leaves the document (with it the focus, if it was inside) and the
  effect is cleaned up.
\<close>

record dialog =
  dg_env :: page_env
  dg_effect :: "modal_effect option"

datatype dialog_event = Mount | NewOnClose | KeyDown jstr bool | FocusMoved element | NextFrame | Unmount

definition start_effect :: "page_env \<Rightarrow> dialog" where
  "start_effect s = (let (fx, s1) = run_effect s in \<lparr>dg_env = s1, dg_effect = Some fx\<rparr>)"

definition insert_dialog :: "modal_doc \<Rightarrow> page_env \<Rightarrow> page_env" where
  "insert_dialog d s =
     (let s1 = s\<lparr>pg_present := pg_present s @ pd_dialog d # pd_inside d\<rparr>
      in case pd_autofocus d of None \<Rightarrow> s1 | Some e \<Rightarrow> focus e s1)"

definition remove_dialog :: "modal_doc \<Rightarrow> page_env \<Rightarrow> page_env" where
  "remove_dialog d s =
     s\<lparr>pg_present := filter (\<lambda>e. \<not> modal_contains d (Some e)) (pg_present s),
       pg_active := (if modal_contains d (pg_active s) then None else pg_active s)\<rparr>"

definition press :: "modal_doc \<Rightarrow> jstr \<Rightarrow> bool \<Rightarrow> page_env \<Rightarrow> page_env" where
  "press d key shift s =
     (case handleKeyDown d key shift (pg_active s) of
        CallClose \<Rightarrow> s
      | PreventAndFocus e \<Rightarrow> focus e s
      | BrowserDefault \<Rightarrow>
          if key = js ''Tab''
          then s\<lparr>pg_active := (case pg_active s of None \<Rightarrow> None | Some a \<Rightarrow> tab_default d shift a)\<rparr>
          else s)"

text \<open>The output \<open>True\<close> is a call of \<^verbatim>\<open>onClose\<close>.\<close>

fun dialog_step :: "modal_doc \<Rightarrow> dialog \<Rightarrow> dialog_event \<Rightarrow> dialog \<times> bool list" where
  "dialog_step d s Mount =
     (case dg_effect s of None \<Rightarrow> (start_effect (insert_dialog d (dg_env s)), [])
      | Some fx \<Rightarrow> (s, []))"
| "dialog_step d s NewOnClose =
     (case dg_effect s of None \<Rightarrow> (s, [])
      | Some fx \<Rightarrow> (start_effect (cleanup_effect fx (dg_env s)), []))"
| "dialog_step d s (KeyDown key shift) =
     (case dg_effect s of None \<Rightarrow> (s, [])
      | Some fx \<Rightarrow>
          (s\<lparr>dg_env := press d key shift (dg_env s)\<rparr>,
           if handleKeyDown d key shift (pg_active (dg_env s)) = CallClose then [True] else []))"
| "dialog_step d s (FocusMoved e) = (s\<lparr>dg_env := focus e (dg_env s)\<rparr>, [])"
| "dialog_step d s NextFrame = (s\<lparr>dg_env := next_frame d (dg_env s)\<rparr>, [])"
| "dialog_step d s Unmount =
     (case dg_effect s of None \<Rightarrow> (s, [])
      | Some fx \<Rightarrow> (\<lparr>dg_env = cleanup_effect fx (remove_dialog d (dg_env s)), dg_effect = None\<rparr>, []))"

subsection \<open>Lemmas on Tab\<close>

lemma takeWhile_until: "a \<notin> set xs \<Longrightarrow> takeWhile (\<lambda>e. e \<noteq> a) (xs @ a # ys) = xs"
  by (induction xs) auto

lemma dropWhile_until: "a \<notin> set xs \<Longrightarrow> dropWhile (\<lambda>e. e \<noteq> a) (xs @ a # ys) = a # ys"
  by (induction xs) auto

lemma first_match: "filter p xs \<noteq> [] \<Longrightarrow> \<exists>e es. filter p (xs @ ys) = e # es \<and> e \<in> set (filter p xs)"
  by (cases "filter p xs") auto

text \<open>The default Tab from inside, where the list of the dialog's tab stops goes on.\<close>

lemma tab_default_inside:
  assumes dist: "distinct (document_order d)"
    and inside: "pd_inside d = xs @ a # ys"
    and stop: "if shift then filter (pd_tabstop d) xs \<noteq> [] else filter (pd_tabstop d) ys \<noteq> []"
  shows "\<exists>b. tab_default d shift a = Some b \<and> b \<in> set (focusable d)"
proof -
  let ?p = "\<lambda>e. e \<noteq> pd_dialog d \<and> pd_tabstop d e"
  let ?pre = "pd_before d @ pd_dialog d # xs"
  have order: "document_order d = ?pre @ a # ys @ pd_after d"
    by (simp add: document_order_def inside)
  have fresh: "a \<notin> set ?pre" and nd: "pd_dialog d \<notin> set xs \<union> set ys"
    using dist by (auto simp: document_order_def inside)
  have eq: "filter ?p zs = filter (pd_tabstop d) zs" if "pd_dialog d \<notin> set zs" for zs
    using that by (intro filter_cong) auto
  show ?thesis
  proof (cases shift)
    case True
    then have "filter ?p (rev xs) \<noteq> []"
      using stop nd eq [of "rev xs"] by (simp add: rev_filter [symmetric])
    from first_match [OF this, of "pd_dialog d # rev (pd_before d)"] obtain e es where
      e: "filter ?p (rev xs @ pd_dialog d # rev (pd_before d)) = e # es"
      and mem: "e \<in> set (filter ?p (rev xs))" by blast
    have "rev (takeWhile (\<lambda>e. e \<noteq> a) (document_order d)) = rev xs @ pd_dialog d # rev (pd_before d)"
      unfolding order takeWhile_until [OF fresh] by simp
    with True e have "tab_default d shift a = Some e" by (simp only: tab_default_def) simp
    with mem show ?thesis by (auto simp: focusable_def inside)
  next
    case False
    then have "filter ?p ys \<noteq> []" using stop nd eq [of ys] by simp
    from first_match [OF this, of "pd_after d"] obtain e es where
      e: "filter ?p (ys @ pd_after d) = e # es" and mem: "e \<in> set (filter ?p ys)" by blast
    have "tl (dropWhile (\<lambda>e. e \<noteq> a) (document_order d)) = ys @ pd_after d"
      unfolding order dropWhile_until [OF fresh] by simp
    with False e have "tab_default d shift a = Some e" by (simp only: tab_default_def) simp
    with mem show ?thesis by (auto simp: focusable_def inside)
  qed
qed

subsection \<open>Lemmas on the effect\<close>

lemmas effect_defs = start_effect_def run_effect_def cleanup_effect_def request_frame_def Let_def

lemma focus_simps [simp]:
  "pg_overflow (focus e s) = pg_overflow s" "pg_listeners (focus e s) = pg_listeners s"
  "pg_handle (focus e s) = pg_handle s" "pg_present (focus e s) = pg_present s"
  "pg_frames (focus e s) = pg_frames s"
  by (simp_all add: focus_def)

lemma run_frame_simps [simp]:
  "pg_overflow (run_frame d f s) = pg_overflow s" "pg_listeners (run_frame d f s) = pg_listeners s"
  "pg_handle (run_frame d f s) = pg_handle s" "pg_present (run_frame d f s) = pg_present s"
  "pg_frames (run_frame d f s) = pg_frames s"
  by (simp_all add: run_frame_def split: frame.split option.split list.split)

lemma fold_frames_simps [simp]:
  "pg_overflow (fold (\<lambda>(h, f). run_frame d f) fs s) = pg_overflow s"
  "pg_listeners (fold (\<lambda>(h, f). run_frame d f) fs s) = pg_listeners s"
  "pg_handle (fold (\<lambda>(h, f). run_frame d f) fs s) = pg_handle s"
  "pg_present (fold (\<lambda>(h, f). run_frame d f) fs s) = pg_present s"
  "pg_frames (fold (\<lambda>(h, f). run_frame d f) fs s) = pg_frames s"
  by (induction fs arbitrary: s) auto

lemma next_frame_simps [simp]:
  "pg_overflow (next_frame d s) = pg_overflow s" "pg_listeners (next_frame d s) = pg_listeners s"
  "pg_handle (next_frame d s) = pg_handle s" "pg_present (next_frame d s) = pg_present s"
  "pg_frames (next_frame d s) = []"
  by (simp_all add: next_frame_def)

lemma press_simps [simp]:
  "pg_overflow (press d k sh s) = pg_overflow s" "pg_listeners (press d k sh s) = pg_listeners s"
  "pg_handle (press d k sh s) = pg_handle s" "pg_present (press d k sh s) = pg_present s"
  "pg_frames (press d k sh s) = pg_frames s"
  by (simp_all add: press_def split: key_outcome.split)

lemma insert_dialog_simps [simp]:
  "pg_overflow (insert_dialog d s) = pg_overflow s" "pg_listeners (insert_dialog d s) = pg_listeners s"
  "pg_handle (insert_dialog d s) = pg_handle s" "pg_frames (insert_dialog d s) = pg_frames s"
  "pg_present (insert_dialog d s) = pg_present s @ pd_dialog d # pd_inside d"
  by (simp_all add: insert_dialog_def Let_def split: option.split)

lemma remove_dialog_simps [simp]:
  "pg_overflow (remove_dialog d s) = pg_overflow s" "pg_listeners (remove_dialog d s) = pg_listeners s"
  "pg_handle (remove_dialog d s) = pg_handle s" "pg_frames (remove_dialog d s) = pg_frames s"
  by (simp_all add: remove_dialog_def)

text \<open>While the dialog is open, its effect holds the page's own overflow and one listener.\<close>

definition locked :: "jstr \<Rightarrow> nat list \<Rightarrow> dialog \<Rightarrow> bool" where
  "locked ov ls s \<longleftrightarrow>
     (\<exists>fx. dg_effect s = Some fx \<and> fx_overflow fx = ov \<and>
        pg_listeners (dg_env s) = ls @ [fx_listener fx] \<and> fx_listener fx \<notin> set ls \<and>
        pg_overflow (dg_env s) = js ''hidden'' \<and> (\<forall>l \<in> set ls. l < pg_handle (dg_env s)))"

lemma filter_fresh: "x \<notin> set xs \<Longrightarrow> filter (\<lambda>y. y \<noteq> x) xs = xs"
  by (induction xs) auto

lemma fresh_handle: "\<forall>l \<in> set ls. l < (h :: nat) \<Longrightarrow> Suc h \<notin> set ls \<and> (\<forall>l \<in> set ls. l < Suc (Suc h))"
  by fastforce

lemma locked_step: "locked ov ls s \<Longrightarrow> e \<noteq> Unmount \<Longrightarrow> locked ov ls (fst (dialog_step d s e))"
  by (cases e) (auto simp: locked_def effect_defs filter_fresh dest: fresh_handle)

lemma locked_run: "locked ov ls s \<Longrightarrow> Unmount \<notin> set es \<Longrightarrow> locked ov ls (final (dialog_step d) s es)"
  by (induction es arbitrary: s) (auto simp: locked_step)

lemma locked_mount:
  "dg_effect s = None \<Longrightarrow> \<forall>l \<in> set (pg_listeners (dg_env s)). l < pg_handle (dg_env s) \<Longrightarrow>
     locked (pg_overflow (dg_env s)) (pg_listeners (dg_env s)) (fst (dialog_step d s Mount))"
  by (auto simp: locked_def effect_defs)

lemma locked_unmount:
  "locked ov ls s \<Longrightarrow>
     pg_overflow (dg_env (fst (dialog_step d s Unmount))) = ov \<and>
     pg_listeners (dg_env (fst (dialog_step d s Unmount))) = ls"
  by (auto simp: locked_def effect_defs filter_fresh)

text \<open>Without another \<^verbatim>\<open>onClose\<close>, the effect keeps the element focused before.\<close>

definition remembers :: "element \<Rightarrow> dialog \<Rightarrow> bool" where
  "remembers p s \<longleftrightarrow>
     (\<exists>fx. dg_effect s = Some fx \<and> fx_previous fx = Some p \<and>
        (\<forall>(h, f) \<in> set (pg_frames (dg_env s)). h = fx_frame fx) \<and> p \<in> set (pg_present (dg_env s)))"

lemma remembers_step:
  "remembers p s \<Longrightarrow> e \<noteq> Unmount \<Longrightarrow> e \<noteq> NewOnClose \<Longrightarrow> remembers p (fst (dialog_step d s e))"
  by (cases e) (auto simp: remembers_def)

lemma remembers_run:
  "remembers p s \<Longrightarrow> Unmount \<notin> set es \<Longrightarrow> NewOnClose \<notin> set es \<Longrightarrow>
     remembers p (final (dialog_step d) s es)"
  by (induction es arbitrary: s) (auto simp: remembers_step)

lemma remembers_unmount:
  assumes "remembers p s" "\<not> modal_contains d (Some p)"
  shows "pg_active (dg_env (final (dialog_step d) s [Unmount, NextFrame])) = Some p"
proof -
  from assms(1) obtain fx where fx: "dg_effect s = Some fx" "fx_previous fx = Some p"
    "\<forall>(h, f) \<in> set (pg_frames (dg_env s)). h = fx_frame fx" "p \<in> set (pg_present (dg_env s))"
    by (auto simp: remembers_def)
  have "filter (\<lambda>(h, f). h \<noteq> fx_frame fx) (pg_frames (dg_env s)) = []"
    using fx(3) by (auto simp: filter_empty_conv)
  with fx assms(2) show ?thesis
    by (simp add: effect_defs next_frame_def run_frame_def remove_dialog_def focus_def)
qed

subsection \<open>Properties\<close>

text \<open>C9. The focus trap: when the focus is on a tab stop inside the dialog, Tab and Shift+Tab move
  it to a tab stop inside the dialog, whatever tab stops the page has before and after.\<close>

theorem tab_stays_inside:
  assumes "distinct (document_order d)" and "a \<in> set (focusable d)"
  shows "\<exists>b. tab_pressed d shift a = Some b \<and> b \<in> set (focusable d)"
proof -
  from assms(2) obtain xs ys where ins: "pd_inside d = xs @ a # ys" and stop: "pd_tabstop d a"
    by (auto simp: focusable_def dest!: split_list)
  have ne: "focusable d \<noteq> []" using assms(2) by auto
  show ?thesis
  proof (cases "if shift then a = hd (focusable d) else a = last (focusable d)")
    case True
    with ne show ?thesis
      by (cases shift) (simp_all add: tab_pressed_def handleKeyDown_def js_def)
  next
    case False
    moreover have "focusable d = filter (pd_tabstop d) xs @ a # filter (pd_tabstop d) ys"
      by (simp add: focusable_def ins stop)
    ultimately have "if shift then filter (pd_tabstop d) xs \<noteq> [] else filter (pd_tabstop d) ys \<noteq> []"
      by (cases shift) auto
    from tab_default_inside [OF assms(1) ins this] False ne show ?thesis
      by (cases shift) (simp_all add: tab_pressed_def handleKeyDown_def js_def)
  qed
qed

definition sample_doc :: modal_doc where
  "sample_doc = \<lparr>pd_before = [1], pd_dialog = 2, pd_inside = [3, 4, 5], pd_after = [6],
     pd_tabstop = (\<lambda>e. e \<noteq> 4), pd_autofocus = None\<rparr>"

theorem tab_stays_inside_witness:
  "\<exists>b. tab_pressed sample_doc True 3 = Some b \<and> b \<in> set (focusable sample_doc)"
  by (rule tab_stays_inside) (simp_all add: sample_doc_def document_order_def focusable_def)

text \<open>Closing a dialog gives the page back as it was: whatever happened while it was open, renders
  with a new \<^verbatim>\<open>onClose\<close> included, the page's overflow is the one from before it opened and
  exactly the key listeners from before remain.\<close>

lemma page_restored_on_close:
  assumes "dg_effect s = None"
    and "\<forall>l \<in> set (pg_listeners (dg_env s)). l < pg_handle (dg_env s)"
    and "Unmount \<notin> set es"
  shows "pg_overflow (dg_env (final (dialog_step d) s (Mount # es @ [Unmount]))) = pg_overflow (dg_env s) \<and>
    pg_listeners (dg_env (final (dialog_step d) s (Mount # es @ [Unmount]))) = pg_listeners (dg_env s)"
  using locked_unmount [OF locked_run [OF locked_mount [OF assms(1,2)] assms(3)]]
  by (simp only: final_Cons final_snoc)

definition sample_page :: "element option \<Rightarrow> dialog" where
  "sample_page active = \<lparr>dg_env = \<lparr>pg_active = active, pg_present = [1, 6], pg_overflow = [],
     pg_frames = [], pg_handle = 0, pg_listeners = []\<rparr>, dg_effect = None\<rparr>"

lemma page_restored_on_close_witness:
  "pg_overflow (dg_env (final (dialog_step sample_doc) (sample_page (Some 1))
       (Mount # [NextFrame, NewOnClose] @ [Unmount]))) = [] "
  using page_restored_on_close [of "sample_page (Some 1)" "[NextFrame, NewOnClose]" sample_doc]
  by (simp add: sample_page_def)

text \<open>A dialog without an autofocus element whose \<^verbatim>\<open>onClose\<close> stays the same gives the focus
  back, in the frame after it closed, to the element of the page that had it when it opened.\<close>

lemma focus_returned:
  assumes "dg_effect s = None" and "pg_frames (dg_env s) = []" and "pd_autofocus d = None"
    and "pg_active (dg_env s) = Some p" and "p \<in> set (pg_present (dg_env s))"
    and "\<not> modal_contains d (Some p)"
    and "Unmount \<notin> set es" and "NewOnClose \<notin> set es"
  shows "pg_active (dg_env (final (dialog_step d) s (Mount # es @ [Unmount, NextFrame]))) = Some p"
proof -
  have "remembers p (fst (dialog_step d s Mount))"
    using assms(1-5) by (auto simp: remembers_def effect_defs insert_dialog_def)
  from remembers_unmount [OF remembers_run [OF this assms(7,8)] assms(6)] show ?thesis
    by (simp only: final_Cons final_append)
qed

lemma focus_returned_witness:
  "pg_active (dg_env (final (dialog_step sample_doc) (sample_page (Some 1))
       (Mount # [NextFrame, KeyDown (js ''Tab'') False] @ [Unmount, NextFrame]))) = Some 1"
  by (rule focus_returned)
    (simp_all add: sample_page_def sample_doc_def modal_contains_def)

text \<open>
  The three cases the effect does not cover. With Shift, Tab leaves the dialog when the
  dialog itself has the focus (a click on its text gives it). A render with a new
  \<^verbatim>\<open>onClose\<close> takes the focus from a field of the dialog to its first tab stop. An
  autofocus element is what the effect remembers, so closing returns the focus to nothing.
\<close>

lemma shift_tab_leaves_dialog: "tab_pressed sample_doc True (pd_dialog sample_doc) = Some 1"
  by (simp add: sample_doc_def tab_pressed_def handleKeyDown_def focusable_def tab_default_def
      document_order_def js_def Let_def)

lemma new_onclose_moves_focus:
  "pg_active (dg_env (final (dialog_step sample_doc) (sample_page (Some 1))
     [Mount, NextFrame, FocusMoved 5])) = Some 5 \<and>
   pg_active (dg_env (final (dialog_step sample_doc) (sample_page (Some 1))
     [Mount, NextFrame, FocusMoved 5, NewOnClose, NextFrame])) = Some 3"
  by (simp add: sample_doc_def sample_page_def effect_defs insert_dialog_def next_frame_def
      run_frame_def focus_def modal_contains_def focusable_def)

lemma autofocus_loses_focus:
  "pg_active (dg_env (final (dialog_step (sample_doc\<lparr>pd_autofocus := Some 5\<rparr>)) (sample_page (Some 1))
     [Mount, NextFrame, Unmount, NextFrame])) = None"
  by (simp add: sample_doc_def sample_page_def effect_defs insert_dialog_def next_frame_def
      run_frame_def focus_def modal_contains_def remove_dialog_def)

end
