(* ===== verification/GoRuntime.thy ===== *)
theory GoRuntime
  imports Prelude "HOL-Library.Sublist"
begin

text \<open>
  What the server code uses of Go's strings. A Go string is a sequence of bytes, which is
  what Isabelle's \<open>string\<close> is: a \<open>char\<close> has eight bits, and \<open>length\<close> counts bytes as Go's
  \<^verbatim>\<open>len\<close> does. Times are integers (nanoseconds); the zero \<^verbatim>\<open>time.Time\<close> is \<open>None\<close>.
\<close>

type_synonym gostring = string

abbreviation (input) minutes :: "int \<Rightarrow> int" where
  "minutes n \<equiv> n * 60000000000"

subsection \<open>White space\<close>

text \<open>The UTF-8 codes of the characters that \<^verbatim>\<open>unicode.IsSpace\<close> accepts.\<close>

definition space_codes :: "nat list list" where
  "space_codes =
     map (\<lambda>n. [n]) [9, 10, 11, 12, 13, 32] @ [[0xC2, 0x85], [0xC2, 0xA0], [0xE1, 0x9A, 0x80]] @
     map (\<lambda>n. [0xE2, 0x80, n]) ([0x80..<0x8B] @ [0xA8, 0xA9, 0xAF]) @
     [[0xE2, 0x81, 0x9F], [0xE3, 0x80, 0x80]]"

definition space_strings :: "gostring list" where
  "space_strings = map (map char_of) space_codes"

text \<open>How much of one of the given codes a string starts with.\<close>

definition leading :: "gostring list \<Rightarrow> gostring \<Rightarrow> nat" where
  "leading codes s = (case List.find (\<lambda>p. p \<noteq> [] \<and> prefix p s) codes of None \<Rightarrow> 0 | Some p \<Rightarrow> length p)"

lemma leading_le: "leading codes s \<le> length s"
  by (auto simp: leading_def dest!: find_Some_in prefix_length_le split: option.split)

function trim_codes :: "gostring list \<Rightarrow> gostring \<Rightarrow> gostring" where
  "trim_codes codes s =
     (if leading codes s = 0 then s else trim_codes codes (drop (leading codes s) s))"
  by pat_completeness auto
termination
proof (relation "measure (\<lambda>(codes, s). length s)")
  fix codes s
  assume "leading codes s \<noteq> 0"
  moreover from this have "s \<noteq> []" using leading_le [of codes s] by auto
  ultimately show "((codes, drop (leading codes s) s), (codes, s)) \<in> measure (\<lambda>(codes, s). length s)"
    by simp
qed simp

declare trim_codes.simps [simp del]

definition TrimSpace :: "gostring \<Rightarrow> gostring" where
  "TrimSpace s =
     rev (trim_codes (map rev space_strings) (rev (trim_codes space_strings s)))"

lemma trim_codes_suffix: "suffix (trim_codes codes s) s"
proof (induction codes s rule: trim_codes.induct)
  case (1 codes s)
  then show ?case
    by (subst trim_codes.simps) (auto intro: suffix_order.trans suffix_drop)
qed

lemma trim_codes_length: "length (trim_codes codes s) \<le> length s"
  using trim_codes_suffix by (rule suffix_length_le)

lemma trim_codes_done: "leading codes (trim_codes codes s) = 0"
proof (induction codes s rule: trim_codes.induct)
  case (1 codes s)
  then show ?case by (subst trim_codes.simps) auto
qed

lemma trim_codes_Nil [simp]: "trim_codes codes [] = []"
  using trim_codes_length [of codes "[]"] by simp

lemma TrimSpace_Nil [simp]: "TrimSpace [] = []"
  by (simp add: TrimSpace_def)

lemma TrimSpace_length: "length (TrimSpace s) \<le> length s"
proof -
  have "length (TrimSpace s) \<le> length (trim_codes space_strings s)"
    unfolding TrimSpace_def using trim_codes_length by (metis length_rev)
  also have "\<dots> \<le> length s" by (rule trim_codes_length)
  finally show ?thesis .
qed

lemma TrimSpace_sublist: "sublist (TrimSpace s) s"
proof -
  have "suffix (trim_codes (map rev space_strings) (rev (trim_codes space_strings s)))
      (rev (trim_codes space_strings s))"
    by (rule trim_codes_suffix)
  then have "prefix (TrimSpace s) (trim_codes space_strings s)"
    by (simp add: TrimSpace_def suffix_to_prefix)
  moreover have "suffix (trim_codes space_strings s) s" by (rule trim_codes_suffix)
  ultimately show ?thesis
    by (meson prefix_imp_sublist suffix_imp_sublist sublist_order.order_trans)
qed

subsection \<open>Case\<close>

text \<open>\<^verbatim>\<open>strings.ToLower\<close> on the letters A to Z, all that a comparison with an ASCII word needs.\<close>

definition lower_char :: "char \<Rightarrow> char" where
  "lower_char c = (if 65 \<le> (of_char c :: nat) \<and> (of_char c :: nat) \<le> 90 then char_of ((of_char c :: nat) + 32) else c)"

definition has_prefix :: "gostring \<Rightarrow> gostring \<Rightarrow> bool" where
  "has_prefix s p \<longleftrightarrow> take (length p) s = p"

lemma has_prefix_append [simp]: "has_prefix (p @ s) p"
  by (simp add: has_prefix_def)

text \<open>A string whose first and last bytes are no ends of a space's code is its own trimming.\<close>

definition printable :: "char \<Rightarrow> bool" where
  "printable c \<longleftrightarrow> 32 < (of_char c :: nat) \<and> (of_char c :: nat) < 127"

lemma space_codes_range: "\<forall>p \<in> set space_codes. p \<noteq> [] \<and> (\<forall>n \<in> set p. n < 256)"
  by (simp add: space_codes_def upt_conv_Cons)

lemma space_codes_ends:
  "hd ` set space_codes = {9, 10, 11, 12, 13, 32, 0xC2, 0xE1, 0xE2, 0xE3}"
  "last ` set space_codes = {9, 10, 11, 12, 13, 32, 0x80, 0x81, 0x82, 0x83, 0x84, 0x85, 0x86, 0x87, 0x88, 0x89,
     0x8A, 0x9F, 0xA0, 0xA8, 0xA9, 0xAF}"
  by (auto simp: space_codes_def upt_conv_Cons)

lemma space_strings_ends:
  assumes "p \<in> set space_strings"
  shows "p \<noteq> [] \<and> (of_char (hd p) :: nat) \<in> hd ` set space_codes \<and>
    (of_char (last p) :: nat) \<in> last ` set space_codes"
proof -
  obtain q where q: "q \<in> set space_codes" "p = map char_of q"
    using assms by (auto simp: space_strings_def)
  with space_codes_range have "q \<noteq> []" "\<forall>n \<in> set q. n < 256" by auto
  then have "of_char (hd p) = hd q" "of_char (last p) = last q"
    by (simp_all add: q(2) hd_map last_map)
  with q \<open>q \<noteq> []\<close> show ?thesis by auto
qed

lemma leading_zero:
  assumes "\<forall>p \<in> set codes. p \<noteq> [] \<longrightarrow> hd p \<noteq> c"
  shows "leading codes (c # s) = 0"
proof -
  have "\<forall>p \<in> set codes. \<not> (p \<noteq> [] \<and> prefix p (c # s))"
    using assms by (auto simp: prefix_Cons)
  then have "List.find (\<lambda>p. p \<noteq> [] \<and> prefix p (c # s)) codes = None"
    by (auto simp: find_None_iff)
  then show ?thesis by (simp add: leading_def)
qed

lemma TrimSpace_id:
  assumes "s \<noteq> []" "(of_char (hd s) :: nat) \<notin> hd ` set space_codes"
    and "(of_char (last s) :: nat) \<notin> last ` set space_codes"
  shows "TrimSpace s = s"
proof -
  have "leading space_strings s = 0"
    using assms space_strings_ends leading_zero [of space_strings "hd s" "tl s"] by fastforce
  then have left: "trim_codes space_strings s = s" by (subst trim_codes.simps) simp
  have "\<forall>p \<in> set (map rev space_strings). p \<noteq> [] \<longrightarrow> hd p \<noteq> last s"
    using assms(3) space_strings_ends by (fastforce simp: hd_rev)
  moreover have rs: "rev s = last s # rev (butlast s)"
    using assms(1) by (metis append_butlast_last_id rev_eq_Cons_iff rev_rev_ident)
  ultimately have "leading (map rev space_strings) (rev s) = 0"
    using leading_zero [of "map rev space_strings" "last s" "rev (butlast s)"] by (simp only: rs)
  then have "trim_codes (map rev space_strings) (rev s) = rev s" by (subst trim_codes.simps) simp
  with left show ?thesis by (simp add: TrimSpace_def)
qed

lemma TrimSpace_printable:
  "s \<noteq> [] \<Longrightarrow> printable (hd s) \<Longrightarrow> printable (last s) \<Longrightarrow> TrimSpace s = s"
  by (rule TrimSpace_id) (auto simp: printable_def space_codes_ends)

text \<open>\<^verbatim>\<open>firstNonEmpty\<close> of the proxy: the first value that is not blank, as it is.\<close>

fun firstNonEmpty :: "gostring list \<Rightarrow> gostring" where
  "firstNonEmpty [] = []"
| "firstNonEmpty (val # rest) = (if TrimSpace val \<noteq> [] then val else firstNonEmpty rest)"

end
