(* ===== verification/ClientAddress.thy ===== *)
theory ClientAddress
  imports GoRuntime
begin

text \<open>
  \<^verbatim>\<open>clientAddress\<close> of \<^verbatim>\<open>internal/web/middleware.go\<close>, the address by which the sign-in limiter
  counts. Go's \<^verbatim>\<open>net\<close> and \<^verbatim>\<open>netip\<close> are arguments: \<open>split_host\<close> is \<^verbatim>\<open>net.SplitHostPort\<close>,
  \<open>parse\<close> is \<^verbatim>\<open>netip.ParseAddr\<close> followed by \<^verbatim>\<open>Unmap\<close> and \<^verbatim>\<open>WithZone\<close>, \<open>shows\<close> is \<^verbatim>\<open>String\<close>,
  and each configured prefix is the predicate \<^verbatim>\<open>Contains\<close>.
\<close>

record 'a netip =
  ni_split_host :: "gostring \<Rightarrow> gostring option"
  ni_parse :: "gostring \<Rightarrow> 'a option"
  ni_string :: "'a \<Rightarrow> gostring"

text \<open>\<^verbatim>\<open>strings.Split\<close> with a separator of one byte: always at least one part.\<close>

fun split_on :: "char \<Rightarrow> gostring \<Rightarrow> gostring list" where
  "split_on c [] = [[]]"
| "split_on c (x # xs) =
     (if x = c then [] # split_on c xs
      else case split_on c xs of [] \<Rightarrow> [[x]] | p # ps \<Rightarrow> (x # p) # ps)"

definition isTrustedProxy :: "('a \<Rightarrow> bool) list \<Rightarrow> 'a \<Rightarrow> bool" where
  "isTrustedProxy cidrs address \<longleftrightarrow> list_ex (\<lambda>contains. contains address) cidrs"

definition trim_brackets :: "gostring \<Rightarrow> gostring" where
  "trim_brackets s =
     (let bracket = (\<lambda>c. c = CHR ''['' \<or> c = CHR '']'')
      in rev (dropWhile bracket (rev (dropWhile bracket s))))"

definition parseRemoteAddress :: "'a netip \<Rightarrow> gostring \<Rightarrow> 'a option" where
  "parseRemoteAddress ni remote =
     ni_parse ni (case ni_split_host ni remote of Some host \<Rightarrow> host | None \<Rightarrow> trim_brackets remote)"

text \<open>The loop over the forwarded addresses, from the last to the first.\<close>

fun forwarded_loop :: "'a netip \<Rightarrow> ('a \<Rightarrow> bool) list \<Rightarrow> 'a \<Rightarrow> 'a \<Rightarrow> gostring list \<Rightarrow> gostring" where
  "forwarded_loop ni cidrs peer candidate [] = ni_string ni candidate"
| "forwarded_loop ni cidrs peer candidate (f # fs) =
     (case ni_parse ni (TrimSpace f) of
        None \<Rightarrow> ni_string ni peer
      | Some address \<Rightarrow>
          if \<not> isTrustedProxy cidrs address then ni_string ni address
          else forwarded_loop ni cidrs peer address fs)"

definition clientAddress :: "'a netip \<Rightarrow> ('a \<Rightarrow> bool) list \<Rightarrow> gostring \<Rightarrow> gostring \<Rightarrow> gostring" where
  "clientAddress ni cidrs remote header =
     (case parseRemoteAddress ni remote of
        None \<Rightarrow> remote
      | Some peer \<Rightarrow>
          if \<not> isTrustedProxy cidrs peer then ni_string ni peer
          else forwarded_loop ni cidrs peer peer (rev (split_on (CHR '','') header)))"

subsection \<open>Lemmas\<close>

lemma split_on_not_Nil [simp]: "split_on c s \<noteq> []"
  by (induction s) (auto split: list.split)

lemma split_on_append: "split_on c (a @ c # b) = split_on c a @ split_on c b"
  by (induction a) (auto split: list.split)

text \<open>The loop stops at the last entry that is no trusted proxy.\<close>

definition stops :: "'a netip \<Rightarrow> ('a \<Rightarrow> bool) list \<Rightarrow> gostring \<Rightarrow> bool" where
  "stops ni cidrs f \<longleftrightarrow>
     (case ni_parse ni (TrimSpace f) of None \<Rightarrow> True | Some a \<Rightarrow> \<not> isTrustedProxy cidrs a)"

lemma forwarded_loop_prefix:
  "\<exists>f \<in> set fs. stops ni cidrs f \<Longrightarrow>
     forwarded_loop ni cidrs peer c (fs @ gs) = forwarded_loop ni cidrs peer c fs"
proof (induction fs arbitrary: c)
  case (Cons f fs)
  then show ?case
    by (cases "ni_parse ni (TrimSpace f)") (auto simp: stops_def)
qed simp

subsection \<open>Properties\<close>

text \<open>A client cannot choose the address it is counted under. Behind a trusted proxy, whatever a
  client writes in front of the part of the forwarded header that the proxies appended has no
  influence, as soon as that part names one address that is not a trusted proxy; and a client that does not
  come through a trusted proxy is counted by its own address, whatever header it sends.\<close>

lemma forged_header_ignored:
  assumes "\<exists>f \<in> set (split_on (CHR '','') genuine). stops ni cidrs f"
  shows "clientAddress ni cidrs remote (forged @ '','' @ genuine) = clientAddress ni cidrs remote genuine \<and>
    (case parseRemoteAddress ni remote of None \<Rightarrow> True
     | Some peer \<Rightarrow> isTrustedProxy cidrs peer \<or>
         clientAddress ni cidrs remote header = ni_string ni peer)"
  using assms forwarded_loop_prefix [of "rev (split_on (CHR '','') genuine)" ni cidrs]
  by (simp add: clientAddress_def split_on_append split: option.split)

definition sample_netip :: "nat netip" where
  "sample_netip = \<lparr>ni_split_host = (\<lambda>s. None), ni_parse = (\<lambda>s. if length s < 5 then Some (length s) else None),
     ni_string = (\<lambda>n. replicate n (CHR ''x''))\<rparr>"

lemma sample_trim [simp]: "TrimSpace ''bb'' = ''bb''"
  by (rule TrimSpace_printable) (simp_all add: printable_def)

lemma forged_header_ignored_witness:
  "clientAddress sample_netip [\<lambda>n. n = 1] ''p'' (''fake'' @ '','' @ ''bb'') = ''xx''"
proof -
  have "\<exists>f \<in> set (split_on (CHR '','') ''bb''). stops sample_netip [\<lambda>n. n = 1] f"
    by (simp add: stops_def sample_netip_def isTrustedProxy_def)
  from forged_header_ignored [OF this, of "''p''" "''fake''"] show ?thesis
    by (simp add: clientAddress_def parseRemoteAddress_def trim_brackets_def sample_netip_def isTrustedProxy_def
        numeral_2_eq_2)
qed

end
