(* ===== verification/Lifecycle.thy ===== *)
theory Lifecycle
  imports Prelude
begin

text \<open>
  How the proxy stops (\<^verbatim>\<open>service.go\<close> and \<^verbatim>\<open>websocketRegistry\<close> of \<^verbatim>\<open>websocket.go\<close>): requests are accepted and
  end, WebSocket sessions register their connection, \<^verbatim>\<open>BeginShutdown\<close> stops both and \<^verbatim>\<open>WaitForIdle\<close> waits for the
  accepted requests. Every section under one of the two locks is one step; the steps of all goroutines interleave in
  every order. A channel that is only closed is a flag, the number of a channel its place in the list of flags.
\<close>

subsection \<open>Counting the active requests\<close>

record activity =
  av_activeRequests :: int
  av_shuttingDown :: bool
  av_idle :: nat
  av_closed :: "bool list"

definition new_activity :: activity where
  "new_activity = \<lparr>av_activeRequests = 0, av_shuttingDown = False, av_idle = 0, av_closed = [True]\<rparr>"

definition beginRequest :: "activity \<Rightarrow> bool \<times> activity" where
  "beginRequest a =
     (if av_shuttingDown a then (False, a)
      else (let a1 = (if av_activeRequests a = 0
                      then a\<lparr>av_idle := length (av_closed a), av_closed := av_closed a @ [False]\<rparr> else a)
            in (True, a1\<lparr>av_activeRequests := av_activeRequests a1 + 1\<rparr>)))"

text \<open>Closing a closed channel panics: the result is \<open>None\<close>.\<close>

definition close_channel :: "nat \<Rightarrow> bool list \<Rightarrow> bool list option" where
  "close_channel c closed = (if closed ! c then None else Some (closed[c := True]))"

definition endRequest :: "activity \<Rightarrow> activity option" where
  "endRequest a0 =
     (let a = a0\<lparr>av_activeRequests := av_activeRequests a0 - 1\<rparr>
      in if av_activeRequests a = 0
         then map_option (\<lambda>closed. a\<lparr>av_closed := closed\<rparr>) (close_channel (av_idle a) (av_closed a)) else Some a)"

text \<open>What \<^verbatim>\<open>WaitForIdle\<close> does next after it read the state: return, or wait for the channel.\<close>

definition idle_channel :: "activity \<Rightarrow> nat option" where
  "idle_channel a = (if av_activeRequests a = 0 then None else Some (av_idle a))"

subsection \<open>The registry of WebSocket connections\<close>

record websocketRegistry =
  rg_connections :: "nat list"
  rg_closed :: bool

definition registry_add :: "nat \<Rightarrow> websocketRegistry \<Rightarrow> bool \<times> websocketRegistry" where
  "registry_add c r = (if rg_closed r then (False, r) else (True, r\<lparr>rg_connections := List.insert c (rg_connections r)\<rparr>))"

definition registry_remove :: "nat \<Rightarrow> websocketRegistry \<Rightarrow> websocketRegistry" where
  "registry_remove c r = r\<lparr>rg_connections := removeAll c (rg_connections r)\<rparr>"

text \<open>The locked part of \<^verbatim>\<open>closeAll\<close>: the connections it goes on to close.\<close>

definition closeAll :: "websocketRegistry \<Rightarrow> nat list \<times> websocketRegistry" where
  "closeAll r = (rg_connections r, r\<lparr>rg_closed := True\<rparr>)"

subsection \<open>The goroutines\<close>

text \<open>
  The handlers are numbered in the order they were accepted; a connection has the number of its handler. A handler is
  running, has registered its connection, is on its way out, or has finished.
\<close>

datatype handler_state = Running | Registered | Leaving | Finished

datatype shutdown_state = Serving | Announced | Closing "nat list" | ShutDown

text \<open>\<^verbatim>\<open>WaitForIdle\<close>; the number says how many requests had been accepted when it was called.\<close>

datatype wait_state = NotCalled | Waiting nat nat | Returned nat | TimedOut

record lifecycle =
  lf_activity :: activity
  lf_registry :: websocketRegistry
  lf_handlers :: "handler_state list"
  lf_gone :: "nat set"
  lf_shutdown :: shutdown_state
  lf_wait :: wait_state

definition new_service :: lifecycle where
  "new_service = \<lparr>lf_activity = new_activity, lf_registry = \<lparr>rg_connections = [], rg_closed = False\<rparr>, lf_handlers = [],
     lf_gone = {}, lf_shutdown = Serving, lf_wait = NotCalled\<rparr>"

text \<open>
  What the server does by itself. A handler ends at some time; a WebSocket session only when its connection is closed.
\<close>

inductive drain_step :: "lifecycle \<Rightarrow> lifecycle \<Rightarrow> bool" where
  finish: "i < length (lf_handlers s) \<Longrightarrow> lf_handlers s ! i \<in> {Running, Leaving} \<Longrightarrow> endRequest (lf_activity s) = Some a \<Longrightarrow>
     drain_step s (s\<lparr>lf_activity := a, lf_handlers := (lf_handlers s)[i := Finished]\<rparr>)"
| register: "i < length (lf_handlers s) \<Longrightarrow> lf_handlers s ! i = Running \<Longrightarrow> registry_add i (lf_registry s) = (True, r) \<Longrightarrow>
     drain_step s (s\<lparr>lf_registry := r, lf_handlers := (lf_handlers s)[i := Registered]\<rparr>)"
| turn_away: "i < length (lf_handlers s) \<Longrightarrow> lf_handlers s ! i = Running \<Longrightarrow> registry_add i (lf_registry s) = (False, r) \<Longrightarrow>
     drain_step s (s\<lparr>lf_registry := r, lf_handlers := (lf_handlers s)[i := Leaving], lf_gone := insert i (lf_gone s)\<rparr>)"
| session_over: "i < length (lf_handlers s) \<Longrightarrow> lf_handlers s ! i = Registered \<Longrightarrow> i \<in> lf_gone s \<Longrightarrow>
     drain_step s (s\<lparr>lf_registry := registry_remove i (lf_registry s), lf_handlers := (lf_handlers s)[i := Leaving]\<rparr>)"
| close_registry: "lf_shutdown s = Announced \<Longrightarrow> closeAll (lf_registry s) = (cs, r) \<Longrightarrow>
     drain_step s (s\<lparr>lf_registry := r, lf_shutdown := Closing cs\<rparr>)"
| close_one: "lf_shutdown s = Closing cs \<Longrightarrow> c \<in> set cs \<Longrightarrow>
     drain_step s (s\<lparr>lf_gone := insert c (lf_gone s), lf_shutdown := Closing (remove1 c cs)\<rparr>)"
| shut_down: "lf_shutdown s = Closing [] \<Longrightarrow> drain_step s (s\<lparr>lf_shutdown := ShutDown\<rparr>)"
| wait_idle: "lf_wait s = NotCalled \<Longrightarrow> idle_channel (lf_activity s) = None \<Longrightarrow>
     drain_step s (s\<lparr>lf_wait := Returned (length (lf_handlers s))\<rparr>)"
| wait_busy: "lf_wait s = NotCalled \<Longrightarrow> idle_channel (lf_activity s) = Some c \<Longrightarrow>
     drain_step s (s\<lparr>lf_wait := Waiting c (length (lf_handlers s))\<rparr>)"
| woken: "lf_wait s = Waiting c n \<Longrightarrow> av_closed (lf_activity s) ! c \<Longrightarrow> drain_step s (s\<lparr>lf_wait := Returned n\<rparr>)"

text \<open>
  What happens to it: a request, a connection closed by its client or for a failed turn, the signal to stop, and
  the deadline of \<^verbatim>\<open>WaitForIdle\<close>. A refused request changes nothing.
\<close>

inductive outside_step :: "lifecycle \<Rightarrow> lifecycle \<Rightarrow> bool" where
  accept: "beginRequest (lf_activity s) = (True, a) \<Longrightarrow>
     outside_step s (s\<lparr>lf_activity := a, lf_handlers := lf_handlers s @ [Running]\<rparr>)"
| hang_up: "i < length (lf_handlers s) \<Longrightarrow> lf_handlers s ! i = Registered \<Longrightarrow>
     outside_step s (s\<lparr>lf_gone := insert i (lf_gone s)\<rparr>)"
| announce: "lf_shutdown s = Serving \<Longrightarrow>
     outside_step s (s\<lparr>lf_activity := (lf_activity s)\<lparr>av_shuttingDown := True\<rparr>, lf_shutdown := Announced\<rparr>)"
| deadline: "lf_wait s = Waiting c n \<Longrightarrow> outside_step s (s\<lparr>lf_wait := TimedOut\<rparr>)"

inductive reached :: "lifecycle \<Rightarrow> bool" where
  "reached new_service"
| "reached s \<Longrightarrow> drain_step s s' \<Longrightarrow> reached s'"
| "reached s \<Longrightarrow> outside_step s s' \<Longrightarrow> reached s'"

subsection \<open>The invariant\<close>

definition open_handlers :: "handler_state list \<Rightarrow> nat" where
  "open_handlers hs = (\<Sum>h\<leftarrow>hs. if h = Finished then 0 else 1)"

definition activity_inv :: "activity \<Rightarrow> handler_state list \<Rightarrow> bool" where
  "activity_inv a hs \<longleftrightarrow> av_activeRequests a = int (open_handlers hs) \<and> av_idle a < length (av_closed a)
     \<and> (\<forall>c < length (av_closed a). av_closed a ! c \<longleftrightarrow> c \<noteq> av_idle a \<or> open_handlers hs = 0)"

definition connections_inv :: "websocketRegistry \<Rightarrow> handler_state list \<Rightarrow> bool" where
  "connections_inv r hs \<longleftrightarrow> distinct (rg_connections r) \<and> set (rg_connections r) = {i. i < length hs \<and> hs ! i = Registered}"

fun shutdown_inv :: "shutdown_state \<Rightarrow> bool \<Rightarrow> bool \<Rightarrow> nat set \<Rightarrow> nat set \<Rightarrow> bool" where
  "shutdown_inv Serving stopping closed regs gone \<longleftrightarrow> \<not> stopping \<and> \<not> closed"
| "shutdown_inv Announced stopping closed regs gone \<longleftrightarrow> stopping \<and> \<not> closed"
| "shutdown_inv (Closing cs) stopping closed regs gone \<longleftrightarrow> stopping \<and> closed \<and> regs \<subseteq> set cs \<union> gone"
| "shutdown_inv ShutDown stopping closed regs gone \<longleftrightarrow> stopping \<and> closed \<and> regs \<subseteq> gone"

fun wait_inv :: "wait_state \<Rightarrow> bool list \<Rightarrow> handler_state list \<Rightarrow> bool" where
  "wait_inv (Waiting c n) closed hs \<longleftrightarrow> c < length closed \<and> n \<le> length hs \<and> (closed ! c \<longrightarrow> (\<forall>i < n. hs ! i = Finished))"
| "wait_inv (Returned n) closed hs \<longleftrightarrow> n \<le> length hs \<and> (\<forall>i < n. hs ! i = Finished)"
| "wait_inv _ closed hs \<longleftrightarrow> True"

definition lifecycle_inv :: "lifecycle \<Rightarrow> bool" where
  "lifecycle_inv s \<longleftrightarrow> activity_inv (lf_activity s) (lf_handlers s) \<and> connections_inv (lf_registry s) (lf_handlers s)
     \<and> shutdown_inv (lf_shutdown s) (av_shuttingDown (lf_activity s)) (rg_closed (lf_registry s))
         (set (rg_connections (lf_registry s))) (lf_gone s)
     \<and> wait_inv (lf_wait s) (av_closed (lf_activity s)) (lf_handlers s)"

lemma sum_update:
  fixes f :: "'a \<Rightarrow> nat"
  assumes "i < length xs"
  shows "(\<Sum>x\<leftarrow>xs[i := y]. f x) + f (xs ! i) = (\<Sum>x\<leftarrow>xs. f x) + f y"
  using assms
proof (induction xs arbitrary: i)
  case (Cons x xs)
  show ?case
  proof (cases i)
    case (Suc n)
    with Cons.IH [of n] Cons.prems show ?thesis by simp
  qed simp
qed simp

lemma open_append [simp]: "open_handlers (hs @ [h]) = open_handlers hs + (if h = Finished then 0 else 1)"
  by (simp add: open_handlers_def)

lemma open_update:
  assumes "i < length hs"
  shows "open_handlers (hs[i := h]) + (if hs ! i = Finished then 0 else 1) = open_handlers hs + (if h = Finished then 0 else 1)"
  unfolding open_handlers_def by (rule sum_update [OF assms])

lemma open_none: "open_handlers hs = 0 \<longleftrightarrow> (\<forall>i < length hs. hs ! i = Finished)"
  by (induction hs) (auto simp: open_handlers_def nth_Cons split: nat.split)

lemma open_same: "i < length hs \<Longrightarrow> hs ! i \<noteq> Finished \<Longrightarrow> h \<noteq> Finished \<Longrightarrow> open_handlers (hs[i := h]) = open_handlers hs"
  using open_update [of i hs h] by simp

lemma open_finish: "i < length hs \<Longrightarrow> hs ! i \<noteq> Finished \<Longrightarrow> open_handlers hs = Suc (open_handlers (hs[i := Finished]))"
  using open_update [of i hs Finished] by simp

subsubsection \<open>Of each operation\<close>

lemma begin_activity:
  assumes "activity_inv a hs" "beginRequest a = (True, a')"
  shows "activity_inv a' (hs @ [Running]) \<and> \<not> av_shuttingDown a \<and> av_shuttingDown a' = av_shuttingDown a
    \<and> length (av_closed a) \<le> length (av_closed a') \<and> (\<forall>c < length (av_closed a). av_closed a' ! c = av_closed a ! c)"
  using assms by (auto simp: activity_inv_def beginRequest_def nth_append Let_def less_Suc_eq split: if_splits)

lemma end_activity:
  assumes "activity_inv a hs" "i < length hs" "hs ! i \<noteq> Finished"
  obtains a' where "endRequest a = Some a'" "activity_inv a' (hs[i := Finished])" "av_shuttingDown a' = av_shuttingDown a"
    "length (av_closed a') = length (av_closed a)"
    "\<forall>c < length (av_closed a). av_closed a' ! c \<longrightarrow> av_closed a ! c \<or> open_handlers (hs[i := Finished]) = 0"
proof (cases "open_handlers (hs[i := Finished]) = 0")
  case True
  let ?a = "a\<lparr>av_activeRequests := 0, av_closed := (av_closed a)[av_idle a := True]\<rparr>"
  have "endRequest a = Some ?a" "activity_inv ?a (hs[i := Finished])"
    using assms(1) open_finish [OF assms(2,3)] True
    by (auto simp: activity_inv_def endRequest_def close_channel_def Let_def nth_list_update)
  with True show thesis by (intro that [of ?a]) simp_all
next
  case False
  let ?a = "a\<lparr>av_activeRequests := av_activeRequests a - 1\<rparr>"
  have "endRequest a = Some ?a" "activity_inv ?a (hs[i := Finished])"
    using assms(1) open_finish [OF assms(2,3)] False
    by (auto simp: activity_inv_def endRequest_def close_channel_def Let_def)
  then show thesis by (intro that [of ?a]) simp_all
qed

lemma activity_same:
  "activity_inv a hs \<Longrightarrow> i < length hs \<Longrightarrow> hs ! i \<noteq> Finished \<Longrightarrow> h \<noteq> Finished \<Longrightarrow> activity_inv a (hs[i := h])"
  by (simp add: activity_inv_def open_same)

lemma registered_update:
  "k < length hs \<Longrightarrow> {i. i < length hs \<and> hs[k := h] ! i = Registered} =
     (if h = Registered then insert k {i. i < length hs \<and> hs ! i = Registered} else {i. i < length hs \<and> hs ! i = Registered} - {k})"
  by (auto simp: nth_list_update)

lemma connections_same:
  "connections_inv r hs \<Longrightarrow> i < length hs \<Longrightarrow> hs ! i \<noteq> Registered \<Longrightarrow> h \<noteq> Registered \<Longrightarrow> connections_inv r (hs[i := h])"
  by (simp add: connections_inv_def registered_update)

lemma closed_connections: "connections_inv (r\<lparr>rg_closed := b\<rparr>) hs = connections_inv r hs"
  by (simp add: connections_inv_def)

lemma registered_append:
  "{i. i < Suc (length hs) \<and> (hs @ [Running]) ! i = Registered} = {i. i < length hs \<and> hs ! i = Registered}"
  by (auto simp: nth_append less_Suc_eq)

lemma added: "registry_add i r = (True, r') \<Longrightarrow> r' = r\<lparr>rg_connections := List.insert i (rg_connections r)\<rparr> \<and> \<not> rg_closed r"
  by (auto simp: registry_add_def split: if_splits)

lemma connections_add:
  assumes "connections_inv r hs" "i < length hs" "registry_add i r = (True, r')"
  shows "connections_inv r' (hs[i := Registered])"
  using assms(1,2) added [OF assms(3)] by (simp add: connections_inv_def registered_update)

lemma connections_remove:
  "connections_inv r hs \<Longrightarrow> i < length hs \<Longrightarrow> h \<noteq> Registered \<Longrightarrow> connections_inv (registry_remove i r) (hs[i := h])"
  by (simp add: connections_inv_def registered_update registry_remove_def distinct_removeAll)

lemma wait_mono:
  assumes "wait_inv w closed hs" "\<forall>i < length hs. hs ! i = Finished \<longrightarrow> hs' ! i = Finished" "length hs \<le> length hs'"
    and "length closed \<le> length closed'"
    and "\<forall>c < length closed. closed' ! c \<longrightarrow> closed ! c \<or> (\<forall>i < length hs. hs' ! i = Finished)"
  shows "wait_inv w closed' hs'"
  using assms by (cases w) (auto; metis order_less_le_trans)+

lemma wait_update:
  assumes "wait_inv w closed hs" "i < length hs" "hs ! i \<noteq> Finished"
  shows "wait_inv w closed (hs[i := h])"
proof (rule wait_mono [OF assms(1)])
  show "\<forall>j < length hs. hs ! j = Finished \<longrightarrow> hs[i := h] ! j = Finished"
    using assms(3) by (metis nth_list_update_neq)
qed simp_all

lemma shutdown_grows:
  "shutdown_inv d stopping closed regs gone \<Longrightarrow> regs' \<subseteq> regs \<Longrightarrow> gone \<subseteq> gone' \<Longrightarrow> shutdown_inv d stopping closed regs' gone'"
  by (cases d) auto

lemma shutdown_added:
  "registry_add i r = (True, r') \<Longrightarrow> shutdown_inv d stopping (rg_closed r) (set (rg_connections r)) gone \<Longrightarrow>
     shutdown_inv d stopping (rg_closed r') (set (rg_connections r')) gone"
  using added [of i r r'] by (cases d) auto

lemma update_finished: "\<forall>j < length hs. hs ! j = Finished \<longrightarrow> hs[i := Finished] ! j = Finished"
  by (metis nth_list_update nth_list_update_neq)

subsubsection \<open>Of every step\<close>

lemmas lifecycle_parts = lifecycle_inv_def registry_add_def registry_remove_def closeAll_def

lemma finish_inv:
  assumes "lifecycle_inv s" "i < length (lf_handlers s)" "lf_handlers s ! i \<in> {Running, Leaving}" "endRequest (lf_activity s) = Some a"
  shows "lifecycle_inv (s\<lparr>lf_activity := a, lf_handlers := (lf_handlers s)[i := Finished]\<rparr>)"
proof -
  from assms have i: "lf_handlers s ! i \<noteq> Finished" "lf_handlers s ! i \<noteq> Registered"
    and act: "activity_inv (lf_activity s) (lf_handlers s)" by (auto simp: lifecycle_inv_def)
  have a: "activity_inv a ((lf_handlers s)[i := Finished])"
    "av_shuttingDown a = av_shuttingDown (lf_activity s)" "length (av_closed a) = length (av_closed (lf_activity s))"
    "\<forall>c < length (av_closed (lf_activity s)). av_closed a ! c \<longrightarrow>
       av_closed (lf_activity s) ! c \<or> open_handlers ((lf_handlers s)[i := Finished]) = 0"
    by (rule end_activity [OF act assms(2) i(1)]; simp add: assms(4))+
  have "wait_inv (lf_wait s) (av_closed (lf_activity s)) (lf_handlers s)" using assms(1) by (simp add: lifecycle_inv_def)
  then have "wait_inv (lf_wait s) (av_closed a) ((lf_handlers s)[i := Finished])"
  proof (rule wait_mono)
    show "\<forall>c < length (av_closed (lf_activity s)). av_closed a ! c \<longrightarrow> av_closed (lf_activity s) ! c
        \<or> (\<forall>j < length (lf_handlers s). (lf_handlers s)[i := Finished] ! j = Finished)"
      using a(4) by (simp add: open_none)
    show "\<forall>j < length (lf_handlers s). lf_handlers s ! j = Finished \<longrightarrow> (lf_handlers s)[i := Finished] ! j = Finished"
      by (rule update_finished)
  qed (simp_all add: a(3))
  moreover have "connections_inv (lf_registry s) ((lf_handlers s)[i := Finished])"
    using assms(1,2) i(2) by (intro connections_same) (simp_all add: lifecycle_inv_def)
  ultimately show ?thesis using a(1,2) assms(1) by (simp add: lifecycle_inv_def)
qed

lemma handler_inv:
  assumes "lifecycle_inv s" "i < length (lf_handlers s)" "lf_handlers s ! i \<noteq> Finished" "h \<noteq> Finished"
    and "connections_inv r ((lf_handlers s)[i := h])"
    and "shutdown_inv (lf_shutdown s) (av_shuttingDown (lf_activity s)) (rg_closed r) (set (rg_connections r)) gone"
  shows "lifecycle_inv (s\<lparr>lf_registry := r, lf_handlers := (lf_handlers s)[i := h], lf_gone := gone\<rparr>)"
  using assms by (simp add: lifecycle_inv_def activity_same wait_update)

lemma server_step_inv: "drain_step s s' \<Longrightarrow> lifecycle_inv s \<Longrightarrow> lifecycle_inv s'"
proof (induction rule: drain_step.induct)
  case (finish i s a)
  then show ?case using finish_inv by simp
next
  case (register i s r)
  have "lifecycle_inv (s\<lparr>lf_registry := r, lf_handlers := (lf_handlers s)[i := Registered], lf_gone := lf_gone s\<rparr>)"
  proof (rule handler_inv [OF register.prems register.hyps(1)])
    show "connections_inv r ((lf_handlers s)[i := Registered])"
      by (rule connections_add) (use register in \<open>simp_all add: lifecycle_inv_def\<close>)
    show "shutdown_inv (lf_shutdown s) (av_shuttingDown (lf_activity s)) (rg_closed r) (set (rg_connections r)) (lf_gone s)"
      using register.prems by (intro shutdown_added [OF register.hyps(3)]) (auto simp: lifecycle_inv_def)
  qed (use register.hyps(2) in simp_all)
  then show ?case by simp
next
  case (turn_away i s r)
  then show ?case
    by (intro handler_inv) (auto simp: lifecycle_parts intro!: connections_same intro: shutdown_grows split: if_splits)
next
  case (session_over i s)
  have "lifecycle_inv (s\<lparr>lf_registry := registry_remove i (lf_registry s), lf_handlers := (lf_handlers s)[i := Leaving],
      lf_gone := lf_gone s\<rparr>)"
  proof (rule handler_inv [OF session_over.prems session_over.hyps(1)])
    show "connections_inv (registry_remove i (lf_registry s)) ((lf_handlers s)[i := Leaving])"
      by (rule connections_remove) (use session_over in \<open>simp_all add: lifecycle_inv_def\<close>)
    show "shutdown_inv (lf_shutdown s) (av_shuttingDown (lf_activity s)) (rg_closed (registry_remove i (lf_registry s)))
        (set (rg_connections (registry_remove i (lf_registry s)))) (lf_gone s)"
      using session_over by (auto simp: lifecycle_parts intro: shutdown_grows)
  qed (use session_over.hyps(2) in simp_all)
  then show ?case by simp
next
  case (close_registry s cs r)
  then have "cs = rg_connections (lf_registry s)" "r = (lf_registry s)\<lparr>rg_closed := True\<rparr>" by (simp_all add: closeAll_def)
  with close_registry show ?case by (simp add: lifecycle_inv_def closed_connections)
next
  case (close_one s cs c)
  have "set cs \<subseteq> insert c (set (remove1 c cs))" by (induction cs) auto
  with close_one show ?case by (auto simp: lifecycle_parts)
next
  case (shut_down s)
  then show ?case by (simp add: lifecycle_parts)
next
  case (wait_idle s)
  then have "open_handlers (lf_handlers s) = 0"
    by (auto simp: idle_channel_def lifecycle_inv_def activity_inv_def split: if_splits)
  with wait_idle show ?case by (simp add: lifecycle_inv_def open_none)
next
  case (wait_busy s c)
  then show ?case
    by (auto simp: idle_channel_def lifecycle_inv_def activity_inv_def split: if_splits)
next
  case (woken s c n)
  then show ?case by (simp add: lifecycle_inv_def)
qed

lemma outside_step_inv: "outside_step s s' \<Longrightarrow> lifecycle_inv s \<Longrightarrow> lifecycle_inv s'"
proof (induction rule: outside_step.induct)
  case (accept s a)
  then have act: "activity_inv (lf_activity s) (lf_handlers s)" by (simp add: lifecycle_inv_def)
  note a = begin_activity [OF act accept.hyps]
  have "wait_inv (lf_wait s) (av_closed (lf_activity s)) (lf_handlers s)" using accept.prems by (simp add: lifecycle_inv_def)
  then have "wait_inv (lf_wait s) (av_closed a) (lf_handlers s @ [Running])"
  proof (rule wait_mono)
    show "\<forall>c < length (av_closed (lf_activity s)). av_closed a ! c \<longrightarrow> av_closed (lf_activity s) ! c
        \<or> (\<forall>j < length (lf_handlers s). (lf_handlers s @ [Running]) ! j = Finished)"
      using a by blast
    show "\<forall>j < length (lf_handlers s). lf_handlers s ! j = Finished \<longrightarrow> (lf_handlers s @ [Running]) ! j = Finished"
      by (simp add: nth_append)
    show "length (av_closed (lf_activity s)) \<le> length (av_closed a)" using a by blast
  qed simp
  moreover have "connections_inv (lf_registry s) (lf_handlers s @ [Running])"
    using accept.prems by (simp add: lifecycle_inv_def connections_inv_def registered_append)
  moreover have "activity_inv a (lf_handlers s @ [Running])" "av_shuttingDown a = av_shuttingDown (lf_activity s)" using a by blast+
  ultimately show ?case using accept.prems by (simp add: lifecycle_inv_def)
next
  case (hang_up i s)
  then show ?case by (auto simp: lifecycle_inv_def intro: shutdown_grows)
next
  case (announce s)
  then show ?case by (simp add: lifecycle_inv_def activity_inv_def)
next
  case (deadline s c n)
  then show ?case by (simp add: lifecycle_inv_def)
qed

lemma reached_inv: "reached s \<Longrightarrow> lifecycle_inv s"
proof (induction rule: reached.induct)
  case 1
  then show ?case
    by (simp add: new_service_def new_activity_def lifecycle_inv_def activity_inv_def connections_inv_def open_handlers_def)
qed (blast intro: server_step_inv outside_step_inv)+

subsection \<open>Draining\<close>

fun handler_work :: "handler_state \<Rightarrow> nat" where
  "handler_work Running = 3"
| "handler_work Registered = 2"
| "handler_work Leaving = 1"
| "handler_work Finished = 0"

fun shutdown_work :: "nat \<Rightarrow> shutdown_state \<Rightarrow> nat" where
  "shutdown_work n Serving = n + 3"
| "shutdown_work n Announced = n + 2"
| "shutdown_work n (Closing cs) = Suc (length cs)"
| "shutdown_work n ShutDown = 0"

fun wait_work :: "wait_state \<Rightarrow> nat" where
  "wait_work NotCalled = 2"
| "wait_work (Waiting c n) = 1"
| "wait_work _ = 0"

text \<open>The steps the server has left at most.\<close>

definition work :: "lifecycle \<Rightarrow> nat" where
  "work s = (\<Sum>h\<leftarrow>lf_handlers s. handler_work h) + shutdown_work (length (lf_handlers s)) (lf_shutdown s) + wait_work (lf_wait s)"

definition drained :: "lifecycle \<Rightarrow> bool" where
  "drained s \<longleftrightarrow> lf_shutdown s = ShutDown \<and> list_all (\<lambda>h. h = Finished) (lf_handlers s) \<and> rg_connections (lf_registry s) = []
     \<and> (case lf_wait s of Returned n \<Rightarrow> True | TimedOut \<Rightarrow> True | _ \<Rightarrow> False)"

lemma few_connections: "connections_inv r hs \<Longrightarrow> length (rg_connections r) \<le> length hs"
proof -
  assume inv: "connections_inv r hs"
  then have "set (rg_connections r) \<subseteq> {..<length hs}" by (auto simp: connections_inv_def)
  then have "card (set (rg_connections r)) \<le> length hs" using card_mono [of "{..<length hs}"] by fastforce
  with inv show ?thesis by (metis connections_inv_def distinct_card)
qed

lemma handler_work_less:
  "i < length hs \<Longrightarrow> handler_work h < handler_work (hs ! i) \<Longrightarrow> (\<Sum>h\<leftarrow>hs[i := h]. handler_work h) < (\<Sum>h\<leftarrow>hs. handler_work h)"
  using sum_update [of i hs handler_work h] by simp

lemma server_step_works: "drain_step s s' \<Longrightarrow> lifecycle_inv s \<Longrightarrow> work s' < work s"
proof (induction rule: drain_step.induct)
  case (finish i s a)
  then show ?case by (auto simp: work_def intro!: handler_work_less)
next
  case (close_registry s cs r)
  then show ?case using few_connections [of "lf_registry s" "lf_handlers s"]
    by (auto simp: work_def closeAll_def lifecycle_inv_def)
next
  case (close_one s cs c)
  then show ?case using length_pos_if_in_set [of c cs] by (simp add: work_def length_remove1)
qed (auto simp: work_def intro!: handler_work_less)

lemma server_step_stays: "drain_step s s' \<Longrightarrow> lf_shutdown s \<noteq> Serving \<Longrightarrow> lf_shutdown s' \<noteq> Serving"
  by (induction rule: drain_step.induct) auto

lemma server_run:
  assumes "(drain_step ^^ n) s s'" "lifecycle_inv s" "lf_shutdown s \<noteq> Serving"
  shows "n + work s' \<le> work s \<and> lifecycle_inv s' \<and> lf_shutdown s' \<noteq> Serving"
  using assms(1)
proof (induction n arbitrary: s')
  case 0
  with assms show ?case by simp
next
  case (Suc n)
  then obtain t where "(drain_step ^^ n) s t" and t: "drain_step t s'" by auto
  with Suc.IH have "n + work t \<le> work s" "lifecycle_inv t" "lf_shutdown t \<noteq> Serving" by blast+
  with server_step_works [OF t] server_step_inv [OF t] server_step_stays [OF t] show ?case by simp
qed

lemma stuck_drained:
  assumes inv: "lifecycle_inv s" and "lf_shutdown s \<noteq> Serving" and stuck: "\<nexists>s'. drain_step s s'"
  shows "drained s"
proof -
  have "lf_shutdown s = ShutDown"
  proof (cases "lf_shutdown s")
    case Announced
    with stuck close_registry show ?thesis by (metis surj_pair)
  next
    case (Closing cs)
    with stuck close_one shut_down show ?thesis by (cases cs) (metis, metis list.set_intros(1))
  qed (use assms(2) in simp_all)
  moreover have finished: "lf_handlers s ! i = Finished" if "i < length (lf_handlers s)" for i
  proof (rule ccontr)
    assume "lf_handlers s ! i \<noteq> Finished"
    moreover from inv have "activity_inv (lf_activity s) (lf_handlers s)" by (simp add: lifecycle_inv_def)
    ultimately obtain a where "endRequest (lf_activity s) = Some a" using \<open>i < length (lf_handlers s)\<close> by (blast elim: end_activity)
    moreover have "i \<in> lf_gone s" if "lf_handlers s ! i = Registered"
      using inv that \<open>i < length (lf_handlers s)\<close> \<open>lf_shutdown s = ShutDown\<close> by (auto simp: lifecycle_inv_def connections_inv_def)
    ultimately show False using stuck that finish session_over \<open>lf_handlers s ! i \<noteq> Finished\<close>
      by (cases "lf_handlers s ! i") blast+
  qed
  moreover from inv have "set (rg_connections (lf_registry s)) = {i. i < length (lf_handlers s) \<and> lf_handlers s ! i = Registered}"
    by (simp add: lifecycle_inv_def connections_inv_def)
  with finished have "set (rg_connections (lf_registry s)) = {}" by auto
  then have "rg_connections (lf_registry s) = []" by simp
  moreover have "case lf_wait s of Returned n \<Rightarrow> True | TimedOut \<Rightarrow> True | _ \<Rightarrow> False"
  proof (cases "lf_wait s")
    case NotCalled
    with stuck wait_idle wait_busy show ?thesis by (cases "idle_channel (lf_activity s)") blast+
  next
    case (Waiting c n)
    from finished have "open_handlers (lf_handlers s) = 0" by (simp add: open_none)
    with inv Waiting have "av_closed (lf_activity s) ! c" by (simp add: lifecycle_inv_def activity_inv_def)
    with stuck Waiting woken show ?thesis by blast
  qed simp_all
  ultimately show ?thesis by (simp add: drained_def list_all_length)
qed

lemma drained_stuck: "drained s \<Longrightarrow> \<not> drain_step s s'"
proof
  assume "drained s" "drain_step s s'"
  from this(2,1) show False
    by cases (auto simp: drained_def list_all_length)
qed

subsection \<open>Properties\<close>

text \<open>
  Whatever the goroutines do in whatever order, when \<^verbatim>\<open>WaitForIdle\<close> returned without an error, every request accepted
  before the call has ended, its log included; and no handler that ends closes the idle channel a second time.
\<close>

lemma idle_means_ended:
  assumes "reached s"
  shows "(\<forall>n. lf_wait s = Returned n \<longrightarrow> n \<le> length (lf_handlers s) \<and> list_all (\<lambda>h. h = Finished) (take n (lf_handlers s)))
    \<and> (\<forall>i < length (lf_handlers s). lf_handlers s ! i \<in> {Running, Leaving} \<longrightarrow> endRequest (lf_activity s) \<noteq> None)"
proof -
  from assms have inv: "lifecycle_inv s" by (rule reached_inv)
  then have "activity_inv (lf_activity s) (lf_handlers s)" by (simp add: lifecycle_inv_def)
  from end_activity [OF this] have "endRequest (lf_activity s) \<noteq> None"
    if "i < length (lf_handlers s)" "lf_handlers s ! i \<in> {Running, Leaving}" for i
    using that by (metis handler_state.distinct(5,11) insert_iff option.distinct(1) empty_iff)
  moreover from inv have "lf_wait s = Returned n \<longrightarrow> n \<le> length (lf_handlers s)
      \<and> list_all (\<lambda>h. h = Finished) (take n (lf_handlers s))" for n
    by (auto simp: lifecycle_inv_def list_all_length)
  ultimately show ?thesis by blast
qed

text \<open>C28.
  A shutdown ends: once \<^verbatim>\<open>BeginShutdown\<close> has begun, the server can take at most \<open>work s\<close> further steps, whatever their order and
  without any help of its clients; and when none is left to take, every connection is closed, every accepted request
  has ended and \<^verbatim>\<open>WaitForIdle\<close> has returned. No wake-up and no connection that registers late is lost.
\<close>

theorem shutdown_drains:
  assumes "reached s" "lf_shutdown s \<noteq> Serving" "(drain_step ^^ n) s s'"
  shows "n \<le> work s \<and> ((\<nexists>t. drain_step s' t) \<longrightarrow> drained s')"
  using server_run [OF assms(3) reached_inv [OF assms(1)] assms(2)] stuck_drained by auto

subsection \<open>A session and its shutdown\<close>

definition one_session :: lifecycle where
  "one_session = \<lparr>lf_activity = \<lparr>av_activeRequests = 1, av_shuttingDown = True, av_idle = 1, av_closed = [True, False]\<rparr>,
     lf_registry = \<lparr>rg_connections = [0], rg_closed = False\<rparr>, lf_handlers = [Registered], lf_gone = {},
     lf_shutdown = Announced, lf_wait = NotCalled\<rparr>"

lemma one_session_reached: "reached one_session"
proof -
  let ?a = "snd (beginRequest new_activity)"
  have "outside_step new_service (new_service\<lparr>lf_activity := ?a, lf_handlers := [Running]\<rparr>)" (is "outside_step _ ?s1")
    using accept [of new_service ?a] by (simp add: new_service_def new_activity_def beginRequest_def Let_def)
  moreover have "drain_step ?s1 (?s1\<lparr>lf_registry := \<lparr>rg_connections = [0], rg_closed = False\<rparr>, lf_handlers := [Registered]\<rparr>)"
    (is "drain_step _ ?s2")
    using register [of 0 ?s1 "\<lparr>rg_connections = [0], rg_closed = False\<rparr>"] by (simp add: new_service_def registry_add_def)
  moreover have "outside_step ?s2 one_session"
    using announce [of ?s2] by (simp add: one_session_def new_service_def new_activity_def beginRequest_def Let_def)
  ultimately show ?thesis using reached.intros by metis
qed

definition waiting_session :: lifecycle where
  "waiting_session = one_session\<lparr>lf_wait := Waiting 1 1\<rparr>"

definition drained_session :: lifecycle where
  "drained_session = \<lparr>lf_activity = \<lparr>av_activeRequests = 0, av_shuttingDown = True, av_idle = 1, av_closed = [True, True]\<rparr>,
     lf_registry = \<lparr>rg_connections = [], rg_closed = True\<rparr>, lf_handlers = [Finished], lf_gone = {0},
     lf_shutdown = ShutDown, lf_wait = Returned 1\<rparr>"

lemma session_run: "(drain_step ^^ 7) one_session drained_session"
proof -
  define s1 where "s1 = one_session\<lparr>lf_wait := Waiting 1 1\<rparr>"
  define s2 where "s2 = s1\<lparr>lf_registry := \<lparr>rg_connections = [0], rg_closed = True\<rparr>, lf_shutdown := Closing [0]\<rparr>"
  define s3 where "s3 = s2\<lparr>lf_gone := {0}, lf_shutdown := Closing []\<rparr>"
  define s4 where "s4 = s3\<lparr>lf_shutdown := ShutDown\<rparr>"
  define s5 where "s5 = s4\<lparr>lf_registry := \<lparr>rg_connections = [], rg_closed = True\<rparr>, lf_handlers := [Leaving]\<rparr>"
  define s6 where "s6 = s5\<lparr>lf_activity := \<lparr>av_activeRequests = 0, av_shuttingDown = True, av_idle = 1, av_closed = [True, True]\<rparr>,
    lf_handlers := [Finished]\<rparr>"
  note defs = s1_def s2_def s3_def s4_def s5_def s6_def one_session_def drained_session_def
  have "drain_step one_session s1"
    using wait_busy [of one_session 1] by (simp add: defs idle_channel_def)
  moreover have "drain_step s1 s2"
    using close_registry [of s1 "[0]" "\<lparr>rg_connections = [0], rg_closed = True\<rparr>"] by (simp add: defs closeAll_def)
  moreover have "drain_step s2 s3" using close_one [of s2 "[0]" 0] by (simp add: defs)
  moreover have "drain_step s3 s4" using shut_down [of s3] by (simp add: defs)
  moreover have "drain_step s4 s5" using session_over [of 0 s4] by (simp add: defs registry_remove_def)
  moreover have "drain_step s5 s6"
    using finish [of 0 s5] by (simp add: defs endRequest_def close_channel_def Let_def)
  moreover have "drain_step s6 drained_session" using woken [of s6 1 1] by (simp add: defs)
  ultimately show ?thesis by (simp add: eval_nat_numeral) (blast intro: relcomppI)
qed

lemma drained_sample: "drained drained_session"
  by (simp add: drained_def drained_session_def)

lemma idle_means_ended_witness:
  "reached drained_session \<and> lf_wait drained_session = Returned 1 \<and> list_all (\<lambda>h. h = Finished) (take 1 (lf_handlers drained_session))"
proof -
  have "reached s'" if "(drain_step ^^ n) one_session s'" for n s'
    using that by (induction n arbitrary: s') (auto intro: one_session_reached reached.intros(2))
  with session_run have r: "reached drained_session" by blast
  with idle_means_ended [OF r] show ?thesis by (simp add: drained_session_def)
qed

theorem shutdown_drains_witness:
  "\<exists>s'. (drain_step ^^ 7) one_session s' \<and> 7 \<le> work one_session \<and> drained s'"
proof -
  have "lf_shutdown one_session \<noteq> Serving" by (simp add: one_session_def)
  from shutdown_drains [OF one_session_reached this session_run] drained_stuck [OF drained_sample]
  show ?thesis using session_run by blast
qed

end
