(* ===== verification/GoJson.thy ===== *)
theory GoJson
  imports GoRuntime "HOL-Library.AList"
begin

text \<open>
  JSON as the proxy handles it after decoding into Go's \<^verbatim>\<open>any\<close>: numbers keep their text
  (\<^verbatim>\<open>UseNumber\<close>), an object is an association list in which the first entry of a key counts.
  A missing key and \<^verbatim>\<open>null\<close> are the same to \<^verbatim>\<open>m[k] == nil\<close>.
\<close>

datatype gj =
    JNull
  | JBool bool
  | JNum gostring
  | JStr gostring
  | JArr "gj list"
  | JObj "(gostring \<times> gj) list"

type_synonym gobj = "(gostring \<times> gj) list"

definition index_nil :: "gobj \<Rightarrow> gostring \<Rightarrow> gj" where
  "index_nil m k = (case map_of m k of None \<Rightarrow> JNull | Some v \<Rightarrow> v)"

text \<open>\<^verbatim>\<open>v, _ := x.(T)\<close>: the value of the type, or the zero value.\<close>

definition str_of :: "gj \<Rightarrow> gostring" where
  "str_of v = (case v of JStr s \<Rightarrow> s | _ \<Rightarrow> [])"

definition bool_of :: "gj \<Rightarrow> bool" where
  "bool_of v = (case v of JBool b \<Rightarrow> b | _ \<Rightarrow> False)"

definition obj_of :: "gj \<Rightarrow> gobj option" where
  "obj_of v = (case v of JObj m \<Rightarrow> Some m | _ \<Rightarrow> None)"

definition arr_of :: "gj \<Rightarrow> gj list option" where
  "arr_of v = (case v of JArr xs \<Rightarrow> Some xs | _ \<Rightarrow> None)"

abbreviation put :: "gostring \<Rightarrow> gj \<Rightarrow> gobj \<Rightarrow> gobj" where
  "put k v m \<equiv> AList.update k v m"

abbreviation del :: "gostring \<Rightarrow> gobj \<Rightarrow> gobj" where
  "del k m \<equiv> AList.delete k m"

text \<open>A change in place of the value under a key, if there is one.\<close>

definition at_key :: "gostring \<Rightarrow> (gj \<Rightarrow> gj) \<Rightarrow> gobj \<Rightarrow> gobj" where
  "at_key k f m = (case map_of m k of None \<Rightarrow> m | Some v \<Rightarrow> put k (f v) m)"

definition on_objects :: "(gobj \<Rightarrow> gobj) \<Rightarrow> gj \<Rightarrow> gj" where
  "on_objects f v = (case v of JObj m \<Rightarrow> JObj (f m) | _ \<Rightarrow> v)"

definition on_elements :: "(gj \<Rightarrow> gj) \<Rightarrow> gj \<Rightarrow> gj" where
  "on_elements f v = (case v of JArr xs \<Rightarrow> JArr (map f xs) | _ \<Rightarrow> v)"

subsection \<open>Lookup after changes\<close>

lemma map_of_put [simp]: "map_of (put k v m) j = (if j = k then Some v else map_of m j)"
  by (simp add: update_conv')

lemma map_of_del [simp]: "map_of (del k m) j = (if j = k then None else map_of m j)"
  by (simp add: delete_conv')

lemma map_of_at_key [simp]:
  "map_of (at_key k f m) j = (if j = k then map_option f (map_of m k) else map_of m j)"
  by (simp add: at_key_def split: option.split)

text \<open>Changes that change nothing.\<close>

lemma put_same: "map_of m k = Some v \<Longrightarrow> put k v m = m"
  by (induction m) (auto split: if_splits)

lemma del_absent: "map_of m k = None \<Longrightarrow> del k m = m"
  by (induction m) (auto split: if_splits)

lemma at_key_same: "(\<And>v. map_of m k = Some v \<Longrightarrow> f v = v) \<Longrightarrow> at_key k f m = m"
  by (simp add: at_key_def put_same split: option.split)

lemma on_objects_idem: "(\<And>m. f (f m) = f m) \<Longrightarrow> on_objects f (on_objects f v) = on_objects f v"
  by (cases v) (simp_all add: on_objects_def)

lemma on_elements_idem: "(\<And>v. f (f v) = f v) \<Longrightarrow> on_elements f (on_elements f v) = on_elements f v"
  by (cases v) (simp_all add: on_elements_def)

lemma at_key_idem: "(\<And>v. f (f v) = f v) \<Longrightarrow> at_key k f (at_key k f m) = at_key k f m"
  by (rule at_key_same) auto

end
