(* ===== verification/Identity.thy ===== *)
theory Identity
  imports GoJson
begin

text \<open>
  \<^verbatim>\<open>internal/proxy/identity.go\<close>: the identity of a conversation towards the upstream. With remapping
  on, every identifier of the client is replaced by a pseudonym, and answers have the pseudonyms
  replaced back. HMAC and the JSON of turn metadata are fields of \<open>identity_lib\<close>. Bodies are
  decoded objects. The compiled matcher of \<^verbatim>\<open>exposePayload\<close> is a cache that every new mapping
  clears; it is left out. An error ends the request, but what was remembered before it stays in
  the identity, so the identity is returned next to the error.
\<close>

subsection \<open>The library\<close>

record identity_lib =
  il_hmac :: "gostring \<Rightarrow> gostring \<Rightarrow> gostring"
  il_parse :: "gostring \<Rightarrow> gobj option"
  il_encode :: "gobj \<Rightarrow> gostring"
  il_quote :: "gostring \<Rightarrow> gostring"
  il_fold :: "gostring \<Rightarrow> gostring"

subsection \<open>Values\<close>

definition byte :: "char \<Rightarrow> nat" where
  "byte c = of_char c"

definition within_bytes :: "nat \<Rightarrow> nat \<Rightarrow> char \<Rightarrow> bool" where
  "within_bytes a b c \<longleftrightarrow> a \<le> byte c \<and> byte c \<le> b"

abbreviation continuation :: "char \<Rightarrow> bool" where
  "continuation \<equiv> within_bytes 0x80 0xBF"

text \<open>\<^verbatim>\<open>utf8.ValidString\<close>.\<close>

definition utf8_length :: "gostring \<Rightarrow> nat" where
  "utf8_length s =
     (case s of
        [] \<Rightarrow> 0
      | c # r \<Rightarrow>
          if within_bytes 0 0x7F c then 1
          else if within_bytes 0xC2 0xDF c \<and> length r \<ge> 1 \<and> continuation (r ! 0) then 2
          else if within_bytes 0xE0 0xEF c \<and> length r \<ge> 2
            \<and> within_bytes (if byte c = 0xE0 then 0xA0 else 0x80) (if byte c = 0xED then 0x9F else 0xBF) (r ! 0)
            \<and> continuation (r ! 1) then 3
          else if within_bytes 0xF0 0xF4 c \<and> length r \<ge> 3
            \<and> within_bytes (if byte c = 0xF0 then 0x90 else 0x80) (if byte c = 0xF4 then 0x8F else 0xBF) (r ! 0)
            \<and> continuation (r ! 1) \<and> continuation (r ! 2) then 4
          else 0)"

function valid_utf8 :: "gostring \<Rightarrow> bool" where
  "valid_utf8 s =
     (if s = [] then True else if utf8_length s = 0 then False else valid_utf8 (drop (utf8_length s) s))"
  by pat_completeness auto
termination
  by (relation "measure length") auto

declare valid_utf8.simps [simp del]

definition maxIdentityBytes :: nat where
  "maxIdentityBytes = 1024"

definition maxIdentityMappings :: nat where
  "maxIdentityMappings = 256"

definition maxIdentityMappingBytes :: nat where
  "maxIdentityMappingBytes = 256 * 1024"

definition control :: "char \<Rightarrow> bool" where
  "control c \<longleftrightarrow> byte c = 13 \<or> byte c = 10 \<or> byte c = 0"

definition validIdentityValue :: "gostring \<Rightarrow> bool" where
  "validIdentityValue val0 =
     (let val = TrimSpace val0
      in val \<noteq> [] \<and> length val \<le> maxIdentityBytes \<and> valid_utf8 val \<and> \<not> list_ex control val)"

definition cleanIdentityValue :: "gostring \<Rightarrow> gostring" where
  "cleanIdentityValue val0 = (let val = TrimSpace val0 in if \<not> validIdentityValue val then [] else val)"

definition jsonString :: "gj \<Rightarrow> gostring" where
  "jsonString val = cleanIdentityValue (str_of val)"

subsection \<open>Pseudonyms\<close>

definition hex_char :: "nat \<Rightarrow> char" where
  "hex_char n = (if n < 10 then char_of (48 + n) else char_of (87 + n))"

definition hex_byte :: "nat \<Rightarrow> gostring" where
  "hex_byte n = [hex_char (n div 16), hex_char (n mod 16)]"

text \<open>\<^verbatim>\<open>copy\<close> into an array of sixteen zero bytes, then the version and variant bits.\<close>

definition uuid_bytes :: "gostring \<Rightarrow> nat list" where
  "uuid_bytes digest =
     (let raw = map (\<lambda>i. if i < length digest then byte (digest ! i) else 0) [0..<16]
      in raw[6 := raw ! 6 mod 16 + 0x50, 8 := raw ! 8 mod 64 + 0x80])"

definition uuid_string :: "nat list \<Rightarrow> gostring" where
  "uuid_string b =
     (let h = concat (map hex_byte b)
      in take 8 h @ ''-'' @ take 4 (drop 8 h) @ ''-'' @ take 4 (drop 12 h) @ ''-'' @ take 4 (drop 16 h) @ ''-'' @ drop 20 h)"

definition identityUUID :: "identity_lib \<Rightarrow> gostring \<Rightarrow> gostring \<Rightarrow> gostring \<Rightarrow> gostring" where
  "identityUUID il secret kind val =
     uuid_string (uuid_bytes
       (il_hmac il (''codexone:identity:'' @ TrimSpace secret) (TrimSpace kind @ [CHR 0x00] @ TrimSpace val)))"

definition stableSessionID :: "identity_lib \<Rightarrow> gostring \<Rightarrow> gostring" where
  "stableSessionID il apiKeyID =
     identityUUID il (TrimSpace apiKeyID) ''default-session'' (''codexone:prompt-cache:'' @ TrimSpace apiKeyID)"

subsection \<open>The identity and its mappings\<close>

datatype identity_error =
    NotAnObject
  | MustBeString gostring
  | InvalidOrTooLong gostring
  | SessionInvalid
  | CacheKeyChanged
  | MappingCollision
  | MappingBudget
  | ValueNotObject
  | Inside gostring identity_error

record codexIdentity =
  ci_remap :: bool
  ci_keyID :: gostring
  ci_clientSessionID :: gostring
  ci_upstreamSessionID :: gostring
  ci_reverse :: "(gostring \<times> gostring) list"
  ci_mappingBytes :: nat
  ci_mappingErr :: "identity_error option"

definition remember :: "gostring \<Rightarrow> gostring \<Rightarrow> codexIdentity \<Rightarrow> codexIdentity" where
  "remember upstream client i =
     (if upstream = [] \<or> client = [] \<or> upstream = client then i
      else if ci_mappingErr i \<noteq> None then i
      else (case map_of (ci_reverse i) upstream of
              Some existing \<Rightarrow> if existing \<noteq> client then i\<lparr>ci_mappingErr := Some MappingCollision\<rparr> else i
            | None \<Rightarrow>
                (let addedBytes = length upstream + length client
                 in if length (ci_reverse i) \<ge> maxIdentityMappings
                      \<or> ci_mappingBytes i + addedBytes > maxIdentityMappingBytes
                    then i\<lparr>ci_mappingErr := Some MappingBudget\<rparr>
                    else i\<lparr>ci_reverse := AList.update upstream client (ci_reverse i),
                           ci_mappingBytes := ci_mappingBytes i + addedBytes\<rparr>)))"

definition mapValue :: "identity_lib \<Rightarrow> gostring \<Rightarrow> gostring \<Rightarrow> codexIdentity \<Rightarrow> codexIdentity \<times> gostring" where
  "mapValue il kind val0 i =
     (let val = cleanIdentityValue val0
      in if val = [] \<or> \<not> ci_remap i then (i, val)
         else (let mapped = identityUUID il (ci_keyID i) kind val in (remember mapped val i, mapped)))"

text \<open>\<^verbatim>\<open>strings.LastIndex\<close> of a colon: what is before the last one, and the rest from it on.\<close>

definition split_last_colon :: "gostring \<Rightarrow> (gostring \<times> gostring) option" where
  "split_last_colon s =
     (let tail = takeWhile (\<lambda>c. c \<noteq> CHR '':'') (rev s)
      in if length tail = length s then None
         else (let index = length s - length tail - 1 in Some (take index s, drop index s)))"

definition mapWindow :: "identity_lib \<Rightarrow> gostring \<Rightarrow> codexIdentity \<Rightarrow> codexIdentity \<times> gostring" where
  "mapWindow il val0 i =
     (let val = cleanIdentityValue val0
      in if val = [] \<or> \<not> ci_remap i then (i, val)
         else
           (let (base, suffix) = (case split_last_colon val of
                                    Some (b, s) \<Rightarrow> if b \<noteq> [] then (b, s) else (val, [])
                                  | None \<Rightarrow> (val, []))
            in if base = ci_clientSessionID i \<and> ci_upstreamSessionID i \<noteq> []
               then (remember (ci_upstreamSessionID i @ suffix) val i, ci_upstreamSessionID i @ suffix)
               else (let (i', mapped) = mapValue il ''window'' base i in (i', mapped @ suffix))))"

definition mappingError :: "codexIdentity \<Rightarrow> 'a \<Rightarrow> codexIdentity \<times> (identity_error + 'a)" where
  "mappingError i v = (i, case ci_mappingErr i of Some e \<Rightarrow> Inl e | None \<Rightarrow> Inr v)"

subsection \<open>Metadata\<close>

definition and_then ::
  "codexIdentity \<times> (identity_error + 'a) \<Rightarrow> (codexIdentity \<Rightarrow> 'a \<Rightarrow> codexIdentity \<times> (identity_error + 'b)) \<Rightarrow>
     codexIdentity \<times> (identity_error + 'b)" where
  "and_then r f = (case snd r of Inl e \<Rightarrow> (fst r, Inl e) | Inr v \<Rightarrow> f (fst r) v)"

text \<open>One field of the client metadata: \<open>mapper\<close> is \<^verbatim>\<open>mapValue\<close> of its kind or \<^verbatim>\<open>mapWindow\<close>.\<close>

definition remap_field ::
  "(gostring \<Rightarrow> codexIdentity \<Rightarrow> codexIdentity \<times> gostring) \<Rightarrow> gostring \<Rightarrow> codexIdentity \<Rightarrow> gobj \<Rightarrow>
     codexIdentity \<times> (identity_error + gobj)" where
  "remap_field mapper name i metadata =
     (case map_of metadata name of
        None \<Rightarrow> (i, Inr metadata)
      | Some (JStr txt) \<Rightarrow>
          if TrimSpace txt = [] then (i, Inr metadata)
          else if \<not> validIdentityValue txt then (i, Inl (InvalidOrTooLong (''client_metadata.'' @ name)))
          else (let (i', mapped) = mapper txt i in (i', Inr (put name (JStr mapped) metadata)))
      | Some _ \<Rightarrow> (i, Inl (MustBeString (''client_metadata.'' @ name))))"

text \<open>One field of the turn metadata, where a wrong type has the message of an invalid value.\<close>

definition remap_turn_field ::
  "(gostring \<Rightarrow> codexIdentity \<Rightarrow> codexIdentity \<times> gostring) \<Rightarrow> gostring \<Rightarrow> codexIdentity \<Rightarrow> gobj \<Rightarrow>
     codexIdentity \<times> (identity_error + gobj)" where
  "remap_turn_field mapper name i metadata =
     (case map_of metadata name of
        None \<Rightarrow> (i, Inr metadata)
      | Some (JStr txt) \<Rightarrow>
          if TrimSpace txt = [] then (i, Inr metadata)
          else if \<not> validIdentityValue txt then (i, Inl (InvalidOrTooLong name))
          else (let (i', mapped) = mapper txt i in (i', Inr (put name (JStr mapped) metadata)))
      | Some _ \<Rightarrow> (i, Inl (InvalidOrTooLong name)))"

fun fields ::
  "(codexIdentity \<Rightarrow> gobj \<Rightarrow> codexIdentity \<times> (identity_error + gobj)) list \<Rightarrow> codexIdentity \<Rightarrow> gobj \<Rightarrow>
     codexIdentity \<times> (identity_error + gobj)" where
  "fields [] i m = (i, Inr m)"
| "fields (f # fs) i m = and_then (f i m) (fields fs)"

definition turn_cache_key :: "codexIdentity \<Rightarrow> gobj \<Rightarrow> codexIdentity \<times> (identity_error + gobj)" where
  "turn_cache_key i metadata =
     (case map_of metadata ''prompt_cache_key'' of
        None \<Rightarrow> (i, Inr metadata)
      | Some (JStr txt) \<Rightarrow>
          if TrimSpace txt \<noteq> [] \<and> \<not> validIdentityValue txt then (i, Inl (InvalidOrTooLong ''prompt_cache_key''))
          else (i, Inr (if ci_upstreamSessionID i \<noteq> []
                        then put ''prompt_cache_key'' (JStr (ci_upstreamSessionID i)) metadata else metadata))
      | Some _ \<Rightarrow> (i, Inl (InvalidOrTooLong ''prompt_cache_key'')))"

definition remapTurnMetadata ::
  "identity_lib \<Rightarrow> gostring \<Rightarrow> codexIdentity \<Rightarrow> codexIdentity \<times> (identity_error + gostring)" where
  "remapTurnMetadata il raw i =
     (if \<not> ci_remap i \<or> TrimSpace raw = [] then (i, Inr raw)
      else if length raw > maxIdentityBytes * 8 then (i, Inl (InvalidOrTooLong ''value''))
      else (case il_parse il raw of
              None \<Rightarrow> (i, Inl ValueNotObject)
            | Some metadata \<Rightarrow>
                and_then (fields [turn_cache_key,
                    remap_turn_field (mapValue il ''turn'') ''turn_id'',
                    remap_turn_field (mapValue il ''thread'') ''thread_id'',
                    remap_turn_field (mapWindow il) ''window_id''] i metadata)
                  (\<lambda>i' m. mappingError i' (il_encode il m))))"

definition session_field :: "gostring \<Rightarrow> codexIdentity \<Rightarrow> gobj \<Rightarrow> codexIdentity \<times> (identity_error + gobj)" where
  "session_field name i metadata =
     (i, Inr (if map_of metadata name \<noteq> None \<and> ci_upstreamSessionID i \<noteq> []
              then put name (JStr (ci_upstreamSessionID i)) metadata else metadata))"

definition turn_field ::
  "identity_lib \<Rightarrow> gostring \<Rightarrow> codexIdentity \<Rightarrow> gobj \<Rightarrow> codexIdentity \<times> (identity_error + gobj)" where
  "turn_field il name i metadata =
     (case map_of metadata name of
        None \<Rightarrow> (i, Inr metadata)
      | Some (JStr txt) \<Rightarrow>
          (case remapTurnMetadata il txt i of
             (i', Inl e) \<Rightarrow> (i', Inl (Inside (''client_metadata.'' @ name) e))
           | (i', Inr mapped) \<Rightarrow> (i', Inr (put name (JStr mapped) metadata)))
      | Some _ \<Rightarrow> (i, Inl (MustBeString (''client_metadata.'' @ name))))"

definition remapClientMetadata ::
  "identity_lib \<Rightarrow> gobj \<Rightarrow> codexIdentity \<Rightarrow> codexIdentity \<times> (identity_error + gobj)" where
  "remapClientMetadata il metadata i =
     (if \<not> ci_remap i then (i, Inr metadata)
      else and_then (fields
          ([remap_field (mapValue il ''installation'') ''x-codex-installation-id'',
            remap_field (mapValue il ''installation'') ''installation_id'',
            remap_field (mapValue il ''request'') ''x-client-request-id'',
            remap_field (mapValue il ''request'') ''request_id'',
            remap_field (mapValue il ''thread'') ''thread_id'',
            remap_field (mapValue il ''thread'') ''x-codex-thread-id'',
            remap_field (mapWindow il) ''x-codex-window-id'',
            remap_field (mapWindow il) ''window_id''] @
           map session_field [''session_id'', ''x-codex-session-id'', ''prompt_cache_key''] @
           map (turn_field il) [''x-codex-turn-metadata'', ''turn_metadata'']) i metadata)
        mappingError)"

definition identityStringField :: "gobj \<Rightarrow> gostring \<Rightarrow> identity_error + gostring" where
  "identityStringField object name =
     (case index_nil object name of
        JNull \<Rightarrow> Inr []
      | JStr txt0 \<Rightarrow>
          (let txt = TrimSpace txt0
           in if txt = [] then Inr [] else if \<not> validIdentityValue txt then Inl (InvalidOrTooLong name) else Inr txt)
      | _ \<Rightarrow> Inl (MustBeString name))"

text \<open>An existing identity applied to the body of a request. \<open>fixed\<close>: on a WebSocket.\<close>

definition prepareBody ::
  "identity_lib \<Rightarrow> bool \<Rightarrow> gj \<Rightarrow> codexIdentity \<Rightarrow> codexIdentity \<times> (identity_error + gobj)" where
  "prepareBody il fixed body i =
     (case obj_of body of
        None \<Rightarrow> (i, Inl NotAnObject)
      | Some object0 \<Rightarrow>
          (case identityStringField object0 ''prompt_cache_key'' of
             Inl e \<Rightarrow> (i, Inl e)
           | Inr explicitSession \<Rightarrow>
               if fixed \<and> explicitSession \<noteq> [] \<and> explicitSession \<noteq> ci_clientSessionID i
                 \<and> explicitSession \<noteq> ci_upstreamSessionID i
               then (i, Inl CacheKeyChanged)
               else
                 (let object = (if ci_upstreamSessionID i \<noteq> []
                                then put ''prompt_cache_key'' (JStr (ci_upstreamSessionID i)) object0 else object0)
                  in case obj_of (index_nil object ''client_metadata'') of
                       None \<Rightarrow> mappingError i object
                     | Some metadata \<Rightarrow>
                         and_then (remapClientMetadata il metadata i)
                           (\<lambda>i' m. mappingError i' (put ''client_metadata'' (JObj m) object)))))"

subsection \<open>Headers\<close>

text \<open>\<^verbatim>\<open>http.Header\<close>: a map from names to values, in the order in which a loop meets the names.\<close>

type_synonym headers = "(gostring \<times> gostring list) list"

text \<open>\<^verbatim>\<open>textproto.CanonicalMIMEHeaderKey\<close> of a name made of letters, digits, \<^verbatim>\<open>-\<close> and \<^verbatim>\<open>_\<close>.\<close>

definition upper_char :: "char \<Rightarrow> char" where
  "upper_char c = (if within_bytes 97 122 c then char_of (byte c - 32) else c)"

fun canonical_from :: "bool \<Rightarrow> gostring \<Rightarrow> gostring" where
  "canonical_from up [] = []"
| "canonical_from up (c # s) = (if up then upper_char c else lower_char c) # canonical_from (c = CHR ''-'') s"

definition canonical_key :: "gostring \<Rightarrow> gostring" where
  "canonical_key name = canonical_from True name"

definition header_get :: "headers \<Rightarrow> gostring \<Rightarrow> gostring" where
  "header_get h name = (case map_of h (canonical_key name) of Some (v # _) \<Rightarrow> v | _ \<Rightarrow> [])"

definition header_set :: "gostring \<Rightarrow> gostring \<Rightarrow> headers \<Rightarrow> headers" where
  "header_set name val h = AList.update (canonical_key name) [val] h"

definition deleteHeaderFold :: "identity_lib \<Rightarrow> gostring \<Rightarrow> headers \<Rightarrow> headers" where
  "deleteHeaderFold il name h = filter (\<lambda>(key, vs). il_fold il key \<noteq> il_fold il name) h"

definition first_clean :: "gostring list \<Rightarrow> gostring" where
  "first_clean vs = (case List.find (\<lambda>v. cleanIdentityValue v \<noteq> []) vs of Some v \<Rightarrow> cleanIdentityValue v | None \<Rightarrow> [])"

definition headerValueFold :: "identity_lib \<Rightarrow> headers \<Rightarrow> gostring \<Rightarrow> gostring" where
  "headerValueFold il h name =
     first_clean (concat (map snd (filter (\<lambda>(key, vs). il_fold il key = il_fold il name) h)))"

definition firstSessionHeader :: "identity_lib \<Rightarrow> headers \<Rightarrow> gostring" where
  "firstSessionHeader il h =
     first_clean (map (headerValueFold il h) [''Session-Id'', ''Session_id'', ''session_id'', ''Conversation_id''])"

definition copyCodexContextHeaders :: "headers \<Rightarrow> headers \<Rightarrow> headers" where
  "copyCodexContextHeaders target source =
     fold (\<lambda>name t.
         let val = TrimSpace (header_get source name)
         in if val \<noteq> [] \<and> \<not> list_ex (\<lambda>c. byte c = 13 \<or> byte c = 10) val then header_set name val t else t)
       [''X-Codex-Beta-Features'', ''X-Codex-Turn-Metadata'', ''X-Client-Request-Id'', ''X-Codex-Window-Id'',
        ''X-Codex-Turn-State'', ''X-ResponsesAPI-Include-Timing-Metrics'', ''Thread-Id'', ''Session-Id'',
        ''Session_id'', ''Conversation_id'', ''X-OpenAI-Internal-Codex-Responses-Lite''] target"

definition session_headers :: "identity_lib \<Rightarrow> bool \<Rightarrow> headers \<Rightarrow> codexIdentity \<Rightarrow> headers \<Rightarrow> headers" where
  "session_headers il websocketTransport source i target =
     (if ci_upstreamSessionID i = [] then target
      else
        (let t = fold (deleteHeaderFold il) [''Session-Id'', ''Session_id'', ''session_id'', ''Conversation_id''] target;
             sid = ci_upstreamSessionID i
         in if websocketTransport
            then AList.update ''Conversation_id'' [sid] (AList.update ''session_id'' [sid] t)
            else (let t' = header_set ''Session-Id'' sid t
                  in if headerValueFold il source ''Conversation_id'' \<noteq> []
                     then AList.update ''Conversation_id'' [sid] t' else t')))"

text \<open>A header with an identifier of the client, if the client sent it.\<close>

definition header_field ::
  "(gostring \<Rightarrow> codexIdentity \<Rightarrow> codexIdentity \<times> (identity_error + gostring)) \<Rightarrow> headers \<Rightarrow> gostring \<Rightarrow>
     codexIdentity \<Rightarrow> headers \<Rightarrow> codexIdentity \<times> (identity_error + headers)" where
  "header_field mapper source name i target =
     (let raw = TrimSpace (header_get source name)
      in if raw = [] then (i, Inr target)
         else and_then (mapper raw i) (\<lambda>i' mapped. (i', Inr (header_set name mapped target))))"

definition cleaned ::
  "(gostring \<Rightarrow> codexIdentity \<Rightarrow> codexIdentity \<times> gostring) \<Rightarrow> gostring \<Rightarrow> gostring \<Rightarrow> codexIdentity \<Rightarrow>
     codexIdentity \<times> (identity_error + gostring)" where
  "cleaned mapper name raw i =
     (let val = cleanIdentityValue raw
      in if val = [] then (i, Inl (InvalidOrTooLong name))
         else (let (i', mapped) = mapper val i in (i', Inr mapped)))"

definition metadata_header ::
  "identity_lib \<Rightarrow> gostring \<Rightarrow> codexIdentity \<Rightarrow> codexIdentity \<times> (identity_error + gostring)" where
  "metadata_header il raw i =
     (case remapTurnMetadata il raw i of
        (i', Inl e) \<Rightarrow> (i', Inl (Inside ''X-Codex-Turn-Metadata'' e))
      | (i', Inr mapped) \<Rightarrow> (i', Inr mapped))"

definition applyHeaders ::
  "identity_lib \<Rightarrow> headers \<Rightarrow> headers \<Rightarrow> bool \<Rightarrow> codexIdentity \<Rightarrow> codexIdentity \<times> (identity_error + headers)" where
  "applyHeaders il target source websocketTransport i =
     (let t = session_headers il websocketTransport source i target
      in if \<not> ci_remap i then mappingError i t
         else
           and_then (header_field (cleaned (mapValue il ''request'') ''X-Client-Request-Id'') source ''X-Client-Request-Id'' i t)
             (\<lambda>i1 t1. and_then (header_field (cleaned (mapValue il ''thread'') ''Thread-Id'') source ''Thread-Id'' i1 t1)
             (\<lambda>i2 t2. and_then (header_field (cleaned (mapWindow il) ''X-Codex-Window-Id'') source ''X-Codex-Window-Id'' i2 t2)
             (\<lambda>i3 t3. and_then (header_field (metadata_header il) source ''X-Codex-Turn-Metadata'' i3 t3) mappingError))))"

subsection \<open>A new identity\<close>

definition promptCacheFromTurnMetadata :: "identity_lib \<Rightarrow> gostring \<Rightarrow> gostring" where
  "promptCacheFromTurnMetadata il raw =
     (if TrimSpace raw = [] \<or> length raw > maxIdentityBytes * 8 then []
      else (case il_parse il raw of
              None \<Rightarrow> []
            | Some m \<Rightarrow> cleanIdentityValue (str_of (index_nil m ''prompt_cache_key''))))"

definition trim_suffix :: "gostring \<Rightarrow> gostring \<Rightarrow> gostring" where
  "trim_suffix s p = (if suffix p s then take (length s - length p) s else s)"

definition clientMetadataSession :: "gobj \<Rightarrow> gostring" where
  "clientMetadataSession object =
     (let metadata = (case obj_of (index_nil object ''client_metadata'') of Some m \<Rightarrow> m | None \<Rightarrow> [])
      in case List.find (\<lambda>name. jsonString (index_nil metadata name) \<noteq> [])
           [''session_id'', ''x-codex-session-id'', ''prompt_cache_key'', ''thread_id'', ''x-codex-window-id''] of
           Some name \<Rightarrow> trim_suffix (jsonString (index_nil metadata name)) '':0''
         | None \<Rightarrow> [])"

text \<open>The session the client names: in the body, the headers, or its metadata, in this order.\<close>

definition client_session :: "identity_lib \<Rightarrow> headers \<Rightarrow> gobj \<Rightarrow> gostring \<Rightarrow> gostring" where
  "client_session il clientHeaders object bodySessionID =
     firstNonEmpty [bodySessionID, firstSessionHeader il clientHeaders,
       promptCacheFromTurnMetadata il (header_get clientHeaders ''X-Codex-Turn-Metadata''),
       cleanIdentityValue (header_get clientHeaders ''Thread-Id''), clientMetadataSession object]"

definition fresh_identity :: "identity_lib \<Rightarrow> bool \<Rightarrow> gostring \<Rightarrow> gostring \<Rightarrow> codexIdentity" where
  "fresh_identity il remap keyID clientSessionID =
     (let i0 = \<lparr>ci_remap = remap, ci_keyID = keyID, ci_clientSessionID = clientSessionID, ci_upstreamSessionID = [],
             ci_reverse = [], ci_mappingBytes = 0, ci_mappingErr = None\<rparr>
      in if clientSessionID \<noteq> []
         then (let (i, sid) = mapValue il ''prompt-cache'' clientSessionID i0 in i\<lparr>ci_upstreamSessionID := sid\<rparr>)
         else if keyID \<noteq> [] then i0\<lparr>ci_upstreamSessionID := stableSessionID il keyID\<rparr>
         else i0)"

definition newCodexIdentity ::
  "identity_lib \<Rightarrow> gostring option \<Rightarrow> headers \<Rightarrow> gj \<Rightarrow> bool \<Rightarrow> identity_error + codexIdentity" where
  "newCodexIdentity il key clientHeaders body remap =
     (case obj_of body of
        None \<Rightarrow> Inl NotAnObject
      | Some object \<Rightarrow>
          (case identityStringField object ''prompt_cache_key'' of
             Inl e \<Rightarrow> Inl e
           | Inr bodySessionID \<Rightarrow>
               (let keyID = (case key of Some k \<Rightarrow> TrimSpace k | None \<Rightarrow> []);
                    clientSessionID = client_session il clientHeaders object bodySessionID
                in if clientSessionID \<noteq> [] \<and> \<not> validIdentityValue clientSessionID then Inl SessionInvalid
                   else
                     (let i = fresh_identity il remap keyID clientSessionID
                      in case ci_mappingErr i of Some e \<Rightarrow> Inl e | None \<Rightarrow> Inr i))))"

definition prepareRequestIdentity ::
  "identity_lib \<Rightarrow> gostring option \<Rightarrow> headers \<Rightarrow> gj \<Rightarrow> bool \<Rightarrow> identity_error + gobj \<times> codexIdentity" where
  "prepareRequestIdentity il key clientHeaders body remap =
     (case newCodexIdentity il key clientHeaders body remap of
        Inl e \<Rightarrow> Inl e
      | Inr i \<Rightarrow>
          (case prepareBody il False body i of
             (i', Inl e) \<Rightarrow> Inl e
           | (i', Inr b) \<Rightarrow> Inr (b, i')))"

subsection \<open>Answers\<close>

text \<open>
  \<^verbatim>\<open>exposePayload\<close>: the alternation of the quoted pseudonyms, longest first, is replaced where it
  matches leftmost. \<open>il_quote\<close> is the JSON text of a string without its quotation marks.
\<close>

definition matchers :: "identity_lib \<Rightarrow> codexIdentity \<Rightarrow> (gostring \<times> gostring) list" where
  "matchers il i =
     rev (sort_key (\<lambda>(key, r). length key) (map (\<lambda>(up, client). (il_quote il up, il_quote il client)) (ci_reverse i)))"

definition match_at :: "(gostring \<times> gostring) list \<Rightarrow> gostring \<Rightarrow> (gostring \<times> gostring) option" where
  "match_at ms s = List.find (\<lambda>(key, r). key \<noteq> [] \<and> prefix key s) ms"

function replace_all :: "(gostring \<times> gostring) list \<Rightarrow> gostring \<Rightarrow> gostring" where
  "replace_all ms [] = []"
| "replace_all ms (c # s) =
     (case match_at ms (c # s) of
        None \<Rightarrow> c # replace_all ms s
      | Some (key, r) \<Rightarrow> r @ replace_all ms (drop (length key) (c # s)))"
  by pat_completeness auto
termination
  by (relation "measure (\<lambda>(ms, s). length s)") (auto simp: match_at_def dest!: find_Some_in)

declare replace_all.simps(2) [simp del]

definition exposePayload :: "identity_lib \<Rightarrow> codexIdentity \<Rightarrow> gostring \<Rightarrow> gostring" where
  "exposePayload il i payload = (if ci_reverse i = [] then payload else replace_all (matchers il i) payload)"

subsection \<open>Growth of an identity\<close>

text \<open>The mappings of an identity: bounded, counted, and a function from pseudonyms to values.\<close>

definition mapping_size :: "(gostring \<times> gostring) list \<Rightarrow> nat" where
  "mapping_size r = sum_list (map (\<lambda>(up, client). length up + length client) r)"

definition map_inv :: "codexIdentity \<Rightarrow> bool" where
  "map_inv i \<longleftrightarrow>
     distinct (map fst (ci_reverse i)) \<and> length (ci_reverse i) \<le> maxIdentityMappings \<and>
     ci_mappingBytes i = mapping_size (ci_reverse i) \<and> ci_mappingBytes i \<le> maxIdentityMappingBytes \<and>
     (\<forall>(up, client) \<in> set (ci_reverse i). up \<noteq> [] \<and> client \<noteq> [] \<and> up \<noteq> client)"

definition grows :: "codexIdentity \<Rightarrow> codexIdentity \<Rightarrow> bool" where
  "grows i i' \<longleftrightarrow>
     ci_remap i' = ci_remap i \<and> ci_keyID i' = ci_keyID i \<and> ci_clientSessionID i' = ci_clientSessionID i \<and>
     ci_upstreamSessionID i' = ci_upstreamSessionID i \<and>
     map_of (ci_reverse i) \<subseteq>\<^sub>m map_of (ci_reverse i') \<and> (map_inv i \<longrightarrow> map_inv i') \<and>
     (ci_mappingErr i \<noteq> None \<longrightarrow> i' = i)"

lemma grows_refl [simp]: "grows i i"
  by (simp add: grows_def)

lemma grows_trans: "grows i j \<Longrightarrow> grows j k \<Longrightarrow> grows i k"
  by (auto simp: grows_def intro: map_le_trans)

lemma grows_same:
  "grows i i' \<Longrightarrow> ci_upstreamSessionID i' = ci_upstreamSessionID i"
  "grows i i' \<Longrightarrow> ci_clientSessionID i' = ci_clientSessionID i"
  "grows i i' \<Longrightarrow> ci_remap i' = ci_remap i"
  "grows i i' \<Longrightarrow> ci_keyID i' = ci_keyID i"
  by (simp_all add: grows_def)

lemma grows_err: "grows i i' \<Longrightarrow> ci_mappingErr i' = None \<Longrightarrow> ci_mappingErr i = None"
  by (auto simp: grows_def)

lemma grows_keeps: "grows i i' \<Longrightarrow> map_of (ci_reverse i) u = Some c \<Longrightarrow> map_of (ci_reverse i') u = Some c"
  by (auto simp: grows_def map_le_def dom_def)

lemma update_absent: "map_of xs k = None \<Longrightarrow> AList.update k v xs = xs @ [(k, v)]"
  by (induction xs) (auto split: if_splits)

lemma remember_inv: "map_inv i \<Longrightarrow> map_inv (remember up client i)"
  by (auto simp: remember_def map_inv_def Let_def update_absent mapping_size_def map_of_eq_None_iff
      split: option.split)

lemma remember_same [simp]:
  "ci_remap (remember up client i) = ci_remap i" "ci_keyID (remember up client i) = ci_keyID i"
  "ci_clientSessionID (remember up client i) = ci_clientSessionID i"
  "ci_upstreamSessionID (remember up client i) = ci_upstreamSessionID i"
  "ci_mappingErr i \<noteq> None \<Longrightarrow> remember up client i = i"
  by (simp_all add: remember_def Let_def split: option.split)

lemma remember_grows: "grows i (remember up client i)"
proof -
  have "map_of (ci_reverse i) \<subseteq>\<^sub>m map_of (ci_reverse (remember up client i))"
    by (auto simp: remember_def Let_def map_le_def update_conv' split: option.split)
  then show ?thesis using remember_inv [of i up client] by (simp add: grows_def)
qed

text \<open>What was remembered without an error can be looked up, and goes on to be.\<close>

lemma remember_lookup:
  "ci_mappingErr (remember up client i) = None \<Longrightarrow> up \<noteq> [] \<Longrightarrow> client \<noteq> [] \<Longrightarrow> up \<noteq> client \<Longrightarrow>
     map_of (ci_reverse (remember up client i)) up = Some client"
  by (auto simp: remember_def Let_def update_conv' split: option.splits if_splits)

lemma mapValue_grows: "grows i (fst (mapValue il kind v i))"
  by (simp add: mapValue_def Let_def remember_grows)

lemma mapWindow_grows: "grows i (fst (mapWindow il v i))"
  by (simp add: mapWindow_def Let_def split_beta remember_grows mapValue_grows)

lemma and_then_grows:
  "grows i (fst r) \<Longrightarrow> (\<And>j v. grows j (fst (f j v))) \<Longrightarrow> grows i (fst (and_then r f))"
  by (auto simp: and_then_def intro: grows_trans split: sum.split)

lemma mappingError_fst [simp]: "fst (mappingError i v) = i"
  by (simp add: mappingError_def)

lemma fields_grows: "list_all (\<lambda>f. \<forall>j m. grows j (fst (f j m))) fs \<Longrightarrow> grows i (fst (fields fs i m))"
  by (induction fs arbitrary: i m) (auto intro: and_then_grows)

lemma remap_field_grows: "(\<And>t j. grows j (fst (mapper t j))) \<Longrightarrow> grows i (fst (remap_field mapper name i m))"
  by (simp add: remap_field_def Let_def split_beta split: option.split gj.split)

lemma remap_turn_field_grows:
  "(\<And>t j. grows j (fst (mapper t j))) \<Longrightarrow> grows i (fst (remap_turn_field mapper name i m))"
  by (simp add: remap_turn_field_def Let_def split_beta split: option.split gj.split)

lemma turn_cache_key_fst [simp]: "fst (turn_cache_key i m) = i"
  by (simp add: turn_cache_key_def split: option.split gj.split)

lemma remapTurnMetadata_grows: "grows i (fst (remapTurnMetadata il raw i))"
  by (auto simp: remapTurnMetadata_def intro!: and_then_grows fields_grows remap_turn_field_grows mapValue_grows
      mapWindow_grows split: option.split)

lemma metadata_header_grows: "grows i (fst (metadata_header il raw i))"
  using remapTurnMetadata_grows [of i il raw]
  by (cases "remapTurnMetadata il raw i") (auto simp: metadata_header_def split: sum.split)

lemma turn_field_grows: "grows i (fst (turn_field il name i m))"
  using remapTurnMetadata_grows [of i il]
  by (auto simp: turn_field_def split: option.split gj.split prod.split sum.split) (metis fst_conv)+

lemma session_field_fst [simp]: "fst (session_field name i m) = i"
  by (simp add: session_field_def)

lemma remapClientMetadata_grows: "grows i (fst (remapClientMetadata il m i))"
  unfolding remapClientMetadata_def
  by (simp, intro impI and_then_grows fields_grows)
    (simp_all add: remap_field_grows mapValue_grows mapWindow_grows turn_field_grows)

lemma prepareBody_grows: "grows i (fst (prepareBody il fixed body i))"
proof (cases "obj_of body")
  case (Some object)
  then show ?thesis
    by (cases "identityStringField object ''prompt_cache_key''")
      (simp_all add: prepareBody_def Let_def remapClientMetadata_grows and_then_grows split: option.split)
qed (simp add: prepareBody_def)

lemma header_field_grows: "(\<And>t j. grows j (fst (mapper t j))) \<Longrightarrow> grows i (fst (header_field mapper source name i t))"
  by (auto simp: header_field_def Let_def intro!: and_then_grows)

lemma cleaned_grows: "(\<And>t j. grows j (fst (mapper t j))) \<Longrightarrow> grows i (fst (cleaned mapper name raw i))"
  by (simp add: cleaned_def Let_def split_beta)

lemma applyHeaders_grows: "grows i (fst (applyHeaders il target source ws i))"
  by (auto simp: applyHeaders_def Let_def intro!: and_then_grows header_field_grows cleaned_grows mapValue_grows
      mapWindow_grows metadata_header_grows)

lemma fresh_inv: "map_inv (fresh_identity il remap keyID sid)"
proof -
  have e: "map_inv \<lparr>ci_remap = a, ci_keyID = b, ci_clientSessionID = c, ci_upstreamSessionID = d, ci_reverse = [],
      ci_mappingBytes = 0, ci_mappingErr = None\<rparr>" for a b c d
    by (simp add: map_inv_def mapping_size_def)
  have s: "map_inv (i\<lparr>ci_upstreamSessionID := x\<rparr>) = map_inv i" for i x by (simp add: map_inv_def)
  have "map_inv i \<Longrightarrow> map_inv (fst (mapValue il kind v i))" for i kind v
    using mapValue_grows [of i il kind v] by (simp add: grows_def)
  with e show ?thesis by (simp add: fresh_identity_def Let_def split_beta s)
qed

lemma fresh_remap [simp]: "ci_remap (fresh_identity il remap keyID sid) = remap"
  by (simp add: fresh_identity_def mapValue_def Let_def split_beta)

lemma newCodexIdentity_obtains:
  assumes "newCodexIdentity il key h body remap = Inr i"
  obtains keyID sid where "i = fresh_identity il remap keyID sid" "ci_mappingErr i = None"
    "sid = [] \<or> validIdentityValue sid"
  using assms by (auto simp: newCodexIdentity_def Let_def split: option.splits sum.splits if_splits)

subsection \<open>Pseudonyms, one to one\<close>

lemma hex_length [simp]: "length (concat (map hex_byte b)) = 2 * length b"
  by (induction b) (simp_all add: hex_byte_def)

lemma uuid_length: "length (identityUUID il secret kind val) = 36"
  by (simp add: identityUUID_def uuid_string_def uuid_bytes_def Let_def)

lemma clean_idem [simp]: "cleanIdentityValue (cleanIdentityValue v) = cleanIdentityValue v" if "TrimSpace (TrimSpace v) = TrimSpace v"
  using that by (simp add: cleanIdentityValue_def validIdentityValue_def Let_def)

lemma mapValue_lookup:
  assumes "ci_remap i" "cleanIdentityValue v \<noteq> []" "mapValue il kind v i = (i', up)" "ci_mappingErr i' = None"
    "up \<noteq> cleanIdentityValue v"
  shows "map_of (ci_reverse i') up = Some (cleanIdentityValue v)"
proof -
  have "up = identityUUID il (ci_keyID i) kind (cleanIdentityValue v)"
    "i' = remember up (cleanIdentityValue v) i"
    using assms(1-3) by (auto simp: mapValue_def Let_def)
  moreover from this(1) have "up \<noteq> []" using uuid_length by (metis list.size(3) zero_neq_numeral)
  ultimately show ?thesis using assms by (simp add: remember_lookup)
qed

subsection \<open>Answers put back\<close>

definition no_key :: "identity_lib \<Rightarrow> codexIdentity \<Rightarrow> gostring \<Rightarrow> bool" where
  "no_key il i s \<longleftrightarrow> list_all (\<lambda>(up, client). \<not> sublist (il_quote il up) s) (ci_reverse i)"

text \<open>Text with JSON strings in it, each after a piece of other text.\<close>

fun framed :: "(gostring \<times> gostring) list \<Rightarrow> gostring \<Rightarrow> gostring" where
  "framed [] rest = rest"
| "framed ((lit, s) # ps) rest = lit @ CHR 0x22 # s @ CHR 0x22 # framed ps rest"

text \<open>
  The contract of the replacement: keys without a quotation mark, each with one replacement, longer keys first.
\<close>

definition replacing :: "(gostring \<times> gostring) list \<Rightarrow> bool" where
  "replacing ms \<longleftrightarrow>
     distinct (map fst ms) \<and> sorted (map (\<lambda>(key, r). length key) (rev ms)) \<and>
     (\<forall>(key, r) \<in> set ms. key \<noteq> [] \<and> CHR 0x22 \<notin> set key)"

definition free_of :: "(gostring \<times> gostring) list \<Rightarrow> gostring \<Rightarrow> bool" where
  "free_of ms s \<longleftrightarrow> (\<forall>(key, r) \<in> set ms. \<not> sublist key s)"

lemma prefix_before:
  assumes "prefix key (s @ c # t)" "c \<notin> set key"
  shows "prefix key s"
proof -
  from assms(1) consider "prefix key s" | us where "key = s @ us" "prefix us (c # t)"
    by (auto simp: prefix_append)
  then show ?thesis
  proof cases
    case 2
    with assms(2) have "us = []" by (cases us) (simp_all add: prefix_Cons)
    with 2 show ?thesis by simp
  qed
qed

lemma free_tail: "free_of ms (c # s) \<Longrightarrow> free_of ms s"
  by (auto simp: free_of_def sublist_Cons_right)

lemma match_none: "(\<forall>(key, r) \<in> set ms. key = [] \<or> \<not> prefix key s) \<longleftrightarrow> match_at ms s = None"
  by (auto simp: match_at_def find_None_iff)

lemma replace_free: "free_of ms s \<Longrightarrow> replace_all ms s = s"
proof (induction s)
  case (Cons c s)
  have "match_at ms (c # s) = None"
    using Cons.prems by (auto simp: match_none [symmetric] free_of_def dest: prefix_imp_sublist)
  then show ?case using Cons free_tail by (auto simp: replace_all.simps(2))
qed simp

lemma replace_text:
  assumes "replacing ms" "free_of ms s"
  shows "replace_all ms (s @ CHR 0x22 # t) = s @ CHR 0x22 # replace_all ms t"
  using assms(2)
proof (induction s)
  case Nil
  have "match_at ms (CHR 0x22 # t) = None"
    using assms(1) by (fastforce simp: match_none [symmetric] replacing_def prefix_Cons)
  then show ?case by (simp add: replace_all.simps(2))
next
  case (Cons c s)
  have "\<not> prefix key (c # s @ CHR 0x22 # t)" if "(key, r) \<in> set ms" for key r
    using that assms(1) Cons.prems prefix_before [of key "c # s" "CHR 0x22" t]
    by (auto simp: replacing_def free_of_def dest: prefix_imp_sublist)
  then have "match_at ms (c # s @ CHR 0x22 # t) = None" by (auto simp: match_none [symmetric])
  with Cons free_tail show ?case by (auto simp: replace_all.simps(2))
qed

lemma match_key:
  assumes "replacing ms" "(key, r) \<in> set ms"
  shows "match_at ms (key @ CHR 0x22 # t) = Some (key, r)"
proof -
  let ?s = "key @ CHR 0x22 # t"
  have ne: "key \<noteq> []" using assms by (auto simp: replacing_def)
  then have "match_at ms ?s \<noteq> None" using assms(2) by (auto simp: match_none [symmetric])
  then obtain k r' where m: "match_at ms ?s = Some (k, r')" by auto
  then have "\<exists>j < length ms. (fst (ms ! j) \<noteq> [] \<and> prefix (fst (ms ! j)) ?s) \<and> (k, r') = ms ! j
      \<and> (\<forall>n < j. \<not> (fst (ms ! n) \<noteq> [] \<and> prefix (fst (ms ! n)) ?s))"
    by (simp add: match_at_def find_Some_iff split_beta)
  then obtain j where j: "j < length ms" "ms ! j = (k, r')" "prefix k ?s"
    and first: "\<And>n. n < j \<Longrightarrow> fst (ms ! n) = [] \<or> \<not> prefix (fst (ms ! n)) ?s"
    by (metis fst_conv)
  obtain n where n: "n < length ms" "ms ! n = (key, r)" using assms(2) by (auto simp: in_set_conv_nth)
  have "\<not> n < j" using first [of n] n ne by auto
  then have "length key \<le> length k"
  proof -
    let ?l = "\<lambda>(key, r). length key"
    have "map ?l (rev ms) ! (length ms - 1 - n) \<le> map ?l (rev ms) ! (length ms - 1 - j)"
      using assms(1) n j \<open>\<not> n < j\<close> by (intro sorted_nth_mono) (auto simp: replacing_def)
    then show ?thesis using n j by (simp add: rev_nth)
  qed
  moreover have "prefix k key"
    using prefix_before [of k key "CHR 0x22" t] j assms(1) nth_mem [OF j(1)] by (auto simp: replacing_def)
  ultimately have "k = key" by (metis prefix_length_le le_antisym prefix_order.eq_iff not_equal_is_parallel parallel_def)
  moreover have "map_of ms k = Some r'" using assms(1) j(1,2) nth_mem [OF j(1)] by (simp add: replacing_def)
  moreover have "map_of ms key = Some r" using assms by (simp add: replacing_def)
  ultimately show ?thesis using m by simp
qed

lemma replace_framed:
  assumes "replacing ms" "free_of ms rest" "list_all (\<lambda>(lit, key). free_of ms lit \<and> key \<in> fst ` set ms) ps"
  shows "replace_all ms (framed ps rest) = framed (map (\<lambda>(lit, key). (lit, the (map_of ms key))) ps) rest"
  using assms(3)
proof (induction ps)
  case Nil
  then show ?case using assms(2) by (simp add: replace_free)
next
  case (Cons p ps)
  obtain lit key where p: "p = (lit, key)" by (cases p)
  with Cons.prems obtain r where r: "(key, r) \<in> set ms" and lit: "free_of ms lit" by auto
  from r assms(1) have lookup: "map_of ms key = Some r" "key \<noteq> []" by (auto simp: replacing_def)
  obtain c k where ck: "key = c # k" using lookup(2) by (cases key) auto
  let ?t = "framed ps rest"
  have "replace_all ms (key @ CHR 0x22 # ?t) = r @ replace_all ms (CHR 0x22 # ?t)"
    using match_key [OF assms(1) r, of ?t] by (simp add: ck replace_all.simps(2))
  also have "replace_all ms (CHR 0x22 # ?t) = CHR 0x22 # replace_all ms ?t"
    using replace_text [OF assms(1), of "[]" ?t] assms(1) by (auto simp: free_of_def replacing_def)
  finally show ?case
    using Cons replace_text [OF assms(1) lit, of "key @ CHR 0x22 # ?t"] by (simp add: p lookup)
qed

subsection \<open>Headers after the session was set\<close>

text \<open>What is used of Unicode case folding: on ASCII it compares lower case.\<close>

definition ascii :: "gostring \<Rightarrow> bool" where
  "ascii s \<longleftrightarrow> list_all (within_bytes 0 127) s"

definition session_names :: "(gostring \<Rightarrow> gostring) \<Rightarrow> gostring set" where
  "session_names fd = fd ` {''Session-Id'', ''Session_id'', ''Conversation_id''}"

locale case_folding =
  fixes fd :: "gostring \<Rightarrow> gostring"
  assumes fold_ascii: "ascii a \<Longrightarrow> ascii b \<Longrightarrow> fd a = fd b \<longleftrightarrow> map lower_char a = map lower_char b"
begin

lemma not_session:
  "fd ''X-Client-Request-Id'' \<notin> session_names fd" "fd ''Thread-Id'' \<notin> session_names fd"
  "fd ''X-Codex-Window-Id'' \<notin> session_names fd" "fd ''X-Codex-Turn-Metadata'' \<notin> session_names fd"
  by (auto simp: session_names_def fold_ascii ascii_def within_bytes_def byte_def lower_char_def)

end

interpretation ascii_case: case_folding "map lower_char"
  by unfold_locales simp

lemma canonical_names:
  "canonical_key ''X-Client-Request-Id'' = ''X-Client-Request-Id''" "canonical_key ''Thread-Id'' = ''Thread-Id''"
  "canonical_key ''X-Codex-Window-Id'' = ''X-Codex-Window-Id''" "canonical_key ''Session-Id'' = ''Session-Id''"
  "canonical_key ''X-Codex-Turn-Metadata'' = ''X-Codex-Turn-Metadata''"
  by (simp_all add: canonical_key_def upper_char_def lower_char_def within_bytes_def byte_def)

text \<open>Every session header has the value \<open>sid\<close>; \<open>key\<close> is one of them.\<close>

definition session_ok :: "(gostring \<Rightarrow> gostring) \<Rightarrow> gostring \<Rightarrow> gostring \<Rightarrow> headers \<Rightarrow> bool" where
  "session_ok fd sid key h \<longleftrightarrow>
     map_of h key = Some [sid] \<and> (\<forall>(k, vs) \<in> set h. fd k \<in> session_names fd \<longrightarrow> vs = [sid])"

lemma set_update: "set (AList.update k v xs) \<subseteq> insert (k, v) (set xs)"
  by (induction xs) auto

lemma session_ok_update:
  "session_ok fd sid key h \<Longrightarrow> fd k \<notin> session_names fd \<Longrightarrow> k \<noteq> key \<Longrightarrow>
     session_ok fd sid key (AList.update k vs h)"
  using set_update [of k vs h] by (fastforce simp: session_ok_def update_conv')

text \<open>A step that may replace one header keeps the session headers.\<close>

lemma header_field_keeps:
  assumes "header_field mapper source name i t = (i', Inr t')" "session_ok fd sid key t"
    "fd (canonical_key name) \<notin> session_names fd" "canonical_key name \<noteq> key"
  shows "session_ok fd sid key t'"
  using assms
  by (auto simp: header_field_def and_then_def Let_def header_set_def session_ok_update split: if_splits sum.splits)

lemma and_then_Inr:
  "and_then r f = (i', Inr v') \<longleftrightarrow> (\<exists>i v. r = (i, Inr v) \<and> f i v = (i', Inr v'))"
  by (cases r; cases "snd r") (auto simp: and_then_def)

lemma mappingError_Inr: "mappingError i v = (i', Inr v') \<longleftrightarrow> i' = i \<and> v' = v \<and> ci_mappingErr i = None"
  by (auto simp: mappingError_def split: option.splits)

lemma applyHeaders_session:
  assumes "applyHeaders il target source ws i = (i', Inr h)" "case_folding (il_fold il)"
    and "session_ok (il_fold il) sid key (session_headers il ws source i target)"
    and "key \<in> {''Session-Id'', ''session_id'', ''Conversation_id''}"
  shows "session_ok (il_fold il) sid key h"
proof (cases "ci_remap i")
  case False
  with assms show ?thesis by (simp add: applyHeaders_def Let_def mappingError_Inr)
next
  case True
  obtain i1 t1 i2 t2 i3 t3 i4 where
    "header_field (cleaned (mapValue il ''request'') ''X-Client-Request-Id'') source ''X-Client-Request-Id'' i
       (session_headers il ws source i target) = (i1, Inr t1)"
    "header_field (cleaned (mapValue il ''thread'') ''Thread-Id'') source ''Thread-Id'' i1 t1 = (i2, Inr t2)"
    "header_field (cleaned (mapWindow il) ''X-Codex-Window-Id'') source ''X-Codex-Window-Id'' i2 t2 = (i3, Inr t3)"
    "header_field (metadata_header il) source ''X-Codex-Turn-Metadata'' i3 t3 = (i4, Inr h)"
    using assms(1) True by (auto simp: applyHeaders_def Let_def and_then_Inr mappingError_Inr)
  note steps = this
  have other: "canonical_key n \<noteq> key \<and> il_fold il (canonical_key n) \<notin> session_names (il_fold il)"
    if "n \<in> {''X-Client-Request-Id'', ''Thread-Id'', ''X-Codex-Window-Id'', ''X-Codex-Turn-Metadata''}" for n
    using that assms(4) case_folding.not_session [OF assms(2)] by (auto simp: canonical_names)
  note keeps = header_field_keeps [where fd = "il_fold il" and sid = sid and key = key]
  from keeps [OF steps(1) assms(3)] other have "session_ok (il_fold il) sid key t1" by simp
  from keeps [OF steps(2) this] other have "session_ok (il_fold il) sid key t2" by simp
  from keeps [OF steps(3) this] other have "session_ok (il_fold il) sid key t3" by simp
  from keeps [OF steps(4) this] other show ?thesis by simp
qed

lemma delete_all:
  "set (fold (deleteHeaderFold il) names h) = {(k, vs) \<in> set h. \<forall>n \<in> set names. il_fold il k \<noteq> il_fold il n}"
  by (induction names arbitrary: h) (auto simp: deleteHeaderFold_def)

lemma session_headers_ok:
  assumes "case_folding (il_fold il)" "ci_upstreamSessionID i \<noteq> []"
  shows "session_ok (il_fold il) (ci_upstreamSessionID i) ''Session-Id'' (session_headers il False source i target)"
    and "session_ok (il_fold il) (ci_upstreamSessionID i) ''session_id'' (session_headers il True source i target)"
    and "session_ok (il_fold il) (ci_upstreamSessionID i) ''Conversation_id'' (session_headers il True source i target)"
proof -
  let ?sid = "ci_upstreamSessionID i"
  let ?t = "fold (deleteHeaderFold il) [''Session-Id'', ''Session_id'', ''session_id'', ''Conversation_id''] target"
  have t: "\<forall>(k, vs) \<in> set ?t. il_fold il k \<notin> session_names (il_fold il)"
    by (auto simp: delete_all session_names_def simp del: fold.simps)
  then have u: "\<forall>(k, vs) \<in> set (AList.update n [?sid] ?t). il_fold il k \<in> session_names (il_fold il) \<longrightarrow> vs = [?sid]"
    for n using set_update [of n "[?sid]" ?t] by fastforce
  then have u2: "\<forall>(k, vs) \<in> set (AList.update m [?sid] (AList.update n [?sid] ?t)).
      il_fold il k \<in> session_names (il_fold il) \<longrightarrow> vs = [?sid]"
    for n m using set_update [of m "[?sid]" "AList.update n [?sid] ?t"] by fastforce
  show "session_ok (il_fold il) ?sid ''Session-Id'' (session_headers il False source i target)"
    using u u2 assms(2)
    by (simp add: session_headers_def session_ok_def Let_def header_set_def canonical_names update_conv' del: fold.simps)
  show "session_ok (il_fold il) ?sid ''session_id'' (session_headers il True source i target)"
    "session_ok (il_fold il) ?sid ''Conversation_id'' (session_headers il True source i target)"
    using u2 assms(2) by (simp_all add: session_headers_def session_ok_def Let_def update_conv' del: fold.simps)
qed

lemma prepareBody_session:
  assumes "prepareBody il fixed body i = (i', Inr b)" "ci_upstreamSessionID i \<noteq> []"
  shows "map_of b ''prompt_cache_key'' = Some (JStr (ci_upstreamSessionID i))"
  using assms
  by (auto simp: prepareBody_def Let_def and_then_Inr mappingError_Inr split: option.splits sum.splits if_splits)

subsection \<open>Later requests of the same conversation\<close>

text \<open>On a WebSocket one identity serves many bodies and connections.\<close>

datatype identity_use = Body gj | Headers headers headers bool

definition use_identity :: "identity_lib \<Rightarrow> codexIdentity \<Rightarrow> identity_use \<Rightarrow> codexIdentity" where
  "use_identity il i u =
     (case u of
        Body b \<Rightarrow> fst (prepareBody il True b i)
      | Headers t s ws \<Rightarrow> fst (applyHeaders il t s ws i))"

lemma use_grows: "grows i (use_identity il i u)"
  by (cases u) (simp_all add: use_identity_def prepareBody_grows applyHeaders_grows)

lemma uses_grow: "grows i (foldl (use_identity il) i us)"
proof (induction us rule: rev_induct)
  case (snoc u us)
  then show ?case using grows_trans use_grows by simp
qed simp

subsection \<open>Properties\<close>

lemma prepared:
  assumes "prepareRequestIdentity il key h body remap = Inr (b, i)"
  obtains i0 where "newCodexIdentity il key h body remap = Inr i0" "prepareBody il False body i0 = (i, Inr b)"
  using assms by (auto simp: prepareRequestIdentity_def split: sum.splits prod.splits)

text \<open>
  The prompt cache key and the transport session agree. When a request has a session, the body sent upstream
  has it as its prompt cache key, the session header has the same value, and no other spelling
  of a session or conversation header with a different value is left, whatever headers were copied from the
  client before; over HTTP and for the handshake of a WebSocket.
\<close>

lemma session_agreement:
  assumes "case_folding (il_fold il)"
    and "prepareRequestIdentity il key clientHeaders body remap = Inr (b, i)" "ci_upstreamSessionID i \<noteq> []"
    and "applyHeaders il target clientHeaders ws i = (i', Inr out)"
  shows "map_of b ''prompt_cache_key'' = Some (JStr (ci_upstreamSessionID i))
    \<and> map_of out (if ws then ''session_id'' else ''Session-Id'') = Some [ci_upstreamSessionID i]
    \<and> (\<forall>(k, vs) \<in> set out. il_fold il k \<in> session_names (il_fold il) \<longrightarrow> vs = [ci_upstreamSessionID i])"
proof -
  obtain i0 where i0: "prepareBody il False body i0 = (i, Inr b)" by (rule prepared [OF assms(2)])
  then have "ci_upstreamSessionID i0 = ci_upstreamSessionID i"
    using grows_same(1) [OF prepareBody_grows [of i0 il False body]] by simp
  with prepareBody_session [OF i0] assms(3) have b: "map_of b ''prompt_cache_key'' = Some (JStr (ci_upstreamSessionID i))"
    by simp
  have "session_ok (il_fold il) (ci_upstreamSessionID i) (if ws then ''session_id'' else ''Session-Id'') out"
    using session_headers_ok [OF assms(1,3)] by (intro applyHeaders_session [OF assms(4,1)]) auto
  with b show ?thesis by (simp add: session_ok_def)
qed

definition sample_il :: identity_lib where
  "sample_il = \<lparr>il_hmac = (\<lambda>k m. k @ m), il_parse = (\<lambda>s. None), il_encode = (\<lambda>m. []), il_quote = (\<lambda>s. s),
     il_fold = map lower_char\<rparr>"

definition sample_identity :: codexIdentity where
  "sample_identity = \<lparr>ci_remap = False, ci_keyID = ''k'', ci_clientSessionID = ''chat'', ci_upstreamSessionID = ''chat'',
     ci_reverse = [], ci_mappingBytes = 0, ci_mappingErr = None\<rparr>"

lemma sample_clean: "TrimSpace ''chat'' = ''chat''" "validIdentityValue ''chat''" "TrimSpace ''k'' = ''k''"
proof -
  show t: "TrimSpace ''chat'' = ''chat''" "TrimSpace ''k'' = ''k''" by (rule TrimSpace_printable; simp add: printable_def)+
  show "validIdentityValue ''chat''"
    by (simp add: validIdentityValue_def t Let_def maxIdentityBytes_def control_def byte_def valid_utf8.simps
        utf8_length_def within_bytes_def)
qed

lemma sample_prepared:
  "prepareRequestIdentity sample_il (Some ''k'') [] (JObj [(''prompt_cache_key'', JStr ''chat'')]) False =
     Inr ([(''prompt_cache_key'', JStr ''chat'')], sample_identity)"
proof -
  have "newCodexIdentity sample_il (Some ''k'') [] (JObj [(''prompt_cache_key'', JStr ''chat'')]) False = Inr sample_identity"
    by (simp add: newCodexIdentity_def obj_of_def identityStringField_def index_nil_def sample_clean client_session_def
        fresh_identity_def mapValue_def cleanIdentityValue_def sample_identity_def Let_def)
  then show ?thesis
    by (simp add: prepareRequestIdentity_def prepareBody_def obj_of_def identityStringField_def index_nil_def
        sample_clean sample_identity_def mappingError_def Let_def)
qed

lemma session_agreement_witness:
  "\<exists>i' out. applyHeaders sample_il [(''Session_id'', [''old''])] [] False sample_identity = (i', Inr out)
     \<and> map_of out ''Session-Id'' = Some [''chat'']"
proof -
  have a: "applyHeaders sample_il [(''Session_id'', [''old''])] [] False sample_identity =
      (sample_identity, Inr (session_headers sample_il False [] sample_identity [(''Session_id'', [''old''])]))"
    by (simp add: applyHeaders_def sample_identity_def mappingError_def Let_def)
  have "case_folding (il_fold sample_il)" using ascii_case.case_folding_axioms by (simp add: sample_il_def)
  from session_agreement [OF this sample_prepared _ a] a show ?thesis by (simp add: sample_identity_def)
qed

text \<open>C19.
  Pseudonyms are one to one. Two identifiers of the same conversation that are mapped without a mapping
  error, the second after any number of other requests, have the same pseudonym only if they
  are the same; the number of mappings and their bytes stay within their limits. (A value that is its own pseudonym is
  excluded.)
\<close>

theorem pseudonyms_one_to_one:
  assumes "newCodexIdentity il key h body True = Inr i0"
    and "mapValue il kind1 v1 (foldl (use_identity il) i0 us1) = (i1, up1)"
    and "mapValue il kind2 v2 (foldl (use_identity il) i1 us2) = (i2, up2)"
    and "ci_mappingErr i2 = None" "up1 = up2" "up1 \<notin> {[], cleanIdentityValue v1, cleanIdentityValue v2}"
  shows "cleanIdentityValue v1 = cleanIdentityValue v2
    \<and> length (ci_reverse i2) \<le> 256 \<and> mapping_size (ci_reverse i2) \<le> 262144"
proof -
  let ?i = "foldl (use_identity il) i0 us1" and ?j = "foldl (use_identity il) i1 us2"
  have g1: "grows ?i i1" using mapValue_grows [of ?i il kind1 v1] assms(2) by simp
  have g2: "grows ?j i2" using mapValue_grows [of ?j il kind2 v2] assms(3) by simp
  have g12: "grows i1 i2" using uses_grow g2 by (rule grows_trans)
  have g: "grows i0 i2" using uses_grow g1 g12 grows_trans by blast
  obtain keyID sid where i0: "i0 = fresh_identity il True keyID sid"
    by (rule newCodexIdentity_obtains [OF assms(1)])
  then have r: "ci_remap ?i" "ci_remap ?j"
    using grows_same(3) [OF uses_grow [of i0 il us1]] grows_same(3) [OF g1]
      grows_same(3) [OF uses_grow [of i1 il us2]] by simp_all
  have ne: "cleanIdentityValue v1 \<noteq> []" "cleanIdentityValue v2 \<noteq> []"
    using assms(2,3,5,6) by (auto simp: mapValue_def Let_def)
  have "map_of (ci_reverse i1) up1 = Some (cleanIdentityValue v1)"
    using assms(6) grows_err [OF g12 assms(4)] by (intro mapValue_lookup [OF r(1) ne(1) assms(2)]) auto
  then have "map_of (ci_reverse i2) up1 = Some (cleanIdentityValue v1)" by (rule grows_keeps [OF g12])
  moreover have "map_of (ci_reverse i2) up2 = Some (cleanIdentityValue v2)"
    using assms(4-6) by (intro mapValue_lookup [OF r(2) ne(2) assms(3)]) auto
  moreover have "map_inv i2" using g fresh_inv by (auto simp: grows_def i0)
  ultimately show ?thesis
    using assms(5) by (simp add: map_inv_def maxIdentityMappings_def maxIdentityMappingBytes_def)
qed

lemma sample_new:
  "newCodexIdentity sample_il None [] (JObj []) True = Inr (fresh_identity sample_il True [] [])"
  by (simp add: newCodexIdentity_def obj_of_def identityStringField_def index_nil_def client_session_def
      firstSessionHeader_def headerValueFold_def first_clean_def promptCacheFromTurnMetadata_def header_get_def
      clientMetadataSession_def jsonString_def str_of_def cleanIdentityValue_def validIdentityValue_def
      fresh_identity_def Let_def)

theorem pseudonyms_one_to_one_witness:
  "\<exists>up i. mapValue sample_il ''thread'' ''chat'' (fresh_identity sample_il True [] []) = (i, up) \<and> length up = 36
     \<and> length (ci_reverse i) \<le> 256"
proof -
  let ?i0 = "fresh_identity sample_il True [] []" and ?up = "identityUUID sample_il [] ''thread'' ''chat''"
  let ?i1 = "remember ?up ''chat'' ?i0"
  have clean: "cleanIdentityValue ''chat'' = ''chat''" by (simp add: cleanIdentityValue_def sample_clean Let_def)
  have i0: "?i0 = \<lparr>ci_remap = True, ci_keyID = [], ci_clientSessionID = [], ci_upstreamSessionID = [],
      ci_reverse = [], ci_mappingBytes = 0, ci_mappingErr = None\<rparr>"
    by (simp add: fresh_identity_def Let_def)
  have up: "length ?up = 36" by (rule uuid_length)
  then have ne: "?up \<noteq> []" "?up \<noteq> ''chat''" by auto
  then have r: "ci_reverse ?i1 = [(?up, ''chat'')]" "ci_mappingErr ?i1 = None"
    by (simp_all add: remember_def i0 up maxIdentityMappings_def maxIdentityMappingBytes_def)
  have same: "remember ?up ''chat'' ?i1 = ?i1" using ne by (simp add: remember_def [of ?up _ ?i1] r)
  have m: "mapValue sample_il ''thread'' ''chat'' ?i0 = (?i1, ?up)" "mapValue sample_il ''thread'' ''chat'' ?i1 = (?i1, ?up)"
    using same by (simp_all add: mapValue_def clean i0 Let_def)
  show ?thesis
    using pseudonyms_one_to_one [OF sample_new, of "''thread''" "''chat''" "[]" ?i1 ?up "''thread''" "''chat''" "[]" ?i1 ?up] m r up ne
    by (simp add: clean)
qed

lemma matchers_replacing:
  assumes "map_inv i" "inj (il_quote il)" "\<And>s. s \<noteq> [] \<Longrightarrow> il_quote il s \<noteq> []"
    "list_all (\<lambda>(up, client). CHR 0x22 \<notin> set (il_quote il up)) (ci_reverse i)"
  shows "replacing (matchers il i)"
proof -
  have "map fst (map (\<lambda>(up, client). (il_quote il up, il_quote il client)) (ci_reverse i)) =
      map (il_quote il) (map fst (ci_reverse i))" by auto
  then have "distinct (map fst (map (\<lambda>(up, client). (il_quote il up, il_quote il client)) (ci_reverse i)))"
    using assms(1,2) by (simp add: map_inv_def distinct_map inj_on_def inj_def)
  then have "distinct (map fst (matchers il i))"
    by (simp only: matchers_def rev_map [symmetric] distinct_rev distinct_map distinct_sort set_sort)
  moreover have "sorted (map (\<lambda>(key, r). length key) (rev (matchers il i)))" by (simp add: matchers_def)
  moreover have "\<forall>(key, r) \<in> set (matchers il i). key \<noteq> [] \<and> CHR 0x22 \<notin> set key"
    using assms(1,3,4) by (fastforce simp: matchers_def map_inv_def list_all_iff)
  ultimately show ?thesis by (simp add: replacing_def)
qed

lemma matchers_free: "no_key il i s \<Longrightarrow> free_of (matchers il i) s"
  by (auto simp: no_key_def free_of_def matchers_def list_all_iff)

lemma matchers_lookup:
  assumes "replacing (matchers il i)" "map_of (ci_reverse i) up = Some client"
  shows "map_of (matchers il i) (il_quote il up) = Some (il_quote il client)"
proof -
  have "(il_quote il up, il_quote il client) \<in> set (matchers il i)"
    using map_of_SomeD [OF assms(2)] by (force simp: matchers_def)
  with assms(1) show ?thesis by (simp add: replacing_def)
qed



end
