(* ===== verification/Compat.thy ===== *)
theory Compat
  imports Identity
begin

text \<open>
  \<^verbatim>\<open>internal/proxy/upstream_compat.go\<close>: what the upstream demands of input items and tools. SHA-256 and lower-casing
  are arguments. The search for a fresh item id is a loop without a bound; it is a partial
  function, and \<open>None\<close> is a loop that does not end. Sets of ids are lists. Every caller passes an identity.
\<close>

subsection \<open>Runes\<close>

text \<open>\<^verbatim>\<open>[]rune(s)\<close>, each rune as its bytes: an invalid byte counts as U+FFFD.\<close>

definition replacement_rune :: gostring where
  "replacement_rune = [CHR 0xEF, CHR 0xBF, CHR 0xBD]"

function runes :: "gostring \<Rightarrow> gostring list" where
  "runes s =
     (if s = [] then []
      else if utf8_length s = 0 then replacement_rune # runes (tl s)
      else take (utf8_length s) s # runes (drop (utf8_length s) s))"
  by pat_completeness auto
termination
  by (relation "measure length") auto

declare runes.simps [simp del]

text \<open>\<^verbatim>\<open>strconv.Itoa\<close> of a number that is not negative.\<close>

fun itoa :: "nat \<Rightarrow> gostring" where
  "itoa n = (if n < 10 then [char_of (48 + n)] else itoa (n div 10) @ [char_of (48 + n mod 10)])"

declare itoa.simps [simp del]

subsection \<open>Item ids\<close>

definition codexInputItemIDLimit :: nat where
  "codexInputItemIDLimit = 64"

definition codexInputItemPrefix :: "gobj \<Rightarrow> gostring" where
  "codexInputItemPrefix item =
     (let kind = str_of (index_nil item ''type'')
      in if kind = ''message'' then ''msg''
         else if kind = ''reasoning'' then ''rs''
         else if kind = ''function_call'' then ''fc''
         else if kind = ''custom_tool_call'' then ''ctc''
         else if kind = ''custom_tool_call_output'' then ''ctco''
         else [])"

definition canonicalCodexInputItemID :: "gobj \<Rightarrow> gostring \<Rightarrow> gostring" where
  "canonicalCodexInputItemID item itemID =
     (let pre = codexInputItemPrefix item
      in if pre = [] \<or> itemID = [] \<or> has_prefix itemID pre then itemID else pre @ ''_'' @ itemID)"

definition shortenCodexInputItemID :: "(gostring \<Rightarrow> gostring) \<Rightarrow> gostring \<Rightarrow> nat \<Rightarrow> gostring" where
  "shortenCodexInputItemID sha256 itemID attempt =
     (let rs = runes itemID;
          hashInput = (if attempt > 0 then itemID @ [CHR 0x00] @ itoa attempt else itemID);
          suffix = ''_'' @ concat (map (\<lambda>c. hex_byte (byte c)) (take 8 (sha256 hashInput)));
          prefixLength = min (codexInputItemIDLimit - length suffix) (length rs)
      in concat (take prefixLength rs) @ suffix)"

partial_function (option) unique_from ::
  "(gostring \<Rightarrow> gostring) \<Rightarrow> gostring \<Rightarrow> gostring list \<Rightarrow> gostring list \<Rightarrow> nat \<Rightarrow> gostring option" where
  "unique_from sha256 itemID reserved used attempt =
     (let candidate = shortenCodexInputItemID sha256 itemID attempt
      in if candidate \<in> set reserved then unique_from sha256 itemID reserved used (Suc attempt)
         else if candidate \<in> set used then unique_from sha256 itemID reserved used (Suc attempt)
         else Some candidate)"

definition uniqueCodexInputItemID ::
  "(gostring \<Rightarrow> gostring) \<Rightarrow> gostring \<Rightarrow> gostring list \<Rightarrow> gostring list \<Rightarrow> gostring option" where
  "uniqueCodexInputItemID sha256 itemID reserved used = unique_from sha256 itemID reserved used 0"

definition mappedCodexInputItemID :: "identity_lib \<Rightarrow> codexIdentity \<Rightarrow> gobj \<Rightarrow> gostring \<Rightarrow> gostring" where
  "mappedCodexInputItemID il i item itemID =
     (let pre = (if codexInputItemPrefix item = [] then ''item'' else codexInputItemPrefix item)
      in pre @ ''_'' @ identityUUID il (ci_keyID i) (''input-item:'' @ pre) itemID)"

subsection \<open>Encrypted reasoning\<close>

text \<open>\<^verbatim>\<open>base64\<close>, URL alphabet: line breaks are skipped; trailing bits are not checked.\<close>

definition base64_digit :: "char \<Rightarrow> nat option" where
  "base64_digit c =
     (if within_bytes 65 90 c then Some (byte c - 65)
      else if within_bytes 97 122 c then Some (byte c - 71)
      else if within_bytes 48 57 c then Some (byte c + 4)
      else if c = CHR ''-'' then Some 62
      else if c = CHR ''_'' then Some 63
      else None)"

fun base64_bytes :: "nat list \<Rightarrow> nat list option" where
  "base64_bytes [] = Some []"
| "base64_bytes [a] = None"
| "base64_bytes [a, b] = Some [(a * 4 + b div 16) mod 256]"
| "base64_bytes [a, b, c] = Some [(a * 4 + b div 16) mod 256, (b * 16 + c div 4) mod 256]"
| "base64_bytes (a # b # c # d # r) =
     map_option (\<lambda>bs. (a * 4 + b div 16) mod 256 # (b * 16 + c div 4) mod 256 # (c * 64 + d) mod 256 # bs)
       (base64_bytes r)"

definition no_breaks :: "gostring \<Rightarrow> gostring" where
  "no_breaks s = filter (\<lambda>c. byte c \<noteq> 10 \<and> byte c \<noteq> 13) s"

definition base64_digits :: "gostring \<Rightarrow> nat list option" where
  "base64_digits s =
     (if list_all (\<lambda>c. base64_digit c \<noteq> None) s then Some (map (\<lambda>c. the (base64_digit c)) s) else None)"

definition RawURL_decode :: "gostring \<Rightarrow> nat list option" where
  "RawURL_decode s = Option.bind (base64_digits (no_breaks s)) base64_bytes"

definition URL_decode :: "gostring \<Rightarrow> nat list option" where
  "URL_decode s0 =
     (let s = no_breaks s0; data = takeWhile (\<lambda>c. c \<noteq> CHR ''='') s; padding = drop (length data) s
      in if length s mod 4 \<noteq> 0 \<or> length padding > 2 \<or> list_ex (\<lambda>c. c \<noteq> CHR ''='') padding then None
         else Option.bind (base64_digits data) base64_bytes)"

definition maxReasoningEncryptedBytes :: nat where
  "maxReasoningEncryptedBytes = 32 * 1024 * 1024"

definition validCodexReasoningEncryptedContent :: "gostring \<Rightarrow> bool" where
  "validCodexReasoningEncryptedContent val =
     (if val = [] \<or> val \<noteq> TrimSpace val \<or> length val > maxReasoningEncryptedBytes \<or> \<not> has_prefix val ''gAAAA'' then False
      else (case (case RawURL_decode val of Some d \<Rightarrow> Some d | None \<Rightarrow> URL_decode val) of
              None \<Rightarrow> False
            | Some decoded \<Rightarrow>
                if length decoded < 73 \<or> decoded ! 0 \<noteq> 0x80 then False
                else (let ciphertextLength = length decoded - 1 - 8 - 16 - 32
                      in ciphertextLength > 0 \<and> ciphertextLength mod 16 = 0)))"

text \<open>The item, changed in place, and whether it is kept.\<close>

definition sanitizeCodexReasoningItem :: "gobj \<Rightarrow> bool \<Rightarrow> gobj \<times> bool" where
  "sanitizeCodexReasoningItem item store =
     (case map_of item ''encrypted_content'' of
        None \<Rightarrow> (if \<not> store then del ''id'' item else item, True)
      | Some val \<Rightarrow>
          if \<not> (case val of JStr encrypted \<Rightarrow> validCodexReasoningEncryptedContent encrypted | _ \<Rightarrow> False)
          then (let item1 = del ''encrypted_content'' item in (if \<not> store then del ''id'' item1 else item1, True))
          else (item, length (runes (str_of (index_nil item ''id''))) \<le> codexInputItemIDLimit))"

subsection \<open>Input items\<close>

definition item_of :: "gj \<Rightarrow> gobj" where
  "item_of val = (case obj_of val of Some m \<Rightarrow> m | None \<Rightarrow> [])"

definition item_id :: "gobj \<Rightarrow> gostring" where
  "item_id item = str_of (index_nil item ''id'')"

definition reserved_ids :: "gj list \<Rightarrow> gostring list" where
  "reserved_ids items =
     List.map_filter (\<lambda>val. let item = item_of val; itemID = item_id item
       in if itemID \<noteq> [] \<and> length (runes itemID) \<le> codexInputItemIDLimit \<and> canonicalCodexInputItemID item itemID = itemID
          then Some itemID else None) items"

text \<open>The id that replaces an item's id.\<close>

definition new_item_id ::
  "identity_lib \<Rightarrow> (gostring \<Rightarrow> gostring) \<Rightarrow> codexIdentity \<Rightarrow> gostring list \<Rightarrow> gostring list \<Rightarrow> gobj \<Rightarrow> gostring option" where
  "new_item_id il sha256 i reserved used item =
     (let itemID = item_id item;
          n0 = canonicalCodexInputItemID item itemID;
          n1 = (if ci_remap i \<and> (n0 \<noteq> itemID \<or> length (runes n0) > codexInputItemIDLimit)
                then mappedCodexInputItemID il i item itemID else n0)
      in Option.bind
           (if n1 \<in> set reserved \<and> n1 \<noteq> itemID then uniqueCodexInputItemID sha256 n1 reserved used else Some n1)
           (\<lambda>n2. if length (runes n2) > codexInputItemIDLimit then uniqueCodexInputItemID sha256 n2 reserved used
                 else Some n2))"

record sanitizing =
  sz_used :: "gostring list"
  sz_out :: "gj list"
  sz_identity :: codexIdentity

definition append_item :: "gj \<Rightarrow> sanitizing \<Rightarrow> sanitizing" where
  "append_item val z = z\<lparr>sz_out := sz_out z @ [val]\<rparr>"

definition sanitize_object ::
  "identity_lib \<Rightarrow> (gostring \<Rightarrow> gostring) \<Rightarrow> gostring list \<Rightarrow> gobj \<Rightarrow> sanitizing \<Rightarrow> sanitizing option" where
  "sanitize_object il sha256 reserved item z =
     (let itemID = item_id item
      in if itemID = [] then Some (append_item (JObj item) z)
         else Option.bind (new_item_id il sha256 (sz_identity z) reserved (sz_used z) item)
           (\<lambda>normalized.
              let item' = (if normalized \<noteq> itemID then put ''id'' (JStr normalized) item else item);
                  i' = (if normalized \<noteq> itemID then remember normalized itemID (sz_identity z) else sz_identity z)
              in Some (append_item (JObj item') (z\<lparr>sz_used := normalized # sz_used z, sz_identity := i'\<rparr>))))"

definition sanitize_value ::
  "identity_lib \<Rightarrow> (gostring \<Rightarrow> gostring) \<Rightarrow> bool \<Rightarrow> gostring list \<Rightarrow> gj \<Rightarrow> sanitizing \<Rightarrow> sanitizing option" where
  "sanitize_value il sha256 store reserved val z =
     (case obj_of val of
        None \<Rightarrow> Some (append_item val z)
      | Some item \<Rightarrow>
          (let (item', kept) = (if str_of (index_nil item ''type'') = ''reasoning''
                                then sanitizeCodexReasoningItem item store else (item, True))
           in if \<not> kept then Some z else sanitize_object il sha256 reserved item' z))"

fun sanitize_values ::
  "identity_lib \<Rightarrow> (gostring \<Rightarrow> gostring) \<Rightarrow> bool \<Rightarrow> gostring list \<Rightarrow> gj list \<Rightarrow> sanitizing \<Rightarrow> sanitizing option" where
  "sanitize_values il sha256 store reserved [] z = Some z"
| "sanitize_values il sha256 store reserved (val # rest) z =
     Option.bind (sanitize_value il sha256 store reserved val z) (sanitize_values il sha256 store reserved rest)"

definition sanitizeCodexInputItems ::
  "identity_lib \<Rightarrow> (gostring \<Rightarrow> gostring) \<Rightarrow> gobj \<Rightarrow> codexIdentity \<Rightarrow>
     (codexIdentity \<times> (identity_error + gobj)) option" where
  "sanitizeCodexInputItems il sha256 object i =
     (case arr_of (index_nil object ''input'') of
        None \<Rightarrow> Some (i, Inr object)
      | Some items \<Rightarrow>
          map_option (\<lambda>z. mappingError (sz_identity z) (put ''input'' (JArr (sz_out z)) object))
            (sanitize_values il sha256 (bool_of (index_nil object ''store'')) (reserved_ids items) items
               \<lparr>sz_used = [], sz_out = [], sz_identity = i\<rparr>))"

subsection \<open>Tools\<close>

definition codexImageGenerationTool :: gj where
  "codexImageGenerationTool = JObj [(''type'', JStr ''image_generation''), (''output_format'', JStr ''png'')]"

definition codexToolIncludesImageGeneration :: "gobj \<Rightarrow> bool" where
  "codexToolIncludesImageGeneration tool =
     (let kind = str_of (index_nil tool ''type''); name = str_of (index_nil tool ''name'')
      in if kind = ''image_generation'' then True
         else if kind = ''function'' then name = ''image_gen.imagegen''
         else if kind \<noteq> ''namespace'' then False
         else if name \<noteq> ''image_gen'' then False
         else list_ex (\<lambda>val. str_of (index_nil (item_of val) ''type'') = ''function''
                \<and> str_of (index_nil (item_of val) ''name'') = ''imagegen'')
              (case arr_of (index_nil tool ''tools'') of Some xs \<Rightarrow> xs | None \<Rightarrow> []))"

definition isCodexResponsesLiteRequest :: "identity_lib \<Rightarrow> gobj \<Rightarrow> headers \<Rightarrow> bool" where
  "isCodexResponsesLiteRequest il object h =
     (let yes = (\<lambda>s. il_fold il (TrimSpace s) = il_fold il ''true'')
      in if yes (headerValueFold il h ''X-OpenAI-Internal-Codex-Responses-Lite'') then True
         else (case index_nil (item_of (index_nil object ''client_metadata''))
                 ''ws_request_header_x_openai_internal_codex_responses_lite'' of
                 JBool b \<Rightarrow> b
               | JStr s \<Rightarrow> yes s
               | _ \<Rightarrow> False))"

definition ensureCodexImageGenerationTool ::
  "identity_lib \<Rightarrow> (gostring \<Rightarrow> gostring) \<Rightarrow> gobj \<Rightarrow> gostring \<Rightarrow> gostring \<Rightarrow> headers \<Rightarrow> gobj" where
  "ensureCodexImageGenerationTool il lower object model planType h =
     (if isCodexResponsesLiteRequest il object h \<or> suffix ''spark'' (lower (TrimSpace model))
         \<or> il_fold il (TrimSpace planType) = il_fold il ''free'' then object
      else (case map_of object ''tools'' of
              None \<Rightarrow> put ''tools'' (JArr [codexImageGenerationTool]) object
            | Some tools \<Rightarrow>
                (case arr_of tools of
                   None \<Rightarrow> put ''tools'' (JArr [codexImageGenerationTool]) object
                 | Some items \<Rightarrow>
                     if list_ex (\<lambda>val. case obj_of val of Some tool \<Rightarrow> codexToolIncludesImageGeneration tool | None \<Rightarrow> False) items
                     then object
                     else put ''tools'' (JArr (items @ [codexImageGenerationTool])) object)))"

definition normalizeCodexParallelToolCalls :: "identity_lib \<Rightarrow> gobj \<Rightarrow> headers \<Rightarrow> bool \<Rightarrow> gobj" where
  "normalizeCodexParallelToolCalls il object h websocketTransport =
     (if isCodexResponsesLiteRequest il object h then put ''parallel_tool_calls'' (JBool False) object
      else if websocketTransport then object
      else if (case arr_of (index_nil object ''tools'') of Some (x # xs) \<Rightarrow> False | _ \<Rightarrow> True)
      then del ''parallel_tool_calls'' object
      else object)"

subsection \<open>Bodies\<close>

record compat_lib =
  cl_identity :: identity_lib
  cl_sha256 :: "gostring \<Rightarrow> gostring"
  cl_lower :: "gostring \<Rightarrow> gostring"

definition prepareCodexInferenceObject ::
  "compat_lib \<Rightarrow> gobj \<Rightarrow> gostring \<Rightarrow> gostring \<Rightarrow> headers \<Rightarrow> bool \<Rightarrow> bool \<Rightarrow> codexIdentity \<Rightarrow>
     (codexIdentity \<times> (identity_error + gobj)) option" where
  "prepareCodexInferenceObject cl object0 model planType h websocketTransport includeImageTool i =
     (let object = (if includeImageTool
                    then ensureCodexImageGenerationTool (cl_identity cl) (cl_lower cl) object0 model planType h else object0)
      in map_option (\<lambda>r. and_then r (\<lambda>i' o'.
             (i', Inr (normalizeCodexParallelToolCalls (cl_identity cl) o' h websocketTransport))))
           (sanitizeCodexInputItems (cl_identity cl) (cl_sha256 cl) object i))"

definition prepareCodexHTTPBodyWithImageTool ::
  "compat_lib \<Rightarrow> gj \<Rightarrow> gostring \<Rightarrow> gostring \<Rightarrow> headers \<Rightarrow> bool \<Rightarrow> codexIdentity \<Rightarrow>
     (codexIdentity \<times> (identity_error + gobj)) option" where
  "prepareCodexHTTPBodyWithImageTool cl body model planType h includeImageTool i =
     (case obj_of body of
        None \<Rightarrow> Some (i, Inl NotAnObject)
      | Some object \<Rightarrow>
          prepareCodexInferenceObject cl
            (fold del [''previous_response_id'', ''generate'', ''safety_identifier'', ''stream_options''] object)
            model planType h False includeImageTool i)"

definition prepareCodexHTTPBody ::
  "compat_lib \<Rightarrow> gj \<Rightarrow> gostring \<Rightarrow> gostring \<Rightarrow> headers \<Rightarrow> codexIdentity \<Rightarrow>
     (codexIdentity \<times> (identity_error + gobj)) option" where
  "prepareCodexHTTPBody cl body model planType h i = prepareCodexHTTPBodyWithImageTool cl body model planType h True i"

definition prepareCodexChatBody ::
  "compat_lib \<Rightarrow> gj \<Rightarrow> gostring \<Rightarrow> gostring \<Rightarrow> headers \<Rightarrow> codexIdentity \<Rightarrow>
     (codexIdentity \<times> (identity_error + gobj)) option" where
  "prepareCodexChatBody cl body model planType h i = prepareCodexHTTPBodyWithImageTool cl body model planType h False i"

definition prepareCodexWebSocketBody ::
  "compat_lib \<Rightarrow> gj \<Rightarrow> gostring \<Rightarrow> gostring \<Rightarrow> headers \<Rightarrow> codexIdentity \<Rightarrow>
     (codexIdentity \<times> (identity_error + gobj)) option" where
  "prepareCodexWebSocketBody cl body model planType h i =
     (case obj_of body of
        None \<Rightarrow> Some (i, Inl NotAnObject)
      | Some object \<Rightarrow>
          prepareCodexInferenceObject cl (del ''safety_identifier'' object) model planType h True True i)"

definition prepareCodexPassthroughBody ::
  "compat_lib \<Rightarrow> gj \<Rightarrow> codexIdentity \<Rightarrow> (codexIdentity \<times> (identity_error + gobj)) option" where
  "prepareCodexPassthroughBody cl body i =
     (case obj_of body of
        None \<Rightarrow> Some (i, Inl NotAnObject)
      | Some object \<Rightarrow> sanitizeCodexInputItems (cl_identity cl) (cl_sha256 cl) object i)"

subsection \<open>Runes of parts\<close>

definition is_rune :: "gostring \<Rightarrow> bool" where
  "is_rune r \<longleftrightarrow> r \<noteq> [] \<and> (\<forall>t. utf8_length (r @ t) = length r)"

lemma utf8_length_le: "utf8_length s \<le> length s"
  by (auto simp: utf8_length_def split: list.split)

lemma utf8_length_take:
  assumes "utf8_length s \<noteq> 0"
  shows "is_rune (take (utf8_length s) s)"
proof -
  obtain c r where s: "s = c # r" using assms by (cases s) (auto simp: utf8_length_def)
  have "utf8_length (take (utf8_length s) s @ t) = utf8_length s" for t
  proof -
    consider "within_bytes 0 0x7F c" | "within_bytes 0xC2 0xDF c" | "within_bytes 0xE0 0xEF c" | "within_bytes 0xF0 0xF4 c"
      using assms by (auto simp: s utf8_length_def split: if_splits)
    then show ?thesis
    proof cases
      case 1
      then show ?thesis by (simp add: s utf8_length_def)
    next
      case 2
      then have n: "\<not> within_bytes 0 0x7F c" by (simp add: within_bytes_def)
      with 2 assms have "1 \<le> length r" "continuation (r ! 0)" "utf8_length s = 2"
        by (auto simp: s utf8_length_def within_bytes_def split: if_splits)
      with 2 n show ?thesis by (simp add: s utf8_length_def nth_append)
    next
      case 3
      then have n: "\<not> within_bytes 0 0x7F c" "\<not> within_bytes 0xC2 0xDF c" "\<not> within_bytes 0xF0 0xF4 c"
        by (simp_all add: within_bytes_def)
      let ?ok = "2 \<le> length r \<and> within_bytes (if byte c = 0xE0 then 0xA0 else 0x80) (if byte c = 0xED then 0x9F else 0xBF) (r ! 0)
          \<and> continuation (r ! 1)"
      have "utf8_length s = (if ?ok then 3 else 0)" using 3 n by (simp add: s utf8_length_def)
      with assms have "?ok" "utf8_length s = 3" by (auto split: if_splits)
      with 3 n show ?thesis by (simp add: s utf8_length_def nth_append)
    next
      case 4
      then have n: "\<not> within_bytes 0 0x7F c" "\<not> within_bytes 0xC2 0xDF c" "\<not> within_bytes 0xE0 0xEF c"
        by (simp_all add: within_bytes_def)
      let ?ok = "3 \<le> length r \<and> within_bytes (if byte c = 0xF0 then 0x90 else 0x80) (if byte c = 0xF4 then 0x8F else 0xBF) (r ! 0)
          \<and> continuation (r ! 1) \<and> continuation (r ! 2)"
      have "utf8_length s = (if ?ok then 4 else 0)" using 4 n by (simp add: s utf8_length_def)
      with assms have "?ok" "utf8_length s = 4" by (auto split: if_splits)
      with 4 n show ?thesis by (simp add: s utf8_length_def nth_append)
    qed
  qed
  then show ?thesis using assms utf8_length_le [of s] by (auto simp: is_rune_def s)
qed

lemma replacement_is_rune: "is_rune replacement_rune"
  by (simp add: is_rune_def replacement_rune_def utf8_length_def within_bytes_def byte_def)

lemma runes_are_runes: "r \<in> set (runes s) \<Longrightarrow> is_rune r"
proof (induction s rule: runes.induct)
  case (1 s)
  then show ?case
    using utf8_length_take [of s] replacement_is_rune
    by (subst (asm) (3) runes.simps) (auto split: if_splits)
qed

lemma runes_concat: "(\<And>r. r \<in> set rs \<Longrightarrow> is_rune r) \<Longrightarrow> runes (concat rs @ t) = rs @ runes t"
proof (induction rs)
  case (Cons r rs)
  then have r: "r \<noteq> []" "utf8_length (r @ concat rs @ t) = length r" by (simp_all add: is_rune_def)
  with Cons show ?case by (subst runes.simps) simp
qed simp

lemma ascii_rune: "within_bytes 0 127 c \<Longrightarrow> is_rune [c]"
  by (simp add: is_rune_def utf8_length_def)

lemma runes_ascii:
  assumes "ascii a"
  shows "runes (a @ t) = map (\<lambda>c. [c]) a @ runes t"
proof -
  have "runes (concat (map (\<lambda>c. [c]) a) @ t) = map (\<lambda>c. [c]) a @ runes t"
    using assms by (intro runes_concat) (auto simp: ascii_def list_all_iff ascii_rune)
  then show ?thesis by simp
qed

lemma runes_Nil [simp]: "runes [] = []"
  by (simp add: runes.simps)

lemma hex_ascii: "ascii (hex_byte n)" if "n < 256"
  using that by (auto simp: hex_byte_def hex_char_def ascii_def within_bytes_def byte_def of_char_of)

lemma byte_less: "byte c < 256"
  by (simp add: byte_def)

lemma ascii_append [simp]: "ascii (a @ b) \<longleftrightarrow> ascii a \<and> ascii b"
  by (simp add: ascii_def)

lemma ascii_hexes: "ascii (concat (map (\<lambda>c. hex_byte (byte c)) cs))"
proof (induction cs)
  case (Cons c cs)
  then show ?case by (simp add: hex_ascii byte_less)
qed (simp add: ascii_def)

lemma ascii_underscore: "ascii ''_''"
  by (simp add: ascii_def within_bytes_def byte_def)

subsection \<open>Shortened ids\<close>

lemma hexes_length: "length (concat (map (\<lambda>c. hex_byte (byte c)) cs)) = 2 * length cs"
  by (induction cs) (simp_all add: hex_byte_def)

lemma shorten_split:
  obtains k a where "shortenCodexInputItemID sha256 itemID attempt = concat (take k (runes itemID)) @ a"
    "ascii a" "k = min (64 - length a) (length (runes itemID))" "length a \<le> 17"
proof -
  let ?in = "if attempt > 0 then itemID @ [CHR 0x00] @ itoa attempt else itemID"
  let ?a = "''_'' @ concat (map (\<lambda>c. hex_byte (byte c)) (take 8 (sha256 ?in)))"
  show thesis
  proof (rule that [of "min (64 - length ?a) (length (runes itemID))" ?a])
    show "shortenCodexInputItemID sha256 itemID attempt =
        concat (take (min (64 - length ?a) (length (runes itemID))) (runes itemID)) @ ?a"
      by (simp add: shortenCodexInputItemID_def codexInputItemIDLimit_def Let_def)
    show "ascii ?a" using ascii_hexes ascii_underscore by (simp only: ascii_append)
    show "length ?a \<le> 17" by (simp add: hexes_length)
  qed simp
qed

lemma take_are_runes: "r \<in> set (take k (runes s)) \<Longrightarrow> is_rune r"
  using in_set_takeD runes_are_runes by metis

lemma runes_ascii_only: "ascii a \<Longrightarrow> runes a = map (\<lambda>c. [c]) a"
  using runes_ascii [of a "[]"] by simp

lemma shorten_runes: "length (runes (shortenCodexInputItemID sha256 itemID attempt)) \<le> 64"
proof -
  obtain k a where s: "shortenCodexInputItemID sha256 itemID attempt = concat (take k (runes itemID)) @ a"
    "ascii a" "k = min (64 - length a) (length (runes itemID))" "length a \<le> 17" by (rule shorten_split)
  have "runes (concat (take k (runes itemID)) @ a) = take k (runes itemID) @ runes a"
    by (rule runes_concat) (rule take_are_runes)
  with s show ?thesis by (simp add: runes_ascii_only)
qed

lemma shorten_prefix:
  assumes "has_prefix itemID pre" "ascii pre" "length pre \<le> 47"
  shows "has_prefix (shortenCodexInputItemID sha256 itemID attempt) pre"
proof -
  obtain k a where s: "shortenCodexInputItemID sha256 itemID attempt = concat (take k (runes itemID)) @ a"
    "ascii a" "k = min (64 - length a) (length (runes itemID))" "length a \<le> 17" by (rule shorten_split)
  obtain t where t: "itemID = pre @ t"
    using assms(1) append_take_drop_id [of "length pre" itemID] by (metis has_prefix_def)
  have r: "runes itemID = map (\<lambda>c. [c]) pre @ runes t" using assms(2) by (simp add: t runes_ascii)
  then have "k \<ge> length pre" using s(3,4) assms(3) by simp
  then have "concat (take k (runes itemID)) = pre @ concat (take (k - length pre) (runes t))" by (simp add: r)
  with s(1) show ?thesis by simp
qed

subsection \<open>The search for a fresh id\<close>

lemma unique_from_ok:
  assumes "unique_from sha256 itemID reserved used a = Some c"
  shows "c \<notin> set reserved \<and> c \<notin> set used \<and> (\<exists>k. c = shortenCodexInputItemID sha256 itemID k)"
proof (rule unique_from.raw_induct [where P = "\<lambda>sha256 itemID reserved used a c.
      c \<notin> set reserved \<and> c \<notin> set used \<and> (\<exists>k. c = shortenCodexInputItemID sha256 itemID k)", OF _ assms])
  fix f sha256 itemID reserved used a c
  assume IH: "\<And>sha256 itemID reserved used a c. f sha256 itemID reserved used a = Some c \<Longrightarrow>
      c \<notin> set reserved \<and> c \<notin> set used \<and> (\<exists>k. c = shortenCodexInputItemID sha256 itemID k)"
    and eq: "(let candidate = shortenCodexInputItemID sha256 itemID a
      in if candidate \<in> set reserved then f sha256 itemID reserved used (Suc a)
         else if candidate \<in> set used then f sha256 itemID reserved used (Suc a)
         else Some candidate) = Some c"
  show "c \<notin> set reserved \<and> c \<notin> set used \<and> (\<exists>k. c = shortenCodexInputItemID sha256 itemID k)"
    using eq IH [of sha256 itemID reserved used "Suc a" c] by (auto simp: Let_def split: if_splits)
qed

lemma unique_reaches:
  "shortenCodexInputItemID sha256 itemID k \<notin> set reserved \<union> set used \<Longrightarrow> a \<le> k \<Longrightarrow>
     \<exists>c. unique_from sha256 itemID reserved used a = Some c"
proof (induction "k - a" arbitrary: a)
  case 0
  then show ?case by (subst unique_from.simps) (simp add: Let_def)
next
  case (Suc n)
  then have "\<exists>c. unique_from sha256 itemID reserved used (Suc a) = Some c" by simp
  then show ?case by (subst unique_from.simps) (auto simp: Let_def)
qed

text \<open>Enough attempts with different results contain a fresh one.\<close>

lemma fresh_attempt:
  assumes "inj_on f {..n}" "card S \<le> n" "finite S"
  shows "\<exists>k \<le> n. f k \<notin> S"
proof (rule ccontr)
  assume "\<not> (\<exists>k \<le> n. f k \<notin> S)"
  then have "f ` {..n} \<subseteq> S" by auto
  then have "card (f ` {..n}) \<le> card S" using assms(3) by (rule card_mono [rotated])
  with assms(1,2) show False by (simp add: card_image)
qed

lemma unique_terminates:
  assumes "inj_on (shortenCodexInputItemID sha256 itemID) {..n}" "length reserved + length used \<le> n"
  shows "\<exists>c. uniqueCodexInputItemID sha256 itemID reserved used = Some c"
proof -
  have "card (set reserved \<union> set used) \<le> n"
    using card_Un_le [of "set reserved" "set used"] card_length [of reserved] card_length [of used] assms(2) by linarith
  then obtain k where "shortenCodexInputItemID sha256 itemID k \<notin> set reserved \<union> set used"
    using fresh_attempt [OF assms(1)] by blast
  then show ?thesis unfolding uniqueCodexInputItemID_def by (rule unique_reaches) simp
qed

subsection \<open>Items after the pass\<close>

lemma prefix_facts: "ascii (codexInputItemPrefix item)" "length (codexInputItemPrefix item) \<le> 4"
  by (simp_all add: codexInputItemPrefix_def Let_def ascii_def within_bytes_def byte_def)

lemma canonical_iff:
  "canonicalCodexInputItemID item n = n \<longleftrightarrow> codexInputItemPrefix item = [] \<or> n = [] \<or> has_prefix n (codexInputItemPrefix item)"
  by (auto simp: canonicalCodexInputItemID_def Let_def)

lemma unique_ok:
  assumes "uniqueCodexInputItemID sha256 n reserved used = Some c" "canonicalCodexInputItemID item n = n" "n \<noteq> []"
  shows "length (runes c) \<le> 64 \<and> canonicalCodexInputItemID item c = c \<and> c \<noteq> [] \<and> c \<notin> set reserved"
proof -
  obtain k where c: "c \<notin> set reserved" "c = shortenCodexInputItemID sha256 n k"
    using unique_from_ok [of sha256 n reserved used 0 c] assms(1) by (auto simp: uniqueCodexInputItemID_def)
  have "c \<noteq> []" by (simp add: c(2) shortenCodexInputItemID_def Let_def)
  moreover have "canonicalCodexInputItemID item c = c"
    using assms(2,3) shorten_prefix [of n "codexInputItemPrefix item" sha256 k] prefix_facts [of item]
    by (auto simp: canonical_iff c(2))
  ultimately show ?thesis using c shorten_runes by auto
qed

lemma new_id_ok:
  assumes "new_item_id il sha256 i reserved used item = Some n" "item_id item \<noteq> []"
  shows "length (runes n) \<le> 64 \<and> canonicalCodexInputItemID item n = n \<and> n \<noteq> [] \<and>
    (n \<noteq> item_id item \<longrightarrow> n \<notin> set reserved)"
proof -
  let ?n0 = "canonicalCodexInputItemID item (item_id item)"
  define n1 where "n1 = (if ci_remap i \<and> (?n0 \<noteq> item_id item \<or> length (runes ?n0) > codexInputItemIDLimit)
      then mappedCodexInputItemID il i item (item_id item) else ?n0)"
  have n1: "canonicalCodexInputItemID item n1 = n1" "n1 \<noteq> []"
    using assms(2)
    by (auto simp: n1_def canonical_iff mappedCodexInputItemID_def canonicalCodexInputItemID_def Let_def split: if_splits)
  have "Option.bind (if n1 \<in> set reserved \<and> n1 \<noteq> item_id item then uniqueCodexInputItemID sha256 n1 reserved used else Some n1)
      (\<lambda>n2. if length (runes n2) > codexInputItemIDLimit then uniqueCodexInputItemID sha256 n2 reserved used else Some n2) = Some n"
    using assms(1) unfolding new_item_id_def Let_def n1_def .
  then obtain n2 where n2: "(if n1 \<in> set reserved \<and> n1 \<noteq> item_id item then uniqueCodexInputItemID sha256 n1 reserved used else Some n1) = Some n2"
    and n: "(if length (runes n2) > codexInputItemIDLimit then uniqueCodexInputItemID sha256 n2 reserved used else Some n2) = Some n"
    unfolding bind_eq_Some_conv by blast
  have ok2: "canonicalCodexInputItemID item n2 = n2 \<and> n2 \<noteq> [] \<and> (n2 \<noteq> item_id item \<longrightarrow> n2 \<notin> set reserved)"
    using n2 n1 unique_ok [OF _ n1, of sha256 reserved used n2] by (auto split: if_splits)
  then show ?thesis
    using n unique_ok [of sha256 n2 reserved used n item] by (auto simp: codexInputItemIDLimit_def split: if_splits)
qed

text \<open>What the upstream accepts, and a second pass would not change.\<close>

definition item_ok :: "gobj \<Rightarrow> bool" where
  "item_ok m \<longleftrightarrow> item_id m \<noteq> [] \<longrightarrow> length (runes (item_id m)) \<le> 64 \<and> canonicalCodexInputItemID m (item_id m) = item_id m"

definition settled :: "bool \<Rightarrow> gj \<Rightarrow> bool" where
  "settled store val \<longleftrightarrow>
     (case obj_of val of
        None \<Rightarrow> True
      | Some m \<Rightarrow> item_ok m \<and>
          (str_of (index_nil m ''type'') = ''reasoning'' \<longrightarrow> sanitizeCodexReasoningItem m store = (m, True)))"

lemma id_put [simp]: "item_id (put ''id'' (JStr n) m) = n"
  by (simp add: item_id_def index_nil_def str_of_def)

lemma type_put [simp]: "index_nil (put ''id'' v m) ''type'' = index_nil m ''type''"
  by (simp add: index_nil_def)

lemma canonical_put [simp]: "canonicalCodexInputItemID (put ''id'' v m) n = canonicalCodexInputItemID m n"
  by (simp add: canonicalCodexInputItemID_def codexInputItemPrefix_def)

lemma reasoning_type:
  "sanitizeCodexReasoningItem m store = (m', kept) \<Longrightarrow> index_nil m' ''type'' = index_nil m ''type''"
  by (auto simp: sanitizeCodexReasoningItem_def index_nil_def Let_def split: option.splits if_splits)

text \<open>A reasoning item that is kept is kept as it is the next time, also with its new id.\<close>

lemma reasoning_item_again:
  assumes "sanitizeCodexReasoningItem m store = (m', True)"
  shows "item_id m' = [] \<Longrightarrow> sanitizeCodexReasoningItem m' store = (m', True)"
    and "item_id m' \<noteq> [] \<Longrightarrow> length (runes n) \<le> 64 \<Longrightarrow>
      sanitizeCodexReasoningItem (put ''id'' (JStr n) m') store = (put ''id'' (JStr n) m', True)"
proof -
  let ?valid = "case index_nil m ''encrypted_content'' of JStr e \<Rightarrow> validCodexReasoningEncryptedContent e | _ \<Rightarrow> False"
  have m': "m' = (if ?valid then m else
      (let m1 = del ''encrypted_content'' m in if \<not> store then del ''id'' m1 else m1))"
    using assms by (auto simp: sanitizeCodexReasoningItem_def index_nil_def Let_def del_absent split: option.splits if_splits)
  show "item_id m' = [] \<Longrightarrow> sanitizeCodexReasoningItem m' store = (m', True)"
    unfolding m'
    by (cases ?valid)
      (auto simp: sanitizeCodexReasoningItem_def index_nil_def Let_def del_absent item_id_def codexInputItemIDLimit_def
        split: option.splits gj.splits)
  show "item_id m' \<noteq> [] \<Longrightarrow> length (runes n) \<le> 64 \<Longrightarrow>
      sanitizeCodexReasoningItem (put ''id'' (JStr n) m') store = (put ''id'' (JStr n) m', True)"
    unfolding m'
    by (cases ?valid)
      (auto simp: sanitizeCodexReasoningItem_def index_nil_def Let_def item_id_def codexInputItemIDLimit_def str_of_def
        split: option.splits gj.splits if_splits)
qed

lemma object_settled:
  assumes "sanitize_object il sha256 reserved m z = Some z'"
    and "str_of (index_nil m ''type'') = ''reasoning'' \<Longrightarrow> \<exists>m0. sanitizeCodexReasoningItem m0 store = (m, True)"
  shows "\<exists>m'. sz_out z' = sz_out z @ [JObj m'] \<and> settled store (JObj m')"
proof (cases "item_id m = []")
  case True
  have "str_of (index_nil m ''type'') = ''reasoning'' \<Longrightarrow> sanitizeCodexReasoningItem m store = (m, True)"
    using assms(2) reasoning_item_again(1) [OF _ True] by blast
  with True assms(1) show ?thesis
    by (auto simp: sanitize_object_def append_item_def settled_def obj_of_def item_ok_def)
next
  case False
  then obtain n where n: "new_item_id il sha256 (sz_identity z) reserved (sz_used z) m = Some n"
    and out: "sz_out z' = sz_out z @ [JObj (if n \<noteq> item_id m then put ''id'' (JStr n) m else m)]"
    using assms(1) by (auto simp: sanitize_object_def append_item_def Let_def bind_eq_Some_conv)
  have same: "(if n \<noteq> item_id m then put ''id'' (JStr n) m else m) = put ''id'' (JStr n) m"
    using False by (auto simp: put_same item_id_def str_of_def index_nil_def split: gj.splits option.splits)
  have "settled store (JObj (put ''id'' (JStr n) m))"
    using new_id_ok [OF n False] assms(2) False
    by (auto simp: settled_def obj_of_def item_ok_def dest: reasoning_item_again(2))
  with out same show ?thesis by auto
qed

lemma value_settled:
  assumes "sanitize_value il sha256 store reserved val z = Some z'" "list_all (settled store) (sz_out z)"
  shows "list_all (settled store) (sz_out z')"
proof (cases "obj_of val")
  case None
  with assms show ?thesis by (auto simp: sanitize_value_def append_item_def settled_def)
next
  case (Some item)
  obtain m kept where m: "(if str_of (index_nil item ''type'') = ''reasoning''
      then sanitizeCodexReasoningItem item store else (item, True)) = (m, kept)" by fastforce
  show ?thesis
  proof (cases kept)
    case False
    with assms m Some show ?thesis by (simp add: sanitize_value_def)
  next
    case True
    with assms(1) m Some have o': "sanitize_object il sha256 reserved m z = Some z'" by (simp add: sanitize_value_def)
    have "\<exists>m0. sanitizeCodexReasoningItem m0 store = (m, True)" if "str_of (index_nil m ''type'') = ''reasoning''"
      using m True that by (auto split: if_splits)
    from object_settled [OF o' this] assms(2) show ?thesis by auto
  qed
qed

lemma values_settled:
  "sanitize_values il sha256 store reserved vals z = Some z' \<Longrightarrow> list_all (settled store) (sz_out z) \<Longrightarrow>
     list_all (settled store) (sz_out z')"
proof (induction vals arbitrary: z)
  case (Cons val vals)
  then obtain z1 where "sanitize_value il sha256 store reserved val z = Some z1"
    "sanitize_values il sha256 store reserved vals z1 = Some z'" by (auto simp: bind_eq_Some_conv)
  with Cons value_settled show ?case by blast
qed simp

text \<open>A settled list passes unchanged.\<close>

lemma settled_passes:
  assumes "list_all (settled store) vals"
  shows "\<exists>used. sanitize_values il sha256 store reserved vals z =
    Some (z\<lparr>sz_used := used, sz_out := sz_out z @ vals\<rparr>)"
  using assms
proof (induction vals arbitrary: z)
  case Nil
  then show ?case by (auto intro: exI [of _ "sz_used z"])
next
  case (Cons val vals)
  have "\<exists>used. sanitize_value il sha256 store reserved val z = Some (z\<lparr>sz_used := used, sz_out := sz_out z @ [val]\<rparr>)"
  proof (cases "obj_of val")
    case None
    then show ?thesis by (auto simp: sanitize_value_def append_item_def intro: exI [of _ "sz_used z"])
  next
    case (Some m)
    then have val: "val = JObj m" by (cases val) (simp_all add: obj_of_def)
    have s: "item_ok m" "(if str_of (index_nil m ''type'') = ''reasoning''
        then sanitizeCodexReasoningItem m store else (m, True)) = (m, True)"
      using Cons.prems Some by (simp_all add: settled_def)
    have "item_id m \<noteq> [] \<Longrightarrow> new_item_id il sha256 (sz_identity z) reserved (sz_used z) m = Some (item_id m)"
      using s(1) by (simp add: new_item_id_def item_ok_def codexInputItemIDLimit_def Let_def)
    then have "\<exists>used. sanitize_object il sha256 reserved m z = Some (z\<lparr>sz_used := used, sz_out := sz_out z @ [val]\<rparr>)"
      by (cases "item_id m = []")
        (auto simp: sanitize_object_def append_item_def val Let_def intro: exI [of _ "sz_used z"])
    then show ?thesis by (simp add: sanitize_value_def Some s(2))
  qed
  then obtain used where u: "sanitize_value il sha256 store reserved val z =
      Some (z\<lparr>sz_used := used, sz_out := sz_out z @ [val]\<rparr>)" by blast
  obtain used' where "sanitize_values il sha256 store reserved vals (z\<lparr>sz_used := used, sz_out := sz_out z @ [val]\<rparr>) =
      Some (z\<lparr>sz_used := used, sz_out := sz_out z @ [val]\<rparr>\<lparr>sz_used := used', sz_out := (sz_out z @ [val]) @ vals\<rparr>)"
    using Cons.IH [of "z\<lparr>sz_used := used, sz_out := sz_out z @ [val]\<rparr>"] Cons.prems by auto
  with u show ?case by auto
qed

subsection \<open>Ids that are kept\<close>

definition id_count :: "gostring \<Rightarrow> gj list \<Rightarrow> nat" where
  "id_count r vals = length (filter (\<lambda>val. item_id (item_of val) = r) vals)"

lemma id_count_append [simp]: "id_count r (xs @ ys) = id_count r xs + id_count r ys"
  by (simp add: id_count_def)

lemma id_count_simps [simp]:
  "id_count r [] = 0" "id_count r (val # vals) = (if item_id (item_of val) = r then 1 else 0) + id_count r vals"
  by (simp_all add: id_count_def)

lemma reasoning_id:
  "sanitizeCodexReasoningItem m store = (m', kept) \<Longrightarrow> item_id m' \<noteq> [] \<Longrightarrow> item_id m' = item_id m"
  by (auto simp: sanitizeCodexReasoningItem_def item_id_def index_nil_def str_of_def Let_def split: option.splits if_splits)

lemma item_of_JObj [simp]: "item_of (JObj m) = m"
  by (simp add: item_of_def obj_of_def)

lemma object_id_count:
  assumes "sanitize_object il sha256 reserved m z = Some z'" "r \<in> set reserved" "r \<noteq> []"
  shows "id_count r (sz_out z') \<le> id_count r (sz_out z) + (if item_id m = r then 1 else 0)"
proof (cases "item_id m = []")
  case True
  with assms show ?thesis by (auto simp: sanitize_object_def append_item_def)
next
  case False
  then obtain n where n: "new_item_id il sha256 (sz_identity z) reserved (sz_used z) m = Some n"
    and out: "sz_out z' = sz_out z @ [JObj (if n \<noteq> item_id m then put ''id'' (JStr n) m else m)]"
    using assms(1) by (auto simp: sanitize_object_def append_item_def Let_def bind_eq_Some_conv)
  from new_id_ok [OF n False] assms(2) have "n = item_id m \<or> n \<noteq> r" by auto
  then show ?thesis by (auto simp: out)
qed

lemma value_id_count:
  assumes "sanitize_value il sha256 store reserved val z = Some z'" "r \<in> set reserved" "r \<noteq> []"
  shows "id_count r (sz_out z') \<le> id_count r (sz_out z) + (if item_id (item_of val) = r then 1 else 0)"
proof (cases "obj_of val")
  case None
  with assms show ?thesis by (auto simp: sanitize_value_def append_item_def)
next
  case (Some item)
  then have item: "item_of val = item" by (simp add: item_of_def)
  obtain m kept where m: "(if str_of (index_nil item ''type'') = ''reasoning''
      then sanitizeCodexReasoningItem item store else (item, True)) = (m, kept)" by fastforce
  have "item_id m = r \<Longrightarrow> item_id item = r" using m assms(3) reasoning_id [of item store m kept] by (auto split: if_splits)
  moreover have "z' = z \<or> sanitize_object il sha256 reserved m z = Some z'"
    using assms(1) Some m by (auto simp: sanitize_value_def split: if_splits)
  ultimately show ?thesis
    using object_id_count [OF _ assms(2,3), of il sha256 m z z'] by (auto simp: item split: if_splits)
qed

lemma values_id_count:
  "sanitize_values il sha256 store reserved vals z = Some z' \<Longrightarrow> r \<in> set reserved \<Longrightarrow> r \<noteq> [] \<Longrightarrow>
     id_count r (sz_out z') \<le> id_count r (sz_out z) + id_count r vals"
proof (induction vals arbitrary: z)
  case (Cons val vals)
  then obtain z1 where "sanitize_value il sha256 store reserved val z = Some z1"
    "sanitize_values il sha256 store reserved vals z1 = Some z'" by (auto simp: bind_eq_Some_conv)
  with Cons.IH [of z1] Cons.prems value_id_count [of il sha256 store reserved val z z1 r] show ?case by fastforce
qed simp

subsection \<open>Properties\<close>

lemma sanitize_obtains:
  assumes "sanitizeCodexInputItems il sha256 object i = Some (i', Inr object')"
    "arr_of (index_nil object ''input'') = Some items"
  obtains z where "sanitize_values il sha256 (bool_of (index_nil object ''store'')) (reserved_ids items) items
      \<lparr>sz_used = [], sz_out = [], sz_identity = i\<rparr> = Some z"
    "object' = put ''input'' (JArr (sz_out z)) object" "i' = sz_identity z"
  using assms by (auto simp: sanitizeCodexInputItems_def mappingError_Inr)

lemma sanitize_again:
  assumes "sanitizeCodexInputItems il sha256 object i = Some (i', Inr object')"
    and "arr_of (index_nil object ''input'') = Some items"
  shows "\<exists>items'. index_nil object' ''input'' = JArr items'
    \<and> list_all (settled (bool_of (index_nil object ''store''))) items'
    \<and> sanitizeCodexInputItems il sha256 object' j = Some (mappingError j object')"
proof -
  obtain z where z: "sanitize_values il sha256 (bool_of (index_nil object ''store'')) (reserved_ids items) items
      \<lparr>sz_used = [], sz_out = [], sz_identity = i\<rparr> = Some z" and o': "object' = put ''input'' (JArr (sz_out z)) object"
    by (rule sanitize_obtains [OF assms])
  have store: "index_nil object' ''store'' = index_nil object ''store''" and input: "index_nil object' ''input'' = JArr (sz_out z)"
    by (simp_all add: o' index_nil_def)
  have settled: "list_all (settled (bool_of (index_nil object ''store''))) (sz_out z)"
    using values_settled [OF z] by simp
  from settled_passes [OF this, of il sha256 "reserved_ids (sz_out z)" "\<lparr>sz_used = [], sz_out = [], sz_identity = j\<rparr>"]
  have "sanitizeCodexInputItems il sha256 object' j = Some (mappingError j (put ''input'' (JArr (sz_out z)) object'))"
    by (auto simp: sanitizeCodexInputItems_def store input arr_of_def)
  moreover have "put ''input'' (JArr (sz_out z)) object' = object'" by (rule put_same) (simp add: o')
  ultimately show ?thesis using settled input by auto
qed

text \<open>
  Input items the upstream accepts. After the pass every item id has at most 64 characters and the prefix of
  its kind, a reasoning item has either valid encrypted content or none, and a second pass
  (which the fallback from WebSocket to HTTP makes) changes nothing and remembers nothing.
\<close>

lemma items_settled:
  assumes "sanitizeCodexInputItems il sha256 object i = Some (i', Inr object')"
    and "arr_of (index_nil object ''input'') = Some items"
  shows "\<exists>items'. index_nil object' ''input'' = JArr items'
    \<and> list_all (settled (bool_of (index_nil object ''store''))) items'
    \<and> sanitizeCodexInputItems il sha256 object' j = Some (mappingError j object')"
  using assms by (rule sanitize_again)

text \<open>
  A new id never takes an id that is kept. An id that is acceptable as the client sent it
  occurs in the items sent upstream at most as often as the client used it, so rewritten ids
  never collide with it.
\<close>

lemma kept_ids_not_taken:
  assumes "sanitizeCodexInputItems il sha256 object i = Some (i', Inr object')"
    and "arr_of (index_nil object ''input'') = Some items" "r \<in> set (reserved_ids items)"
  shows "\<exists>items'. index_nil object' ''input'' = JArr items' \<and> id_count r items' \<le> id_count r items"
proof -
  obtain z where z: "sanitize_values il sha256 (bool_of (index_nil object ''store'')) (reserved_ids items) items
      \<lparr>sz_used = [], sz_out = [], sz_identity = i\<rparr> = Some z" and o': "object' = put ''input'' (JArr (sz_out z)) object"
    by (rule sanitize_obtains [OF assms(1,2)])
  have "r \<noteq> []" using assms(3) by (auto simp: reserved_ids_def List.map_filter_def Let_def split: if_splits)
  from values_id_count [OF z assms(3) this] show ?thesis by (auto simp: o' index_nil_def)
qed

text \<open>What each attempt of the search hashes to.\<close>

definition attempt_digest :: "(gostring \<Rightarrow> gostring) \<Rightarrow> gostring \<Rightarrow> nat \<Rightarrow> gostring" where
  "attempt_digest sha256 itemID attempt =
     take 8 (sha256 (if attempt > 0 then itemID @ [CHR 0x00] @ itoa attempt else itemID))"

lemma hex_byte_inj: "a < 256 \<Longrightarrow> b < 256 \<Longrightarrow> hex_byte a = hex_byte b \<longleftrightarrow> a = b"
proof -
  have h: "hex_char m = hex_char n \<longleftrightarrow> m = n" if "m < 16" "n < 16" for m n
  proof -
    have "(of_char (hex_char m) :: nat) = (if m < 10 then 48 + m else 87 + m)" if "m < 16" for m
      using that by (auto simp: hex_char_def of_char_of)
    with that show ?thesis by (auto split: if_splits dest!: arg_cong [where f = "of_char :: char \<Rightarrow> nat"])
  qed
  assume "a < 256" "b < 256"
  then have "hex_byte a = hex_byte b \<longleftrightarrow> a div 16 = b div 16 \<and> a mod 16 = b mod 16"
    by (simp add: hex_byte_def h less_mult_imp_div_less)
  then show ?thesis by (metis div_mult_mod_eq)
qed

lemma hexes_inj:
  "concat (map (\<lambda>c. hex_byte (byte c)) xs) = concat (map (\<lambda>c. hex_byte (byte c)) ys) \<Longrightarrow> xs = ys"
proof (induction xs arbitrary: ys)
  case Nil
  then show ?case by (cases ys) (simp_all add: hex_byte_def)
next
  case (Cons x xs)
  then obtain y ys' where ys: "ys = y # ys'" by (cases ys) (simp_all add: hex_byte_def)
  have "hex_byte (byte x) = hex_byte (byte y) \<and>
      concat (map (\<lambda>c. hex_byte (byte c)) xs) = concat (map (\<lambda>c. hex_byte (byte c)) ys')"
    using Cons.prems by (simp add: ys hex_byte_def)
  with Cons.IH [of ys'] show ?case by (simp add: ys hex_byte_inj byte_less) (simp add: byte_def)
qed

lemma shorten_inj:
  assumes "\<And>m. length (sha256 m) = 32" "inj_on (attempt_digest sha256 s) A"
  shows "inj_on (shortenCodexInputItemID sha256 s) A"
proof (rule inj_onI)
  fix a b assume ab: "a \<in> A" "b \<in> A" "shortenCodexInputItemID sha256 s a = shortenCodexInputItemID sha256 s b"
  have form: "shortenCodexInputItemID sha256 s a = concat (take (min 47 (length (runes s))) (runes s)) @ ''_'' @
      concat (map (\<lambda>c. hex_byte (byte c)) (attempt_digest sha256 s a))" for a
    by (simp add: shortenCodexInputItemID_def attempt_digest_def codexInputItemIDLimit_def hexes_length assms(1) Let_def)
  from ab(3) have "concat (map (\<lambda>c. hex_byte (byte c)) (attempt_digest sha256 s a)) =
      concat (map (\<lambda>c. hex_byte (byte c)) (attempt_digest sha256 s b))" by (simp add: form)
  then have "attempt_digest sha256 s a = attempt_digest sha256 s b" by (rule hexes_inj)
  with assms(2) ab(1,2) show "a = b" by (simp add: inj_on_def)
qed

lemma new_id_exists:
  assumes "\<And>s. inj_on (shortenCodexInputItemID sha256 s) {..n}" "length reserved + length used \<le> n"
  shows "\<exists>k. new_item_id il sha256 i reserved used item = Some k"
  using unique_terminates [OF assms(1) assms(2)]
  by (fastforce simp: new_item_id_def Let_def bind_eq_None_conv simp flip: not_None_eq split: if_splits)

lemma reserved_length: "length (reserved_ids items) \<le> length items"
  by (simp add: reserved_ids_def List.map_filter_def)

lemma values_exist:
  assumes "\<And>s. inj_on (shortenCodexInputItemID sha256 s) {..n}"
  shows "length reserved + length (sz_used z) + length vals \<le> n \<Longrightarrow>
    \<exists>z'. sanitize_values il sha256 store reserved vals z = Some z'"
proof (induction vals arbitrary: z)
  case (Cons val vals)
  have obj: "\<exists>z1. sanitize_object il sha256 reserved m z = Some z1 \<and> length (sz_used z1) \<le> Suc (length (sz_used z))" for m
    using new_id_exists [OF assms, of reserved "sz_used z" il "sz_identity z" m] Cons.prems
    by (auto simp: sanitize_object_def append_item_def Let_def)
  have "\<exists>z1. sanitize_value il sha256 store reserved val z = Some z1 \<and> length (sz_used z1) \<le> Suc (length (sz_used z))"
    using obj by (auto simp: sanitize_value_def append_item_def split: option.split prod.split)
  then obtain z1 where z1: "sanitize_value il sha256 store reserved val z = Some z1"
    "length (sz_used z1) \<le> Suc (length (sz_used z))" by blast
  with Cons.IH [of z1] Cons.prems show ?case by auto
qed simp

text \<open>C21.
  The search for fresh ids ends. The loop has no bound of its own; it ends for every request whose attempts
  hash differently as far as twice the number of items, which is as many ids as can be
  taken. Then the pass over the items returns, with a body or an error.
\<close>

theorem items_terminate:
  assumes "\<And>m. length (sha256 m) = 32"
    and "arr_of (index_nil object ''input'') = Some items"
    and "\<And>s. inj_on (attempt_digest sha256 s) {..2 * length items}"
  shows "\<exists>r. sanitizeCodexInputItems il sha256 object i = Some r"
proof -
  have "inj_on (shortenCodexInputItemID sha256 s) {..2 * length items}" for s
    using assms(1,3) by (rule shorten_inj)
  from values_exist [OF this, of "reserved_ids items" "\<lparr>sz_used = [], sz_out = [], sz_identity = i\<rparr>" items il
      "bool_of (index_nil object ''store'')"]
  obtain z where "sanitize_values il sha256 (bool_of (index_nil object ''store'')) (reserved_ids items) items
      \<lparr>sz_used = [], sz_out = [], sz_identity = i\<rparr> = Some z"
    using reserved_length [of items] by auto
  then show ?thesis by (simp add: sanitizeCodexInputItems_def assms(2))
qed

definition is_image_tool :: "gj \<Rightarrow> bool" where
  "is_image_tool val = (case obj_of val of Some tool \<Rightarrow> codexToolIncludesImageGeneration tool | None \<Rightarrow> False)"

definition no_image_tool :: "identity_lib \<Rightarrow> (gostring \<Rightarrow> gostring) \<Rightarrow> gobj \<Rightarrow> gostring \<Rightarrow> gostring \<Rightarrow> headers \<Rightarrow> bool" where
  "no_image_tool il lower object model planType h \<longleftrightarrow>
     isCodexResponsesLiteRequest il object h \<or> suffix ''spark'' (lower (TrimSpace model))
       \<or> il_fold il (TrimSpace planType) = il_fold il ''free''"

definition tool_list :: "gobj \<Rightarrow> gj list" where
  "tool_list object = (case arr_of (index_nil object ''tools'') of Some xs \<Rightarrow> xs | None \<Rightarrow> [])"

lemma image_tool_is [simp]: "is_image_tool codexImageGenerationTool"
  by (simp add: is_image_tool_def codexImageGenerationTool_def obj_of_def codexToolIncludesImageGeneration_def
      index_nil_def str_of_def)

lemma lite_tools [simp]: "isCodexResponsesLiteRequest il (put ''tools'' v object) h = isCodexResponsesLiteRequest il object h"
  by (simp add: isCodexResponsesLiteRequest_def index_nil_def)

lemma ensure_eq:
  "ensureCodexImageGenerationTool il lower object model planType h =
     (if no_image_tool il lower object model planType h \<or> list_ex is_image_tool (tool_list object) then object
      else put ''tools'' (JArr (tool_list object @ [codexImageGenerationTool])) object)"
  by (simp add: ensureCodexImageGenerationTool_def no_image_tool_def tool_list_def is_image_tool_def [abs_def]
      index_nil_def arr_of_def split: option.split)

text \<open>The image tool. A request of the lite client, of a spark model or on a free plan keeps its
  tools; every other request has a tool that generates images when it goes upstream, the client's own
  tools before it in their order and its other fields as they were; a second pass adds nothing.
\<close>

lemma image_tool_offered:
  "let o' = ensureCodexImageGenerationTool il lower object model planType h
   in (if no_image_tool il lower object model planType h then o' = object
       else list_ex is_image_tool (tool_list o') \<and> prefix (tool_list object) (tool_list o'))
     \<and> del ''tools'' o' = del ''tools'' object
     \<and> ensureCodexImageGenerationTool il lower o' model planType h = o'"
proof -
  have put: "tool_list (put ''tools'' (JArr xs) object) = xs" for xs by (simp add: tool_list_def index_nil_def arr_of_def)
  have no: "no_image_tool il lower (put ''tools'' v object) model planType h = no_image_tool il lower object model planType h"
    for v by (simp add: no_image_tool_def)
  show ?thesis by (simp add: Let_def ensure_eq put no AList.delete_update_same)
qed

subsection \<open>Instances\<close>

definition sample_sha :: "gostring \<Rightarrow> gostring" where
  "sample_sha m = char_of (length m mod 256) # (if m = [] then CHR 0x00 else last m) # replicate 30 (CHR 0x00)"

definition sample_object :: gobj where
  "sample_object = [(''input'', JArr [JObj [(''type'', JStr ''message''), (''id'', JStr ''s'')]])]"

definition sample_result :: gobj where
  "sample_result = [(''input'', JArr [JObj [(''type'', JStr ''message''), (''id'', JStr ''msg_s'')]])]"

lemma sample_input: "arr_of (index_nil sample_object ''input'') = Some [JObj [(''type'', JStr ''message''), (''id'', JStr ''s'')]]"
  by (simp add: sample_object_def index_nil_def arr_of_def)

lemma char_of_neq:
  assumes "m < 256" "n < 256" "m \<noteq> n"
  shows "(char_of (m :: nat) :: char) \<noteq> char_of n"
proof
  assume "(char_of m :: char) = char_of n"
  then have "(of_char (char_of m :: char) :: nat) = of_char (char_of n :: char)" by (rule arg_cong)
  with assms show False by (simp add: of_char_of)
qed

lemma sample_runes: "length (runes ''msg_s'') = 5" "length (runes ''s'') = 1"
  by (simp_all add: runes_ascii_only ascii_def within_bytes_def byte_def)

lemma sample_sanitized:
  "sanitizeCodexInputItems sample_il sample_sha sample_object sample_identity =
     Some (remember ''msg_s'' ''s'' sample_identity, Inr sample_result)"
proof -
  let ?m = "[(''type'', JStr ''message''), (''id'', JStr ''s'')]"
  have id: "item_id ?m = ''s''" by (simp add: item_id_def index_nil_def str_of_def)
  have c: "canonicalCodexInputItemID ?m ''s'' = ''msg_s''"
    by (simp add: canonicalCodexInputItemID_def codexInputItemPrefix_def index_nil_def str_of_def has_prefix_def)
  have r: "reserved_ids [JObj ?m] = []" by (simp add: reserved_ids_def List.map_filter_def id c Let_def)
  have n: "new_item_id sample_il sample_sha sample_identity [] [] ?m = Some ''msg_s''"
    by (simp add: new_item_id_def id c sample_identity_def codexInputItemIDLimit_def sample_runes Let_def)
  have e: "ci_mappingErr (remember ''msg_s'' ''s'' sample_identity) = None"
    by (simp add: remember_def sample_identity_def maxIdentityMappings_def maxIdentityMappingBytes_def)
  show ?thesis
    by (simp add: sanitizeCodexInputItems_def sample_input r sanitize_value_def sanitize_object_def append_item_def
        obj_of_def id n mappingError_def e Let_def)
      (simp add: index_nil_def str_of_def sample_object_def sample_result_def)
qed

lemma items_settled_witness:
  "sanitizeCodexInputItems sample_il sample_sha sample_result sample_identity = Some (sample_identity, Inr sample_result)"
proof -
  have "mappingError sample_identity sample_result = (sample_identity, Inr sample_result)"
    by (simp add: mappingError_def sample_identity_def)
  with items_settled [OF sample_sanitized sample_input, of sample_identity] show ?thesis by auto
qed

theorem items_terminate_witness: "\<exists>r. sanitizeCodexInputItems sample_il sample_sha sample_object sample_identity = Some r"
proof (rule items_terminate [OF _ sample_input])
  show "length (sample_sha m) = 32" for m by (simp add: sample_sha_def)
  have itoa: "itoa (Suc 0) = [char_of (49 :: nat)]" "itoa 2 = [char_of (50 :: nat)]" by (subst itoa.simps, simp)+
  have "attempt_digest sample_sha s 0 = char_of (length s mod 256) # (if s = [] then CHR 0x00 else last s) # replicate 6 (CHR 0x00)"
    "attempt_digest sample_sha s 1 = char_of ((length s + 2) mod 256) # char_of (49 :: nat) # replicate 6 (CHR 0x00)"
    "attempt_digest sample_sha s 2 = char_of ((length s + 2) mod 256) # char_of (50 :: nat) # replicate 6 (CHR 0x00)" for s
    by (simp_all add: attempt_digest_def sample_sha_def itoa take_Cons' del: replicate_Suc replicate.simps)
  moreover have "(char_of (length s mod 256) :: char) \<noteq> char_of ((length s + 2) mod 256)" for s :: gostring
    using mod_eq_dvd_iff_nat [of "length s" "length s + 2" 256] by (intro char_of_neq) (auto dest: dvd_imp_le)
  moreover have "(char_of (49 :: nat) :: char) \<noteq> char_of (50 :: nat)" by (rule char_of_neq) simp_all
  moreover have "{..2 * length [JObj [(''type'', JStr ''message''), (''id'', JStr ''s'')]]} = {0, 1, 2 :: nat}" by auto
  ultimately show "inj_on (attempt_digest sample_sha s)
      {..2 * length [JObj [(''type'', JStr ''message''), (''id'', JStr ''s'')]]}" for s
    by (auto simp: inj_on_def eq_commute [of "Suc (Suc (length s)) mod 256" for s])
qed

lemma kept_ids_not_taken_witness:
  "\<exists>items'. index_nil sample_result ''input'' = JArr items' \<and> id_count ''msg_s'' items' \<le> 1"
proof -
  have m: "index_nil sample_result ''input'' = JArr [JObj [(''type'', JStr ''message''), (''id'', JStr ''msg_s'')]]"
    by (simp add: sample_result_def index_nil_def)
  have i: "arr_of (index_nil sample_result ''input'') = Some [JObj [(''type'', JStr ''message''), (''id'', JStr ''msg_s'')]]"
    by (simp add: m arr_of_def)
  have "mappingError sample_identity sample_result = (sample_identity, Inr sample_result)"
    by (simp add: mappingError_def sample_identity_def)
  with sanitize_again [OF sample_sanitized sample_input, of sample_identity]
  have s: "sanitizeCodexInputItems sample_il sample_sha sample_result sample_identity = Some (sample_identity, Inr sample_result)"
    by auto
  have "''msg_s'' \<in> set (reserved_ids [JObj [(''type'', JStr ''message''), (''id'', JStr ''msg_s'')]])"
    by (simp add: reserved_ids_def List.map_filter_def item_id_def index_nil_def str_of_def canonicalCodexInputItemID_def
        codexInputItemPrefix_def has_prefix_def codexInputItemIDLimit_def sample_runes Let_def)
  from kept_ids_not_taken [OF s i this] show ?thesis
    by (simp add: id_count_def item_id_def index_nil_def str_of_def)
qed

text \<open>
  Without remapping a rewritten id is short, and every occurrence of it in an answer is
  replaced, also within words of the text.
\<close>

lemma short_id_rewrites_text:
  "exposePayload sample_il (remember ''msg_s'' ''s'' sample_identity) ''\"text\":\"msg_size\"'' = ''\"text\":\"size\"''"
proof -
  have "ci_reverse (remember ''msg_s'' ''s'' sample_identity) = [(''msg_s'', ''s'')]"
    by (simp add: remember_def sample_identity_def maxIdentityMappings_def maxIdentityMappingBytes_def)
  then show ?thesis
    by (simp add: exposePayload_def matchers_def sample_il_def replace_all.simps(2) match_at_def)
qed

end
