(* ===== verification/Inbox.thy ===== *)
theory Inbox
  imports Compat "HOL-Library.Sublist"
begin

text \<open>
  The two bounded queues of a WebSocket session (\<^verbatim>\<open>websocket.go\<close>): the requests of the client
  (\<^verbatim>\<open>downstreamWebSocketInbox\<close>) and the events of the upstream (\<^verbatim>\<open>upstreamWebSocket\<close>). A goroutine reads the connection
  and fills the queue, the session empties it. Both count the queued bytes; the counter has one writer of each
  sign, so an addition that is taken back at once is one step. Pings and deadlines only end a connection, which is
  the event of a read that fails.
\<close>

subsection \<open>Counted bytes\<close>

record byte_counter =
  bc_max :: int
  bc_queued :: int

definition reserve :: "gostring \<Rightarrow> byte_counter \<Rightarrow> bool \<times> byte_counter" where
  "reserve payload c =
     (let n = int (length payload); total = bc_queued c + n
      in if bc_max c \<le> 0 then (False, c)
         else if n > bc_max c then (False, c)
         else if total > bc_max c then (False, c\<lparr>bc_queued := total - n\<rparr>)
         else (True, c\<lparr>bc_queued := total\<rparr>))"

definition release :: "gostring \<Rightarrow> byte_counter \<Rightarrow> byte_counter" where
  "release payload c = c\<lparr>bc_queued := bc_queued c - int (length payload)\<rparr>"

text \<open>The first error is kept.\<close>

definition setError :: "gostring \<Rightarrow> gostring option \<Rightarrow> gostring option" where
  "setError e err = (case err of None \<Rightarrow> Some e | Some e' \<Rightarrow> Some e')"

datatype frame_type = TextMessage | BinaryMessage | OtherMessage

subsection \<open>The requests of the client\<close>

record downstreamWebSocketInbox =
  ib_counter :: byte_counter
  ib_messages :: "gostring list"
  ib_err :: "gostring option"
  ib_done :: bool

datatype inbox_event = Received frame_type gostring | ReadFailed gostring | TakeMessage

definition webSocketClientQueueSize :: nat where
  "webSocketClientQueueSize = 16"

definition newDownstreamWebSocketInbox :: "int \<Rightarrow> downstreamWebSocketInbox" where
  "newDownstreamWebSocketInbox readLimit =
     \<lparr>ib_counter = \<lparr>bc_max = readLimit, bc_queued = 0\<rparr>, ib_messages = [], ib_err = None, ib_done = False\<rparr>"

definition inbox_fails :: "gostring \<Rightarrow> downstreamWebSocketInbox \<Rightarrow> downstreamWebSocketInbox" where
  "inbox_fails e i = i\<lparr>ib_err := setError e (ib_err i), ib_done := True\<rparr>"

definition inbox_receives :: "gostring \<Rightarrow> downstreamWebSocketInbox \<Rightarrow> downstreamWebSocketInbox" where
  "inbox_receives payload i =
     (case reserve payload (ib_counter i) of
        (False, c) \<Rightarrow> inbox_fails (''queued WebSocket requests exceed '' @ itoa (nat (bc_max c)) @ '' bytes'') (i\<lparr>ib_counter := c\<rparr>)
      | (True, c) \<Rightarrow>
          if length (ib_messages i) < webSocketClientQueueSize
          then i\<lparr>ib_counter := c, ib_messages := ib_messages i @ [payload]\<rparr>
          else inbox_fails ''too many queued WebSocket requests'' (i\<lparr>ib_counter := release payload c\<rparr>))"

text \<open>One step of the reader or of the session; what the session gets is the output.\<close>

fun inbox_step :: "downstreamWebSocketInbox \<Rightarrow> inbox_event \<Rightarrow> downstreamWebSocketInbox \<times> gostring list" where
  "inbox_step i (Received t payload) =
     (if ib_done i \<or> t = OtherMessage then (i, []) else (inbox_receives payload i, []))"
| "inbox_step i (ReadFailed e) = (if ib_done i then (i, []) else (inbox_fails e i, []))"
| "inbox_step i TakeMessage =
     (case ib_messages i of
        [] \<Rightarrow> (i, [])
      | m # rest \<Rightarrow> (i\<lparr>ib_messages := rest, ib_counter := release m (ib_counter i)\<rparr>, [m]))"

subsection \<open>The events of the upstream\<close>

text \<open>A frame that was reserved waits in \<open>us_waiting\<close> while the channel is full.\<close>

record upstream_feed =
  us_counter :: byte_counter
  us_events :: "gostring list"
  us_waiting :: "gostring option"
  us_err :: "gostring option"
  us_stopped :: bool
  us_done :: bool

datatype feed_event = Frame frame_type gostring | FrameFailed gostring | TakeEvent | SendFrame | DropFrame | StopReading

definition webSocketUpstreamEventBacklog :: nat where
  "webSocketUpstreamEventBacklog = 256"

definition newUpstreamFeed :: upstream_feed where
  "newUpstreamFeed = \<lparr>us_counter = \<lparr>bc_max = 64 * 1024 * 1024, bc_queued = 0\<rparr>, us_events = [], us_waiting = None,
     us_err = None, us_stopped = False, us_done = False\<rparr>"

definition feed_fails :: "gostring \<Rightarrow> upstream_feed \<Rightarrow> upstream_feed" where
  "feed_fails e u = u\<lparr>us_err := setError e (us_err u), us_done := True\<rparr>"

text \<open>The reader is ready for the next frame.\<close>

definition reading :: "upstream_feed \<Rightarrow> bool" where
  "reading u \<longleftrightarrow> \<not> us_done u \<and> us_waiting u = None"

definition feed_receives :: "gostring \<Rightarrow> upstream_feed \<Rightarrow> upstream_feed" where
  "feed_receives payload u =
     (case reserve payload (us_counter u) of
        (False, c) \<Rightarrow> feed_fails (''queued upstream WebSocket events exceed '' @ itoa (nat (bc_max c)) @ '' bytes'') (u\<lparr>us_counter := c\<rparr>)
      | (True, c) \<Rightarrow> u\<lparr>us_counter := c, us_waiting := Some payload\<rparr>)"

text \<open>\<open>SendFrame\<close> and \<open>DropFrame\<close> are the cases of the reader's \<^verbatim>\<open>select\<close>: the frame goes into the channel, or the reader stops.\<close>

fun feed_step :: "upstream_feed \<Rightarrow> feed_event \<Rightarrow> upstream_feed \<times> gostring list" where
  "feed_step u (Frame t payload) =
     (if \<not> reading u then (u, [])
      else (case t of
              TextMessage \<Rightarrow> (feed_receives payload u, [])
            | BinaryMessage \<Rightarrow> (feed_fails ''upstream WebSocket sent an unexpected binary message'' u, [])
            | OtherMessage \<Rightarrow> (u, [])))"
| "feed_step u (FrameFailed e) = (if \<not> reading u then (u, []) else (feed_fails e u, []))"
| "feed_step u TakeEvent =
     (case us_events u of
        [] \<Rightarrow> (u, [])
      | e # rest \<Rightarrow> (u\<lparr>us_events := rest, us_counter := release e (us_counter u)\<rparr>, [e]))"
| "feed_step u SendFrame =
     (case us_waiting u of
        None \<Rightarrow> (u, [])
      | Some frame \<Rightarrow>
          if length (us_events u) < webSocketUpstreamEventBacklog
          then (u\<lparr>us_events := us_events u @ [frame], us_waiting := None\<rparr>, []) else (u, []))"
| "feed_step u DropFrame =
     (case us_waiting u of
        None \<Rightarrow> (u, [])
      | Some frame \<Rightarrow>
          if us_stopped u
          then (u\<lparr>us_waiting := None, us_counter := release frame (us_counter u), us_done := True\<rparr>, []) else (u, []))"
| "feed_step u StopReading = (u\<lparr>us_stopped := True\<rparr>, [])"

subsection \<open>A queue that loses nothing but its end\<close>

text \<open>
  The contract of both. A step hands on the head of the queue or appends what it reads; once the feed has ended it reads
  nothing, and what it lost is at most the end of what was read.
\<close>

definition counted :: "byte_counter \<Rightarrow> gostring list \<Rightarrow> bool" where
  "counted c q \<longleftrightarrow> bc_queued c = (\<Sum>p\<leftarrow>q. int (length p)) \<and> bc_queued c \<le> max 0 (bc_max c)"

locale bounded_feed =
  fixes step :: "'s \<Rightarrow> 'e \<Rightarrow> 's \<times> gostring list"
    and reads :: "'s \<Rightarrow> 'e \<Rightarrow> gostring list"
    and queued :: "'s \<Rightarrow> gostring list"
    and ended :: "'s \<Rightarrow> bool"
    and counter :: "'s \<Rightarrow> byte_counter"
  assumes open_step: "\<not> ended s \<Longrightarrow> \<not> ended (fst (step s e)) \<Longrightarrow>
      snd (step s e) @ queued (fst (step s e)) = queued s @ reads s e"
    and last_step: "ended (fst (step s e)) \<Longrightarrow> prefix (snd (step s e) @ queued (fst (step s e))) (queued s @ reads s e)"
    and ended_step: "ended s \<Longrightarrow> ended (fst (step s e)) \<and> reads s e = []"
    and counted_step: "counted (counter s) (queued s) \<Longrightarrow>
      counted (counter (fst (step s e))) (queued (fst (step s e))) \<and> bc_max (counter (fst (step s e))) = bc_max (counter s)"
begin

fun all_read :: "'s \<Rightarrow> 'e list \<Rightarrow> gostring list" where
  "all_read s [] = []"
| "all_read s (e # es) = reads s e @ all_read (fst (step s e)) es"

lemma ended_run: "ended s \<Longrightarrow> all_read s es = [] \<and> prefix (outputs step s es @ queued (final step s es)) (queued s)"
proof (induction es arbitrary: s)
  case (Cons e es)
  let ?s = "fst (step s e)"
  from ended_step [OF Cons.prems, of e] have e: "ended ?s" "reads s e = []" by auto
  from Cons.IH [OF e(1)] have "prefix (outputs step ?s es @ queued (final step ?s es)) (queued ?s)" by simp
  then have "prefix (snd (step s e) @ outputs step ?s es @ queued (final step ?s es)) (snd (step s e) @ queued ?s)" by simp
  also have "prefix \<dots> (queued s)" using last_step [OF e(1)] e(2) by simp
  finally show ?case using e Cons.IH [OF e(1)] by simp
qed simp

lemma run_prefix: "\<not> ended s \<Longrightarrow> prefix (outputs step s es @ queued (final step s es)) (queued s @ all_read s es)"
proof (induction es arbitrary: s)
  case (Cons e es)
  let ?s = "fst (step s e)"
  show ?case
  proof (cases "ended ?s")
    case True
    from ended_run [OF True, of es] have r: "all_read ?s es = []"
      "prefix (snd (step s e) @ outputs step ?s es @ queued (final step ?s es)) (snd (step s e) @ queued ?s)" by simp_all
    have "prefix (snd (step s e) @ queued ?s) (queued s @ reads s e)" by (rule last_step [OF True])
    with r show ?thesis by (simp, meson prefix_order.trans)
  next
    case False
    from Cons.IH [OF False]
    have "prefix (snd (step s e) @ outputs step ?s es @ queued (final step ?s es)) (snd (step s e) @ queued ?s @ all_read ?s es)"
      by simp
    also have "snd (step s e) @ queued ?s @ all_read ?s es = queued s @ reads s e @ all_read ?s es"
      using open_step [OF Cons.prems False] by (metis append.assoc)
    finally show ?thesis by simp
  qed
qed simp

lemma run_counted:
  "counted (counter s) (queued s) \<Longrightarrow>
     counted (counter (final step s es)) (queued (final step s es)) \<and> bc_max (counter (final step s es)) = bc_max (counter s)"
proof (induction es arbitrary: s)
  case (Cons e es)
  with counted_step [OF Cons.prems, of e] show ?case by simp
qed simp

end

definition inbox_reads :: "downstreamWebSocketInbox \<Rightarrow> inbox_event \<Rightarrow> gostring list" where
  "inbox_reads i e = (case e of Received t payload \<Rightarrow> if ib_done i \<or> t = OtherMessage then [] else [payload] | _ \<Rightarrow> [])"

definition feed_reads :: "upstream_feed \<Rightarrow> feed_event \<Rightarrow> gostring list" where
  "feed_reads u e = (case e of Frame TextMessage payload \<Rightarrow> if reading u then [payload] else [] | _ \<Rightarrow> [])"

definition feed_queue :: "upstream_feed \<Rightarrow> gostring list" where
  "feed_queue u = us_events u @ (case us_waiting u of None \<Rightarrow> [] | Some frame \<Rightarrow> [frame])"

lemmas counter_defs = reserve_def release_def Let_def

interpretation client_feed: bounded_feed inbox_step inbox_reads ib_messages ib_done ib_counter
proof
  fix i e
  show "\<not> ib_done i \<Longrightarrow> \<not> ib_done (fst (inbox_step i e)) \<Longrightarrow>
      snd (inbox_step i e) @ ib_messages (fst (inbox_step i e)) = ib_messages i @ inbox_reads i e"
    by (cases e) (auto simp: inbox_reads_def inbox_receives_def inbox_fails_def split: list.splits prod.splits bool.splits if_splits)
  show "ib_done (fst (inbox_step i e)) \<Longrightarrow>
      prefix (snd (inbox_step i e) @ ib_messages (fst (inbox_step i e))) (ib_messages i @ inbox_reads i e)"
    by (cases e) (auto simp: inbox_reads_def inbox_receives_def inbox_fails_def split: list.splits prod.splits bool.splits if_splits)
  show "ib_done i \<Longrightarrow> ib_done (fst (inbox_step i e)) \<and> inbox_reads i e = []"
    by (cases e) (auto simp: inbox_reads_def split: list.splits)
  show "counted (ib_counter i) (ib_messages i) \<Longrightarrow> counted (ib_counter (fst (inbox_step i e))) (ib_messages (fst (inbox_step i e)))
      \<and> bc_max (ib_counter (fst (inbox_step i e))) = bc_max (ib_counter i)"
    by (cases e) (auto simp: inbox_receives_def inbox_fails_def counted_def counter_defs split: list.splits)
qed

interpretation event_feed: bounded_feed feed_step feed_reads feed_queue us_done us_counter
proof
  fix u e
  show "\<not> us_done u \<Longrightarrow> \<not> us_done (fst (feed_step u e)) \<Longrightarrow>
      snd (feed_step u e) @ feed_queue (fst (feed_step u e)) = feed_queue u @ feed_reads u e"
    by (cases e) (auto simp: feed_reads_def feed_queue_def feed_receives_def feed_fails_def reading_def
        split: list.splits prod.splits bool.splits option.splits frame_type.splits if_splits)
  show "us_done (fst (feed_step u e)) \<Longrightarrow>
      prefix (snd (feed_step u e) @ feed_queue (fst (feed_step u e))) (feed_queue u @ feed_reads u e)"
    by (cases e) (auto simp: feed_reads_def feed_queue_def feed_receives_def feed_fails_def reading_def
        split: list.splits prod.splits bool.splits option.splits frame_type.splits if_splits)
  show "us_done u \<Longrightarrow> us_done (fst (feed_step u e)) \<and> feed_reads u e = []"
    by (cases e) (auto simp: feed_reads_def reading_def split: list.splits option.splits frame_type.splits)
  show "counted (us_counter u) (feed_queue u) \<Longrightarrow> counted (us_counter (fst (feed_step u e))) (feed_queue (fst (feed_step u e)))
      \<and> bc_max (us_counter (fst (feed_step u e))) = bc_max (us_counter u)"
    by (cases e) (auto simp: feed_queue_def feed_receives_def feed_fails_def reading_def counted_def counter_defs
        split: list.splits option.splits frame_type.splits)
qed

interpretation client_room: event_machine inbox_step "\<lambda>i. length (ib_messages i) \<le> webSocketClientQueueSize"
proof
  fix i e
  show "length (ib_messages i) \<le> webSocketClientQueueSize \<Longrightarrow>
      length (ib_messages (fst (inbox_step i e))) \<le> webSocketClientQueueSize"
    by (cases e) (auto simp: inbox_receives_def inbox_fails_def split: list.splits prod.splits bool.splits if_splits)
qed

interpretation event_room: event_machine feed_step "\<lambda>u. length (us_events u) \<le> webSocketUpstreamEventBacklog"
proof
  fix u e
  show "length (us_events u) \<le> webSocketUpstreamEventBacklog \<Longrightarrow>
      length (us_events (fst (feed_step u e))) \<le> webSocketUpstreamEventBacklog"
    by (cases e) (auto simp: feed_receives_def feed_fails_def
        split: list.splits prod.splits bool.splits option.splits frame_type.splits if_splits)
qed

subsection \<open>Properties\<close>

text \<open>The requests a client sends, and the frames the reader takes from the upstream connection.\<close>

fun sent_request :: "inbox_event \<Rightarrow> gostring option" where
  "sent_request (Received t payload) = (if t = OtherMessage then None else Some payload)"
| "sent_request _ = None"

fun frames_read :: "upstream_feed \<Rightarrow> feed_event list \<Rightarrow> gostring list" where
  "frames_read u [] = []"
| "frames_read u (e # es) = feed_reads u e @ frames_read (fst (feed_step u e)) es"

lemma frames_all_read: "event_feed.all_read u es = frames_read u es"
  by (induction es arbitrary: u) simp_all

lemma sent_Cons:
  "List.map_filter sent_request (e # es) = (case sent_request e of None \<Rightarrow> [] | Some p \<Rightarrow> [p]) @ List.map_filter sent_request es"
  by (simp add: List.map_filter_def split: option.split)

lemma requests_all_read: "prefix (client_feed.all_read i es) (List.map_filter sent_request es)"
proof (induction es arbitrary: i)
  case (Cons e es)
  show ?case
  proof (cases "ib_done i")
    case True
    then have "client_feed.all_read i (e # es) = []" using client_feed.ended_run by blast
    then show ?thesis by (simp only: prefix_bot.bot_least)
  next
    case False
    then have "inbox_reads i e = (case sent_request e of None \<Rightarrow> [] | Some p \<Rightarrow> [p])"
      by (cases e) (simp_all add: inbox_reads_def)
    with Cons.IH [of "fst (inbox_step i e)"] show ?thesis by (simp only: client_feed.all_read.simps sent_Cons same_prefix_prefix)
  qed
qed simp

lemma counted_bound: "counted c q \<and> bc_max c = m \<Longrightarrow> (\<Sum>p\<leftarrow>q. int (length p)) \<le> max 0 m"
  by (auto simp: counted_def)

lemma prefix_outputs: "prefix (xs @ ys) zs \<Longrightarrow> prefix xs zs"
  by (rule prefix_order.trans [of xs "xs @ ys"]) simp_all

text \<open>C29.
  Requests and events are queued in bounded memory and in order: in every interleaving, what the session takes from a
  queue is a beginning of what was sent, without gaps, repetitions or exchanges, and a queue never holds more bytes
  and messages than its limits, whatever a client or the upstream sends.
\<close>

theorem queues_bounded_in_order:
  "let i = newDownstreamWebSocketInbox limit; u = newUpstreamFeed in prefix (outputs inbox_step i es) (List.map_filter sent_request es)
    \<and> (\<Sum>p\<leftarrow>ib_messages (final inbox_step i es). int (length p)) \<le> max 0 limit \<and> length (ib_messages (final inbox_step i es)) \<le> 16
    \<and> prefix (outputs feed_step u fs) (frames_read u fs)
    \<and> (\<Sum>p\<leftarrow>feed_queue (final feed_step u fs). int (length p)) \<le> 64 * 1024 * 1024 \<and> length (us_events (final feed_step u fs)) \<le> 256"
proof -
  define i where "i = newDownstreamWebSocketInbox limit"
  define u where "u = newUpstreamFeed"
  have i: "\<not> ib_done i" "ib_messages i = []" "counted (ib_counter i) (ib_messages i)" "bc_max (ib_counter i) = limit"
    by (simp_all add: i_def newDownstreamWebSocketInbox_def counted_def)
  have u: "\<not> us_done u" "feed_queue u = []" "counted (us_counter u) (feed_queue u)" "bc_max (us_counter u) = 64 * 1024 * 1024"
    "us_events u = []" by (simp_all add: u_def newUpstreamFeed_def counted_def feed_queue_def)
  from client_feed.run_prefix [OF i(1), of es]
  have "prefix (outputs inbox_step i es @ ib_messages (final inbox_step i es)) (client_feed.all_read i es)"
    unfolding i(2) append_Nil .
  from prefix_order.trans [OF prefix_outputs [OF this] requests_all_read]
  have "prefix (outputs inbox_step i es) (List.map_filter sent_request es)" .
  moreover from event_feed.run_prefix [OF u(1), of fs]
  have "prefix (outputs feed_step u fs @ feed_queue (final feed_step u fs)) (frames_read u fs)"
    unfolding u(2) append_Nil frames_all_read .
  from prefix_outputs [OF this] have "prefix (outputs feed_step u fs) (frames_read u fs)" .
  moreover note counted_bound [OF client_feed.run_counted [OF i(3), of es, unfolded i(4)]]
    counted_bound [OF event_feed.run_counted [OF u(3), of fs, unfolded u(4)]]
  moreover have "length (ib_messages (final inbox_step i es)) \<le> 16" "length (us_events (final feed_step u fs)) \<le> 256"
    using client_room.run_inv [of i es] event_room.run_inv [of u fs]
    by (simp_all add: i u webSocketClientQueueSize_def webSocketUpstreamEventBacklog_def)
  ultimately show ?thesis unfolding i_def [symmetric] u_def [symmetric] Let_def by (intro conjI) simp_all
qed

end
