(* ===== verification/LoginLimiter.thy ===== *)
theory LoginLimiter
  imports GoRuntime
begin

text \<open>
  \<^verbatim>\<open>loginLimiter\<close> of \<^verbatim>\<open>internal/web/middleware.go\<close>: failed sign-ins by client address, a
  window of 15 minutes, and a block of 30 minutes after five failures. Each method runs
  under one lock; the sign-in handler calls \<^verbatim>\<open>Allow\<close> first and \<^verbatim>\<open>Failure\<close> after the password
  was compared, at a later time and not under the same lock.
\<close>

subsection \<open>The limiter\<close>

record loginAttempt =
  la_count :: int
  la_windowStart :: "int option"
  la_blockedTill :: "int option"

type_synonym limiter = "gostring \<rightharpoonup> loginAttempt"

definition zero_attempt :: loginAttempt where
  "zero_attempt = \<lparr>la_count = 0, la_windowStart = None, la_blockedTill = None\<rparr>"

definition attempt_of :: "limiter \<Rightarrow> gostring \<Rightarrow> loginAttempt" where
  "attempt_of l address = (case l address of None \<Rightarrow> zero_attempt | Some a \<Rightarrow> a)"

definition newLoginLimiter :: limiter where
  "newLoginLimiter = Map.empty"

definition window_over :: "int \<Rightarrow> loginAttempt \<Rightarrow> bool" where
  "window_over now a \<longleftrightarrow>
     (case la_windowStart a of None \<Rightarrow> True | Some w \<Rightarrow> now - w > minutes 15)"

definition blocked :: "int \<Rightarrow> loginAttempt \<Rightarrow> bool" where
  "blocked now a \<longleftrightarrow> (case la_blockedTill a of None \<Rightarrow> False | Some t \<Rightarrow> now < t)"

text \<open>\<^verbatim>\<open>Allow\<close> reads the clock twice: \<open>later\<close> is the time that \<^verbatim>\<open>time.Until\<close> sees.\<close>

definition Allow :: "int \<Rightarrow> int \<Rightarrow> gostring \<Rightarrow> limiter \<Rightarrow> (bool \<times> int) \<times> limiter" where
  "Allow now later address l =
     (let a = attempt_of l address
      in if blocked now a
         then ((False, (case la_blockedTill a of None \<Rightarrow> 0 | Some t \<Rightarrow> t - later)), l)
         else ((True, 0), if window_over now a then l(address := None) else l))"

definition Failure :: "int \<Rightarrow> gostring \<Rightarrow> limiter \<Rightarrow> limiter" where
  "Failure now address l =
     (let a0 = attempt_of l address;
          a1 = (if window_over now a0 then zero_attempt\<lparr>la_windowStart := Some now\<rparr> else a0);
          a2 = a1\<lparr>la_count := la_count a1 + 1\<rparr>;
          a3 = (if la_count a2 \<ge> 5
                then a2\<lparr>la_blockedTill := Some (now + minutes 30), la_count := 0\<rparr> else a2)
      in l(address := Some a3))"

definition Success :: "gostring \<Rightarrow> limiter \<Rightarrow> limiter" where
  "Success address l = l(address := None)"

lemmas limiter_defs = Allow_def Failure_def Success_def attempt_of_def zero_attempt_def
  window_over_def blocked_def Let_def

subsection \<open>Wrong passwords\<close>

text \<open>
  One sign-in with a wrong password: its address, the time of \<^verbatim>\<open>Allow\<close> and the time of
  \<^verbatim>\<open>Failure\<close>. The result tells whether the password was compared at all.
\<close>

type_synonym guess = "gostring \<times> int \<times> int"

definition wrong_password :: "guess \<Rightarrow> limiter \<Rightarrow> bool \<times> limiter" where
  "wrong_password g l =
     (case g of (address, asked, failed) \<Rightarrow>
        let ((ok, wait), l1) = Allow asked asked address l
        in if ok then (True, Failure failed address l1) else (False, l1))"

fun compared :: "gostring \<Rightarrow> limiter \<Rightarrow> guess list \<Rightarrow> nat" where
  "compared x l [] = 0"
| "compared x l (g # gs) =
     (let (ok, l1) = wrong_password g l
      in (if ok \<and> fst g = x then 1 else 0) + compared x l1 gs)"

fun after_guesses :: "limiter \<Rightarrow> guess list \<Rightarrow> limiter" where
  "after_guesses l [] = l"
| "after_guesses l (g # gs) = after_guesses (snd (wrong_password g l)) gs"

text \<open>The clock does not run backwards, within a sign-in and from one to the next.\<close>

fun timely :: "int \<Rightarrow> guess list \<Rightarrow> bool" where
  "timely now [] = True"
| "timely now ((address, asked, failed) # gs) = (now \<le> asked \<and> asked \<le> failed \<and> timely failed gs)"

definition within :: "int \<Rightarrow> int \<Rightarrow> guess \<Rightarrow> bool" where
  "within a b g \<longleftrightarrow> (case g of (address, asked, failed) \<Rightarrow> a \<le> asked \<and> failed \<le> b)"

subsection \<open>The invariant and the budget\<close>

definition attempt_inv :: "int \<Rightarrow> loginAttempt \<Rightarrow> bool" where
  "attempt_inv now a \<longleftrightarrow>
     (\<exists>w. la_windowStart a = Some w \<and> w \<le> now \<and>
        (case la_blockedTill a of
           None \<Rightarrow> 1 \<le> la_count a \<and> la_count a \<le> 4
         | Some t \<Rightarrow> w + minutes 30 \<le> t))"

text \<open>
  How many passwords an address can still have compared up to the time \<open>b\<close>: it pays one for
  each, and a new window costs more than is left of the old one.
\<close>

definition budget :: "int \<Rightarrow> loginAttempt option \<Rightarrow> int" where
  "budget b s =
     (case s of None \<Rightarrow> 5
      | Some a \<Rightarrow>
          (case la_blockedTill a of
             Some t \<Rightarrow> if b < t then 0 else 5
           | None \<Rightarrow>
               (case la_windowStart a of None \<Rightarrow> 5
                | Some w \<Rightarrow> if b - w \<le> minutes 15 then 5 - la_count a else 9 - la_count a)))"

lemma attempt_cases:
  assumes "attempt_inv now a"
  obtains (counting) w where "la_blockedTill a = None" "la_windowStart a = Some w" "w \<le> now"
      "1 \<le> la_count a" "la_count a \<le> 4"
  | (stopped) w t where "la_blockedTill a = Some t" "la_windowStart a = Some w" "w \<le> now"
      "w + minutes 30 \<le> t"
  using assms by (auto simp: attempt_inv_def split: option.splits)

definition entry_inv :: "int \<Rightarrow> loginAttempt option \<Rightarrow> bool" where
  "entry_inv now s \<longleftrightarrow> (case s of None \<Rightarrow> True | Some a \<Rightarrow> attempt_inv now a)"

lemma entry_inv_mono: "entry_inv now s \<Longrightarrow> now \<le> t \<Longrightarrow> entry_inv t s"
  by (auto simp: entry_inv_def attempt_inv_def split: option.splits)

lemma budget_range: "entry_inv now s \<Longrightarrow> 0 \<le> budget b s \<and> budget b s \<le> 8"
proof (cases s)
  case (Some a)
  moreover assume "entry_inv now s"
  ultimately have "attempt_inv now a" by (simp add: entry_inv_def)
  then show ?thesis by (cases rule: attempt_cases) (simp_all add: Some budget_def)
qed (simp add: budget_def)

lemma wrong_password_other:
  "fst g \<noteq> x \<Longrightarrow> snd (wrong_password g l) x = l x"
  by (auto simp: wrong_password_def limiter_defs split: prod.splits option.splits)

text \<open>The two ways a sign-in can go, on the entry of its own address.\<close>

definition entry_step :: "int \<Rightarrow> int \<Rightarrow> loginAttempt option \<Rightarrow> bool \<times> loginAttempt option" where
  "entry_step asked failed s =
     (let r = wrong_password ([], asked, failed) (\<lambda>_. s) in (fst r, snd r []))"

lemma wrong_password_same:
  "wrong_password (x, asked, failed) l =
     (fst (entry_step asked failed (l x)), l(x := snd (entry_step asked failed (l x))))"
  by (auto simp: entry_step_def wrong_password_def limiter_defs split: option.splits)

lemma entry_step_None:
  "entry_step asked failed None =
     (True, Some \<lparr>la_count = 1, la_windowStart = Some failed, la_blockedTill = None\<rparr>)"
  by (simp add: entry_step_def wrong_password_def limiter_defs)

lemma entry_step_blocked:
  assumes "la_blockedTill a = Some t" "la_windowStart a = Some w" "w + minutes 30 \<le> t"
  shows "entry_step asked failed (Some a) =
     (if asked < t then (False, Some a)
      else (True, Some \<lparr>la_count = 1, la_windowStart = Some failed, la_blockedTill = None\<rparr>))"
  using assms by (auto simp: entry_step_def wrong_password_def limiter_defs)

lemma entry_step_counting:
  assumes "la_blockedTill a = None" "la_windowStart a = Some w" "la_count a \<le> 4" "asked \<le> failed"
  shows "entry_step asked failed (Some a) =
     (True, Some
        (if failed - w > minutes 15
         then \<lparr>la_count = 1, la_windowStart = Some failed, la_blockedTill = None\<rparr>
         else if la_count a = 4
         then a\<lparr>la_count := 0, la_blockedTill := Some (failed + minutes 30)\<rparr>
         else a\<lparr>la_count := la_count a + 1\<rparr>))"
  using assms by (auto simp: entry_step_def wrong_password_def limiter_defs)

text \<open>The step keeps the invariant, and within 15 minutes every comparison costs one.\<close>

lemma entry_step_inv:
  assumes "entry_inv now s" "now \<le> asked" "asked \<le> failed"
  shows "entry_inv failed (snd (entry_step asked failed s))"
proof (cases s)
  case None
  then show ?thesis by (simp add: entry_step_None entry_inv_def attempt_inv_def)
next
  case (Some a)
  with assms have "attempt_inv now a" by (simp add: entry_inv_def)
  then show ?thesis
  proof (cases rule: attempt_cases)
    case (counting w)
    with assms(2,3) show ?thesis
      by (auto simp: Some entry_step_counting entry_inv_def attempt_inv_def)
  next
    case (stopped w t)
    with assms(2,3) show ?thesis
      by (auto simp: Some entry_step_blocked entry_inv_def attempt_inv_def)
  qed
qed

lemma entry_step_budget:
  assumes "entry_inv now s" "a \<le> asked" "asked \<le> failed" "failed \<le> b" "b - a \<le> minutes 15"
  shows "budget b (snd (entry_step asked failed s)) + (if fst (entry_step asked failed s) then 1 else 0)
     \<le> budget b s"
proof (cases s)
  case None
  with assms show ?thesis by (simp add: entry_step_None budget_def)
next
  case (Some e)
  with assms have "attempt_inv now e" by (simp add: entry_inv_def)
  then show ?thesis
  proof (cases rule: attempt_cases)
    case (counting w)
    with assms show ?thesis by (auto simp: Some entry_step_counting budget_def)
  next
    case (stopped w t)
    with assms show ?thesis by (auto simp: Some entry_step_blocked budget_def)
  qed
qed

lemma wrong_password_inv:
  assumes "\<forall>x. entry_inv now (l x)" "now \<le> asked" "asked \<le> failed"
  shows "\<forall>x. entry_inv failed (snd (wrong_password (y, asked, failed) l) x)"
  using entry_step_inv [of now "l y" asked failed] entry_inv_mono [of now _ failed] assms
  by (simp add: wrong_password_same)

lemma guesses_inv:
  "\<forall>x. entry_inv now (l x) \<Longrightarrow> timely now (hist @ gs) \<Longrightarrow>
     \<exists>t. timely t gs \<and> (\<forall>x. entry_inv t (after_guesses l hist x))"
proof (induction now hist arbitrary: l rule: timely.induct)
  case (1 now)
  then show ?case by auto
next
  case (2 now address asked failed hist)
  then show ?case using wrong_password_inv [of now l asked failed address] by simp
qed

lemma compared_budget:
  assumes "\<forall>x. entry_inv now (l x)" "timely now gs" "\<forall>g \<in> set gs. within a b g" "b - a \<le> minutes 15"
  shows "int (compared x l gs) \<le> budget b (l x)"
  using assms(1-3)
proof (induction now gs arbitrary: l rule: timely.induct)
  case (1 now)
  then show ?case using budget_range [of now "l x" b] by simp
next
  case (2 now y asked failed gs)
  let ?g = "(y, asked, failed)"
  let ?l = "snd (wrong_password ?g l)"
  have w: "a \<le> asked" "failed \<le> b" "now \<le> asked" "asked \<le> failed"
    using "2.prems" by (simp_all add: within_def)
  have IH: "int (compared x ?l gs) \<le> budget b (?l x)"
    using "2.IH" [OF wrong_password_inv [OF "2.prems"(1) w(3,4)]] "2.prems" by simp
  show ?case
  proof (cases "y = x")
    case True
    have "budget b (?l x) + (if fst (wrong_password ?g l) then 1 else 0) \<le> budget b (l x)"
      using entry_step_budget [of now "l x" a asked failed b] "2.prems"(1) w assms(4) True
      by (simp add: wrong_password_same)
    with IH True show ?thesis by (simp add: split_beta Let_def split: if_splits)
  next
    case False
    with IH wrong_password_other [of ?g x l] show ?thesis by (simp add: split_beta Let_def)
  qed
qed

lemma new_limiter_inv: "\<forall>x. entry_inv now (newLoginLimiter x)"
  by (simp add: entry_inv_def newLoginLimiter_def)

subsection \<open>Properties\<close>


text \<open>The bound is reached: one guess before the interval, eight in it, the ninth is refused.\<close>

definition slow_guesses :: "guess list" where
  "slow_guesses = map (\<lambda>t. (''a'', minutes t, minutes t)) [14, 14, 15, 16, 16, 16, 16, 16, 16]"


text \<open>
  The fifth wrong password within 15 minutes blocks its address, and only it, for exactly 30
  minutes, with the time that is left as the answer; then the address starts afresh.\<close>

lemma fifth_failure_blocks:
  assumes "l x = None"
    and "t1 \<le> t2" "t2 \<le> t3" "t3 \<le> t4" "t4 \<le> t5" "t5 - t1 \<le> minutes 15"
  shows "let l5 = after_guesses l [(x, t1, t1), (x, t2, t2), (x, t3, t3), (x, t4, t4), (x, t5, t5)] in
    (\<forall>now later. now < t5 + minutes 30 \<longrightarrow>
       Allow now later x l5 = ((False, t5 + minutes 30 - later), l5)) \<and>
    (\<forall>now later. now \<ge> t5 + minutes 30 \<longrightarrow> Allow now later x l5 = ((True, 0), l5(x := None))) \<and>
    (\<forall>y. y \<noteq> x \<longrightarrow> l5 y = l y)"
  using assms
  by (auto simp: Let_def wrong_password_same entry_step_None entry_step_counting Allow_def
      attempt_of_def blocked_def window_over_def)

lemma fifth_failure_blocks_witness:
  "Allow 20 20 ''a'' (after_guesses newLoginLimiter
     [(''a'', 1, 1), (''a'', 2, 2), (''a'', 3, 3), (''a'', 4, 4), (''a'', 5, 5)]) =
   ((False, minutes 30 - 15), after_guesses newLoginLimiter
     [(''a'', 1, 1), (''a'', 2, 2), (''a'', 3, 3), (''a'', 4, 4), (''a'', 5, 5)])"
  using fifth_failure_blocks [of newLoginLimiter "''a''" 1 2 3 4 5]
  by (simp add: Let_def newLoginLimiter_def del: after_guesses.simps)

text \<open>
  The bound holds for sign-ins one after the other. The handler does not hold the lock while
  it compares the password, so requests that are all asked before the first of them fails
  are all allowed, any number of them.
\<close>

lemma parallel_asks_allowed:
  assumes "l x = None"
  shows "\<forall>t \<in> set ts. fst (fst (Allow t t x l)) \<and> snd (Allow t t x l) = l"
  using assms by (auto simp: limiter_defs)

end
