(* ===== verification/Base64.thy ===== *)
theory Base64
  imports Identity
begin

text \<open>
  What the server uses of \<^verbatim>\<open>encoding/base64\<close> and \<^verbatim>\<open>encoding/hex\<close>: the standard and the URL alphabet, each with and
  without padding, decoded as Go does (line breaks are skipped, unused bits ignored), and hexadecimal decoding.
  A text and the bytes it stands for are both lists of characters.
\<close>

record base64_encoding =
  be_alphabet :: gostring
  be_padded :: bool

definition letters :: gostring where
  "letters = ''ABCDEFGHIJKLMNOPQRSTUVWXYZabcdefghijklmnopqrstuvwxyz0123456789''"

definition RawStdEncoding :: base64_encoding where
  "RawStdEncoding = \<lparr>be_alphabet = letters @ ''+/'', be_padded = False\<rparr>"

definition StdEncoding :: base64_encoding where
  "StdEncoding = \<lparr>be_alphabet = letters @ ''+/'', be_padded = True\<rparr>"

definition RawURLEncoding :: base64_encoding where
  "RawURLEncoding = \<lparr>be_alphabet = letters @ ''-_'', be_padded = False\<rparr>"

definition URLEncoding :: base64_encoding where
  "URLEncoding = \<lparr>be_alphabet = letters @ ''-_'', be_padded = True\<rparr>"

definition sextet :: "nat \<Rightarrow> nat" where
  "sextet n = n mod 64"

definition digit :: "base64_encoding \<Rightarrow> nat \<Rightarrow> char" where
  "digit be n = be_alphabet be ! sextet n"

definition digit_value :: "base64_encoding \<Rightarrow> char \<Rightarrow> nat option" where
  "digit_value be c = map_of (zip (be_alphabet be) [0..<64]) c"

definition padding :: "base64_encoding \<Rightarrow> nat \<Rightarrow> gostring" where
  "padding be n = (if be_padded be then replicate n (CHR ''='') else [])"

fun EncodeToString :: "base64_encoding \<Rightarrow> gostring \<Rightarrow> gostring" where
  "EncodeToString be [] = []"
| "EncodeToString be [a] = digit be (byte a div 4) # digit be (byte a mod 4 * 16) # padding be 2"
| "EncodeToString be [a, b] =
     digit be (byte a div 4) # digit be (byte a mod 4 * 16 + byte b div 16) # digit be (byte b mod 16 * 4) # padding be 1"
| "EncodeToString be (a # b # c # rest) =
     digit be (byte a div 4) # digit be (byte a mod 4 * 16 + byte b div 16) # digit be (byte b mod 16 * 4 + byte c div 64)
       # digit be (byte c mod 64) # EncodeToString be rest"

text \<open>The bytes of a full group of four digits, and of a last group of two or three.\<close>

definition bytes4 :: "nat \<Rightarrow> nat \<Rightarrow> nat \<Rightarrow> nat \<Rightarrow> gostring" where
  "bytes4 v w x y = [char_of (v * 4 + w div 16), char_of (w mod 16 * 16 + x div 4), char_of (x mod 4 * 64 + y)]"

definition bytes3 :: "nat \<Rightarrow> nat \<Rightarrow> nat \<Rightarrow> gostring" where
  "bytes3 v w x = [char_of (v * 4 + w div 16), char_of (w mod 16 * 16 + x div 4)]"

definition bytes2 :: "nat \<Rightarrow> nat \<Rightarrow> gostring" where
  "bytes2 v w = [char_of (v * 4 + w div 16)]"

fun digit_values :: "base64_encoding \<Rightarrow> gostring \<Rightarrow> nat list option" where
  "digit_values be [] = Some []"
| "digit_values be (c # cs) =
     (case digit_value be c of None \<Rightarrow> None | Some n \<Rightarrow> map_option (\<lambda>ns. n # ns) (digit_values be cs))"

fun group_bytes :: "nat list \<Rightarrow> gostring option" where
  "group_bytes [] = Some []"
| "group_bytes [v] = None"
| "group_bytes [v, w] = Some (bytes2 v w)"
| "group_bytes [v, w, x] = Some (bytes3 v w x)"
| "group_bytes (v # w # x # y # rest) = map_option (\<lambda>bs. bytes4 v w x y @ bs) (group_bytes rest)"

text \<open>With padding the text is in groups of four, the last of which may end in one or two signs.\<close>

definition unpadded :: "gostring \<Rightarrow> gostring option" where
  "unpadded s =
     (if length s mod 4 \<noteq> 0 then None
      else if s \<noteq> [] \<and> last s = CHR ''=''
      then (if last (butlast s) = CHR ''='' then Some (butlast (butlast s)) else Some (butlast s))
      else Some s)"

definition DecodeString :: "base64_encoding \<Rightarrow> gostring \<Rightarrow> gostring option" where
  "DecodeString be s =
     (let t = filter (\<lambda>c. byte c \<noteq> 10 \<and> byte c \<noteq> 13) s
      in case (if be_padded be then unpadded t else Some t) of
           None \<Rightarrow> None
         | Some d \<Rightarrow> (case digit_values be d of None \<Rightarrow> None | Some ns \<Rightarrow> group_bytes ns))"

definition hex_value :: "char \<Rightarrow> nat option" where
  "hex_value c =
     (let n = byte c
      in if 48 \<le> n \<and> n \<le> 57 then Some (n - 48)
         else if 97 \<le> n \<and> n \<le> 102 then Some (n - 87)
         else if 65 \<le> n \<and> n \<le> 70 then Some (n - 55)
         else None)"

fun hex_decode :: "gostring \<Rightarrow> gostring option" where
  "hex_decode [] = Some []"
| "hex_decode [c] = None"
| "hex_decode (c # d # rest) =
     (case (hex_value c, hex_value d) of
        (Some m, Some n) \<Rightarrow> map_option (\<lambda>bs. char_of (m * 16 + n) # bs) (hex_decode rest)
      | _ \<Rightarrow> None)"

subsection \<open>Round trip\<close>

definition good_alphabet :: "base64_encoding \<Rightarrow> bool" where
  "good_alphabet be \<longleftrightarrow> length (be_alphabet be) = 64 \<and> distinct (be_alphabet be) \<and> list_all printable (be_alphabet be)
     \<and> CHR ''='' \<notin> set (be_alphabet be)"

lemma alphabets: "good_alphabet RawStdEncoding" "good_alphabet StdEncoding" "good_alphabet RawURLEncoding" "good_alphabet URLEncoding"
  by (simp_all add: good_alphabet_def letters_def RawStdEncoding_def StdEncoding_def RawURLEncoding_def URLEncoding_def printable_def)

lemma digit_value_digit: "good_alphabet be \<Longrightarrow> digit_value be (digit be n) = Some (sextet n)"
  by (simp add: sextet_def good_alphabet_def digit_value_def digit_def map_of_zip_nth)

lemma digit_in: "good_alphabet be \<Longrightarrow> digit be n \<in> set (be_alphabet be)"
  by (simp add: good_alphabet_def digit_def sextet_def)

lemma digit_printable: "good_alphabet be \<Longrightarrow> printable (digit be n)"
  using digit_in by (auto simp: good_alphabet_def list_all_iff)

lemma byte_range [simp]: "byte c < 256"
  by (simp add: byte_def)

lemma char_byte [simp]: "char_of (byte c) = c"
  by (simp add: byte_def)

lemma split_digits:
  fixes a b c :: nat
  assumes "a < 256" "b < 256" "c < 256"
  shows "a div 4 mod 64 = a div 4" "(a mod 4 * 16 + b div 16) mod 64 = a mod 4 * 16 + b div 16"
    "(b mod 16 * 4 + c div 64) mod 64 = b mod 16 * 4 + c div 64"
    "(a mod 4 * 16) mod 64 = a mod 4 * 16" "(b mod 16 * 4) mod 64 = b mod 16 * 4"
proof -
  have "a div 4 < 64" "b div 16 < 16" "c div 64 < 4" using assms by simp_all
  moreover have "a mod 4 < 4" "b mod 16 < 16" by simp_all
  ultimately show "a div 4 mod 64 = a div 4" "(a mod 4 * 16 + b div 16) mod 64 = a mod 4 * 16 + b div 16"
    "(b mod 16 * 4 + c div 64) mod 64 = b mod 16 * 4 + c div 64"
    "(a mod 4 * 16) mod 64 = a mod 4 * 16" "(b mod 16 * 4) mod 64 = b mod 16 * 4" by simp_all
qed

lemma join_bytes:
  fixes a b c :: nat
  assumes "a < 256" "b < 256" "c < 256"
  shows "a div 4 * 4 + (a mod 4 * 16 + b div 16) div 16 = a"
    "(a mod 4 * 16 + b div 16) mod 16 * 16 + (b mod 16 * 4 + c div 64) div 4 = b"
    "(b mod 16 * 4 + c div 64) mod 4 * 64 + c mod 64 = c"
    "a div 4 * 4 + (a mod 4 * 16) div 16 = a" "(a mod 4 * 16 + b div 16) mod 16 * 16 + (b mod 16 * 4) div 4 = b"
proof -
  have "b div 16 < 16" "c div 64 < 4" using assms by simp_all
  then have "(a mod 4 * 16 + b div 16) div 16 = a mod 4" "(a mod 4 * 16 + b div 16) mod 16 = b div 16"
    "(b mod 16 * 4 + c div 64) div 4 = b mod 16" "(b mod 16 * 4 + c div 64) mod 4 = c div 64" by simp_all
  then show "a div 4 * 4 + (a mod 4 * 16 + b div 16) div 16 = a"
    "(a mod 4 * 16 + b div 16) mod 16 * 16 + (b mod 16 * 4 + c div 64) div 4 = b"
    "(b mod 16 * 4 + c div 64) mod 4 * 64 + c mod 64 = c"
    "a div 4 * 4 + (a mod 4 * 16) div 16 = a" "(a mod 4 * 16 + b div 16) mod 16 * 16 + (b mod 16 * 4) div 4 = b" by simp_all
qed

lemma induct_list3:
  fixes P :: "gostring \<Rightarrow> bool"
  assumes "P []" "\<And>a. P [a]" "\<And>a b. P [a, b]" "\<And>a b c rest. P rest \<Longrightarrow> P (a # b # c # rest)"
  shows "P xs"
  by (rule EncodeToString.induct [of "\<lambda>_. P" undefined xs]) (use assms in \<open>simp_all\<close>)

definition without_padding :: "base64_encoding \<Rightarrow> base64_encoding" where
  "without_padding be = be\<lparr>be_padded := False\<rparr>"

lemma unpadded_digit [simp]: "digit (without_padding be) n = digit be n" "digit_value (without_padding be) c = digit_value be c"
  "good_alphabet (without_padding be) = good_alphabet be" "\<not> be_padded (without_padding be)"
  by (simp_all add: without_padding_def digit_def digit_value_def good_alphabet_def)

lemma unpadded_values [simp]: "digit_values (without_padding be) s = digit_values be s"
  by (induction s) (simp_all split: option.split)

lemmas byte_digits = split_digits [OF byte_range byte_range byte_range] join_bytes [OF byte_range byte_range byte_range]

lemma groups:
  "bytes4 (sextet (byte a div 4)) (sextet (byte a mod 4 * 16 + byte b div 16)) (sextet (byte b mod 16 * 4 + byte c div 64))
     (sextet (byte c mod 64)) = [a, b, c]"
  "bytes3 (sextet (byte a div 4)) (sextet (byte a mod 4 * 16 + byte b div 16)) (sextet (byte b mod 16 * 4)) = [a, b]"
  "bytes2 (sextet (byte a div 4)) (sextet (byte a mod 4 * 16)) = [a]"
  by (simp_all only: bytes4_def bytes3_def bytes2_def sextet_def mod_mod_trivial byte_digits char_byte)

lemma decode_plain:
  assumes "good_alphabet be"
  shows "\<exists>ns. digit_values be (EncodeToString (without_padding be) s) = Some ns \<and> group_bytes ns = Some s"
proof (induction s rule: induct_list3)
  case (4 a b c rest)
  then obtain ns where ns: "digit_values be (EncodeToString (without_padding be) rest) = Some ns" "group_bytes ns = Some rest"
    by blast
  then show ?case by (simp add: digit_value_digit [OF assms] groups)
next
  case (3 a b)
  show ?case by (simp add: digit_value_digit [OF assms] groups padding_def)
next
  case (2 a)
  show ?case by (simp add: digit_value_digit [OF assms] groups padding_def)
qed simp

text \<open>The padding only completes the last group.\<close>

definition missing :: "gostring \<Rightarrow> nat" where
  "missing s = (3 - length s mod 3) mod 3"

lemma encode_padding: "EncodeToString be s = EncodeToString (without_padding be) s @ padding be (missing s)"
  by (induction s rule: induct_list3) (simp_all add: missing_def padding_def)

lemma encode_length: "(length (EncodeToString (without_padding be) s) + missing s) mod 4 = 0"
proof (induction s rule: induct_list3)
  case (4 a b c rest)
  then show ?case by (simp add: missing_def)
qed (simp_all add: missing_def padding_def)

lemma encode_digits: "good_alphabet be \<Longrightarrow> set (EncodeToString (without_padding be) s) \<subseteq> set (be_alphabet be)"
  by (induction s rule: induct_list3) (auto simp: digit_in padding_def)

lemma encode_Nil: "EncodeToString be s = [] \<longleftrightarrow> s = []"
  by (cases "(be, s)" rule: EncodeToString.cases) simp_all

lemma unpadded_encode:
  assumes "good_alphabet be" "be_padded be"
  shows "unpadded (EncodeToString be s) = Some (EncodeToString (without_padding be) s)"
proof -
  let ?e = "EncodeToString (without_padding be) s"
  have e: "EncodeToString be s = ?e @ replicate (missing s) (CHR ''='')"
    using encode_padding [of be s] assms(2) by (simp add: padding_def)
  have last: "last ?e \<noteq> CHR ''=''" if "?e \<noteq> []"
  proof -
    have "last ?e \<in> set (be_alphabet be)" using encode_digits [OF assms(1), of s] that by auto
    with assms(1) show ?thesis by (auto simp: good_alphabet_def)
  qed
  have m: "missing s = 0 \<or> s \<noteq> [] \<and> (missing s = 1 \<or> missing s = 2)" by (cases s) (auto simp: missing_def)
  then have "missing s = 0 \<or> ?e \<noteq> [] \<and> (missing s = 1 \<or> missing s = 2)" by (simp add: encode_Nil)
  with last encode_length [of be s] show ?thesis
    unfolding e by (auto simp: unpadded_def numeral_2_eq_2 butlast_append)
qed

lemma encode_no_breaks:
  assumes "good_alphabet be"
  shows "filter (\<lambda>c. byte c \<noteq> 10 \<and> byte c \<noteq> 13) (EncodeToString be s) = EncodeToString be s"
proof -
  have "set (EncodeToString be s) \<subseteq> insert (CHR ''='') (set (be_alphabet be))"
    using encode_padding [of be s] encode_digits [OF assms, of s] by (auto simp: padding_def split: if_splits)
  moreover have "printable (CHR ''='')" by (simp add: printable_def)
  ultimately have "\<forall>c \<in> set (EncodeToString be s). printable c" using assms by (auto simp: good_alphabet_def list_all_iff)
  then show ?thesis by (intro filter_True) (auto simp: printable_def byte_def)
qed

lemma decode_encode:
  assumes "good_alphabet be"
  shows "DecodeString be (EncodeToString be s) = Some s"
proof -
  have "(if be_padded be then unpadded (EncodeToString be s) else Some (EncodeToString be s)) = Some (EncodeToString (without_padding be) s)"
    using unpadded_encode [OF assms, of s] encode_padding [of be s] by (simp add: padding_def)
  with decode_plain [OF assms, of s] show ?thesis by (auto simp: DecodeString_def Let_def encode_no_breaks [OF assms])
qed

lemma encode_printable: "good_alphabet be \<Longrightarrow> list_all printable (EncodeToString (without_padding be) s)"
  using encode_digits [of be s] by (auto simp: good_alphabet_def list_all_iff)

end
