(* ===== verification/Database.thy ===== *)
theory Database
  imports Complex_Main GoRuntime
begin

text \<open>
  \<^verbatim>\<open>internal/store\<close>: the tables of the database and the statements the server runs on them,
  each as the function on tables that its SQL describes. A statement or transaction that
  the database cannot run (the argument \<open>up\<close> is false) changes nothing and is an error.
  Rows keep the order of insertion; where SQL leaves the order of equal keys open, that
  order is taken.
\<close>

subsection \<open>Rows and tables\<close>

record StoredAccount =
  ac_email :: gostring
  ac_account_id :: gostring
  ac_plan_type :: gostring
  ac_access :: gostring
  ac_refresh :: gostring
  ac_id_token :: gostring
  ac_expires_at :: int
  ac_updated_at :: int

record StoredKey =
  dk_id :: gostring
  dk_name :: gostring
  dk_hash :: gostring
  dk_prefix :: gostring
  dk_created_at :: int
  dk_last_used_at :: "int option"
  dk_revoked_at :: "int option"

record RequestLog =
  lg_id :: gostring
  lg_request_id :: gostring
  lg_api_key_id :: gostring
  lg_api_key_name :: gostring
  lg_method :: gostring
  lg_path :: gostring
  lg_model :: gostring
  lg_status :: int
  lg_duration_ms :: int
  lg_input_tokens :: int
  lg_output_tokens :: int
  lg_reasoning_tokens :: int
  lg_reasoning_effort :: gostring
  lg_upstream_reasoning_effort :: gostring
  lg_first_reasoning_ms :: int
  lg_first_output_ms :: int
  lg_error :: gostring
  lg_created_at :: int

record DayStats =
  st_requests :: int
  st_successes :: int
  st_success_rate :: real
  st_average_ms :: real
  st_input_tokens :: int
  st_output_tokens :: int
  st_reasoning_tokens :: int

record QuotaSnapshot =
  qs_payload :: gostring
  qs_fetched_at :: int

record database =
  db_settings :: "gostring \<rightharpoonup> gostring \<times> int"
  db_account :: "StoredAccount option"
  db_quota :: "QuotaSnapshot option"
  db_keys :: "StoredKey list"
  db_logs :: "RequestLog list"

datatype db_error = NotFound | Unavailable | ConstraintViolation

text \<open>The tables after \<^verbatim>\<open>migrate\<close> on a new database.\<close>

definition empty_database :: database where
  "empty_database = \<lparr>db_settings = Map.empty, db_account = None, db_quota = None, db_keys = [], db_logs = []\<rparr>"

definition IsNotFound :: "db_error \<Rightarrow> bool" where
  "IsNotFound e \<longleftrightarrow> e = NotFound"

subsection \<open>Settings and the account\<close>

definition GetSetting :: "bool \<Rightarrow> gostring \<Rightarrow> database \<Rightarrow> db_error + gostring" where
  "GetSetting up key db =
     (if \<not> up then Inl Unavailable
      else case db_settings db key of None \<Rightarrow> Inl NotFound | Some (v, t) \<Rightarrow> Inr v)"

definition SetSetting :: "bool \<Rightarrow> gostring \<Rightarrow> gostring \<Rightarrow> int \<Rightarrow> database \<Rightarrow> db_error option \<times> database" where
  "SetSetting up key v now db =
     (if \<not> up then (Some Unavailable, db)
      else (None, db\<lparr>db_settings := (db_settings db)(key \<mapsto> (v, now))\<rparr>))"

text \<open>The snapshot of another account's quota is deleted in the same transaction.\<close>

definition SaveAccount :: "bool \<Rightarrow> StoredAccount \<Rightarrow> int \<Rightarrow> database \<Rightarrow> db_error option \<times> database" where
  "SaveAccount up account now db =
     (if \<not> up then (Some Unavailable, db)
      else
        (let previous = (case db_account db of None \<Rightarrow> [] | Some a \<Rightarrow> ac_account_id a);
             db1 = db\<lparr>db_account := Some (account\<lparr>ac_updated_at := now\<rparr>)\<rparr>
         in (None,
             if previous \<noteq> [] \<and> previous \<noteq> ac_account_id account then db1\<lparr>db_quota := None\<rparr> else db1)))"

definition GetAccount :: "bool \<Rightarrow> database \<Rightarrow> db_error + StoredAccount" where
  "GetAccount up db =
     (if \<not> up then Inl Unavailable
      else case db_account db of None \<Rightarrow> Inl NotFound | Some a \<Rightarrow> Inr a)"

definition DeleteAccount :: "bool \<Rightarrow> database \<Rightarrow> db_error option \<times> database" where
  "DeleteAccount up db =
     (if \<not> up then (Some Unavailable, db)
      else (None, db\<lparr>db_quota := None, db_account := None\<rparr>))"

definition SaveQuota :: "bool \<Rightarrow> QuotaSnapshot \<Rightarrow> database \<Rightarrow> db_error option \<times> database" where
  "SaveQuota up snapshot db =
     (if \<not> up then (Some Unavailable, db) else (None, db\<lparr>db_quota := Some snapshot\<rparr>))"

definition GetQuota :: "bool \<Rightarrow> database \<Rightarrow> db_error + QuotaSnapshot" where
  "GetQuota up db =
     (if \<not> up then Inl Unavailable
      else case db_quota db of None \<Rightarrow> Inl NotFound | Some q \<Rightarrow> Inr q)"

subsection \<open>API keys\<close>

text \<open>\<^verbatim>\<open>id\<close> is the primary key and \<^verbatim>\<open>key_hash\<close> is unique.\<close>

definition CreateAPIKey :: "bool \<Rightarrow> StoredKey \<Rightarrow> database \<Rightarrow> db_error option \<times> database" where
  "CreateAPIKey up key db =
     (if \<not> up then (Some Unavailable, db)
      else if dk_id key \<in> dk_id ` set (db_keys db) \<or> dk_hash key \<in> dk_hash ` set (db_keys db)
      then (Some ConstraintViolation, db)
      else (None, db\<lparr>db_keys := db_keys db @ [key\<lparr>dk_last_used_at := None, dk_revoked_at := None\<rparr>]\<rparr>))"

text \<open>The hash is not among the columns read.\<close>

definition ListAPIKeys :: "bool \<Rightarrow> database \<Rightarrow> db_error + StoredKey list" where
  "ListAPIKeys up db =
     (if \<not> up then Inl Unavailable
      else Inr (map (\<lambda>k. k\<lparr>dk_hash := []\<rparr>) (sort_key (\<lambda>k. - dk_created_at k) (db_keys db))))"

definition find_active :: "(StoredKey \<Rightarrow> bool) \<Rightarrow> bool \<Rightarrow> database \<Rightarrow> db_error + StoredKey" where
  "find_active p up db =
     (if \<not> up then Inl Unavailable
      else case List.find (\<lambda>k. p k \<and> dk_revoked_at k = None) (db_keys db) of
        None \<Rightarrow> Inl NotFound
      | Some k \<Rightarrow> Inr (k\<lparr>dk_hash := []\<rparr>))"

definition FindActiveAPIKeyByHash :: "bool \<Rightarrow> gostring \<Rightarrow> database \<Rightarrow> db_error + StoredKey" where
  "FindActiveAPIKeyByHash up hash = find_active (\<lambda>k. dk_hash k = hash) up"

definition FindActiveAPIKeyByID :: "bool \<Rightarrow> gostring \<Rightarrow> database \<Rightarrow> db_error + StoredKey" where
  "FindActiveAPIKeyByID up key_id = find_active (\<lambda>k. dk_id k = key_id) up"

definition TouchAPIKey :: "bool \<Rightarrow> gostring \<Rightarrow> int \<Rightarrow> database \<Rightarrow> db_error option \<times> database" where
  "TouchAPIKey up key_id t db =
     (if \<not> up then (Some Unavailable, db)
      else (None, db\<lparr>db_keys :=
        map (\<lambda>k. if dk_id k = key_id then k\<lparr>dk_last_used_at := Some t\<rparr> else k) (db_keys db)\<rparr>))"

definition RevokeAPIKey :: "bool \<Rightarrow> gostring \<Rightarrow> int \<Rightarrow> database \<Rightarrow> (db_error + bool) \<times> database" where
  "RevokeAPIKey up key_id now db =
     (if \<not> up then (Inl Unavailable, db)
      else
        (let hit = (\<lambda>k. dk_id k = key_id \<and> dk_revoked_at k = None);
             count = length (filter hit (db_keys db))
         in (Inr (count > 0),
             db\<lparr>db_keys := map (\<lambda>k. if hit k then k\<lparr>dk_revoked_at := Some now\<rparr> else k) (db_keys db)\<rparr>)))"

subsection \<open>Request logs\<close>

text \<open>
  An empty key identifier is stored as null. The name of the key is not stored with the
  row, it is joined when the rows are listed.
\<close>

definition InsertRequestLog :: "bool \<Rightarrow> RequestLog \<Rightarrow> database \<Rightarrow> db_error option \<times> database" where
  "InsertRequestLog up e db =
     (if \<not> up then (Some Unavailable, db)
      else if lg_id e \<in> lg_id ` set (db_logs db) \<or>
        lg_api_key_id e \<noteq> [] \<and> lg_api_key_id e \<notin> dk_id ` set (db_keys db)
      then (Some ConstraintViolation, db)
      else (None, db\<lparr>db_logs := db_logs db @ [e\<lparr>lg_api_key_name := []\<rparr>]\<rparr>))"

definition in_range :: "int \<Rightarrow> int \<Rightarrow> RequestLog \<Rightarrow> bool" where
  "in_range start end' e \<longleftrightarrow> start \<le> lg_created_at e \<and> lg_created_at e < end'"

definition is_success :: "RequestLog \<Rightarrow> bool" where
  "is_success e \<longleftrightarrow> lg_status e \<ge> 200 \<and> lg_status e < 300"

definition DayStats_of :: "RequestLog list \<Rightarrow> DayStats" where
  "DayStats_of es =
     (let requests = int (length es);
          successes = sum_list (map (\<lambda>e. if is_success e then 1 else 0) es)
      in \<lparr>st_requests = requests, st_successes = successes,
          st_success_rate = (if requests > 0 then real_of_int successes * 100 / real_of_int requests else 0),
          st_average_ms = (if es = [] then 0
             else real_of_int (sum_list (map lg_duration_ms es)) / real (length es)),
          st_input_tokens = sum_list (map lg_input_tokens es),
          st_output_tokens = sum_list (map lg_output_tokens es),
          st_reasoning_tokens = sum_list (map lg_reasoning_tokens es)\<rparr>)"

definition TodayStatsQuery :: "bool \<Rightarrow> int \<Rightarrow> int \<Rightarrow> database \<Rightarrow> db_error + DayStats" where
  "TodayStatsQuery up start end' db =
     (if \<not> up then Inl Unavailable
      else Inr (DayStats_of (filter (in_range start end') (db_logs db))))"

definition key_name :: "database \<Rightarrow> gostring \<Rightarrow> gostring" where
  "key_name db key_id =
     (case List.find (\<lambda>k. dk_id k = key_id) (db_keys db) of None \<Rightarrow> [] | Some k \<Rightarrow> dk_name k)"

definition ListRequestLogs :: "bool \<Rightarrow> int \<Rightarrow> int \<Rightarrow> nat \<Rightarrow> database \<Rightarrow> db_error + RequestLog list" where
  "ListRequestLogs up start end' limit db =
     (if \<not> up then Inl Unavailable
      else Inr (map (\<lambda>e. e\<lparr>lg_api_key_name := key_name db (lg_api_key_id e)\<rparr>)
        (take limit (sort_key (\<lambda>e. - lg_created_at e) (filter (in_range start end') (db_logs db))))))"

definition DeleteOldRequestLogs :: "bool \<Rightarrow> int \<Rightarrow> database \<Rightarrow> (db_error + nat) \<times> database" where
  "DeleteOldRequestLogs up before db =
     (if \<not> up then (Inl Unavailable, db)
      else (Inr (length (filter (\<lambda>e. lg_created_at e < before) (db_logs db))),
            db\<lparr>db_logs := filter (\<lambda>e. \<not> lg_created_at e < before) (db_logs db)\<rparr>))"

subsection \<open>Histories\<close>

datatype db_op =
    OpSetSetting gostring gostring int
  | OpSaveAccount StoredAccount int
  | OpDeleteAccount
  | OpSaveQuota QuotaSnapshot
  | OpCreateKey StoredKey
  | OpTouchKey gostring int
  | OpRevokeKey gostring int
  | OpInsertLog RequestLog
  | OpDeleteOld int

fun db_step :: "database \<Rightarrow> bool \<times> db_op \<Rightarrow> database \<times> unit list" where
  "db_step db (up, OpSetSetting k v t) = (snd (SetSetting up k v t db), [])"
| "db_step db (up, OpSaveAccount a t) = (snd (SaveAccount up a t db), [])"
| "db_step db (up, OpDeleteAccount) = (snd (DeleteAccount up db), [])"
| "db_step db (up, OpSaveQuota q) = (snd (SaveQuota up q db), [])"
| "db_step db (up, OpCreateKey k) = (snd (CreateAPIKey up k db), [])"
| "db_step db (up, OpTouchKey i t) = (snd (TouchAPIKey up i t db), [])"
| "db_step db (up, OpRevokeKey i t) = (snd (RevokeAPIKey up i t db), [])"
| "db_step db (up, OpInsertLog e) = (snd (InsertRequestLog up e db), [])"
| "db_step db (up, OpDeleteOld t) = (snd (DeleteOldRequestLogs up t db), [])"

subsection \<open>Invariants\<close>

lemmas db_ops = SetSetting_def SaveAccount_def DeleteAccount_def SaveQuota_def CreateAPIKey_def
  TouchAPIKey_def RevokeAPIKey_def InsertRequestLog_def DeleteOldRequestLogs_def Let_def

definition keys_inv :: "StoredKey list \<Rightarrow> bool" where
  "keys_inv ks \<longleftrightarrow> distinct (map dk_id ks) \<and> distinct (map dk_hash ks)"

definition logs_inv :: "StoredKey list \<Rightarrow> RequestLog list \<Rightarrow> bool" where
  "logs_inv ks es \<longleftrightarrow> distinct (map lg_id es) \<and>
     (\<forall>e \<in> set es. lg_api_key_id e = [] \<or> lg_api_key_id e \<in> dk_id ` set ks)"

definition db_inv :: "database \<Rightarrow> bool" where
  "db_inv db \<longleftrightarrow> keys_inv (db_keys db) \<and> logs_inv (db_keys db) (db_logs db)"

text \<open>An update of rows that keeps identifiers and hashes keeps the constraints.\<close>

lemma map_dk_id: "(\<And>k. dk_id (f k) = dk_id k) \<Longrightarrow> map dk_id (map f ks) = map dk_id ks"
  and map_dk_hash: "(\<And>k. dk_hash (f k) = dk_hash k) \<Longrightarrow> map dk_hash (map f ks) = map dk_hash ks"
  by simp_all

lemma keys_inv_map:
  "(\<And>k. dk_id (f k) = dk_id k) \<Longrightarrow> (\<And>k. dk_hash (f k) = dk_hash k) \<Longrightarrow> keys_inv (map f ks) = keys_inv ks"
  by (simp only: keys_inv_def map_dk_id map_dk_hash)

lemma image_dk_id: "(\<And>k. dk_id (f k) = dk_id k) \<Longrightarrow> dk_id ` set (map f ks) = dk_id ` set ks"
  by (auto simp: image_iff)

lemma logs_inv_map: "(\<And>k. dk_id (f k) = dk_id k) \<Longrightarrow> logs_inv (map f ks) es = logs_inv ks es"
  by (simp only: logs_inv_def image_dk_id)

lemma logs_inv_filter: "logs_inv ks es \<Longrightarrow> logs_inv ks (filter p es)"
  by (induction es) (auto simp: logs_inv_def)

lemma db_inv_empty: "db_inv empty_database"
  by (simp add: db_inv_def empty_database_def keys_inv_def logs_inv_def)

interpretation tables: event_machine db_step db_inv
proof unfold_locales
  fix db and e :: "bool \<times> db_op"
  assume inv: "db_inv db"
  obtain up op where e: "e = (up, op)" by (cases e)
  show "db_inv (fst (db_step db e))"
  proof (cases op)
    case (OpCreateKey k)
    with inv e show ?thesis
      by (auto simp: db_ops db_inv_def keys_inv_def logs_inv_def)
  next
    case (OpInsertLog l)
    with inv e show ?thesis
      by (auto simp: db_ops db_inv_def logs_inv_def)
  qed (use inv e in \<open>auto simp: db_ops db_inv_def keys_inv_map logs_inv_map logs_inv_filter\<close>)
qed

text \<open>A row with a given identifier and hash that is revoked.\<close>

definition revoked_row :: "gostring \<Rightarrow> gostring \<Rightarrow> StoredKey \<Rightarrow> bool" where
  "revoked_row i h k \<longleftrightarrow> dk_id k = i \<and> dk_hash k = h \<and> dk_revoked_at k \<noteq> None"

definition revoked_inv :: "gostring \<Rightarrow> gostring \<Rightarrow> database \<Rightarrow> bool" where
  "revoked_inv i h db \<longleftrightarrow> db_inv db \<and> (\<exists>k \<in> set (db_keys db). revoked_row i h k)"

lemma revoked_map:
  "(\<And>k. revoked_row i h k \<Longrightarrow> revoked_row i h (f k)) \<Longrightarrow> \<exists>k \<in> set ks. revoked_row i h k \<Longrightarrow>
     \<exists>k \<in> set (map f ks). revoked_row i h k"
  by auto

lemma revoked_rows_step:
  "\<exists>k \<in> set (db_keys db). revoked_row i h k \<Longrightarrow> \<exists>k \<in> set (db_keys (fst (db_step db e))). revoked_row i h k"
proof -
  assume ex: "\<exists>k \<in> set (db_keys db). revoked_row i h k"
  obtain up op where e: "e = (up, op)" by (cases e)
  show ?thesis
  proof (cases op)
    case (OpTouchKey j t)
    with e ex show ?thesis
      using revoked_map [of i h "\<lambda>k. if dk_id k = j then k\<lparr>dk_last_used_at := Some t\<rparr> else k"]
      by (simp add: db_ops revoked_row_def)
  next
    case (OpRevokeKey j t)
    with e ex show ?thesis
      using revoked_map [of i h "\<lambda>k. if dk_id k = j \<and> dk_revoked_at k = None
          then k\<lparr>dk_revoked_at := Some t\<rparr> else k"]
      by (simp add: db_ops revoked_row_def)
  qed (use e ex in \<open>auto simp: db_ops\<close>)
qed

interpretation revocation: event_machine db_step "revoked_inv i h" for i h
  by unfold_locales (simp add: revoked_inv_def tables.step_inv revoked_rows_step)

lemma revoked_not_found:
  assumes "revoked_inv i h db"
  shows "FindActiveAPIKeyByHash up h db = Inl (if up then NotFound else Unavailable)"
    and "FindActiveAPIKeyByID up i db = Inl (if up then NotFound else Unavailable)"
proof -
  obtain r where r: "r \<in> set (db_keys db)" "dk_id r = i" "dk_hash r = h" "dk_revoked_at r \<noteq> None"
    using assms by (auto simp: revoked_inv_def revoked_row_def)
  have inj: "inj_on dk_id (set (db_keys db))" "inj_on dk_hash (set (db_keys db))"
    using assms by (auto simp: revoked_inv_def db_inv_def keys_inv_def distinct_map)
  have "\<forall>k \<in> set (db_keys db). \<not> (dk_hash k = h \<and> dk_revoked_at k = None)"
    using r inj(2) by (auto dest: inj_onD)
  then show "FindActiveAPIKeyByHash up h db = Inl (if up then NotFound else Unavailable)"
    using find_None_all [of "\<lambda>k. dk_hash k = h \<and> dk_revoked_at k = None" "db_keys db"]
    by (simp add: FindActiveAPIKeyByHash_def find_active_def)
  have "\<forall>k \<in> set (db_keys db). \<not> (dk_id k = i \<and> dk_revoked_at k = None)"
    using r inj(1) by (auto dest: inj_onD)
  then show "FindActiveAPIKeyByID up i db = Inl (if up then NotFound else Unavailable)"
    using find_None_all [of "\<lambda>k. dk_id k = i \<and> dk_revoked_at k = None" "db_keys db"]
    by (simp add: FindActiveAPIKeyByID_def find_active_def)
qed

lemma revoke_establishes:
  assumes "db_inv db" "k \<in> set (db_keys db)"
  shows "revoked_inv (dk_id k) (dk_hash k) (snd (RevokeAPIKey True (dk_id k) now db))"
proof -
  have "db_inv (snd (RevokeAPIKey True (dk_id k) now db))"
    using tables.step_inv [OF assms(1), of "(True, OpRevokeKey (dk_id k) now)"] by simp
  moreover have "\<exists>r \<in> set (db_keys (snd (RevokeAPIKey True (dk_id k) now db))).
      revoked_row (dk_id k) (dk_hash k) r"
  proof
    let ?f = "\<lambda>r. if dk_id r = dk_id k \<and> dk_revoked_at r = None then r\<lparr>dk_revoked_at := Some now\<rparr> else r"
    show "?f k \<in> set (db_keys (snd (RevokeAPIKey True (dk_id k) now db)))"
      using imageI [OF assms(2), of ?f] by (simp add: RevokeAPIKey_def Let_def)
    show "revoked_row (dk_id k) (dk_hash k) (?f k)" by (simp add: revoked_row_def)
  qed
  ultimately show ?thesis by (simp add: revoked_inv_def)
qed

subsection \<open>Statistics and the list of a day\<close>

lemma success_count:
  "sum_list (map (\<lambda>e. if is_success e then 1 else 0) es) = int (length (filter is_success es))"
  by (induction es) auto

lemma sorted_desc_take:
  "sorted_wrt (\<lambda>a b. lg_created_at a \<ge> lg_created_at b) (take n (sort_key (\<lambda>e. - lg_created_at e) es))"
proof -
  have "sorted (map (\<lambda>e. - lg_created_at e) (sort_key (\<lambda>e. - lg_created_at e) es))"
    by (rule sorted_sort_key)
  then have "sorted_wrt (\<lambda>a b. lg_created_at a \<ge> lg_created_at b) (sort_key (\<lambda>e. - lg_created_at e) es)"
    by (simp add: sorted_map)
  then show ?thesis by (rule sorted_wrt_take)
qed

lemma sorted_wrt_named:
  "sorted_wrt (\<lambda>a b. lg_created_at a \<ge> lg_created_at b) (map (\<lambda>e. e\<lparr>lg_api_key_name := f e\<rparr>) es) =
     sorted_wrt (\<lambda>a b. lg_created_at a \<ge> lg_created_at b) es"
  by (induction es) auto

lemma in_range_named: "in_range a b (e\<lparr>lg_api_key_name := n\<rparr>) = in_range a b e"
  by (simp add: in_range_def)

lemma success_rate_range:
  "0 \<le> st_success_rate (DayStats_of es) \<and> st_success_rate (DayStats_of es) \<le> 100"
proof (cases "es = []")
  case False
  have "real (length (filter is_success es)) * 100 \<le> 100 * real (length es)"
    by simp
  with False show ?thesis
    by (simp add: DayStats_of_def Let_def success_count divide_le_eq)
qed (simp add: DayStats_of_def)

subsection \<open>Properties\<close>

lemma revoked_reached:
  assumes "k \<in> set (db_keys (final db_step empty_database hist))"
  shows "revoked_inv (dk_id k) (dk_hash k)
    (final db_step (snd (RevokeAPIKey True (dk_id k) now (final db_step empty_database hist))) ops)"
  by (intro revocation.run_inv revoke_establishes tables.run_inv [OF db_inv_empty] assms)

text \<open>C4. Revocation is final: once a key is revoked, nothing that the server can do to the database
  afterwards, in any order and with any failures, makes the key found again, neither by the hash a
  client presents nor by its identifier; creating another key with the same hash is refused.\<close>

theorem revoked_key_never_found:
  assumes "k \<in> set (db_keys (final db_step empty_database hist))"
  shows "let db = final db_step (snd (RevokeAPIKey True (dk_id k) now (final db_step empty_database hist))) ops
    in FindActiveAPIKeyByHash up (dk_hash k) db = Inl (if up then NotFound else Unavailable) \<and>
       FindActiveAPIKeyByID up (dk_id k) db = Inl (if up then NotFound else Unavailable)"
  by (simp add: Let_def revoked_not_found [OF revoked_reached [OF assms]])

definition sample_key :: StoredKey where
  "sample_key = \<lparr>dk_id = ''key_1'', dk_name = ''laptop'', dk_hash = ''h1'', dk_prefix = ''sk-codexone-1'',
     dk_created_at = 5, dk_last_used_at = None, dk_revoked_at = None\<rparr>"

theorem revoked_key_never_found_witness:
  "FindActiveAPIKeyByHash True ''h1''
     (final db_step (snd (RevokeAPIKey True ''key_1'' 7
         (final db_step empty_database [(True, OpCreateKey sample_key)])))
       [(True, OpCreateKey (sample_key\<lparr>dk_id := ''key_2''\<rparr>)), (True, OpTouchKey ''key_1'' 9)]) = Inl NotFound"
proof -
  have "sample_key \<in> set (db_keys (final db_step empty_database [(True, OpCreateKey sample_key)]))"
    by (simp add: CreateAPIKey_def empty_database_def sample_key_def)
  from revoked_key_never_found [OF this, of 7
      "[(True, OpCreateKey (sample_key\<lparr>dk_id := ''key_2''\<rparr>)), (True, OpTouchKey ''key_1'' 9)]" True]
  show ?thesis by (simp add: sample_key_def Let_def del: final_Cons)
qed

text \<open>
  The statistics of a day and its list of requests describe the same rows: as many rows are
  listed as there are requests, up to the limit, newest first and all of that day; successes never exceed
  requests and the rate lies between 0 and 100 percent.\<close>

lemma list_agrees_with_stats:
  "case (TodayStatsQuery True start end' db, ListRequestLogs True start end' limit db) of
     (Inr st, Inr es) \<Rightarrow>
       int (length es) = min (int limit) (st_requests st) \<and>
       sorted_wrt (\<lambda>a b. lg_created_at a \<ge> lg_created_at b) es \<and>
       list_all (in_range start end') es \<and>
       0 \<le> st_successes st \<and> st_successes st \<le> st_requests st \<and>
       0 \<le> st_success_rate st \<and> st_success_rate st \<le> 100
   | _ \<Rightarrow> False"
proof -
  let ?es = "filter (in_range start end') (db_logs db)"
  let ?top = "take limit (sort_key (\<lambda>e. - lg_created_at e) ?es)"
  let ?out = "map (\<lambda>e. e\<lparr>lg_api_key_name := key_name db (lg_api_key_id e)\<rparr>) ?top"
  have day: "list_all (in_range start end') ?out"
    by (auto simp: list_all_iff in_range_named dest!: in_set_takeD)
  have sorted: "sorted_wrt (\<lambda>a b. lg_created_at a \<ge> lg_created_at b) ?out"
    unfolding sorted_wrt_named by (rule sorted_desc_take)
  have len: "int (length ?out) = min (int limit) (int (length ?es))"
    by simp
  have st: "st_requests (DayStats_of ?es) = int (length ?es)"
    "st_successes (DayStats_of ?es) = int (length (filter is_success ?es))"
    by (simp_all add: DayStats_of_def Let_def success_count del: filter_filter)
  have le: "int (length (filter is_success ?es)) \<le> int (length ?es)"
    using length_filter_le of_nat_mono by blast
  have q: "TodayStatsQuery True start end' db = Inr (DayStats_of ?es)"
    "ListRequestLogs True start end' limit db = Inr ?out"
    by (simp_all add: TodayStatsQuery_def ListRequestLogs_def)
  show ?thesis
    unfolding q prod.case sum.case st
    using day sorted len le success_rate_range [of ?es] by (intro conjI) (simp_all only: of_nat_0_le_iff)
qed

text \<open>C16.
  The tables are well formed whatever statements have run on them, in any order, failed or not: no two API keys share an
  identifier or a hash, no two rows of the request log an identifier, and every row names a key that exists, revoked or not,
  or none.
\<close>

theorem tables_well_formed:
  "let db = final db_step empty_database ops
   in distinct (map dk_id (db_keys db)) \<and> distinct (map dk_hash (db_keys db)) \<and> distinct (map lg_id (db_logs db))
     \<and> list_all (\<lambda>e. lg_api_key_id e \<in> insert [] (dk_id ` set (db_keys db))) (db_logs db)"
  using tables.run_inv [OF db_inv_empty, of ops]
  by (auto simp: db_inv_def keys_inv_def logs_inv_def Let_def list_all_iff)

end
