(* ===== verification/Normalize.thy ===== *)
theory Normalize
  imports GoJson
begin

text \<open>
  \<^verbatim>\<open>internal/proxy/normalize.go\<close>: what becomes of a Responses request before it goes upstream.
  \<open>lower\<close> is \<^verbatim>\<open>strings.ToLower\<close>. Changes in place of nested objects are written as functions,
  which is the same because a decoded body shares no parts.
\<close>

subsection \<open>Reasoning effort\<close>

text \<open>\<^verbatim>\<open>strings.NewReplacer\<close> with three one-byte patterns removes these bytes.\<close>

definition compact_effort :: "gostring \<Rightarrow> gostring" where
  "compact_effort s = filter (\<lambda>c. c \<noteq> CHR ''-'' \<and> c \<noteq> CHR ''_'' \<and> c \<noteq> CHR '' '') s"

definition canonicalReasoningEffort :: "(gostring \<Rightarrow> gostring) \<Rightarrow> gostring \<Rightarrow> gostring" where
  "canonicalReasoningEffort lower val =
     (let normalized = lower (TrimSpace val); c = compact_effort normalized
      in if c = ''off'' \<or> c = ''disabled'' then ''none''
         else if c = ''xhigh'' \<or> c = ''extrahigh'' then ''xhigh''
         else if c = ''maximum'' then ''max''
         else normalized)"

text \<open>The effective effort of \<^verbatim>\<open>normalizeReasoningConfig\<close>, with \<^verbatim>\<open>auto\<close> replaced.\<close>

definition chosen_effort :: "(gostring \<Rightarrow> gostring) \<Rightarrow> gostring \<Rightarrow> gobj \<Rightarrow> gostring" where
  "chosen_effort lower flat reasoning =
     (let effort0 = str_of (index_nil reasoning ''effort'');
          effort1 = (if TrimSpace effort0 = [] then flat else effort0);
          effort2 = canonicalReasoningEffort lower effort1
      in if effort2 = ''auto'' then ''medium'' else effort2)"

definition normalize_reasoning_object :: "(gostring \<Rightarrow> gostring) \<Rightarrow> gostring \<Rightarrow> gobj \<Rightarrow> gobj" where
  "normalize_reasoning_object lower flat reasoning =
     (let effort = chosen_effort lower flat reasoning;
          r1 = (if effort \<noteq> [] then put ''effort'' (JStr effort) reasoning else reasoning);
          legacy = TrimSpace (str_of (index_nil r1 ''generate_summary''));
          r2 = (if map_of r1 ''summary'' = None
                then (if legacy \<noteq> [] then put ''summary'' (JStr (lower legacy)) r1
                      else if effort \<noteq> [] \<and> effort \<noteq> ''none'' then put ''summary'' (JStr ''auto'') r1
                      else r1)
                else r1)
      in del ''generate_summary'' r2)"

definition normalizeReasoningConfig :: "(gostring \<Rightarrow> gostring) \<Rightarrow> gobj \<Rightarrow> gobj" where
  "normalizeReasoningConfig lower body0 =
     (let flat = str_of (index_nil body0 ''reasoning_effort'');
          body = del ''reasoning_effort'' body0
      in case obj_of (index_nil body0 ''reasoning'') of
           Some reasoning \<Rightarrow> put ''reasoning'' (JObj (normalize_reasoning_object lower flat reasoning)) body
         | None \<Rightarrow>
             if TrimSpace flat \<noteq> []
             then put ''reasoning'' (JObj (normalize_reasoning_object lower flat [])) body
             else body)"

subsection \<open>Input and tools\<close>

definition normalize_part :: "gj \<Rightarrow> gj" where
  "normalize_part = on_objects (del ''prompt_cache_breakpoint'')"

definition normalize_item :: "gobj \<Rightarrow> gobj" where
  "normalize_item object =
     at_key ''content'' (on_elements normalize_part)
       (at_key ''role'' (\<lambda>v. if v = JStr ''system'' then JStr ''developer'' else v) object)"

definition normalizeInput :: "gj \<Rightarrow> gj" where
  "normalizeInput = on_elements (on_objects normalize_item)"

definition normalizeToolType :: "gobj \<Rightarrow> gobj" where
  "normalizeToolType =
     at_key ''type''
       (\<lambda>v. if v = JStr ''web_search_preview'' \<or> v = JStr ''web_search_preview_2025_03_11''
            then JStr ''web_search'' else v)"

definition normalizeTools :: "gj \<Rightarrow> gj" where
  "normalizeTools = on_elements (on_objects normalizeToolType)"

definition normalize_choice :: "gobj \<Rightarrow> gobj" where
  "normalize_choice choice = at_key ''tools'' normalizeTools (normalizeToolType choice)"

subsection \<open>The request\<close>

text \<open>What the decoder makes of the bytes: \<^verbatim>\<open>json.Valid\<close> fails, or one JSON value.\<close>

datatype normalize_error = MalformedBody | NotAnObject | ModelRequired | InputRequired

definition stripped_fields :: "gostring list" where
  "stripped_fields = [''max_output_tokens'', ''max_completion_tokens'', ''temperature'', ''top_p'', ''truncation'',
     ''prompt_cache_options'', ''prompt_cache_retention'', ''context_management'', ''user'']"

definition wrap_input :: "gj \<Rightarrow> gj" where
  "wrap_input input =
     (case input of
        JStr s \<Rightarrow> JArr [JObj [(''type'', JStr ''message''), (''role'', JStr ''user''),
          (''content'', JArr [JObj [(''type'', JStr ''input_text''), (''text'', JStr s)]])]]
      | _ \<Rightarrow> input)"

definition fill_defaults :: "gobj \<Rightarrow> gobj" where
  "fill_defaults b0 =
     (let b1 = at_key ''input'' wrap_input b0;
          b2 = (if index_nil b1 ''instructions'' = JNull then put ''instructions'' (JStr []) b1 else b1);
          b3 = (if index_nil b2 ''tools'' = JNull then del ''tools'' b2 else b2);
          b4 = (if index_nil b3 ''reasoning'' = JNull then del ''reasoning'' b3 else b3)
      in b4)"

definition force_fields :: "gobj \<Rightarrow> gobj" where
  "force_fields b =
     put ''include'' (JArr [JStr ''reasoning.encrypted_content''])
       (put ''parallel_tool_calls'' (JBool True)
          (put ''store'' (JBool False) (put ''stream'' (JBool True) b)))"

definition strip_fields :: "gobj \<Rightarrow> gobj" where
  "strip_fields b = fold del stripped_fields b"

definition strip_tier :: "gobj \<Rightarrow> gobj" where
  "strip_tier b =
     (case index_nil b ''service_tier'' of
        JStr tier \<Rightarrow> if tier \<noteq> ''priority'' then del ''service_tier'' b else b
      | _ \<Rightarrow> b)"

definition normalize_parts :: "gobj \<Rightarrow> gobj" where
  "normalize_parts b =
     at_key ''tool_choice'' (on_objects normalize_choice)
       (at_key ''tools'' normalizeTools (at_key ''input'' normalizeInput b))"

definition normalize_body :: "(gostring \<Rightarrow> gostring) \<Rightarrow> gobj \<Rightarrow> gobj" where
  "normalize_body lower b =
     normalize_parts (strip_tier (strip_fields (normalizeReasoningConfig lower (force_fields (fill_defaults b)))))"

definition normalizeResponsesRequest ::
  "(gostring \<Rightarrow> gostring) \<Rightarrow> gj option \<Rightarrow> normalize_error + gobj \<times> bool \<times> gostring" where
  "normalizeResponsesRequest lower decoded =
     (case decoded of
        None \<Rightarrow> Inl MalformedBody
      | Some v \<Rightarrow>
          (case (case v of JObj m \<Rightarrow> Some m | JNull \<Rightarrow> Some [] | _ \<Rightarrow> None) of
             None \<Rightarrow> Inl NotAnObject
           | Some body \<Rightarrow>
               (let requestedStream = bool_of (index_nil body ''stream'');
                    model = str_of (index_nil body ''model'')
                in if model = [] then Inl ModelRequired
                   else if index_nil body ''input'' = JNull then Inl InputRequired
                   else Inr (normalize_body lower body, requestedStream, model))))"

text \<open>The two fields the log reads, if the body decodes into them.\<close>

definition reasoningEffortFromBody ::
  "(gostring \<Rightarrow> gostring) \<Rightarrow> (gostring \<times> gostring) option \<Rightarrow> gostring" where
  "reasoningEffortFromBody lower decoded =
     (case decoded of
        None \<Rightarrow> []
      | Some (effort, flat) \<Rightarrow>
          (let e = canonicalReasoningEffort lower effort
           in if e \<noteq> [] then e else canonicalReasoningEffort lower flat))"

subsection \<open>Lookup in each stage\<close>

lemma map_of_fill:
  "map_of (fill_defaults b) k =
     (if k = ''input'' then map_option wrap_input (map_of b k)
      else if k = ''instructions'' then
        (if index_nil b k = JNull then Some (JStr []) else map_of b k)
      else if k = ''tools'' \<or> k = ''reasoning'' then (if index_nil b k = JNull then None else map_of b k)
      else map_of b k)"
proof -
  obtain b1 where b1: "b1 = at_key ''input'' wrap_input b" by blast
  obtain b2 where b2: "b2 = (if index_nil b1 ''instructions'' = JNull then put ''instructions'' (JStr []) b1 else b1)" by blast
  obtain b3 where b3: "b3 = (if index_nil b2 ''tools'' = JNull then del ''tools'' b2 else b2)" by blast
  obtain b4 where b4: "b4 = (if index_nil b3 ''reasoning'' = JNull then del ''reasoning'' b3 else b3)" by blast
  have filled: "fill_defaults b = b4" by (simp only: fill_defaults_def Let_def b1 b2 b3 b4)
  have m1: "map_of b1 j = (if j = ''input'' then map_option wrap_input (map_of b j) else map_of b j)" for j by (simp add: b1)
  then have n1: "index_nil b1 ''instructions'' = index_nil b ''instructions''" by (simp add: index_nil_def)
  have m2: "map_of b2 j = (if j = ''instructions'' then if index_nil b j = JNull then Some (JStr []) else map_of b j else map_of b1 j)" for j
    by (simp add: b2 n1 m1)
  then have n2: "index_nil b2 ''tools'' = index_nil b ''tools''" by (simp add: index_nil_def m1)
  have m3: "map_of b3 j = (if j = ''tools'' then if index_nil b j = JNull then None else map_of b j else map_of b2 j)" for j
    by (simp add: b3 n2 m2 m1)
  then have n3: "index_nil b3 ''reasoning'' = index_nil b ''reasoning''" by (simp add: index_nil_def m2 m1)
  have "map_of b4 k = (if k = ''reasoning'' then if index_nil b k = JNull then None else map_of b k else map_of b3 k)"
    by (simp add: b4 n3 m3 m2 m1)
  then show ?thesis by (simp add: filled m3 m2 m1)
qed

lemma map_of_force:
  "map_of (force_fields b) k =
     (if k = ''include'' then Some (JArr [JStr ''reasoning.encrypted_content''])
      else if k = ''parallel_tool_calls'' then Some (JBool True)
      else if k = ''store'' then Some (JBool False)
      else if k = ''stream'' then Some (JBool True)
      else map_of b k)"
  by (simp add: force_fields_def)

lemma map_of_fold_del: "map_of (fold del ks b) k = (if k \<in> set ks then None else map_of b k)"
  by (induction ks arbitrary: b) auto

lemma map_of_strip: "map_of (strip_fields b) k = (if k \<in> set stripped_fields then None else map_of b k)"
  by (simp add: strip_fields_def map_of_fold_del)

lemma map_of_tier:
  "map_of (strip_tier b) k =
     (if k = ''service_tier'' \<and> (\<exists>s. map_of b k = Some (JStr s) \<and> s \<noteq> ''priority'') then None else map_of b k)"
  by (auto simp: strip_tier_def index_nil_def split: gj.split option.split)

lemma map_of_parts:
  "map_of (normalize_parts b) k =
     (if k = ''tool_choice'' then map_option (on_objects normalize_choice) (map_of b k)
      else if k = ''tools'' then map_option normalizeTools (map_of b k)
      else if k = ''input'' then map_option normalizeInput (map_of b k)
      else map_of b k)"
  by (simp add: normalize_parts_def)

lemma map_of_reasoning:
  "map_of (normalizeReasoningConfig lower b) k =
     (if k = ''reasoning_effort'' then None
      else if k = ''reasoning'' then
        (case obj_of (index_nil b k) of
           Some r \<Rightarrow> Some (JObj (normalize_reasoning_object lower (str_of (index_nil b ''reasoning_effort'')) r))
         | None \<Rightarrow>
             if TrimSpace (str_of (index_nil b ''reasoning_effort'')) \<noteq> []
             then Some (JObj (normalize_reasoning_object lower (str_of (index_nil b ''reasoning_effort'')) []))
             else map_of b k)
      else map_of b k)"
  by (simp add: normalizeReasoningConfig_def Let_def split: option.split)

lemmas map_of_stages = map_of_fill map_of_force map_of_strip map_of_tier map_of_parts map_of_reasoning

text \<open>The keys a request can lose or have changed; every other key is passed on as it is.\<close>

definition touched_fields :: "gostring list" where
  "touched_fields = stripped_fields @ [''input'', ''instructions'', ''tools'', ''reasoning'', ''stream'', ''store'',
     ''parallel_tool_calls'', ''include'', ''reasoning_effort'', ''service_tier'', ''tool_choice'']"

lemma map_of_untouched:
  "k \<notin> set touched_fields \<Longrightarrow> map_of (normalize_body lower b) k = map_of b k"
  by (simp add: normalize_body_def map_of_stages touched_fields_def)

lemma stripped_absent: "k \<in> set stripped_fields \<Longrightarrow> map_of (normalize_body lower b) k = None"
  by (auto simp: normalize_body_def map_of_stages stripped_fields_def)

lemma forced_present:
  "map_of (normalize_body lower b) ''stream'' = Some (JBool True)"
  "map_of (normalize_body lower b) ''store'' = Some (JBool False)"
  "map_of (normalize_body lower b) ''parallel_tool_calls'' = Some (JBool True)"
  "map_of (normalize_body lower b) ''include'' = Some (JArr [JStr ''reasoning.encrypted_content''])"
  "map_of (normalize_body lower b) ''reasoning_effort'' = None"
  by (simp_all add: normalize_body_def map_of_stages stripped_fields_def)

subsection \<open>Idempotence of the parts\<close>

lemma normalize_part_idem: "normalize_part (normalize_part v) = normalize_part v"
  unfolding normalize_part_def by (rule on_objects_idem) (simp add: del_absent)

lemma normalize_item_idem: "normalize_item (normalize_item m) = normalize_item m"
proof -
  let ?role = "\<lambda>v. if v = JStr ''system'' then JStr ''developer'' else v"
  have "at_key ''role'' ?role (normalize_item m) = normalize_item m"
    by (rule at_key_same) (auto simp: normalize_item_def split: if_splits)
  moreover have "at_key ''content'' (on_elements normalize_part) (normalize_item m) = normalize_item m"
    unfolding normalize_item_def by (rule at_key_idem) (rule on_elements_idem [OF normalize_part_idem])
  ultimately show ?thesis by (simp add: normalize_item_def [of "normalize_item m"])
qed

lemma normalizeInput_idem: "normalizeInput (normalizeInput v) = normalizeInput v"
  unfolding normalizeInput_def by (intro on_elements_idem on_objects_idem normalize_item_idem)

lemma normalizeToolType_idem: "normalizeToolType (normalizeToolType m) = normalizeToolType m"
  unfolding normalizeToolType_def by (rule at_key_idem) simp

lemma normalizeTools_idem: "normalizeTools (normalizeTools v) = normalizeTools v"
  unfolding normalizeTools_def by (intro on_elements_idem on_objects_idem normalizeToolType_idem)

lemma normalize_choice_idem: "normalize_choice (normalize_choice m) = normalize_choice m"
proof -
  have "normalizeToolType (normalize_choice m) = normalize_choice m"
    unfolding normalizeToolType_def by (rule at_key_same) (auto simp: normalize_choice_def normalizeToolType_def split: if_splits)
  moreover have "at_key ''tools'' normalizeTools (normalize_choice m) = normalize_choice m"
    unfolding normalize_choice_def by (rule at_key_idem) (rule normalizeTools_idem)
  ultimately show ?thesis by (simp add: normalize_choice_def [of "normalize_choice m"])
qed

lemma wrap_input_array: "normalizeInput (wrap_input v) = JNull \<longleftrightarrow> v = JNull"
  by (cases v) (auto simp: wrap_input_def normalizeInput_def on_elements_def)

lemma wrap_normalized: "wrap_input (normalizeInput (wrap_input v)) = normalizeInput (wrap_input v)"
  by (cases v) (auto simp: wrap_input_def normalizeInput_def on_elements_def)

lemma tools_null: "normalizeTools v = JNull \<longleftrightarrow> v = JNull"
  by (cases v) (auto simp: normalizeTools_def on_elements_def)

subsection \<open>Idempotence of the reasoning part\<close>

text \<open>What idempotence needs of \<^verbatim>\<open>strings.ToLower\<close>.\<close>

locale lowering =
  fixes lower :: "gostring \<Rightarrow> gostring"
  assumes lower_lower: "lower (lower s) = lower s"
    and trim_lower: "TrimSpace (lower (TrimSpace s)) = lower (TrimSpace s)"
    and lower_fixed: "\<forall>c \<in> set s. 97 \<le> (of_char c :: nat) \<and> (of_char c :: nat) \<le> 122 \<Longrightarrow> lower s = s"
begin

lemma lower_words [simp]:
  "lower [] = []" "lower ''none'' = ''none''" "lower ''xhigh'' = ''xhigh''" "lower ''max'' = ''max''"
  "lower ''medium'' = ''medium''"
  by (rule lower_fixed; simp)+

lemma trim_words [simp]:
  "TrimSpace ''none'' = ''none''" "TrimSpace ''xhigh'' = ''xhigh''" "TrimSpace ''max'' = ''max''"
  "TrimSpace ''medium'' = ''medium''"
  by (rule TrimSpace_printable; simp add: printable_def)+

lemma canonical_words:
  "canonicalReasoningEffort lower ''none'' = ''none''" "canonicalReasoningEffort lower ''xhigh'' = ''xhigh''"
  "canonicalReasoningEffort lower ''max'' = ''max''" "canonicalReasoningEffort lower ''medium'' = ''medium''"
  "canonicalReasoningEffort lower [] = []"
  by (simp_all add: canonicalReasoningEffort_def compact_effort_def)

text \<open>A canonical effort is trimmed and canonical.\<close>

lemma canonical_trim: "TrimSpace (canonicalReasoningEffort lower s) = canonicalReasoningEffort lower s"
  by (simp add: canonicalReasoningEffort_def Let_def trim_lower)

lemma canonical_idem:
  "canonicalReasoningEffort lower (canonicalReasoningEffort lower s) = canonicalReasoningEffort lower s"
proof -
  let ?n = "lower (TrimSpace s)"
  have n: "lower (TrimSpace ?n) = ?n" by (simp add: trim_lower lower_lower)
  have "canonicalReasoningEffort lower s = ''none'' \<or> canonicalReasoningEffort lower s = ''xhigh''
      \<or> canonicalReasoningEffort lower s = ''max'' \<or> canonicalReasoningEffort lower s = ?n"
    unfolding canonicalReasoningEffort_def Let_def by (simp split: if_split)
  then consider "canonicalReasoningEffort lower s \<in> {''none'', ''xhigh'', ''max''}"
    | "canonicalReasoningEffort lower s = ?n" by blast
  then show ?thesis
  proof cases
    case 1
    then show ?thesis by (auto simp: canonical_words)
  next
    case 2
    have "canonicalReasoningEffort lower ?n = canonicalReasoningEffort lower s"
      by (simp only: canonicalReasoningEffort_def n)
    with 2 show ?thesis by simp
  qed
qed

lemma chosen_canonical:
  "canonicalReasoningEffort lower (chosen_effort lower flat r) = chosen_effort lower flat r"
  "TrimSpace (chosen_effort lower flat r) = chosen_effort lower flat r"
  "chosen_effort lower flat r \<noteq> ''auto''"
  by (simp_all add: chosen_effort_def Let_def canonical_idem canonical_words canonical_trim)

lemma chosen_again:
  assumes "map_of r' ''effort'' = Some (JStr (chosen_effort lower flat r))" "chosen_effort lower flat r \<noteq> []"
  shows "chosen_effort lower f r' = chosen_effort lower flat r"
proof -
  let ?e = "chosen_effort lower flat r"
  have "index_nil r' ''effort'' = JStr ?e" using assms(1) by (simp add: index_nil_def)
  then show ?thesis
    using assms(2) by (subst chosen_effort_def) (simp add: str_of_def chosen_canonical Let_def)
qed

text \<open>Without an effort anywhere, none is chosen the second time either.\<close>

lemma canonical_Nil: "canonicalReasoningEffort lower s = [] \<Longrightarrow> lower (TrimSpace s) = []"
  by (auto simp: canonicalReasoningEffort_def Let_def split: if_splits)

lemma chosen_none_again:
  assumes "chosen_effort lower flat r = []" "map_of r' ''effort'' = map_of r ''effort''"
  shows "chosen_effort lower [] r' = []"
proof -
  let ?e = "str_of (index_nil r ''effort'')"
  have same: "index_nil r' ''effort'' = index_nil r ''effort''" using assms(2) by (simp add: index_nil_def)
  show ?thesis
  proof (cases "TrimSpace ?e = []")
    case True
    then show ?thesis by (simp add: chosen_effort_def same Let_def canonical_words)
  next
    case False
    with assms(1) show ?thesis by (simp add: chosen_effort_def same Let_def split: if_splits)
  qed
qed

lemma reasoning_object_idem:
  "normalize_reasoning_object lower [] (normalize_reasoning_object lower flat r) =
     normalize_reasoning_object lower flat r"
proof -
  let ?r = "normalize_reasoning_object lower flat r"
  let ?e = "chosen_effort lower flat r"
  have eff: "map_of ?r ''effort'' = (if ?e \<noteq> [] then Some (JStr ?e) else map_of r ''effort'')"
    by (simp add: normalize_reasoning_object_def Let_def)
  have gen: "map_of ?r ''generate_summary'' = None"
    by (simp add: normalize_reasoning_object_def Let_def)
  have e: "chosen_effort lower [] ?r = ?e"
    using chosen_again [of ?r flat r "[]"] chosen_none_again [of flat r ?r] eff by (cases "?e = []") simp_all
  have put: "(if ?e \<noteq> [] then put ''effort'' (JStr ?e) ?r else ?r) = ?r"
    using eff by (simp add: put_same)
  have sum: "map_of ?r ''summary'' = None \<Longrightarrow> ?e = [] \<or> ?e = ''none''"
    by (auto simp: normalize_reasoning_object_def Let_def split: if_splits)
  have "TrimSpace (str_of (index_nil ?r ''generate_summary'')) = []"
    by (simp add: index_nil_def gen str_of_def)
  with e put sum gen show ?thesis
    by (subst normalize_reasoning_object_def) (auto simp: Let_def del_absent)
qed

end

subsection \<open>Idempotence of the whole\<close>

lemma index_not_null: "index_nil m k \<noteq> JNull \<longleftrightarrow> (\<exists>v. map_of m k = Some v \<and> v \<noteq> JNull)"
  by (auto simp: index_nil_def split: option.split)

lemma body_input:
  "index_nil b ''input'' \<noteq> JNull \<Longrightarrow>
     \<exists>v. map_of (normalize_body lower b) ''input'' = Some (normalizeInput (wrap_input v)) \<and> v \<noteq> JNull"
  by (auto simp: index_not_null normalize_body_def map_of_stages stripped_fields_def)

lemma body_instructions: "index_nil (normalize_body lower b) ''instructions'' \<noteq> JNull"
  by (auto simp: index_not_null normalize_body_def map_of_stages stripped_fields_def)

lemma body_tools: "map_of (normalize_body lower b) ''tools'' = Some v \<Longrightarrow> v \<noteq> JNull \<and> normalizeTools v = v"
  by (auto simp: index_nil_def normalize_body_def map_of_stages stripped_fields_def tools_null normalizeTools_idem
      split: if_splits option.splits)

lemma body_choice:
  "map_of (normalize_body lower b) ''tool_choice'' = Some v \<Longrightarrow> on_objects normalize_choice v = v"
  using on_objects_idem [of normalize_choice, OF normalize_choice_idem]
  by (auto simp: normalize_body_def map_of_stages stripped_fields_def split: if_splits)

lemma body_reasoning:
  "map_of (normalize_body lower b) ''reasoning'' = Some v \<Longrightarrow>
     (\<exists>f r. v = JObj (normalize_reasoning_object lower f r)) \<or> v \<noteq> JNull \<and> obj_of v = None"
  by (auto simp: normalize_body_def map_of_stages stripped_fields_def index_nil_def
      split: if_splits option.splits)

lemma body_tier: "strip_tier (normalize_body lower b) = normalize_body lower b"
proof -
  have "\<not> (\<exists>s. map_of (normalize_body lower b) ''service_tier'' = Some (JStr s) \<and> s \<noteq> ''priority'')"
    by (simp add: normalize_body_def map_of_parts map_of_tier)
  then show ?thesis by (auto simp: strip_tier_def index_nil_def split: gj.split option.split)
qed

lemma fold_del_absent: "\<forall>k \<in> set ks. map_of m k = None \<Longrightarrow> fold del ks m = m"
  by (induction ks) (auto simp: del_absent)

lemma fill_again:
  assumes "index_nil b ''input'' \<noteq> JNull"
  shows "fill_defaults (normalize_body lower b) = normalize_body lower b"
proof -
  let ?B = "normalize_body lower b"
  have input: "at_key ''input'' wrap_input ?B = ?B"
    using body_input [OF assms, of lower] by (intro at_key_same) (auto simp: wrap_normalized)
  have tools: "(if index_nil ?B ''tools'' = JNull then del ''tools'' ?B else ?B) = ?B"
    using body_tools [of lower b] by (auto simp: index_nil_def del_absent split: option.splits)
  have reasoning: "(if index_nil ?B ''reasoning'' = JNull then del ''reasoning'' ?B else ?B) = ?B"
    using body_reasoning [of lower b] by (auto simp: index_nil_def del_absent split: option.splits)
  show ?thesis
    unfolding fill_defaults_def Let_def input if_not_P [OF body_instructions] tools reasoning ..
qed

lemma force_again: "force_fields (normalize_body lower b) = normalize_body lower b"
  by (simp add: force_fields_def put_same forced_present)

lemma strip_again: "strip_fields (normalize_body lower b) = normalize_body lower b"
  unfolding strip_fields_def by (rule fold_del_absent) (simp add: stripped_absent)

lemma parts_again:
  assumes "index_nil b ''input'' \<noteq> JNull"
  shows "normalize_parts (normalize_body lower b) = normalize_body lower b"
proof -
  let ?B = "normalize_body lower b"
  have "at_key ''input'' normalizeInput ?B = ?B"
    using body_input [OF assms, of lower] by (intro at_key_same) (auto simp: normalizeInput_idem)
  moreover have "at_key ''tools'' normalizeTools ?B = ?B"
    using body_tools [of lower b] by (intro at_key_same) auto
  moreover have "at_key ''tool_choice'' (on_objects normalize_choice) ?B = ?B"
    using body_choice [of lower b] by (intro at_key_same) auto
  ultimately show ?thesis by (simp add: normalize_parts_def)
qed

lemma reasoning_again:
  assumes "lowering lower"
  shows "normalizeReasoningConfig lower (normalize_body lower b) = normalize_body lower b"
proof -
  let ?B = "normalize_body lower b"
  have flat: "str_of (index_nil ?B ''reasoning_effort'') = []"
    by (simp add: index_nil_def forced_present str_of_def)
  have del: "del ''reasoning_effort'' ?B = ?B" by (simp add: del_absent forced_present)
  show ?thesis
  proof (cases "obj_of (index_nil ?B ''reasoning'')")
    case None
    then show ?thesis by (simp add: normalizeReasoningConfig_def flat del Let_def)
  next
    case (Some r')
    then have m: "map_of ?B ''reasoning'' = Some (JObj r')"
      by (auto simp: obj_of_def index_nil_def split: option.splits gj.splits)
    with body_reasoning [OF this] obtain f r where r: "r' = normalize_reasoning_object lower f r"
      by (auto simp: obj_of_def)
    have "normalize_reasoning_object lower [] r' = r'"
      unfolding r by (rule lowering.reasoning_object_idem [OF assms])
    with Some m show ?thesis by (simp add: normalizeReasoningConfig_def flat del Let_def put_same)
  qed
qed

lemma normalize_again:
  assumes "lowering lower" "index_nil b ''input'' \<noteq> JNull"
  shows "normalize_body lower (normalize_body lower b) = normalize_body lower b"
  using assms
  by (simp add: normalize_body_def [of lower "normalize_body lower b"] fill_again force_again reasoning_again
      strip_again body_tier parts_again)

subsection \<open>Lower case on ASCII\<close>

text \<open>The law of \<open>lowering\<close> for the ASCII part of \<^verbatim>\<open>strings.ToLower\<close>.\<close>

definition to_lower :: "gostring \<Rightarrow> gostring" where
  "to_lower s = map lower_char s"

definition letter :: "char \<Rightarrow> bool" where
  "letter c \<longleftrightarrow> 65 \<le> (of_char c :: nat) \<and> (of_char c :: nat) \<le> 90 \<or> 97 \<le> (of_char c :: nat) \<and> (of_char c :: nat) \<le> 122"

lemma lower_char_cases:
  "(\<not> letter c \<longrightarrow> lower_char c = c) \<and> (letter c \<longrightarrow> letter (lower_char c))"
  by (auto simp: lower_char_def letter_def)

lemma lower_char_idem: "lower_char (lower_char c) = lower_char c"
  by (auto simp: lower_char_def)

lemma prefix_lower:
  "\<forall>c \<in> set p. \<not> letter c \<Longrightarrow> prefix p (map lower_char s) \<longleftrightarrow> prefix p s"
proof (induction p arbitrary: s)
  case (Cons c p)
  then show ?case using lower_char_cases by (cases s) auto
qed simp

lemma leading_lower:
  assumes "\<forall>p \<in> set codes. \<forall>c \<in> set p. \<not> letter c"
  shows "leading codes (map lower_char s) = leading codes s"
proof -
  have "List.find (\<lambda>p. p \<noteq> [] \<and> prefix p (map lower_char s)) codes = List.find (\<lambda>p. p \<noteq> [] \<and> prefix p s) codes"
    using assms by (intro find_cong) (auto simp: prefix_lower)
  then show ?thesis by (simp add: leading_def)
qed

lemma trim_codes_lower:
  assumes "\<forall>p \<in> set codes. \<forall>c \<in> set p. \<not> letter c"
  shows "trim_codes codes (map lower_char s) = map lower_char (trim_codes codes s)"
  using assms
proof (induction codes s rule: trim_codes.induct)
  case (1 codes s)
  show ?case
  proof (cases "leading codes s = 0")
    case True
    with 1 show ?thesis
      by (subst (1 2) trim_codes.simps) (simp add: leading_lower)
  next
    case False
    with 1 show ?thesis
      by (subst (1 2) trim_codes.simps) (simp add: leading_lower drop_map)
  qed
qed

lemma space_no_letter: "\<forall>p \<in> set space_strings. \<forall>c \<in> set p. \<not> letter c"
proof -
  have "\<forall>q \<in> set space_codes. \<forall>n \<in> set q. n < 65 \<or> (122 < n \<and> n < 256)"
    by (simp add: space_codes_def upt_conv_Cons)
  then show ?thesis by (fastforce simp: space_strings_def letter_def)
qed

lemma TrimSpace_lower: "TrimSpace (map lower_char s) = map lower_char (TrimSpace s)"
proof -
  have r: "\<forall>p \<in> set (map rev space_strings). \<forall>c \<in> set p. \<not> letter c"
    using space_no_letter by simp
  show ?thesis
    by (simp only: TrimSpace_def trim_codes_lower [OF space_no_letter] rev_map trim_codes_lower [OF r])
qed

lemma TrimSpace_idem: "TrimSpace (TrimSpace s) = TrimSpace s"
proof -
  let ?l = "trim_codes space_strings s"
  let ?r = "trim_codes (map rev space_strings) (rev ?l)"
  have "suffix ?r (rev ?l)" by (rule trim_codes_suffix)
  then have pre: "prefix (rev ?r) ?l" by (simp add: suffix_to_prefix)
  have "leading space_strings ?l = 0" by (rule trim_codes_done)
  then have "\<forall>p \<in> set space_strings. \<not> (p \<noteq> [] \<and> prefix p ?l)"
    by (auto simp: leading_def find_None_iff dest!: find_Some_in split: option.splits)
  then have "\<forall>p \<in> set space_strings. \<not> (p \<noteq> [] \<and> prefix p (rev ?r))"
    using pre prefix_order.order_trans by blast
  then have "List.find (\<lambda>p. p \<noteq> [] \<and> prefix p (rev ?r)) space_strings = None"
    by (auto simp: find_None_iff)
  then have "leading space_strings (rev ?r) = 0" by (simp add: leading_def)
  then have "trim_codes space_strings (rev ?r) = rev ?r" by (subst trim_codes.simps) simp
  moreover have "trim_codes (map rev space_strings) ?r = ?r"
    using trim_codes_done by (subst trim_codes.simps) simp
  ultimately show ?thesis by (simp add: TrimSpace_def)
qed

interpretation ascii: lowering to_lower
proof unfold_locales
  fix s
  show "to_lower (to_lower s) = to_lower s" by (simp add: to_lower_def lower_char_idem)
  show "TrimSpace (to_lower (TrimSpace s)) = to_lower (TrimSpace s)"
    by (simp add: to_lower_def TrimSpace_lower TrimSpace_idem)
  show "\<forall>c \<in> set s. 97 \<le> (of_char c :: nat) \<and> (of_char c :: nat) \<le> 122 \<Longrightarrow> to_lower s = s"
    by (induction s) (auto simp: to_lower_def lower_char_def)
qed

subsection \<open>Properties\<close>

lemma tier_priority:
  "map_of (normalize_body lower b) ''service_tier'' = Some (JStr t) \<Longrightarrow> t = ''priority''"
  by (auto simp: normalize_body_def map_of_parts map_of_tier split: if_splits)

lemma accepted:
  "normalizeResponsesRequest lower (Some (JObj b)) = Inr (b', st, m) \<longleftrightarrow>
     b' = normalize_body lower b \<and> st = bool_of (index_nil b ''stream'') \<and> m = str_of (index_nil b ''model'')
       \<and> m \<noteq> [] \<and> index_nil b ''input'' \<noteq> JNull"
  by (auto simp: normalizeResponsesRequest_def Let_def)

lemma str_of_nonempty: "str_of v \<noteq> [] \<Longrightarrow> v = JStr (str_of v)"
  by (cases v) (simp_all add: str_of_def)


definition sample_body :: gobj where
  "sample_body = [(''model'', JStr ''m''), (''input'', JStr ''hi''), (''user'', JStr ''u''),
     (''service_tier'', JStr ''flex''), (''reasoning_effort'', JStr ''X-High'')]"

lemma sample_accepted:
  "normalizeResponsesRequest to_lower (Some (JObj sample_body)) =
     Inr (normalize_body to_lower sample_body, False, ''m'')"
  by (simp add: accepted) (simp add: sample_body_def index_nil_def bool_of_def str_of_def)


text \<open>
  Normalising is idempotent. A request that was normalised already is accepted again and comes
  out unchanged, as a stream for the same model: what the proxy sends is a fixed point of its own
  rules, also for the reasoning effort, the legacy summary field and nested tool choices. Of
  lower-casing this uses that it is idempotent, keeps trimmed text trimmed and keeps the letters
  a to z.
\<close>

lemma normalize_idempotent:
  assumes "lowering lower"
    and "normalizeResponsesRequest lower (Some (JObj b)) = Inr (b', st, m)"
  shows "normalizeResponsesRequest lower (Some (JObj b')) = Inr (b', True, m)"
proof -
  from assms(2) have b': "b' = normalize_body lower b" and m: "m = str_of (index_nil b ''model'')" "m \<noteq> []"
    and input: "index_nil b ''input'' \<noteq> JNull" by (auto simp: accepted)
  have "''model'' \<notin> set touched_fields" by (simp add: touched_fields_def stripped_fields_def)
  then have model: "index_nil b' ''model'' = index_nil b ''model''"
    by (simp add: b' index_nil_def map_of_untouched)
  have "index_nil b' ''stream'' = JBool True" by (simp add: b' index_nil_def forced_present)
  moreover obtain v where "map_of b' ''input'' = Some (normalizeInput (wrap_input v))" "v \<noteq> JNull"
    using body_input [OF input] by (auto simp: b')
  ultimately show ?thesis
    using normalize_again [OF assms(1) input] m model
    by (simp add: accepted b' bool_of_def index_nil_def wrap_input_array)
qed

lemma normalize_idempotent_witness:
  "normalizeResponsesRequest to_lower (Some (JObj (normalize_body to_lower sample_body))) =
     Inr (normalize_body to_lower sample_body, True, ''m'')"
  by (rule normalize_idempotent [OF ascii.lowering_axioms sample_accepted])

end
