(* ===== verification/ProxyEvents.thy ===== *)
theory ProxyEvents
  imports Normalize
begin

text \<open>
  The event stream of the upstream as \<^verbatim>\<open>internal/proxy/service.go\<close> reads it: lines of server-sent
  events, token usage, telemetry, the collected response, failures and their HTTP status.
  A line comes with the milliseconds since the request began. \<^verbatim>\<open>json.Unmarshal\<close> into a struct is
  an argument, \<open>None\<close> where it fails; fields that are missing have their zero value.
\<close>

subsection \<open>Data\<close>

record tokenUsage =
  InputTokens :: int
  OutputTokens :: int
  ReasoningTokens :: int
  HasReasoningTokens :: bool
  EffectiveReasoningEffort :: gostring

definition no_usage :: tokenUsage where
  "no_usage = \<lparr>InputTokens = 0, OutputTokens = 0, ReasoningTokens = 0, HasReasoningTokens = False,
     EffectiveReasoningEffort = []\<rparr>"

record requestTelemetry =
  ReasoningEffort :: gostring
  UpstreamReasoningEffort :: gostring
  TelReasoningTokens :: int
  FirstReasoningMS :: int
  FirstOutputMS :: int

definition no_telemetry :: requestTelemetry where
  "no_telemetry = \<lparr>ReasoningEffort = [], UpstreamReasoningEffort = [], TelReasoningTokens = 0,
     FirstReasoningMS = 0, FirstOutputMS = 0\<rparr>"

text \<open>The struct of \<^verbatim>\<open>parseResponseUsage\<close>.\<close>

record usage_fields =
  uf_Effort :: gostring
  uf_InputTokens :: int
  uf_OutputTokens :: int
  uf_ReasoningTokens :: "int option"

text \<open>
  The field \<^verbatim>\<open>response\<close> of an event, kept raw by the code and decoded where it is used: into
  the usage, into the metadata of a chat stream, and for the message of a failure.
\<close>

record response_part =
  rp_raw :: gostring
  rp_usage :: "usage_fields option"
  rp_ID :: gostring
  rp_Model :: gostring
  rp_CreatedAt :: int
  rp_message :: gostring

record observed_event =
  oe_Type :: gostring
  oe_Delta :: gostring
  oe_Response :: "response_part option"

subsection \<open>Lines\<close>

definition ssePayload :: "gostring \<Rightarrow> gostring" where
  "ssePayload line0 =
     (let line = TrimSpace line0
      in if \<not> has_prefix line ''data:'' then [] else TrimSpace (drop (length ''data:'') line))"

definition is_data :: "gostring \<Rightarrow> bool" where
  "is_data payload \<longleftrightarrow> payload \<noteq> [] \<and> payload \<noteq> ''[DONE]''"

definition elapsedMS :: "int \<Rightarrow> int" where
  "elapsedMS val = (if val < 1 then 1 else val)"

subsection \<open>Usage and telemetry\<close>

definition parseResponseUsage ::
  "(gostring \<Rightarrow> gostring) \<Rightarrow> response_part option \<Rightarrow> tokenUsage \<Rightarrow> tokenUsage" where
  "parseResponseUsage lower response usage =
     (case response of
        None \<Rightarrow> usage
      | Some r \<Rightarrow>
          (case rp_usage r of
             None \<Rightarrow> usage
           | Some p \<Rightarrow>
               (let u1 = (if uf_Effort p \<noteq> []
                          then usage\<lparr>EffectiveReasoningEffort := canonicalReasoningEffort lower (uf_Effort p)\<rparr> else usage);
                    u2 = (if uf_InputTokens p > 0 then u1\<lparr>InputTokens := uf_InputTokens p\<rparr> else u1);
                    u3 = (if uf_OutputTokens p > 0 then u2\<lparr>OutputTokens := uf_OutputTokens p\<rparr> else u2)
                in case uf_ReasoningTokens p of
                     None \<Rightarrow> u3
                   | Some n \<Rightarrow> u3\<lparr>ReasoningTokens := n, HasReasoningTokens := True\<rparr>)))"

definition first_time :: "int \<Rightarrow> int \<Rightarrow> int" where
  "first_time ms old = (if old = 0 then elapsedMS ms else old)"

definition observeResponsePayload ::
  "(gostring \<Rightarrow> gostring) \<Rightarrow> int \<Rightarrow> observed_event option \<Rightarrow> tokenUsage \<times> requestTelemetry \<Rightarrow> tokenUsage \<times> requestTelemetry" where
  "observeResponsePayload lower ms event ut =
     (case event of
        None \<Rightarrow> ut
      | Some e \<Rightarrow>
          (let usage = parseResponseUsage lower (oe_Response e) (fst ut); telemetry = snd ut
           in if oe_Delta e = [] then (usage, telemetry)
              else if oe_Type e = ''response.reasoning_summary_text.delta'' \<or> oe_Type e = ''response.reasoning_text.delta''
              then (usage, telemetry\<lparr>FirstReasoningMS := first_time ms (FirstReasoningMS telemetry)\<rparr>)
              else if oe_Type e = ''response.output_text.delta''
              then (usage, telemetry\<lparr>FirstOutputMS := first_time ms (FirstOutputMS telemetry)\<rparr>)
              else (usage, telemetry)))"

definition observeSSE ::
  "(gostring \<Rightarrow> gostring) \<Rightarrow> (gostring \<Rightarrow> observed_event option) \<Rightarrow> int \<Rightarrow> gostring \<Rightarrow>
     tokenUsage \<times> requestTelemetry \<Rightarrow> tokenUsage \<times> requestTelemetry" where
  "observeSSE lower decode ms line ut =
     (let payload = ssePayload line
      in if \<not> is_data payload then ut else observeResponsePayload lower ms (decode payload) ut)"

definition mergeResponse :: "requestTelemetry \<Rightarrow> tokenUsage \<Rightarrow> requestTelemetry \<Rightarrow> requestTelemetry" where
  "mergeResponse observed usage t0 =
     (let t1 = (if FirstReasoningMS observed > 0 then t0\<lparr>FirstReasoningMS := FirstReasoningMS observed\<rparr> else t0);
          t2 = (if FirstOutputMS observed > 0 then t1\<lparr>FirstOutputMS := FirstOutputMS observed\<rparr> else t1);
          t3 = (if EffectiveReasoningEffort usage \<noteq> []
                then t2\<lparr>UpstreamReasoningEffort := EffectiveReasoningEffort usage\<rparr> else t2)
      in if HasReasoningTokens usage then t3\<lparr>TelReasoningTokens := ReasoningTokens usage\<rparr> else t3)"

subsection \<open>A stream passed through\<close>

text \<open>
  What \<^verbatim>\<open>ReadBytes\<close> delivers: lines, and at last an error, which for the end of the stream is
  \<^verbatim>\<open>io.EOF\<close>. The bytes before the error are the last line. A client takes so many writes
  (\<open>None\<close>: all of them) and is then gone.
\<close>

datatype stream_end = EOF | ReadError gostring

record stream_result =
  sr_status :: int
  sr_usage :: tokenUsage
  sr_telemetry :: requestTelemetry
  sr_errText :: gostring

definition takes :: "nat option \<Rightarrow> bool" where
  "takes room \<longleftrightarrow> room \<noteq> Some 0"

definition used_up :: "nat option \<Rightarrow> nat option" where
  "used_up room = map_option (\<lambda>n. n - 1) room"

definition stream_ended :: "stream_end \<Rightarrow> tokenUsage \<times> requestTelemetry \<Rightarrow> stream_result" where
  "stream_ended ending ut =
     (case ending of
        EOF \<Rightarrow> \<lparr>sr_status = 200, sr_usage = fst ut, sr_telemetry = snd ut, sr_errText = []\<rparr>
      | ReadError e \<Rightarrow> \<lparr>sr_status = 502, sr_usage = fst ut, sr_telemetry = snd ut, sr_errText = e\<rparr>)"

definition client_gone :: "tokenUsage \<times> requestTelemetry \<Rightarrow> stream_result" where
  "client_gone ut = \<lparr>sr_status = 499, sr_usage = fst ut, sr_telemetry = snd ut, sr_errText = ''client disconnected''\<rparr>"

fun streamResponse ::
  "(gostring \<Rightarrow> gostring) \<Rightarrow> (gostring \<Rightarrow> observed_event option) \<Rightarrow> (gostring \<Rightarrow> gostring) \<Rightarrow> stream_end \<Rightarrow>
     nat option \<Rightarrow> tokenUsage \<times> requestTelemetry \<Rightarrow> (int \<times> gostring) list \<Rightarrow> gostring list \<times> stream_result" where
  "streamResponse lower decode expose ending room ut [] = ([], stream_ended ending ut)"
| "streamResponse lower decode expose ending room ut ((ms, line0) # rest) =
     (if line0 = [] then streamResponse lower decode expose ending room ut rest
      else
        (let line = expose line0;
             ut' = observeSSE lower decode ms line ut
         in if \<not> takes room then ([], client_gone ut')
            else (let (written, r) = streamResponse lower decode expose ending (used_up room) ut' rest
                  in (line # written, r))))"

subsection \<open>Failures\<close>

record upstreamResponseError =
  ue_Status :: int
  ue_Code :: gostring
  ue_Type :: gostring
  ue_Message :: gostring

definition contains :: "gostring \<Rightarrow> gostring \<Rightarrow> bool" where
  "contains s p \<longleftrightarrow> sublist p s"

definition HTTPStatus :: "(gostring \<Rightarrow> gostring) \<Rightarrow> upstreamResponseError \<Rightarrow> int" where
  "HTTPStatus lower e =
     (if ue_Status e \<ge> 400 \<and> ue_Status e \<le> 599 then ue_Status e
      else
        (let classification = lower (TrimSpace (ue_Code e @ '' '' @ ue_Type e))
         in if contains classification ''rate_limit'' \<or> contains classification ''insufficient_quota'' then 429
            else if contains classification ''permission_denied'' then 403
            else if contains classification ''not_found'' then 404
            else if contains classification ''conflict'' then 409
            else if contains classification ''invalid_request'' \<or> contains classification ''invalid_prompt''
              \<or> contains classification ''context_length'' \<or> contains classification ''content_policy'' then 400
            else 502))"

fun firstHTTPStatus :: "int list \<Rightarrow> int" where
  "firstHTTPStatus [] = 0"
| "firstHTTPStatus (val # rest) = (if val \<ge> 400 \<and> val \<le> 599 then val else firstHTTPStatus rest)"

text \<open>The statuses in the order the code reads them, and the texts at the top and in the response.\<close>

record failure_fields =
  ff_statuses :: "int list"
  ff_codes :: "gostring list"
  ff_types :: "gostring list"
  ff_messages :: "gostring list"

definition parseUpstreamResponseError :: "failure_fields \<Rightarrow> upstreamResponseError" where
  "parseUpstreamResponseError f =
     (let message = firstNonEmpty (ff_messages f)
      in \<lparr>ue_Status = firstHTTPStatus (ff_statuses f), ue_Code = firstNonEmpty (ff_codes f),
          ue_Type = firstNonEmpty (ff_types f),
          ue_Message = (if message = [] then ''upstream response failed'' else message)\<rparr>)"

definition responseFailureMessage :: "gostring \<Rightarrow> response_part option \<Rightarrow> gostring" where
  "responseFailureMessage topLevel response =
     (let message = TrimSpace topLevel
      in if message \<noteq> [] then message
         else (case response of
                 None \<Rightarrow> ''upstream response failed''
               | Some r \<Rightarrow>
                   (let nested = TrimSpace (rp_message r)
                    in if nested \<noteq> [] then nested else ''upstream response failed'')))"

subsection \<open>A stream collected into one response\<close>

record collected_event =
  ce_Type :: gostring
  ce_Response :: "response_part option"
  ce_failure :: failure_fields

datatype collect_error =
    UpstreamFailure upstreamResponseError
  | ReadFailed gostring
  | NoCompletedResponse

definition is_completed :: "gostring \<Rightarrow> bool" where
  "is_completed t \<longleftrightarrow> t = ''response.completed'' \<or> t = ''response.incomplete''"

definition is_failed :: "gostring \<Rightarrow> bool" where
  "is_failed t \<longleftrightarrow> t = ''error'' \<or> t = ''response.failed''"

record collecting =
  cl_final :: gostring
  cl_usage :: tokenUsage
  cl_error :: "upstreamResponseError option"

definition collect_event :: "(gostring \<Rightarrow> gostring) \<Rightarrow> collected_event \<Rightarrow> collecting \<Rightarrow> collecting" where
  "collect_event lower e c0 =
     (let c1 = c0\<lparr>cl_usage := parseResponseUsage lower (ce_Response e) (cl_usage c0)\<rparr>;
          c2 = (case ce_Response e of
                  Some r \<Rightarrow> if is_completed (ce_Type e) then c1\<lparr>cl_final := rp_raw r\<rparr> else c1
                | None \<Rightarrow> c1)
      in if is_failed (ce_Type e) then c2\<lparr>cl_error := Some (parseUpstreamResponseError (ce_failure e))\<rparr> else c2)"

definition collect_line ::
  "(gostring \<Rightarrow> gostring) \<Rightarrow> (gostring \<Rightarrow> collected_event option) \<Rightarrow> (gostring \<Rightarrow> gostring) \<Rightarrow> gostring \<Rightarrow> collecting \<Rightarrow> collecting" where
  "collect_line lower decode expose line c =
     (if line = [] then c
      else (let payload = ssePayload (expose line)
            in if \<not> is_data payload then c
               else (case decode payload of None \<Rightarrow> c | Some e \<Rightarrow> collect_event lower e c)))"

definition collectResponse ::
  "(gostring \<Rightarrow> gostring) \<Rightarrow> (gostring \<Rightarrow> collected_event option) \<Rightarrow> (gostring \<Rightarrow> gostring) \<Rightarrow> stream_end \<Rightarrow>
     gostring list \<Rightarrow> (collect_error + gostring) \<times> tokenUsage" where
  "collectResponse lower decode expose ending lines =
     (let c = fold (collect_line lower decode expose) lines \<lparr>cl_final = [], cl_usage = no_usage, cl_error = None\<rparr>
      in case ending of
           ReadError e \<Rightarrow> (Inl (ReadFailed e), cl_usage c)
         | EOF \<Rightarrow>
             (case cl_error c of
                Some e \<Rightarrow> (Inl (UpstreamFailure e), cl_usage c)
              | None \<Rightarrow>
                  if cl_final c = [] then (Inl NoCompletedResponse, cl_usage c)
                  else (Inr (cl_final c), cl_usage c)))"

subsection \<open>Properties\<close>

text \<open>The events of the lines, and what the collected response should be.\<close>

definition collected_events ::
  "(gostring \<Rightarrow> collected_event option) \<Rightarrow> (gostring \<Rightarrow> gostring) \<Rightarrow> gostring list \<Rightarrow> collected_event list" where
  "collected_events decode expose lines =
     List.map_filter decode (filter is_data (map (\<lambda>line. ssePayload (expose line)) (filter (\<lambda>l. l \<noteq> []) lines)))"

definition final_responses :: "collected_event list \<Rightarrow> gostring list" where
  "final_responses es =
     List.map_filter (\<lambda>e. map_option rp_raw (ce_Response e)) (filter (\<lambda>e. is_completed (ce_Type e)) es)"

definition failures :: "collected_event list \<Rightarrow> upstreamResponseError list" where
  "failures es = map (\<lambda>e. parseUpstreamResponseError (ce_failure e)) (filter (\<lambda>e. is_failed (ce_Type e)) es)"

definition last_or :: "'a \<Rightarrow> 'a list \<Rightarrow> 'a" where
  "last_or d xs = (if xs = [] then d else last xs)"

lemma last_or_simps [simp]: "last_or d [] = d" "last_or d (x # xs) = last_or x xs"
  by (simp_all add: last_or_def)

lemma fold_collect:
  "fold (collect_line lower decode expose) lines c =
     fold (collect_event lower) (collected_events decode expose lines) c"
  by (induction lines arbitrary: c)
    (auto simp: collect_line_def collected_events_def List.map_filter_def Let_def split: option.split)

lemma collect_all:
  "fold (collect_event lower) es c =
     \<lparr>cl_final = last_or (cl_final c) (final_responses es),
      cl_usage = fold (\<lambda>e. parseResponseUsage lower (ce_Response e)) es (cl_usage c),
      cl_error = last_or (cl_error c) (map Some (failures es))\<rparr>"
proof (induction es arbitrary: c)
  case Nil
  then show ?case by (simp add: final_responses_def failures_def List.map_filter_def)
next
  case (Cons e es)
  then show ?case
    by (cases "ce_Response e")
      (simp_all add: final_responses_def failures_def List.map_filter_def collect_event_def Let_def)
qed

lemma last_or_map: "last_or None (map Some xs) = (if xs = [] then None else Some (last xs))"
  by (simp add: last_or_def last_map)

text \<open>
  The answer to a request without streaming. Of a stream that ends normally the last completed
  (or incomplete) response is the answer and its bytes are unchanged; if any event reports a
  failure, the last failure is reported instead, also when a completed response came before
  or after it; without either the request fails. A stream that breaks off always fails. Token counts are
  those of the last event that has them.
\<close>

lemma collected_response:
  "let es = collected_events decode expose lines;
       usage = fold (\<lambda>e. parseResponseUsage lower (ce_Response e)) es no_usage
   in collectResponse lower decode expose EOF lines =
        ((if failures es \<noteq> [] then Inl (UpstreamFailure (last (failures es)))
          else if last_or [] (final_responses es) = [] then Inl NoCompletedResponse
          else Inr (last (final_responses es))), usage)
      \<and> collectResponse lower decode expose (ReadError err) lines = (Inl (ReadFailed err), usage)"
  by (simp add: collectResponse_def Let_def fold_collect collect_all last_or_map) (simp add: last_or_def)

text \<open>A failure is always answered with an error status of HTTP.\<close>

lemma first_status_range: "firstHTTPStatus xs = 0 \<or> 400 \<le> firstHTTPStatus xs \<and> firstHTTPStatus xs \<le> 599"
  by (induction xs) auto

lemma failure_status: "400 \<le> HTTPStatus lower e \<and> HTTPStatus lower e \<le> 599"
  by (simp add: HTTPStatus_def Let_def)

lemma failure_message: "TrimSpace (ue_Message (parseUpstreamResponseError f)) \<noteq> []"
proof -
  have "firstNonEmpty xs = [] \<or> TrimSpace (firstNonEmpty xs) \<noteq> []" for xs by (induction xs) auto
  moreover have "TrimSpace ''upstream response failed'' = ''upstream response failed''"
    by (rule TrimSpace_printable; simp add: printable_def)
  ultimately show ?thesis by (auto simp: parseUpstreamResponseError_def Let_def)
qed

text \<open>A stream passed through: the client gets the lines, as they are exposed, from the first on.\<close>

lemma passed_through:
  "\<exists>n. fst (streamResponse lower decode expose ending room ut lines) =
     take n (map (\<lambda>(ms, line). expose line) (filter (\<lambda>(ms, line). line \<noteq> []) lines))"
proof (induction lower decode expose ending room ut lines rule: streamResponse.induct)
  case (1 lower decode expose ending room ut)
  then show ?case by simp
next
  case (2 lower decode expose ending room ut ms line0 rest)
  show ?case
  proof (cases "line0 = [] \<or> \<not> takes room")
    case True
    with 2 show ?thesis by (auto intro: exI [of _ 0])
  next
    case False
    with 2(2) obtain n where "fst (streamResponse lower decode expose ending (used_up room)
        (observeSSE lower decode ms (expose line0) ut) rest) =
        take n (map (\<lambda>(ms, line). expose line) (filter (\<lambda>(ms, line). line \<noteq> []) rest))"
      by blast
    with False show ?thesis
      by (cases "streamResponse lower decode expose ending (used_up room)
            (observeSSE lower decode ms (expose line0) ut) rest")
        (auto simp: Let_def intro: exI [of _ "Suc n"])
  qed
qed

lemma passed_all:
  "streamResponse lower decode expose EOF None ut lines =
     (map (\<lambda>(ms, line). expose line) (filter (\<lambda>(ms, line). line \<noteq> []) lines),
      stream_ended EOF (fold (\<lambda>(ms, line). observeSSE lower decode ms (expose line))
        (filter (\<lambda>(ms, line). line \<noteq> []) lines) ut))"
proof (induction lines arbitrary: ut)
  case (Cons x lines)
  obtain ms line where "x = (ms, line)" by (cases x)
  then show ?case
    using Cons [of ut] Cons [of "observeSSE lower decode ms (expose line) ut"]
    by (simp add: takes_def used_up_def Let_def)
qed simp

end
