(* ===== verification/Credentials.thy ===== *)
theory Credentials
  imports Base64 Database ClientAddress ProxyEvents
begin

text \<open>
  The credential of the Codex account: the cipher under which its tokens are stored (\<^verbatim>\<open>internal/cryptox/cipher.go\<close>),
  what the claims of a token say (\<^verbatim>\<open>internal/codex/auth.go\<close>), and how \<^verbatim>\<open>Manager\<close> stores, reads and refreshes it. AES-GCM,
  the JSON decoder and the parser of times are arguments. Times are in nanoseconds, those of the database in
  milliseconds.
\<close>

subsection \<open>The cipher\<close>

record aead =
  ae_Seal :: "gostring \<Rightarrow> gostring \<Rightarrow> gostring"
  ae_Open :: "gostring \<Rightarrow> gostring \<Rightarrow> gostring option"
  ae_NonceSize :: nat

text \<open>What an AEAD promises: what was sealed under a nonce opens under it.\<close>

definition aead_ok :: "aead \<Rightarrow> bool" where
  "aead_ok ae \<longleftrightarrow> 0 < ae_NonceSize ae \<and> (\<forall>nonce text'. length nonce = ae_NonceSize ae \<longrightarrow> ae_Open ae nonce (ae_Seal ae nonce text') = Some text')"

datatype cipher_error = NonceFailed gostring | BadEncoding | Truncated | NotAuthentic

text \<open>The nonce, or the error of the random source.\<close>

definition Encrypt :: "aead \<Rightarrow> gostring + gostring \<Rightarrow> gostring \<Rightarrow> cipher_error + gostring" where
  "Encrypt ae nonce plaintext =
     (if plaintext = [] then Inr []
      else (case nonce of
              Inl e \<Rightarrow> Inl (NonceFailed e)
            | Inr n \<Rightarrow> Inr (EncodeToString RawURLEncoding (n @ ae_Seal ae n plaintext))))"

definition Decrypt :: "aead \<Rightarrow> gostring \<Rightarrow> cipher_error + gostring" where
  "Decrypt ae encoded =
     (if encoded = [] then Inr []
      else (case DecodeString RawURLEncoding encoded of
              None \<Rightarrow> Inl BadEncoding
            | Some payload \<Rightarrow>
                if length payload < ae_NonceSize ae then Inl Truncated
                else (case ae_Open ae (take (ae_NonceSize ae) payload) (drop (ae_NonceSize ae) payload) of
                        None \<Rightarrow> Inl NotAuthentic
                      | Some plaintext \<Rightarrow> Inr plaintext)))"

subsection \<open>The master key\<close>

fun first_key :: "(gostring \<Rightarrow> gostring option) list \<Rightarrow> gostring \<Rightarrow> gostring option" where
  "first_key [] raw = None"
| "first_key (decode # rest) raw =
     (case decode raw of Some key \<Rightarrow> if length key = 32 then Some key else first_key rest raw | None \<Rightarrow> first_key rest raw)"

datatype key_error = KeyRequired | KeyUnusable | KeyFile gostring | KeyRandom gostring

definition decodeKey :: "gostring \<Rightarrow> key_error + gostring" where
  "decodeKey raw =
     (case first_key [DecodeString RawStdEncoding, DecodeString StdEncoding, DecodeString RawURLEncoding, DecodeString URLEncoding,
         hex_decode] raw of
        Some key \<Rightarrow> Inr key
      | None \<Rightarrow> if length raw = 32 then Inr raw else Inl KeyUnusable)"

text \<open>
  What the file system and the random source do during a start. \<open>created\<close>: the content of a file another process put
  there between the read and the creation.
\<close>

record key_world =
  kw_read_error :: "gostring option"
  kw_random :: "gostring + gostring"
  kw_mkdir_error :: "gostring option"
  kw_created :: "gostring option"
  kw_open_error :: "gostring option"
  kw_write_error :: "gostring option"

text \<open>The key, and the key file afterwards.\<close>

definition loadKey :: "gostring \<Rightarrow> gostring \<Rightarrow> key_world \<Rightarrow> gostring option \<Rightarrow> (key_error + gostring) \<times> gostring option" where
  "loadKey MasterKey StorageDriver w file =
     (if MasterKey \<noteq> [] then (decodeKey MasterKey, file)
      else if StorageDriver \<noteq> ''sqlite'' then (Inl KeyRequired, file)
      else (case (kw_read_error w, file) of
              (Some e, _) \<Rightarrow> (Inl (KeyFile e), file)
            | (None, Some raw) \<Rightarrow> (decodeKey (TrimSpace raw), file)
            | (None, None) \<Rightarrow>
                (case kw_random w of
                   Inl e \<Rightarrow> (Inl (KeyRandom e), file)
                 | Inr key \<Rightarrow>
                     (case kw_mkdir_error w of
                        Some e \<Rightarrow> (Inl (KeyFile e), file)
                      | None \<Rightarrow>
                          (case (kw_created w, kw_open_error w) of
                             (Some raw, _) \<Rightarrow> (decodeKey (TrimSpace raw), Some raw)
                           | (None, Some e) \<Rightarrow> (Inl (KeyFile e), file)
                           | (None, None) \<Rightarrow>
                               (case kw_write_error w of
                                  Some e \<Rightarrow> (Inl (KeyFile e), Some [])
                                | None \<Rightarrow> (Inr key, Some (EncodeToString RawStdEncoding key @ [CHR 0x0A]))))))))"

lemma decrypt_encrypt:
  assumes "aead_ok ae" "Encrypt ae nonce plaintext = Inr encoded" "\<forall>n. nonce = Inr n \<longrightarrow> length n = ae_NonceSize ae"
  shows "Decrypt ae encoded = Inr plaintext"
proof (cases "plaintext = []")
  case True
  with assms(2) show ?thesis by (simp add: Encrypt_def Decrypt_def)
next
  case False
  with assms(2) obtain n where n: "nonce = Inr n" "encoded = EncodeToString RawURLEncoding (n @ ae_Seal ae n plaintext)"
    by (auto simp: Encrypt_def split: sum.splits)
  then have len: "length n = ae_NonceSize ae" using assms(3) by simp
  have decoded: "DecodeString RawURLEncoding encoded = Some (n @ ae_Seal ae n plaintext)"
    unfolding n(2) by (rule decode_encode) (rule alphabets)
  have "encoded \<noteq> []" using n(2) len assms(1) by (auto simp: encode_Nil aead_ok_def)
  with decoded len assms(1) show ?thesis by (simp add: Decrypt_def aead_ok_def)
qed

lemma leading_newline: "leading (map rev space_strings) (CHR 0x0A # s) = 1"
  by (simp add: leading_def space_strings_def space_codes_def upt_conv_Cons char_of_eq_iff)

lemma TrimSpace_line:
  assumes "s \<noteq> []" "printable (hd s)" "printable (last s)"
  shows "TrimSpace (s @ [CHR 0x0A]) = s"
proof -
  have no_space: "\<forall>p \<in> set space_strings. p \<noteq> [] \<longrightarrow> hd p \<noteq> hd s"
    using assms(2) space_strings_ends by (fastforce simp: printable_def space_codes_ends)
  then have "leading space_strings (s @ [CHR 0x0A]) = 0"
    using leading_zero [of space_strings "hd s" "tl s @ [CHR 0x0A]"] no_space assms(1) by (cases s) simp_all
  then have left: "trim_codes space_strings (s @ [CHR 0x0A]) = s @ [CHR 0x0A]" by (subst trim_codes.simps) simp
  have "TrimSpace s = s" by (rule TrimSpace_printable [OF assms])
  moreover have "trim_codes space_strings s = s"
    using leading_zero [of space_strings "hd s" "tl s"] no_space assms(1) by (subst trim_codes.simps) simp
  ultimately have "trim_codes (map rev space_strings) (rev s) = rev s" by (metis TrimSpace_def rev_rev_ident)
  then show ?thesis unfolding TrimSpace_def left
    by (subst trim_codes.simps) (simp add: leading_newline)
qed

text \<open>A start that creates the key file and every later start have the same key.\<close>

lemma key_file_read:
  assumes "length key = 32"
  shows "decodeKey (TrimSpace (EncodeToString RawStdEncoding key @ [CHR 0x0A])) = Inr key"
proof -
  let ?e = "EncodeToString RawStdEncoding key"
  have "without_padding RawStdEncoding = RawStdEncoding" by (simp add: without_padding_def RawStdEncoding_def)
  then have "list_all printable ?e" using encode_printable [OF alphabets(1), of key] by simp
  moreover have "?e \<noteq> []" using assms by (auto simp: encode_Nil)
  ultimately have "TrimSpace (?e @ [CHR 0x0A]) = ?e" by (intro TrimSpace_line) (auto simp: list_all_iff)
  with assms show ?thesis by (simp add: decodeKey_def decode_encode [OF alphabets(1)])
qed

subsection \<open>Tokens\<close>

record tokenSet =
  tk_AccessToken :: gostring
  tk_RefreshToken :: gostring
  tk_IDToken :: gostring
  tk_AccountID :: gostring
  tk_Email :: gostring
  tk_PlanType :: gostring
  tk_ExpiresIn :: int
  tk_ExpiresAt :: int
  tk_Expired :: gostring

record Credential =
  cr_Email :: gostring
  cr_AccountID :: gostring
  cr_PlanType :: gostring
  cr_AccessToken :: gostring
  cr_RefreshToken :: gostring
  cr_IDToken :: gostring
  cr_ExpiresAt :: int
  cr_UpdatedAt :: int

text \<open>\<^verbatim>\<open>json.Unmarshal\<close> into a map, \<^verbatim>\<open>int64\<close> of a number, \<^verbatim>\<open>time.Parse\<close>, and the cipher.\<close>

record auth_lib =
  al_object :: "gostring \<Rightarrow> gobj option"
  al_number :: "gostring \<Rightarrow> int"
  al_time :: "gostring \<Rightarrow> int option"
  al_aead :: aead

datatype auth_error =
    AuthError gostring
  | BrowserOAuthInput gostring
  | AuthStorage db_error
  | QuotaStorage db_error
  | AuthCipher cipher_error

definition parseJWTClaims :: "auth_lib \<Rightarrow> gostring \<Rightarrow> gobj" where
  "parseJWTClaims al token =
     (let parts = split_on (CHR ''.'') token
      in if length parts < 2 then []
         else (case DecodeString RawURLEncoding (parts ! 1) of
                 None \<Rightarrow> []
               | Some raw \<Rightarrow> (case al_object al raw of None \<Rightarrow> [] | Some claims \<Rightarrow> claims)))"

definition nestedMap :: "gobj \<Rightarrow> gostring \<Rightarrow> gobj" where
  "nestedMap vals key = (case index_nil vals key of JObj m \<Rightarrow> m | _ \<Rightarrow> [])"

definition stringValue :: "gobj \<Rightarrow> gostring \<Rightarrow> gostring" where
  "stringValue vals key = (case index_nil vals key of JStr s \<Rightarrow> TrimSpace s | _ \<Rightarrow> [])"

definition numberValue :: "auth_lib \<Rightarrow> gobj \<Rightarrow> gostring \<Rightarrow> int option" where
  "numberValue al vals key = (case index_nil vals key of JNum n \<Rightarrow> Some (al_number al n) | _ \<Rightarrow> None)"

text \<open>\<^verbatim>\<open>firstNonEmpty\<close> of this package trims what it returns.\<close>

fun first_trimmed :: "gostring list \<Rightarrow> gostring" where
  "first_trimmed [] = []"
| "first_trimmed (val # rest) = (if TrimSpace val \<noteq> [] then TrimSpace val else first_trimmed rest)"

text \<open>A product of \<^verbatim>\<open>time.Duration\<close> wraps at 64 bits.\<close>

definition duration :: "int \<Rightarrow> int" where
  "duration n = (n + 2 ^ 63) mod 2 ^ 64 - 2 ^ 63"

definition tokenExpiry :: "auth_lib \<Rightarrow> int \<Rightarrow> tokenSet \<Rightarrow> gobj \<Rightarrow> int" where
  "tokenExpiry al now tokens claims =
     (if tk_ExpiresAt tokens > 0
      then (if tk_ExpiresAt tokens > 10000000000 then tk_ExpiresAt tokens * 1000000 else tk_ExpiresAt tokens * 1000000000)
      else case (if tk_Expired tokens \<noteq> [] then al_time al (tk_Expired tokens) else None) of
             Some t \<Rightarrow> t
           | None \<Rightarrow>
               if tk_ExpiresIn tokens > 0 then now + duration (tk_ExpiresIn tokens * 1000000000)
               else (case numberValue al claims ''exp'' of
                       Some e \<Rightarrow> e * 1000000000
                     | None \<Rightarrow> now + minutes 60))"

definition credentialFromTokens :: "auth_lib \<Rightarrow> int \<Rightarrow> tokenSet \<Rightarrow> auth_error + Credential" where
  "credentialFromTokens al now tokens =
     (let claims = (if parseJWTClaims al (tk_IDToken tokens) = [] then parseJWTClaims al (tk_AccessToken tokens)
                    else parseJWTClaims al (tk_IDToken tokens));
          authClaims = nestedMap claims ''https://api.openai.com/auth'';
          profileClaims = nestedMap claims ''https://api.openai.com/profile'';
          accountID = first_trimmed [tk_AccountID tokens, stringValue authClaims ''chatgpt_account_id'',
            stringValue claims ''chatgpt_account_id'', stringValue claims ''account_id''];
          email = first_trimmed [tk_Email tokens, stringValue claims ''email'', stringValue profileClaims ''email''];
          plan = first_trimmed [tk_PlanType tokens, stringValue authClaims ''chatgpt_plan_type'', stringValue claims ''chatgpt_plan_type'']
      in if tk_AccessToken tokens = [] \<or> accountID = []
         then Inl (AuthError ''Codex token is missing access_token or ChatGPT account ID'')
         else Inr \<lparr>cr_Email = email, cr_AccountID = accountID, cr_PlanType = plan, cr_AccessToken = tk_AccessToken tokens,
                cr_RefreshToken = tk_RefreshToken tokens, cr_IDToken = tk_IDToken tokens,
                cr_ExpiresAt = tokenExpiry al now tokens claims, cr_UpdatedAt = now\<rparr>)"

definition parseImportedTokens :: "tokenSet \<Rightarrow> tokenSet \<Rightarrow> auth_error + tokenSet" where
  "parseImportedTokens topLevel nested =
     (let tokens = (if tk_AccessToken nested = [] then topLevel else nested)
      in if tk_AccessToken tokens = [] then Inl (AuthError ''auth.json does not contain an access_token'')
         else if tk_RefreshToken tokens = [] then Inl (AuthError ''auth.json does not contain a refresh_token'')
         else Inr tokens)"

subsection \<open>The stored credential\<close>

text \<open>The three nonces of \<^verbatim>\<open>saveCredential\<close>, whether the database takes the statement, and its time in milliseconds.\<close>

record save_world =
  sw_nonces :: "(gostring + gostring) \<times> (gostring + gostring) \<times> (gostring + gostring)"
  sw_up :: bool
  sw_now :: int

definition saveCredential :: "auth_lib \<Rightarrow> save_world \<Rightarrow> Credential \<Rightarrow> database \<Rightarrow> auth_error option \<times> database" where
  "saveCredential al w credential db =
     (if cr_AccountID credential = [] \<or> cr_AccessToken credential = []
      then (Some (AuthError ''Codex credential is missing account_id or access_token''), db)
      else
        (case sw_nonces w of
           (n1, n2, n3) \<Rightarrow>
             (case Encrypt (al_aead al) n1 (cr_AccessToken credential) of
                Inl e \<Rightarrow> (Some (AuthCipher e), db)
              | Inr access \<Rightarrow>
                  (case Encrypt (al_aead al) n2 (cr_RefreshToken credential) of
                     Inl e \<Rightarrow> (Some (AuthCipher e), db)
                   | Inr refresh \<Rightarrow>
                       (case Encrypt (al_aead al) n3 (cr_IDToken credential) of
                          Inl e \<Rightarrow> (Some (AuthCipher e), db)
                        | Inr idToken \<Rightarrow>
                            (let (err, db') = SaveAccount (sw_up w)
                                   \<lparr>ac_email = cr_Email credential, ac_account_id = cr_AccountID credential,
                                    ac_plan_type = cr_PlanType credential, ac_access = access, ac_refresh = refresh,
                                    ac_id_token = idToken, ac_expires_at = cr_ExpiresAt credential div 1000000, ac_updated_at = 0\<rparr>
                                   (sw_now w) db
                             in (map_option AuthStorage err, db')))))))"

text \<open>\<^verbatim>\<open>Manager.Credential\<close>.\<close>

definition stored_credential :: "auth_lib \<Rightarrow> bool \<Rightarrow> database \<Rightarrow> auth_error + Credential" where
  "stored_credential al up db =
     (case GetAccount up db of
        Inl e \<Rightarrow> Inl (if IsNotFound e then AuthError ''no Codex account is connected'' else AuthStorage e)
      | Inr account \<Rightarrow>
          (case Decrypt (al_aead al) (ac_access account) of
             Inl e \<Rightarrow> Inl (AuthCipher e)
           | Inr access \<Rightarrow>
               (case Decrypt (al_aead al) (ac_refresh account) of
                  Inl e \<Rightarrow> Inl (AuthCipher e)
                | Inr refresh \<Rightarrow>
                    (case Decrypt (al_aead al) (ac_id_token account) of
                       Inl e \<Rightarrow> Inl (AuthCipher e)
                     | Inr idToken \<Rightarrow>
                         Inr \<lparr>cr_Email = ac_email account, cr_AccountID = ac_account_id account, cr_PlanType = ac_plan_type account,
                              cr_AccessToken = access, cr_RefreshToken = refresh, cr_IDToken = idToken,
                              cr_ExpiresAt = ac_expires_at account * 1000000, cr_UpdatedAt = ac_updated_at account * 1000000\<rparr>))))"

subsection \<open>Refreshing\<close>

text \<open>
  The unlocked part of \<^verbatim>\<open>FreshCredential\<close> only reads; the rest runs under the lock that every change of the account takes,
  so it is one step. Each of the two parts sees the database of its time.
\<close>

record refresh_world =
  fw_up :: bool
  fw_now :: int
  fw_tokens :: "auth_error + tokenSet"
  fw_answered :: int
  fw_save :: save_world

definition usable :: "int \<Rightarrow> Credential \<Rightarrow> bool" where
  "usable now credential \<longleftrightarrow> cr_ExpiresAt credential > now + minutes 2"

text \<open>What the answer leaves out is kept from the old credential.\<close>

definition completed :: "Credential \<Rightarrow> tokenSet \<Rightarrow> tokenSet" where
  "completed credential tokens =
     tokens\<lparr>tk_RefreshToken := if tk_RefreshToken tokens = [] then cr_RefreshToken credential else tk_RefreshToken tokens,
       tk_IDToken := if tk_IDToken tokens = [] then cr_IDToken credential else tk_IDToken tokens,
       tk_AccountID := if tk_AccountID tokens = [] then cr_AccountID credential else tk_AccountID tokens,
       tk_Email := if tk_Email tokens = [] then cr_Email credential else tk_Email tokens,
       tk_PlanType := if tk_PlanType tokens = [] then cr_PlanType credential else tk_PlanType tokens\<rparr>"

text \<open>The result, the database and the refresh tokens that were sent.\<close>

definition refresh_locked ::
  "auth_lib \<Rightarrow> refresh_world \<Rightarrow> database \<Rightarrow> (auth_error + Credential) \<times> database \<times> gostring list" where
  "refresh_locked al w db =
     (case stored_credential al (fw_up w) db of
        Inl e \<Rightarrow> (Inl e, db, [])
      | Inr credential \<Rightarrow>
          if usable (fw_now w) credential then (Inr credential, db, [])
          else if cr_RefreshToken credential = [] then (Inl (AuthError ''Codex refresh token is missing; sign in again''), db, [])
          else (case fw_tokens w of
                  Inl e \<Rightarrow> (Inl e, db, [cr_RefreshToken credential])
                | Inr tokens \<Rightarrow>
                    (case credentialFromTokens al (fw_answered w) (completed credential tokens) of
                       Inl e \<Rightarrow> (Inl e, db, [cr_RefreshToken credential])
                     | Inr refreshed \<Rightarrow>
                         (case saveCredential al (fw_save w) refreshed db of
                            (Some e, db') \<Rightarrow> (Inl e, db', [cr_RefreshToken credential])
                          | (None, db') \<Rightarrow> (Inr refreshed, db', [cr_RefreshToken credential])))))"

definition FreshCredential ::
  "auth_lib \<Rightarrow> bool \<Rightarrow> int \<Rightarrow> database \<Rightarrow> refresh_world \<Rightarrow> database \<Rightarrow> (auth_error + Credential) \<times> database \<times> gostring list" where
  "FreshCredential al up now db_read w db =
     (case stored_credential al up db_read of
        Inl e \<Rightarrow> (Inl e, db, [])
      | Inr credential \<Rightarrow> if usable now credential then (Inr credential, db, []) else refresh_locked al w db)"

subsection \<open>Properties\<close>

definition nonces_ok :: "auth_lib \<Rightarrow> save_world \<Rightarrow> bool" where
  "nonces_ok al w \<longleftrightarrow> (case sw_nonces w of (n1, n2, n3) \<Rightarrow>
     list_all (\<lambda>n. case n of Inl e \<Rightarrow> True | Inr x \<Rightarrow> length x = ae_NonceSize (al_aead al)) [n1, n2, n3])"

definition in_milliseconds :: "int \<Rightarrow> int" where
  "in_milliseconds t = t div 1000000 * 1000000"

lemma saved_read:
  assumes "aead_ok (al_aead al)" "nonces_ok al w" "saveCredential al w credential db = (None, db')"
  shows "stored_credential al True db' = Inr (credential\<lparr>cr_ExpiresAt := in_milliseconds (cr_ExpiresAt credential),
    cr_UpdatedAt := sw_now w * 1000000\<rparr>)"
proof -
  obtain n1 n2 n3 where n: "sw_nonces w = (n1, n2, n3)" by (cases "sw_nonces w") auto
  from assms(3) obtain access refresh idToken where enc: "Encrypt (al_aead al) n1 (cr_AccessToken credential) = Inr access"
    "Encrypt (al_aead al) n2 (cr_RefreshToken credential) = Inr refresh" "Encrypt (al_aead al) n3 (cr_IDToken credential) = Inr idToken"
    and acc: "db_account db' = Some \<lparr>ac_email = cr_Email credential, ac_account_id = cr_AccountID credential,
      ac_plan_type = cr_PlanType credential, ac_access = access, ac_refresh = refresh, ac_id_token = idToken,
      ac_expires_at = cr_ExpiresAt credential div 1000000, ac_updated_at = sw_now w\<rparr>"
    by (auto simp: saveCredential_def n SaveAccount_def Let_def split: if_splits sum.splits)
  have "\<forall>x. m = Inr x \<longrightarrow> length x = ae_NonceSize (al_aead al)" if "m \<in> {n1, n2, n3}" for m
    using assms(2) n that by (auto simp: nonces_ok_def split: sum.splits)
  with enc assms(1) have "Decrypt (al_aead al) access = Inr (cr_AccessToken credential)"
    "Decrypt (al_aead al) refresh = Inr (cr_RefreshToken credential)" "Decrypt (al_aead al) idToken = Inr (cr_IDToken credential)"
    by (auto intro!: decrypt_encrypt)
  with acc show ?thesis by (simp add: stored_credential_def GetAccount_def in_milliseconds_def)
qed

lemma first_key_length: "first_key ds raw = Some key \<Longrightarrow> length key = 32"
  by (induction ds) (auto split: option.splits if_splits)

lemma decodeKey_length: "decodeKey raw = Inr key \<Longrightarrow> length key = 32"
  using first_key_length by (auto simp: decodeKey_def split: option.splits if_splits)

lemma key_again:
  assumes "loadKey [] ''sqlite'' w before = (Inr key, file)" "\<forall>r. kw_random w = Inr r \<longrightarrow> length r = 32" "kw_read_error w' = None"
  shows "loadKey [] ''sqlite'' w' file = (Inr key, file) \<and> length key = 32"
proof -
  from assms(1) consider raw where "file = Some raw" "decodeKey (TrimSpace raw) = Inr key"
    | "file = Some (EncodeToString RawStdEncoding key @ [CHR 0x0A])" "kw_random w = Inr key"
    by (auto simp: loadKey_def split: option.splits sum.splits; metis)
  then show ?thesis
  proof cases
    case 1
    with assms(3) decodeKey_length show ?thesis by (simp add: loadKey_def)
  next
    case 2
    with assms(2,3) key_file_read [of key] show ?thesis by (simp add: loadKey_def)
  qed
qed

text \<open>C32.
  A restart loses no credential: with the key file that one start created or read, every later start that can read it has
  the same key, and the credential stored before is read back with the same tokens, account and expiry, in milliseconds.
  The hypotheses on the cipher are what AES-GCM promises for every key of 32 bytes.
\<close>

theorem credential_survives_restart:
  assumes "\<forall>k. length k = 32 \<longrightarrow> aead_ok (gcm k)"
    and "loadKey [] ''sqlite'' w before = (Inr key, file)" "\<forall>r. kw_random w = Inr r \<longrightarrow> length r = 32"
    and "nonces_ok (al\<lparr>al_aead := gcm key\<rparr>) sw" "saveCredential (al\<lparr>al_aead := gcm key\<rparr>) sw credential db = (None, db')"
    and "kw_read_error w' = None"
  shows "\<exists>key'. loadKey [] ''sqlite'' w' file = (Inr key', file) \<and> stored_credential (al\<lparr>al_aead := gcm key'\<rparr>) True db' =
    Inr (credential\<lparr>cr_ExpiresAt := in_milliseconds (cr_ExpiresAt credential), cr_UpdatedAt := sw_now sw * 1000000\<rparr>)"
proof -
  from key_again [OF assms(2,3,6)] have key: "loadKey [] ''sqlite'' w' file = (Inr key, file)" "length key = 32" by auto
  with assms(1) have "aead_ok (al_aead (al\<lparr>al_aead := gcm key\<rparr>))" by simp
  from saved_read [OF this assms(4,5)] key(1) show ?thesis by blast
qed

subsubsection \<open>One refresh for all callers\<close>

text \<open>The callers that found the credential too old, in the order they get the lock.\<close>

fun refresh_all :: "auth_lib \<Rightarrow> refresh_world list \<Rightarrow> database \<Rightarrow> (auth_error + Credential) list \<times> database \<times> gostring list" where
  "refresh_all al [] db = ([], db, [])"
| "refresh_all al (w # ws) db =
     (let (r, db1, sent) = refresh_locked al w db; (rs, db2, sent') = refresh_all al ws db1 in (r # rs, db2, sent @ sent'))"

text \<open>The refresh of this caller would succeed and last beyond a time.\<close>

definition lasting :: "auth_lib \<Rightarrow> int \<Rightarrow> refresh_world \<Rightarrow> bool" where
  "lasting al until w \<longleftrightarrow> fw_up w \<and> fw_now w \<le> until \<and> sw_up (fw_save w) \<and> nonces_ok al (fw_save w)
     \<and> (case sw_nonces (fw_save w) of (n1, n2, n3) \<Rightarrow> list_all (\<lambda>n. case n of Inl e \<Rightarrow> False | Inr x \<Rightarrow> True) [n1, n2, n3])
     \<and> (case fw_tokens w of
          Inl e \<Rightarrow> False
        | Inr tokens \<Rightarrow> tk_AccessToken tokens \<noteq> [] \<and> (tk_AccountID tokens = [] \<or> TrimSpace (tk_AccountID tokens) \<noteq> [])
            \<and> (\<forall>claims. tokenExpiry al (fw_answered w) tokens claims \<ge> until + minutes 2 + 1000000))"

lemma in_milliseconds_less: "t \<ge> n + 1000000 \<Longrightarrow> in_milliseconds t > n"
  by (simp add: in_milliseconds_def)

lemma completed_simps [simp]:
  "tk_AccessToken (completed c t) = tk_AccessToken t" "tk_ExpiresIn (completed c t) = tk_ExpiresIn t"
  "tk_ExpiresAt (completed c t) = tk_ExpiresAt t" "tk_Expired (completed c t) = tk_Expired t"
  "tk_AccountID (completed c t) = (if tk_AccountID t = [] then cr_AccountID c else tk_AccountID t)"
  "tk_RefreshToken (completed c t) = (if tk_RefreshToken t = [] then cr_RefreshToken c else tk_RefreshToken t)"
  by (simp_all add: completed_def)

lemma completed_expiry: "tokenExpiry al now (completed c t) claims = tokenExpiry al now t claims"
  by (simp only: tokenExpiry_def completed_simps)

lemma credential_with_account:
  assumes "tk_AccessToken t \<noteq> []" "TrimSpace (tk_AccountID t) \<noteq> []"
  shows "\<exists>email plan claims. credentialFromTokens al now t = Inr \<lparr>cr_Email = email, cr_AccountID = TrimSpace (tk_AccountID t),
    cr_PlanType = plan, cr_AccessToken = tk_AccessToken t, cr_RefreshToken = tk_RefreshToken t, cr_IDToken = tk_IDToken t,
    cr_ExpiresAt = tokenExpiry al now t claims, cr_UpdatedAt = now\<rparr>"
  using assms by (simp only: credentialFromTokens_def Let_def first_trimmed.simps if_True if_False simp_thms) blast

lemma refreshed_credential:
  assumes "lasting al until w" "fw_tokens w = Inr tokens" "TrimSpace (cr_AccountID credential) \<noteq> []" "cr_RefreshToken credential \<noteq> []"
  obtains r where "credentialFromTokens al (fw_answered w) (completed credential tokens) = Inr r"
    "cr_ExpiresAt r \<ge> until + minutes 2 + 1000000" "TrimSpace (cr_AccountID r) \<noteq> []" "cr_RefreshToken r \<noteq> []" "cr_AccessToken r \<noteq> []"
proof -
  let ?t = "completed credential tokens"
  have "tk_AccessToken ?t \<noteq> []" "TrimSpace (tk_AccountID ?t) \<noteq> []"
    and expiry: "\<forall>claims. tokenExpiry al (fw_answered w) ?t claims \<ge> until + minutes 2 + 1000000"
    using assms(1-3) by (auto simp: lasting_def completed_expiry)
  from credential_with_account [OF this(1,2), of al "fw_answered w"] obtain email plan claims where
    "credentialFromTokens al (fw_answered w) ?t = Inr \<lparr>cr_Email = email, cr_AccountID = TrimSpace (tk_AccountID ?t),
      cr_PlanType = plan, cr_AccessToken = tk_AccessToken ?t, cr_RefreshToken = tk_RefreshToken ?t, cr_IDToken = tk_IDToken ?t,
      cr_ExpiresAt = tokenExpiry al (fw_answered w) ?t claims, cr_UpdatedAt = fw_answered w\<rparr>" by blast
  moreover have "TrimSpace (TrimSpace (tk_AccountID ?t)) \<noteq> []" unfolding TrimSpace_idem by fact
  moreover have "tk_RefreshToken ?t \<noteq> []" using assms(4) by simp
  ultimately show thesis using that expiry \<open>tk_AccessToken ?t \<noteq> []\<close> by fastforce
qed

lemma saves: 
  assumes "sw_up w" "case sw_nonces w of (n1, n2, n3) \<Rightarrow> list_all (\<lambda>n. case n of Inl e \<Rightarrow> False | Inr x \<Rightarrow> True) [n1, n2, n3]"
    and "cr_AccountID c \<noteq> []" "cr_AccessToken c \<noteq> []"
  shows "\<exists>db'. saveCredential al w c db = (None, db')"
  using assms by (auto simp: saveCredential_def Encrypt_def SaveAccount_def Let_def split: sum.splits)

lemma kept_credential:
  assumes "stored_credential al True db = Inr c" "usable until c" "list_all (lasting al until) ws"
  shows "\<exists>rs. refresh_all al ws db = (rs, db, []) \<and> list_all (\<lambda>r. r = Inr c) rs"
  using assms(3)
proof (induction ws)
  case (Cons w ws)
  then have "fw_up w" "fw_now w \<le> until" by (auto simp: lasting_def)
  with assms(1,2) have "refresh_locked al w db = (Inr c, db, [])" by (simp add: refresh_locked_def usable_def)
  with Cons show ?case by auto
qed simp

text \<open>C31.
  The callers that meet an expired credential at the same time cause one refresh: of any number of them, waiting for the
  lock in any order, at most one sends the refresh token, and each gets a credential. (An OAuth refresh token can be used
  only once.) It is assumed that each refresh, if it came to it, would succeed and outlast the last caller.
\<close>

theorem refresh_single_flight:
  assumes "aead_ok (al_aead al)" "stored_credential al True db = Inr c" "TrimSpace (cr_AccountID c) \<noteq> []" "cr_RefreshToken c \<noteq> []"
    and "list_all (lasting al until) ws" "refresh_all al ws db = (rs, db', sent)"
  shows "length sent \<le> 1 \<and> list_all (\<lambda>r. \<exists>c'. r = Inr c') rs"
  using assms(5,6)
proof (induction ws arbitrary: rs sent)
  case (Cons w ws)
  obtain tokens where w: "lasting al until w" "fw_tokens w = Inr tokens" "fw_up w" "nonces_ok al (fw_save w)" "sw_up (fw_save w)"
    and nonces: "case sw_nonces (fw_save w) of (n1, n2, n3) \<Rightarrow> list_all (\<lambda>n. case n of Inl e \<Rightarrow> False | Inr x \<Rightarrow> True) [n1, n2, n3]"
    using Cons.prems(1) by (auto simp: lasting_def split: sum.splits)
  show ?case
  proof (cases "usable (fw_now w) c")
    case True
    then have "refresh_locked al w db = (Inr c, db, [])" using assms(2) w(3) by (simp add: refresh_locked_def)
    with Cons show ?thesis by (auto split: prod.splits)
  next
    case False
    obtain r where r: "credentialFromTokens al (fw_answered w) (completed c tokens) = Inr r"
      "cr_ExpiresAt r \<ge> until + minutes 2 + 1000000" "TrimSpace (cr_AccountID r) \<noteq> []" "cr_AccessToken r \<noteq> []"
      using refreshed_credential [OF w(1,2) assms(3,4)] by metis
    then have "cr_AccountID r \<noteq> []" by auto
    with saves [OF w(5) nonces _ r(4)] obtain db1 where saved: "saveCredential al (fw_save w) r db = (None, db1)" by blast
    from saved_read [OF assms(1) w(4) this] obtain c1 where c1: "stored_credential al True db1 = Inr c1"
      "cr_ExpiresAt c1 = in_milliseconds (cr_ExpiresAt r)" by simp
    have "usable until c1" using in_milliseconds_less [OF r(2)] c1(2) by (simp add: usable_def)
    from kept_credential [OF c1(1) this, of ws] Cons.prems(1) obtain rs' where
      "refresh_all al ws db1 = (rs', db1, [])" "list_all (\<lambda>r. r = Inr c1) rs'" by auto
    moreover have "refresh_locked al w db = (Inr r, db1, [cr_RefreshToken c])"
      using assms(2,4) w(2,3) False r(1) saved by (simp add: refresh_locked_def)
    ultimately show ?thesis using Cons.prems(2) by (auto simp: list_all_iff)
  qed
qed simp

subsection \<open>An instance\<close>

definition sample_aead :: aead where
  "sample_aead = \<lparr>ae_Seal = (\<lambda>n t. rev t), ae_Open = (\<lambda>n t. Some (rev t)), ae_NonceSize = 1\<rparr>"

definition sample_auth :: auth_lib where
  "sample_auth = \<lparr>al_object = (\<lambda>t. None), al_number = (\<lambda>t. 0), al_time = (\<lambda>t. None), al_aead = sample_aead\<rparr>"

definition sample_save :: save_world where
  "sample_save = \<lparr>sw_nonces = (Inr ''n'', Inr ''n'', Inr ''n''), sw_up = True, sw_now = 1\<rparr>"

definition stale_credential :: Credential where
  "stale_credential = \<lparr>cr_Email = [], cr_AccountID = ''acct'', cr_PlanType = ''plus'', cr_AccessToken = ''old'', cr_RefreshToken = ''r1'',
     cr_IDToken = [], cr_ExpiresAt = 0, cr_UpdatedAt = 0\<rparr>"

definition sample_refresh :: refresh_world where
  "sample_refresh = \<lparr>fw_up = True, fw_now = 0, fw_tokens = Inr \<lparr>tk_AccessToken = ''new'', tk_RefreshToken = ''r2'', tk_IDToken = [],
     tk_AccountID = [], tk_Email = [], tk_PlanType = [], tk_ExpiresIn = 3600, tk_ExpiresAt = 0, tk_Expired = []\<rparr>,
     fw_answered = 0, fw_save = sample_save\<rparr>"

definition first_start :: key_world where
  "first_start = \<lparr>kw_read_error = None, kw_random = Inr (replicate 32 (CHR ''k'')), kw_mkdir_error = None, kw_created = None,
     kw_open_error = None, kw_write_error = None\<rparr>"

lemma sample_aead_ok: "aead_ok sample_aead"
  by (simp add: aead_ok_def sample_aead_def)

lemma sample_nonces: "nonces_ok (sample_auth\<lparr>al_aead := sample_aead\<rparr>) sample_save" "nonces_ok sample_auth sample_save"
  by (simp_all add: nonces_ok_def sample_auth_def sample_save_def sample_aead_def)

lemma sample_saved: "\<exists>db. saveCredential al sample_save stale_credential empty_database = (None, db)"
  by (rule saves) (simp_all add: sample_save_def stale_credential_def)

lemma first_key_file:
  "loadKey [] ''sqlite'' first_start None =
     (Inr (replicate 32 (CHR ''k'')), Some (EncodeToString RawStdEncoding (replicate 32 (CHR ''k'')) @ [CHR 0x0A]))"
  by (simp add: loadKey_def first_start_def)

theorem credential_survives_restart_witness:
  "\<exists>file db. snd (loadKey [] ''sqlite'' first_start None) = file
     \<and> saveCredential (sample_auth\<lparr>al_aead := sample_aead\<rparr>) sample_save stale_credential empty_database = (None, db)
     \<and> (\<exists>key. loadKey [] ''sqlite'' first_start file = (Inr key, file)
         \<and> stored_credential (sample_auth\<lparr>al_aead := sample_aead\<rparr>) True db = Inr (stale_credential\<lparr>cr_ExpiresAt := 0, cr_UpdatedAt := 1000000\<rparr>))"
proof -
  obtain db where db: "saveCredential (sample_auth\<lparr>al_aead := sample_aead\<rparr>) sample_save stale_credential empty_database = (None, db)"
    using sample_saved by blast
  have "\<forall>k :: gostring. length k = 32 \<longrightarrow> aead_ok ((\<lambda>k. sample_aead) k)" by (simp add: sample_aead_ok)
  moreover have "\<forall>r. kw_random first_start = Inr r \<longrightarrow> length r = 32" "kw_read_error first_start = None"
    by (simp_all add: first_start_def)
  ultimately show ?thesis
    using credential_survives_restart [of "\<lambda>k. sample_aead", OF _ first_key_file _ sample_nonces(1) db] db first_key_file
    by (simp add: in_milliseconds_def stale_credential_def sample_save_def)
qed

theorem refresh_single_flight_witness:
  "\<exists>db rs db' sent. stored_credential sample_auth True db = Inr (stale_credential\<lparr>cr_ExpiresAt := 0, cr_UpdatedAt := 1000000\<rparr>)
     \<and> refresh_all sample_auth [sample_refresh, sample_refresh] db = (rs, db', sent) \<and> length sent \<le> 1
     \<and> list_all (\<lambda>r. \<exists>c'. r = Inr c') rs"
proof -
  let ?c = "stale_credential\<lparr>cr_ExpiresAt := 0, cr_UpdatedAt := 1000000\<rparr>"
  obtain db where db: "saveCredential sample_auth sample_save stale_credential empty_database = (None, db)"
    using sample_saved by blast
  have ok: "aead_ok (al_aead sample_auth)" by (simp add: sample_auth_def sample_aead_ok)
  from saved_read [OF ok sample_nonces(2) db]
  have stored: "stored_credential sample_auth True db = Inr ?c"
    by (simp add: in_milliseconds_def stale_credential_def sample_save_def)
  have "TrimSpace ''acct'' = ''acct''" by (rule TrimSpace_printable) (simp_all add: printable_def)
  then have c: "TrimSpace (cr_AccountID ?c) \<noteq> []" "cr_RefreshToken ?c \<noteq> []" by (simp_all add: stale_credential_def)
  have "lasting sample_auth 0 sample_refresh"
    using sample_nonces(2) by (simp add: lasting_def sample_refresh_def sample_save_def tokenExpiry_def duration_def)
  then have lasting: "list_all (lasting sample_auth 0) [sample_refresh, sample_refresh]" by simp
  obtain rs db' sent where run: "refresh_all sample_auth [sample_refresh, sample_refresh] db = (rs, db', sent)"
    by (metis prod_cases3)
  from refresh_single_flight [OF ok stored c lasting run] stored run show ?thesis by blast
qed

end
