(* ===== verification/SessionStore.thy ===== *)
theory SessionStore
  imports GoRuntime "HOL-Library.AList"
begin

text \<open>
  \<^verbatim>\<open>internal/session/store.go\<close>: the session store kept in memory. The map is an association
  list with distinct keys, so that the sweep can walk over it; every locked section is one
  operation. The locale \<open>session_store\<close> is the contract of the \<^verbatim>\<open>Store\<close> interface that the
  admin handlers rely on.
\<close>

subsection \<open>State\<close>

record memoryItem =
  mi_value :: gostring
  mi_expiresAt :: int

record memoryStore =
  ms_items :: "(gostring \<times> memoryItem) list"
  ms_capacity :: int
  ms_nextExpiry :: "int option"

datatype put_error = ErrCapacity

definition defaultMemoryStoreCapacity :: int where
  "defaultMemoryStoreCapacity = 4096"

definition newMemoryStore :: "int \<Rightarrow> memoryStore" where
  "newMemoryStore capacity =
     \<lparr>ms_items = [],
      ms_capacity = (if capacity \<le> 0 then defaultMemoryStoreCapacity else capacity),
      ms_nextExpiry = None\<rparr>"

subsection \<open>Operations\<close>

text \<open>
  The loop of \<^verbatim>\<open>removeExpiredLocked\<close>: the entries still to visit, the map with deletions,
  and the earliest expiry of the entries that stay.
\<close>

fun sweep :: "int \<Rightarrow> (gostring \<times> memoryItem) list \<Rightarrow> (gostring \<times> memoryItem) list \<Rightarrow> int option \<Rightarrow>
    (gostring \<times> memoryItem) list \<times> int option" where
  "sweep now [] items next_expiry = (items, next_expiry)"
| "sweep now ((key, item) # rest) items next_expiry =
     (if \<not> mi_expiresAt item > now then sweep now rest (AList.delete key items) next_expiry
      else sweep now rest items
        (if (case next_expiry of None \<Rightarrow> True | Some t \<Rightarrow> mi_expiresAt item < t)
         then Some (mi_expiresAt item) else next_expiry))"

definition removeExpiredLocked :: "int \<Rightarrow> memoryStore \<Rightarrow> memoryStore" where
  "removeExpiredLocked now s =
     (if length (ms_items s) = 0 then s\<lparr>ms_nextExpiry := None\<rparr>
      else if (case ms_nextExpiry s of None \<Rightarrow> False | Some t \<Rightarrow> t > now) then s
      else
        (let (items, next_expiry) = sweep now (ms_items s) (ms_items s) None
         in s\<lparr>ms_items := items, ms_nextExpiry := next_expiry\<rparr>))"

definition Put :: "int \<Rightarrow> gostring \<Rightarrow> gostring \<Rightarrow> int \<Rightarrow> memoryStore \<Rightarrow> put_error option \<times> memoryStore" where
  "Put now key val ttl s0 =
     (let expiresAt = now + ttl;
          s = removeExpiredLocked now s0;
          capacity = (if ms_capacity s \<le> 0 then defaultMemoryStoreCapacity else ms_capacity s)
      in if map_of (ms_items s) key = None \<and> int (length (ms_items s)) \<ge> capacity
         then (Some ErrCapacity, s)
         else
           (None,
            s\<lparr>ms_items := AList.update key \<lparr>mi_value = val, mi_expiresAt = expiresAt\<rparr> (ms_items s),
              ms_nextExpiry :=
                (if (case ms_nextExpiry s of None \<Rightarrow> True | Some t \<Rightarrow> expiresAt < t)
                 then Some expiresAt else ms_nextExpiry s)\<rparr>))"

text \<open>
  \<^verbatim>\<open>Get\<close> reads under the read lock and removes an expired entry under the write lock, with
  whatever other goroutines do in between.
\<close>

definition Get_read :: "gostring \<Rightarrow> memoryStore \<Rightarrow> memoryItem option" where
  "Get_read key s = map_of (ms_items s) key"

definition clear_next_expiry :: "int \<Rightarrow> memoryStore \<Rightarrow> memoryStore" where
  "clear_next_expiry expiry s =
     (if ms_nextExpiry s = Some expiry then s\<lparr>ms_nextExpiry := None\<rparr> else s)"

definition Get_rest :: "int \<Rightarrow> gostring \<Rightarrow> memoryItem option \<Rightarrow> memoryStore \<Rightarrow> gostring option \<times> memoryStore" where
  "Get_rest now key found s =
     (case found of
        None \<Rightarrow> (None, s)
      | Some item \<Rightarrow>
          if \<not> mi_expiresAt item > now
          then (None,
                case map_of (ms_items s) key of
                  None \<Rightarrow> s
                | Some current \<Rightarrow>
                    if \<not> mi_expiresAt current > now
                    then clear_next_expiry (mi_expiresAt current)
                           (s\<lparr>ms_items := AList.delete key (ms_items s)\<rparr>)
                    else s)
          else (Some (mi_value item), s))"

definition Get :: "int \<Rightarrow> gostring \<Rightarrow> memoryStore \<Rightarrow> gostring option \<times> memoryStore" where
  "Get now key s = Get_rest now key (Get_read key s) s"

definition Delete :: "gostring \<Rightarrow> memoryStore \<Rightarrow> memoryStore" where
  "Delete key s =
     (let item = map_of (ms_items s) key;
          s1 = s\<lparr>ms_items := AList.delete key (ms_items s)\<rparr>
      in case item of None \<Rightarrow> s1 | Some i \<Rightarrow> clear_next_expiry (mi_expiresAt i) s1)"

subsection \<open>What a store holds\<close>

text \<open>The entries that are not expired at a time, as a map; the contract speaks of nothing else.\<close>

definition alive :: "int \<Rightarrow> gostring \<times> memoryItem \<Rightarrow> bool" where
  "alive now e \<longleftrightarrow> mi_expiresAt (snd e) > now"

definition live :: "int \<Rightarrow> memoryStore \<Rightarrow> gostring \<Rightarrow> gostring option" where
  "live now s key =
     (case map_of (ms_items s) key of None \<Rightarrow> None
      | Some i \<Rightarrow> if mi_expiresAt i > now then Some (mi_value i) else None)"

text \<open>
  The invariant: one entry per key, never more than the capacity, and \<open>nextExpiry\<close>, where it
  is set, no later than any entry's expiry, which is what lets a sweep be skipped.
\<close>

definition next_ok :: "int option \<Rightarrow> (gostring \<times> memoryItem) list \<Rightarrow> bool" where
  "next_ok nx items \<longleftrightarrow> (case nx of None \<Rightarrow> True | Some t \<Rightarrow> \<forall>e \<in> set items. t \<le> mi_expiresAt (snd e))"

definition effective_capacity :: "memoryStore \<Rightarrow> int" where
  "effective_capacity s = (if ms_capacity s \<le> 0 then defaultMemoryStoreCapacity else ms_capacity s)"

definition ms_inv :: "memoryStore \<Rightarrow> bool" where
  "ms_inv s \<longleftrightarrow> distinct (map fst (ms_items s)) \<and> int (length (ms_items s)) \<le> effective_capacity s \<and>
     next_ok (ms_nextExpiry s) (ms_items s)"

subsection \<open>The sweep\<close>

lemma delete_filter: "AList.delete k xs = filter (\<lambda>e. fst e \<noteq> k) xs"
  by (induction xs) auto

lemma sweep_items:
  "fst (sweep now rest items nx) = filter (\<lambda>e. \<forall>r \<in> set rest. fst r = fst e \<longrightarrow> alive now r) items"
  by (induction now rest items nx rule: sweep.induct)
    (auto simp: delete_filter alive_def intro!: filter_cong)

lemma sweep_all:
  assumes "distinct (map fst items)"
  shows "fst (sweep now items items nx) = filter (alive now) items"
  unfolding sweep_items
proof (rule filter_cong)
  fix e assume "e \<in> set items"
  then show "(\<forall>r \<in> set items. fst r = fst e \<longrightarrow> alive now r) = alive now e"
    using assms by (auto simp: distinct_map dest: inj_onD)
qed simp

lemma sweep_next:
  "snd (sweep now rest items nx) = nx \<or> (\<exists>r \<in> set rest. snd (sweep now rest items nx) = Some (mi_expiresAt (snd r)))"
  by (induction now rest items nx rule: sweep.induct) auto

lemma sweep_next_le:
  "(case nx of None \<Rightarrow> True | Some t \<Rightarrow> \<exists>m. snd (sweep now rest items nx) = Some m \<and> m \<le> t) \<and>
   (\<forall>r \<in> set rest. alive now r \<longrightarrow> (\<exists>m. snd (sweep now rest items nx) = Some m \<and> m \<le> mi_expiresAt (snd r)))"
proof (induction now rest items nx rule: sweep.induct)
  case (1 now items nx)
  then show ?case by (simp split: option.split)
next
  case (2 now key item rest items nx)
  show ?case
  proof (cases "mi_expiresAt item > now")
    case False
    with 2(1) show ?thesis by (cases nx) (simp_all add: alive_def)
  next
    case True
    with 2(2) show ?thesis by (cases nx) (fastforce simp: alive_def split: if_splits)+
  qed
qed

lemma sweep_next_ok:
  "distinct (map fst items) \<Longrightarrow>
     next_ok (snd (sweep now items items None)) (filter (alive now) items)"
  using sweep_next_le [where nx = None and now = now and rest = items and items = items]
  by (auto simp: next_ok_def split: option.split)

subsection \<open>The operations on the live entries\<close>

lemma map_of_filter_key:
  "distinct (map fst xs) \<Longrightarrow>
     map_of (filter p xs) k = (case map_of xs k of None \<Rightarrow> None | Some v \<Rightarrow> if p (k, v) then Some v else None)"
  by (induction xs) (auto simp: map_of_eq_None_iff split: option.split dest: map_of_SomeD)

lemma removed_items:
  assumes "ms_inv s"
  shows "ms_items (removeExpiredLocked now s) = filter (alive now) (ms_items s)"
proof (cases "case ms_nextExpiry s of None \<Rightarrow> False | Some t \<Rightarrow> t > now")
  case True
  then obtain t where t: "ms_nextExpiry s = Some t" "t > now" by (auto split: option.splits)
  with assms have "\<forall>e \<in> set (ms_items s). alive now e"
    by (auto simp: ms_inv_def next_ok_def alive_def)
  then have "filter (alive now) (ms_items s) = ms_items s" by (simp add: filter_id_conv)
  with t show ?thesis by (simp add: removeExpiredLocked_def)
next
  case False
  with assms show ?thesis
    by (auto simp: removeExpiredLocked_def ms_inv_def split_beta sweep_all)
qed

lemma removed_capacity [simp]:
  "ms_capacity (removeExpiredLocked now s) = ms_capacity s"
  "effective_capacity (removeExpiredLocked now s) = effective_capacity s"
  by (simp_all add: removeExpiredLocked_def effective_capacity_def split_beta)

lemma next_ok_subset: "next_ok nx xs \<Longrightarrow> set ys \<subseteq> set xs \<Longrightarrow> next_ok nx ys"
  by (auto simp: next_ok_def split: option.splits)

lemma removed_next:
  assumes "ms_inv s"
  shows "next_ok (ms_nextExpiry (removeExpiredLocked now s)) (filter (alive now) (ms_items s))"
proof -
  have "next_ok (ms_nextExpiry s) (filter (alive now) (ms_items s))"
    using assms by (auto simp: ms_inv_def intro: next_ok_subset)
  moreover have "next_ok (snd (sweep now (ms_items s) (ms_items s) None)) (filter (alive now) (ms_items s))"
    using assms by (simp add: ms_inv_def sweep_next_ok)
  moreover have "next_ok None xs" for xs by (simp add: next_ok_def)
  ultimately show ?thesis by (simp add: removeExpiredLocked_def split_beta)
qed

lemma distinct_filter_fst: "distinct (map fst xs) \<Longrightarrow> distinct (map fst (filter p xs))"
  by (induction xs) auto

lemma filter_le_int: "int (length xs) \<le> c \<Longrightarrow> int (length (filter p xs)) \<le> c"
  by (meson length_filter_le of_nat_mono order.trans)

lemma removed_inv: "ms_inv s \<Longrightarrow> ms_inv (removeExpiredLocked now s)"
  using removed_next [of s now] removed_items [of s now]
  by (auto simp: ms_inv_def distinct_filter_fst intro: filter_le_int)

lemma removed_live:
  assumes "ms_inv s" "now \<le> t"
  shows "live t (removeExpiredLocked now s) = live t s"
proof
  fix k
  have "distinct (map fst (ms_items s))" using assms(1) by (simp add: ms_inv_def)
  with assms show "live t (removeExpiredLocked now s) k = live t s k"
    by (auto simp: live_def removed_items map_of_filter_key alive_def split: option.split)
qed

lemma live_next [simp]: "live t (s\<lparr>ms_nextExpiry := n\<rparr>) = live t s"
  by (rule ext) (simp add: live_def)

lemma live_update:
  "live t (s\<lparr>ms_items := AList.update k i (ms_items s)\<rparr>) =
     (live t s)(k := if mi_expiresAt i > t then Some (mi_value i) else None)"
  by (rule ext) (simp add: live_def update_conv')

lemma live_delete: "live t (s\<lparr>ms_items := AList.delete k (ms_items s)\<rparr>) = (live t s)(k := None)"
  by (rule ext) (simp add: live_def delete_conv')

lemma live_clear [simp]: "live t (clear_next_expiry e s) = live t s"
  by (simp add: clear_next_expiry_def)

lemma put_live:
  assumes "Put now k v ttl s = (None, s')" "ms_inv s" "now \<le> t"
  shows "live t s' = (live t s)(k := if now + ttl > t then Some v else None)"
  using assms(1) removed_live [OF assms(2,3)]
  by (auto simp: Put_def Let_def live_update split: if_splits)

lemma put_fail_live:
  "Put now k v ttl s = (Some e, s') \<Longrightarrow> ms_inv s \<Longrightarrow> now \<le> t \<Longrightarrow> live t s' = live t s"
  by (auto simp: Put_def Let_def removed_live split: if_splits)

lemma live_at_now: "live now s k = None \<longleftrightarrow> map_of (ms_items (removeExpiredLocked now s)) k = None"
  if "ms_inv s"
  using that by (auto simp: live_def removed_items ms_inv_def map_of_filter_key alive_def split: option.split)

lemma card_live: "ms_inv s \<Longrightarrow> card (dom (live now s)) = length (filter (alive now) (ms_items s))"
proof -
  assume inv: "ms_inv s"
  then have d: "distinct (map fst (filter (alive now) (ms_items s)))"
    by (simp add: ms_inv_def distinct_filter_fst)
  have "dom (live now s) = dom (map_of (filter (alive now) (ms_items s)))"
    using live_at_now [OF inv, of now] by (auto simp: removed_items [OF inv] dom_def)
  also have "\<dots> = set (map fst (filter (alive now) (ms_items s)))" by (simp add: dom_map_of_conv_image_fst)
  finally show ?thesis using distinct_card [OF d] by simp
qed

lemma put_fails_iff:
  assumes "ms_inv s"
  shows "fst (Put now k v ttl s) = Some ErrCapacity \<longleftrightarrow>
     live now s k = None \<and> int (card (dom (live now s))) \<ge> effective_capacity s"
  using assms by (simp add: Put_def Let_def live_at_now card_live removed_items effective_capacity_def)

lemma distinct_update_key:
  "distinct (map fst xs) \<Longrightarrow> distinct (map fst (AList.update k v xs))"
  by (rule distinct_update)

lemma length_update:
  "length (AList.update k v xs) = (if map_of xs k = None then Suc (length xs) else length xs)"
  by (induction xs) auto

lemma in_update: "e \<in> set (AList.update k v xs) \<Longrightarrow> e = (k, v) \<or> e \<in> set xs"
  by (induction xs) (auto split: if_splits)

text \<open>After a sweep no expiry is known only if nothing is left, which is what \<^verbatim>\<open>Put\<close> relies on.\<close>

lemma removed_none:
  assumes "ms_inv s" "ms_nextExpiry (removeExpiredLocked now s) = None"
  shows "ms_items (removeExpiredLocked now s) = []"
proof -
  have "\<forall>r \<in> set (ms_items s). \<not> alive now r"
    using assms(2) sweep_next_le [where nx = None and now = now and rest = "ms_items s" and items = "ms_items s"]
    by (auto simp: removeExpiredLocked_def split_beta split: if_splits option.splits)
  then show ?thesis by (simp add: removed_items [OF assms(1)])
qed

lemma put_inv:
  assumes "ms_inv s"
  shows "ms_inv (snd (Put now k v ttl s))"
proof -
  let ?r = "removeExpiredLocked now s"
  let ?c = "effective_capacity s"
  have r: "distinct (map fst (ms_items ?r))" "int (length (ms_items ?r)) \<le> ?c"
    "next_ok (ms_nextExpiry ?r) (ms_items ?r)"
    using removed_inv [OF assms, of now] by (simp_all add: ms_inv_def)
  have none: "ms_nextExpiry ?r = None \<Longrightarrow> ms_items ?r = []" by (rule removed_none [OF assms])
  let ?nx = "if (case ms_nextExpiry ?r of None \<Rightarrow> True | Some t \<Rightarrow> now + ttl < t)
             then Some (now + ttl) else ms_nextExpiry ?r"
  have "next_ok ?nx (AList.update k \<lparr>mi_value = v, mi_expiresAt = now + ttl\<rparr> (ms_items ?r))"
  proof (cases "ms_nextExpiry ?r")
    case None
    with none show ?thesis by (simp add: next_ok_def)
  next
    case (Some t)
    with r(3) show ?thesis by (auto simp: next_ok_def dest!: in_update)
  qed
  with r show ?thesis
    by (auto simp: Put_def Let_def ms_inv_def distinct_update length_update effective_capacity_def)
qed

lemma delete_expired_live:
  assumes "map_of (ms_items s) k = Some c" "\<not> mi_expiresAt c > now" "now \<le> t"
  shows "live t (s\<lparr>ms_items := AList.delete k (ms_items s)\<rparr>) = live t s"
proof -
  have "live t s k = None" using assms by (simp add: live_def)
  then show ?thesis by (simp add: live_delete fun_upd_idem)
qed

lemma Get_rest_live: "now \<le> t \<Longrightarrow> live t (snd (Get_rest now k found s)) = live t s"
  by (auto simp: Get_rest_def delete_expired_live split: option.split)

lemma get_live: "now \<le> t \<Longrightarrow> live t (snd (Get now k s)) = live t s"
  by (simp add: Get_def Get_rest_live)

lemma get_value: "fst (Get now k s) = live now s k"
  by (simp add: Get_def Get_rest_def Get_read_def live_def split: option.split)

lemma clear_inv: "ms_inv s \<Longrightarrow> ms_inv (clear_next_expiry e s)"
  by (auto simp: clear_next_expiry_def ms_inv_def effective_capacity_def next_ok_def split: if_splits)

lemma capacity_items [simp]: "effective_capacity (s\<lparr>ms_items := xs\<rparr>) = effective_capacity s"
  by (simp add: effective_capacity_def)

lemma delete_inv: "ms_inv s \<Longrightarrow> ms_inv (s\<lparr>ms_items := AList.delete k (ms_items s)\<rparr>)"
  by (auto simp: ms_inv_def delete_filter distinct_filter_fst intro: filter_le_int next_ok_subset)

lemma Get_rest_inv: "ms_inv s \<Longrightarrow> ms_inv (snd (Get_rest now k found s))"
  by (auto simp: Get_rest_def clear_inv delete_inv split: option.split)

lemma get_inv: "ms_inv s \<Longrightarrow> ms_inv (snd (Get now k s))"
  by (simp add: Get_def Get_rest_inv)

lemma Delete_live: "live t (Delete k s) = (live t s)(k := None)"
  by (simp add: Delete_def Let_def live_delete split: option.split)

lemma Delete_inv: "ms_inv s \<Longrightarrow> ms_inv (Delete k s)"
  by (simp add: Delete_def Let_def clear_inv delete_inv split: option.split)

text \<open>Backwards: what is live after an operation was live before, or was just stored.\<close>

lemma removed_live_back:
  assumes "ms_inv s" "live t (removeExpiredLocked now s) k = Some v"
  shows "live t s k = Some v"
proof -
  have "distinct (map fst (ms_items s))" using assms(1) by (simp add: ms_inv_def)
  from map_of_filter_key [OF this, of "alive now" k] assms(2) show ?thesis
    unfolding removed_items [OF assms(1), symmetric]
    by (auto simp: live_def split: option.splits if_splits)
qed

lemma put_live_back:
  assumes "ms_inv s" "live t (snd (Put now j w ttl s)) k = Some v"
  shows "live t s k = Some v \<or> k = j \<and> v = w \<and> t < now + ttl \<and> fst (Put now j w ttl s) = None"
  using assms(2) removed_live_back [OF assms(1), of t now k v]
  by (auto simp: Put_def Let_def live_update split: if_splits)

lemma get_live_back: "live t (snd (Get now j s)) k = Some v \<Longrightarrow> live t s k = Some v"
  by (auto simp: Get_def Get_rest_def live_delete split: option.splits if_splits)

lemma new_inv: "ms_inv (newMemoryStore c)"
  by (simp add: ms_inv_def newMemoryStore_def effective_capacity_def defaultMemoryStoreCapacity_def next_ok_def)

lemma new_live: "live t (newMemoryStore c) = Map.empty"
  by (rule ext) (simp add: live_def newMemoryStore_def)

subsection \<open>The contract\<close>

datatype store_op = PutOp gostring gostring int | GetOp gostring | DeleteOp gostring

fun op_key :: "store_op \<Rightarrow> gostring" where
  "op_key (PutOp k v ttl) = k"
| "op_key (GetOp k) = k"
| "op_key (DeleteOp k) = k"

text \<open>A history: operations with the times at which they run.\<close>

fun run_ops :: "(int \<Rightarrow> gostring \<Rightarrow> gostring \<Rightarrow> int \<Rightarrow> 's \<Rightarrow> put_error option \<times> 's) \<Rightarrow>
    (int \<Rightarrow> gostring \<Rightarrow> 's \<Rightarrow> gostring option \<times> 's) \<Rightarrow> (gostring \<Rightarrow> 's \<Rightarrow> 's) \<Rightarrow>
    (int \<times> store_op) list \<Rightarrow> 's \<Rightarrow> 's" where
  "run_ops put get del [] s = s"
| "run_ops put get del ((now, PutOp k v ttl) # ops) s = run_ops put get del ops (snd (put now k v ttl s))"
| "run_ops put get del ((now, GetOp k) # ops) s = run_ops put get del ops (snd (get now k s))"
| "run_ops put get del ((now, DeleteOp k) # ops) s = run_ops put get del ops (del k s)"

locale session_store =
  fixes put :: "int \<Rightarrow> gostring \<Rightarrow> gostring \<Rightarrow> int \<Rightarrow> 's \<Rightarrow> put_error option \<times> 's"
    and get :: "int \<Rightarrow> gostring \<Rightarrow> 's \<Rightarrow> gostring option \<times> 's"
    and del :: "gostring \<Rightarrow> 's \<Rightarrow> 's"
    and ok :: "'s \<Rightarrow> bool"
    and view :: "int \<Rightarrow> 's \<Rightarrow> gostring \<Rightarrow> gostring option"
  assumes put_ok: "ok s \<Longrightarrow> ok (snd (put now k v ttl s))"
    and get_ok: "ok s \<Longrightarrow> ok (snd (get now k s))"
    and del_ok: "ok s \<Longrightarrow> ok (del k s)"
    and put_view: "put now k v ttl s = (None, s') \<Longrightarrow> ok s \<Longrightarrow> now \<le> t \<Longrightarrow>
      view t s' = (view t s)(k := if now + ttl > t then Some v else None)"
    and put_refused: "put now k v ttl s = (Some e, s') \<Longrightarrow> ok s \<Longrightarrow> now \<le> t \<Longrightarrow> view t s' = view t s"
    and get_view: "ok s \<Longrightarrow> now \<le> t \<Longrightarrow> view t (snd (get now k s)) = view t s"
    and get_result: "ok s \<Longrightarrow> fst (get now k s) = view now s k"
    and del_view: "ok s \<Longrightarrow> view t (del k s) = (view t s)(k := None)"
begin

lemma put_other:
  assumes "ok s" "now \<le> t" "k \<noteq> j"
  shows "view t (snd (put now k v ttl s)) j = view t s j"
proof (cases "put now k v ttl s")
  case (Pair e s')
  with assms show ?thesis by (cases e) (simp_all add: put_view put_refused)
qed

lemma run_ok: "ok s \<Longrightarrow> ok (run_ops put get del ops s)"
proof (induction ops arbitrary: s)
  case (Cons e ops)
  obtain now op where "e = (now, op)" by (cases e)
  with Cons show ?case by (cases op) (simp_all add: put_ok get_ok del_ok)
qed simp

lemma run_other:
  "ok s \<Longrightarrow> \<forall>(now, op) \<in> set ops. now \<le> t \<and> op_key op \<noteq> j \<Longrightarrow>
     view t (run_ops put get del ops s) j = view t s j"
proof (induction ops arbitrary: s)
  case (Cons e ops)
  obtain now op where e: "e = (now, op)" by (cases e)
  with Cons.prems have "now \<le> t" "op_key op \<noteq> j" by auto
  with e Cons show ?case
    by (cases op) (auto simp: put_ok get_ok del_ok put_other get_view del_view)
qed simp

lemma put_lives:
  assumes "put now k v ttl s = (None, s')" "ok s" "now \<le> t"
    and "\<forall>(n, op) \<in> set ops. n \<le> t \<and> op_key op \<noteq> k"
  shows "fst (get t k (run_ops put get del ops s')) = (if t < now + ttl then Some v else None)"
proof -
  have "ok s'" using put_ok [OF assms(2), of now k v ttl] assms(1) by simp
  then show ?thesis
    using run_other [OF _ assms(4)] assms by (simp add: get_result run_ok put_view)
qed

lemma deleted_stays:
  assumes "ok s" and "\<forall>(n, op) \<in> set ops. n \<le> t \<and> op_key op \<noteq> k"
  shows "fst (get t k (run_ops put get del ops (del k s))) = None"
  using assms run_other [OF del_ok [OF assms(1)] assms(2)] by (simp add: get_result run_ok del_ok del_view)

end

interpretation memory: session_store Put Get Delete ms_inv live
  by unfold_locales
    (simp_all add: put_inv get_inv Delete_inv put_live put_fail_live get_live get_value Delete_live)

subsection \<open>Properties\<close>

text \<open>A stored session is returned, with its value, until its lifetime is over and not one moment
  longer, whatever the store does for other keys in between: sweeps, refused entries,
  lazy removals and deletions of others never lose it and never make it outlive its time.\<close>

lemma session_lives_exactly_ttl:
  assumes "ms_inv s" and "Put now k v ttl s = (None, s')" and "now \<le> t"
    and "\<forall>(n, op) \<in> set ops. n \<le> t \<and> op_key op \<noteq> k"
  shows "fst (Get t k (run_ops Put Get Delete ops s')) = (if t < now + ttl then Some v else None)"
  by (rule memory.put_lives [OF assms(2,1,3,4)])

lemma session_lives_exactly_ttl_witness:
  "fst (Get 8 ''a'' (run_ops Put Get Delete [(5, PutOp ''b'' ''w'' 1), (7, GetOp ''b'')]
      (snd (Put 0 ''a'' ''v'' 10 (newMemoryStore 2))))) = Some ''v''"
proof -
  have put: "Put 0 ''a'' ''v'' 10 (newMemoryStore 2) = (None, snd (Put 0 ''a'' ''v'' 10 (newMemoryStore 2)))"
    by (simp add: Put_def newMemoryStore_def removeExpiredLocked_def)
  from session_lives_exactly_ttl [OF new_inv put, of 8 "[(5, PutOp ''b'' ''w'' 1), (7, GetOp ''b'')]"]
  show ?thesis by simp
qed

text \<open>An entry is refused exactly when the store is full of live sessions of other keys: expired
  entries never take the place of a new one, although the sweep that removes them is skipped when the
  earliest expiry known lies in the future.\<close>

lemma put_refused_iff_full:
  assumes "ms_inv s"
  shows "fst (Put now k v ttl s) = Some ErrCapacity \<longleftrightarrow>
    live now s k = None \<and> int (card (dom (live now s))) \<ge> effective_capacity s"
  using assms by (rule put_fails_iff)

lemma put_refused_iff_full_witness:
  "fst (Put 9 ''b'' ''w'' 5 (snd (Put 0 ''a'' ''v'' 10 (newMemoryStore 1)))) = Some ErrCapacity \<longleftrightarrow>
     live 9 (snd (Put 0 ''a'' ''v'' 10 (newMemoryStore 1))) ''b'' = None \<and>
     int (card (dom (live 9 (snd (Put 0 ''a'' ''v'' 10 (newMemoryStore 1)))))) \<ge>
       effective_capacity (snd (Put 0 ''a'' ''v'' 10 (newMemoryStore 1)))"
  by (rule put_refused_iff_full) (rule put_inv [OF new_inv])

text \<open>
  A lookup that found an expired entry and then waited for the write lock removes nothing
  that is live: if another goroutine has stored a fresh session under the key meanwhile, it stays, and
  the invariant of the store holds whatever it found.\<close>

lemma late_lookup_removes_nothing_live:
  assumes "now \<le> t" and "ms_inv s"
  shows "live t (snd (Get_rest now k found s)) = live t s \<and> ms_inv (snd (Get_rest now k found s))"
  using assms by (simp add: Get_rest_live Get_rest_inv)

lemma late_lookup_removes_nothing_live_witness:
  "live 6 (snd (Get_rest 5 ''a'' (Some \<lparr>mi_value = ''old'', mi_expiresAt = 4\<rparr>)
      (snd (Put 5 ''a'' ''new'' 10 (newMemoryStore 2))))) ''a'' = Some ''new''"
proof -
  let ?s = "snd (Put 5 ''a'' ''new'' 10 (newMemoryStore 2))"
  have put: "Put 5 ''a'' ''new'' 10 (newMemoryStore 2) = (None, ?s)"
    by (simp add: Put_def newMemoryStore_def removeExpiredLocked_def)
  have "live 6 ?s ''a'' = Some ''new''"
    using put_live [OF put new_inv, of 6] by simp
  with late_lookup_removes_nothing_live [of 5 6 ?s "''a''" "Some \<lparr>mi_value = ''old'', mi_expiresAt = 4\<rparr>"]
  show ?thesis by (simp add: put_inv new_inv)
qed

end
