(* ===== verification/OAuthFlows.thy ===== *)
theory OAuthFlows
  imports Credentials SessionStore Compat
begin

text \<open>
  How an account is connected (\<^verbatim>\<open>internal/codex/auth.go\<close>): the device flow, the browser flow with its pasted callback,
  the import of \<^verbatim>\<open>auth.json\<close>, disconnecting and the quota. The manager shares the sessions and the database with
  the rest of the server. HTTP answers, decoders and \<^verbatim>\<open>net/url\<close> are arguments; what is sent to the token endpoint is the
  output of a step.
\<close>

subsection \<open>Data\<close>

record deviceFlow =
  df_DeviceAuthID :: gostring
  df_UserCode :: gostring
  df_ExpiresAt :: int
  df_Interval :: int

record browserFlow =
  bf_State :: gostring
  bf_Verifier :: gostring
  bf_ExpiresAt :: int

record browserCallback =
  cb_Code :: gostring
  cb_State :: gostring
  cb_Error :: gostring
  cb_ErrorDescription :: gostring

record AccountView =
  vi_Connected :: bool
  vi_Email :: gostring
  vi_AccountID :: gostring
  vi_PlanType :: gostring
  vi_ExpiresAt :: int
  vi_UpdatedAt :: int
  vi_Quota :: "gostring option"
  vi_QuotaAt :: int
  vi_ClientName :: gostring

record DeviceStart =
  ds_FlowID :: gostring
  ds_UserCode :: gostring
  ds_ExpiresAt :: int
  ds_PollInterval :: int

record BrowserStart =
  bs_FlowID :: gostring
  bs_AuthorizationURL :: gostring
  bs_RedirectURI :: gostring
  bs_ExpiresAt :: int

text \<open>A parsed URL; of a query only the first value of each name is ever read.\<close>

record callback_url =
  cu_Scheme :: gostring
  cu_Hostname :: gostring
  cu_Port :: gostring
  cu_EscapedPath :: gostring
  cu_Query :: "(gostring \<times> gostring) list"
  cu_Fragment :: gostring

record oauth_lib =
  ol_auth :: auth_lib
  ol_client_name :: gostring
  ol_encode_device :: "deviceFlow \<Rightarrow> gostring"
  ol_decode_device :: "gostring \<Rightarrow> deviceFlow option"
  ol_encode_browser :: "browserFlow \<Rightarrow> gostring"
  ol_decode_browser :: "gostring \<Rightarrow> browserFlow option"
  ol_valid :: "gostring \<Rightarrow> bool"
  ol_int :: "gostring \<Rightarrow> int option"
  ol_Atoi :: "gostring \<Rightarrow> int option"
  ol_tokenCode :: "gostring \<Rightarrow> (gostring \<times> gostring) option"
  ol_import :: "gostring \<Rightarrow> gostring + tokenSet \<times> tokenSet"
  ol_sha256 :: "gostring \<Rightarrow> gostring"
  ol_fold :: "gostring \<Rightarrow> gostring"
  ol_ParseURL :: "gostring \<Rightarrow> callback_url option"
  ol_ParseQuery :: "gostring \<Rightarrow> (gostring \<times> gostring) list option"
  ol_EncodeValues :: "(gostring \<times> gostring) list \<Rightarrow> gostring"
  ol_StatusText :: "int \<Rightarrow> gostring"
  ol_storage_text :: "db_error \<Rightarrow> gostring"
  ol_cipher_text :: "cipher_error \<Rightarrow> gostring"

text \<open>\<^verbatim>\<open>encoding/json\<close> on the stored flows.\<close>

definition flows_ok :: "oauth_lib \<Rightarrow> bool" where
  "flows_ok ol \<longleftrightarrow> (\<forall>f. ol_decode_browser ol (ol_encode_browser ol f) = Some f)
     \<and> (\<forall>f. ol_decode_device ol (ol_encode_device ol f) = Some f)"

record manager =
  mg_sessions :: memoryStore
  mg_db :: database

text \<open>The code, the verifier and the redirect URI of a request for tokens.\<close>

type_synonym exchange = "gostring \<times> gostring \<times> gostring"

definition browserRedirectURI :: gostring where
  "browserRedirectURI = ''http://localhost:1455/auth/callback''"

definition deviceTokenExchangeRedirect :: gostring where
  "deviceTokenExchangeRedirect = ''https://auth.openai.com/deviceauth/callback''"

definition device_key :: "gostring \<Rightarrow> gostring" where
  "device_key flowID = ''oauth:'' @ flowID"

definition browser_key :: "gostring \<Rightarrow> gostring" where
  "browser_key flowID = ''oauth-browser:'' @ flowID"

definition RandomToken :: "gostring + gostring \<Rightarrow> gostring + gostring" where
  "RandomToken buffer = map_sum id (EncodeToString RawURLEncoding) buffer"

definition upstreamError :: "oauth_lib \<Rightarrow> gostring \<Rightarrow> int \<Rightarrow> gostring \<Rightarrow> auth_error" where
  "upstreamError ol action status body =
     (let msg = TrimSpace body;
          cut = (if length msg > 500 then take 500 msg else msg)
      in AuthError (action @ '' failed ('' @ (if status < 0 then ''-'' @ itoa (nat (- status)) else itoa (nat status)) @ ''): ''
           @ (if cut = [] then ol_StatusText ol status else cut)))"

text \<open>The text of an error.\<close>

fun cipher_message :: "oauth_lib \<Rightarrow> cipher_error \<Rightarrow> gostring" where
  "cipher_message ol (NonceFailed e) = ''generate token nonce: '' @ e"
| "cipher_message ol BadEncoding = ''decode encrypted token: '' @ ol_cipher_text ol BadEncoding"
| "cipher_message ol Truncated = ''encrypted token is truncated''"
| "cipher_message ol NotAuthentic = ''decrypt token: '' @ ol_cipher_text ol NotAuthentic"

fun error_message :: "oauth_lib \<Rightarrow> auth_error \<Rightarrow> gostring" where
  "error_message ol (AuthError t) = t"
| "error_message ol (BrowserOAuthInput t) = ''invalid browser OAuth input: '' @ t"
| "error_message ol (AuthStorage e) = ol_storage_text ol e"
| "error_message ol (QuotaStorage e) = ''save quota snapshot: '' @ ol_storage_text ol e"
| "error_message ol (AuthCipher e) = cipher_message ol e"

subsection \<open>The account\<close>

definition manager_account :: "oauth_lib \<Rightarrow> bool \<Rightarrow> bool \<Rightarrow> database \<Rightarrow> auth_error + AccountView" where
  "manager_account ol up quota_up db =
     (case GetAccount up db of
        Inl e \<Rightarrow>
          if IsNotFound e
          then Inr \<lparr>vi_Connected = False, vi_Email = [], vi_AccountID = [], vi_PlanType = [], vi_ExpiresAt = 0, vi_UpdatedAt = 0,
                 vi_Quota = None, vi_QuotaAt = 0, vi_ClientName = ol_client_name ol\<rparr>
          else Inl (AuthStorage e)
      | Inr account \<Rightarrow>
          (let view = \<lparr>vi_Connected = True, vi_Email = ac_email account, vi_AccountID = ac_account_id account,
                 vi_PlanType = ac_plan_type account, vi_ExpiresAt = ac_expires_at account, vi_UpdatedAt = ac_updated_at account,
                 vi_Quota = None, vi_QuotaAt = 0, vi_ClientName = ol_client_name ol\<rparr>
           in case GetQuota quota_up db of
                Inr quota \<Rightarrow>
                  if ol_valid ol (qs_payload quota)
                  then Inr (view\<lparr>vi_Quota := Some (qs_payload quota), vi_QuotaAt := qs_fetched_at quota\<rparr>) else Inr view
              | Inl e \<Rightarrow> Inr view))"

definition deleteAccount :: "bool \<Rightarrow> manager \<Rightarrow> auth_error option \<times> manager" where
  "deleteAccount up mg =
     (let (err, db) = DeleteAccount up (mg_db mg) in (map_option AuthStorage err, mg\<lparr>mg_db := db\<rparr>))"

text \<open>
  The last part of every way to connect: tokens become a credential, which is stored and shown. \<open>finish\<close> is the part
  between storing and showing.
\<close>

record connect_world =
  cw_answered :: int
  cw_save :: save_world
  cw_up :: bool
  cw_quota_up :: bool

definition connect ::
  "oauth_lib \<Rightarrow> connect_world \<Rightarrow> (memoryStore \<Rightarrow> memoryStore) \<Rightarrow> tokenSet \<Rightarrow> manager \<Rightarrow> (auth_error + AccountView) \<times> manager" where
  "connect ol w finish tokens mg =
     (case credentialFromTokens (ol_auth ol) (cw_answered w) tokens of
        Inl e \<Rightarrow> (Inl e, mg)
      | Inr credential \<Rightarrow>
          (case saveCredential (ol_auth ol) (cw_save w) credential (mg_db mg) of
             (Some e, db) \<Rightarrow> (Inl e, mg\<lparr>mg_db := db\<rparr>)
           | (None, db) \<Rightarrow>
               (manager_account ol (cw_up w) (cw_quota_up w) db, mg\<lparr>mg_db := db, mg_sessions := finish (mg_sessions mg)\<rparr>)))"

definition ImportAuthJSON :: "oauth_lib \<Rightarrow> connect_world \<Rightarrow> gostring \<Rightarrow> manager \<Rightarrow> (auth_error + AccountView) \<times> manager" where
  "ImportAuthJSON ol w raw mg =
     (if raw = [] \<or> \<not> ol_valid ol raw then (Inl (AuthError ''auth.json is not valid JSON''), mg)
      else (case ol_import ol raw of
              Inl e \<Rightarrow> (Inl (AuthError e), mg)
            | Inr (topLevel, nested) \<Rightarrow>
                (case parseImportedTokens topLevel nested of
                   Inl e \<Rightarrow> (Inl e, mg)
                 | Inr tokens \<Rightarrow> connect ol w id tokens mg)))"

subsection \<open>The device flow\<close>

text \<open>The body of the answer, decoded; an answer of another shape or status is an error before this point.\<close>

record device_reply =
  da_DeviceAuthID :: gostring
  da_UserCode :: gostring
  da_UserCodeAlt :: gostring
  da_Interval :: "gj option"

definition parsePollInterval :: "oauth_lib \<Rightarrow> gj option \<Rightarrow> int" where
  "parsePollInterval ol raw =
     (let positive = (\<lambda>n. case n of Some i \<Rightarrow> if i > 0 then i else 5 | None \<Rightarrow> 5)
      in case raw of
           Some (JNum n) \<Rightarrow> positive (ol_int ol n)
         | Some (JStr t) \<Rightarrow> positive (ol_Atoi ol (TrimSpace t))
         | _ \<Rightarrow> 5)"

record start_world =
  st_tokens :: "(gostring + gostring) list"
  st_now :: int
  st_put :: int

definition nth_token :: "start_world \<Rightarrow> nat \<Rightarrow> gostring + gostring" where
  "nth_token w n = (if n < length (st_tokens w) then RandomToken (st_tokens w ! n) else Inl [])"

definition StartDeviceFlow ::
  "oauth_lib \<Rightarrow> start_world \<Rightarrow> auth_error + device_reply \<Rightarrow> manager \<Rightarrow> (auth_error + DeviceStart) \<times> manager" where
  "StartDeviceFlow ol w answer mg =
     (case answer of
        Inl e \<Rightarrow> (Inl e, mg)
      | Inr a \<Rightarrow>
          (let userCode = (if da_UserCode a = [] then da_UserCodeAlt a else da_UserCode a)
           in if TrimSpace (da_DeviceAuthID a) = [] \<or> TrimSpace userCode = []
              then (Inl (AuthError ''device flow response is missing required fields''), mg)
              else (case nth_token w 0 of
                      Inl e \<Rightarrow> (Inl (AuthError (''generate device flow ID: '' @ e)), mg)
                    | Inr flowID \<Rightarrow>
                        (let flow = \<lparr>df_DeviceAuthID = da_DeviceAuthID a, df_UserCode = userCode,
                               df_ExpiresAt = (st_now w + minutes 15) div 1000000, df_Interval = parsePollInterval ol (da_Interval a)\<rparr>
                         in case Put (st_put w) (device_key flowID) (ol_encode_device ol flow) (minutes 15) (mg_sessions mg) of
                              (Some e, ss) \<Rightarrow> (Inl (AuthError ''store device flow: session store capacity exceeded''), mg\<lparr>mg_sessions := ss\<rparr>)
                            | (None, ss) \<Rightarrow>
                                (Inr \<lparr>ds_FlowID = flowID, ds_UserCode = userCode, ds_ExpiresAt = df_ExpiresAt flow,
                                   ds_PollInterval = df_Interval flow\<rparr>, mg\<lparr>mg_sessions := ss\<rparr>)))))"

datatype device_status = Pending | Complete AccountView

record poll_world =
  pw_get :: int
  pw_now :: int
  pw_answer :: "auth_error + int \<times> gostring"
  pw_tokens :: "auth_error + tokenSet"
  pw_connect :: connect_world

definition PollDeviceFlow ::
  "oauth_lib \<Rightarrow> poll_world \<Rightarrow> gostring \<Rightarrow> manager \<Rightarrow> (auth_error + device_status) \<times> manager \<times> exchange list" where
  "PollDeviceFlow ol w flowID mg0 =
     (case Get (pw_get w) (device_key flowID) (mg_sessions mg0) of
        (None, ss) \<Rightarrow> (Inl (AuthError ''device login expired or was not found''), mg0\<lparr>mg_sessions := ss\<rparr>, [])
      | (Some raw, ss) \<Rightarrow>
          (let mg = mg0\<lparr>mg_sessions := ss\<rparr>
           in case ol_decode_device ol raw of
                None \<Rightarrow> (Inl (AuthError ''decode device flow''), mg, [])
              | Some flow \<Rightarrow>
                  if pw_now w div 1000000 \<ge> df_ExpiresAt flow
                  then (Inl (AuthError ''device login expired''), mg\<lparr>mg_sessions := Delete (device_key flowID) ss\<rparr>, [])
                  else (case pw_answer w of
                          Inl e \<Rightarrow> (Inl e, mg, [])
                        | Inr (status, body) \<Rightarrow>
                            if status = 403 \<or> status = 404 then (Inr Pending, mg, [])
                            else if status < 200 \<or> status \<ge> 300 then (Inl (upstreamError ol ''device login polling'' status body), mg, [])
                            else (case ol_tokenCode ol body of
                                    None \<Rightarrow> (Inl (AuthError ''decode device login response''), mg, [])
                                  | Some (code, verifier) \<Rightarrow>
                                      if code = [] \<or> verifier = []
                                      then (Inl (AuthError ''device login response is incomplete''), mg, [])
                                      else (case pw_tokens w of
                                              Inl e \<Rightarrow> (Inl e, mg, [(code, verifier, deviceTokenExchangeRedirect)])
                                            | Inr tokens \<Rightarrow>
                                                (let (r, mg') = connect ol (pw_connect w) (Delete (device_key flowID)) tokens mg
                                                 in (map_sum id Complete r, mg', [(code, verifier, deviceTokenExchangeRedirect)])))))))"

subsection \<open>The browser flow\<close>

definition browserAuthorizationURL :: "oauth_lib \<Rightarrow> gostring \<Rightarrow> gostring \<Rightarrow> gostring" where
  "browserAuthorizationURL ol state challenge =
     ''https://auth.openai.com/oauth/authorize?'' @ ol_EncodeValues ol
       [(''client_id'', ''app_EMoamEEZ73f0CkXaXp7hrann''), (''response_type'', ''code''), (''redirect_uri'', browserRedirectURI),
        (''scope'', ''openid email profile offline_access''), (''state'', state), (''code_challenge'', challenge),
        (''code_challenge_method'', ''S256''), (''prompt'', ''login''), (''id_token_add_organizations'', ''true''),
        (''codex_cli_simplified_flow'', ''true'')]"

definition StartBrowserFlow :: "oauth_lib \<Rightarrow> start_world \<Rightarrow> manager \<Rightarrow> (auth_error + BrowserStart) \<times> manager" where
  "StartBrowserFlow ol w mg =
     (case nth_token w 0 of
        Inl e \<Rightarrow> (Inl (AuthError (''generate OAuth state: '' @ e)), mg)
      | Inr state \<Rightarrow>
          (case nth_token w 1 of
             Inl e \<Rightarrow> (Inl (AuthError (''generate PKCE verifier: '' @ e)), mg)
           | Inr verifier \<Rightarrow>
               (case nth_token w 2 of
                  Inl e \<Rightarrow> (Inl (AuthError (''generate browser flow ID: '' @ e)), mg)
                | Inr flowID \<Rightarrow>
                    (let flow = \<lparr>bf_State = state, bf_Verifier = verifier, bf_ExpiresAt = (st_now w + minutes 15) div 1000000\<rparr>
                     in case Put (st_put w) (browser_key flowID) (ol_encode_browser ol flow) (minutes 15) (mg_sessions mg) of
                          (Some e, ss) \<Rightarrow> (Inl (AuthError ''store browser OAuth flow: session store capacity exceeded''), mg\<lparr>mg_sessions := ss\<rparr>)
                        | (None, ss) \<Rightarrow>
                            (Inr \<lparr>bs_FlowID = flowID,
                               bs_AuthorizationURL = browserAuthorizationURL ol state (EncodeToString RawURLEncoding (ol_sha256 ol verifier)),
                               bs_RedirectURI = browserRedirectURI, bs_ExpiresAt = bf_ExpiresAt flow\<rparr>, mg\<lparr>mg_sessions := ss\<rparr>)))))"

definition query_get :: "(gostring \<times> gostring) list \<Rightarrow> gostring \<Rightarrow> gostring" where
  "query_get q name = (case map_of q name of None \<Rightarrow> [] | Some v \<Rightarrow> v)"

definition contains_any :: "gostring \<Rightarrow> gostring \<Rightarrow> bool" where
  "contains_any s chars \<longleftrightarrow> list_ex (\<lambda>c. c \<in> set chars) s"

definition callback_candidate :: "gostring \<Rightarrow> gostring" where
  "callback_candidate trimmed =
     (if has_prefix trimmed ''?'' then browserRedirectURI @ trimmed
      else if \<not> contains trimmed ''://'' \<and> contains trimmed ''='' \<and> \<not> contains_any trimmed ''/?#''
      then browserRedirectURI @ ''?'' @ trimmed
      else if \<not> contains trimmed ''://'' then ''http://'' @ trimmed
      else trimmed)"

definition callback_values :: "oauth_lib \<Rightarrow> callback_url \<Rightarrow> (gostring \<times> gostring) list" where
  "callback_values ol parsed =
     (case (if cu_Fragment parsed \<noteq> [] then ol_ParseQuery ol (cu_Fragment parsed) else None) of
        None \<Rightarrow> cu_Query parsed
      | Some fragment \<Rightarrow>
          fold (\<lambda>name q. if query_get q name = [] \<and> query_get fragment name \<noteq> []
                       then AList.update name (query_get fragment name) q else q)
            [''code'', ''state'', ''error'', ''error_description''] (cu_Query parsed))"

definition parseBrowserCallback :: "oauth_lib \<Rightarrow> gostring \<Rightarrow> auth_error + browserCallback" where
  "parseBrowserCallback ol input =
     (let trimmed = TrimSpace input
      in if trimmed = [] \<or> length trimmed > 16 * 1024
         then Inl (BrowserOAuthInput ''paste the complete localhost callback URL'')
         else (case ol_ParseURL ol (callback_candidate trimmed) of
                 None \<Rightarrow> Inl (BrowserOAuthInput ''callback URL is malformed'')
               | Some parsed \<Rightarrow>
                   if cu_Scheme parsed \<noteq> ''http'' \<or> ol_fold ol (cu_Hostname parsed) \<noteq> ol_fold ol ''localhost''
                     \<or> cu_Port parsed \<noteq> ''1455'' \<or> cu_EscapedPath parsed \<noteq> ''/auth/callback''
                   then Inl (BrowserOAuthInput (''callback must start with '' @ browserRedirectURI))
                   else (let val = (\<lambda>name. TrimSpace (query_get (callback_values ol parsed) name));
                             callback = \<lparr>cb_Code = val ''code'', cb_State = val ''state'', cb_Error = val ''error'',
                               cb_ErrorDescription = val ''error_description''\<rparr>
                         in if cb_Error callback = [] \<and> cb_Code callback = []
                            then Inl (BrowserOAuthInput ''callback URL does not contain an authorization code'')
                            else if cb_Error callback = [] \<and> cb_State callback = []
                            then Inl (BrowserOAuthInput ''callback URL does not contain OAuth state'')
                            else Inr callback)))"

record complete_world =
  bw_get :: int
  bw_now :: int
  bw_tokens :: "auth_error + tokenSet"
  bw_connect :: connect_world

definition CompleteBrowserFlow ::
  "oauth_lib \<Rightarrow> complete_world \<Rightarrow> gostring \<Rightarrow> gostring \<Rightarrow> manager \<Rightarrow> (auth_error + AccountView) \<times> manager \<times> exchange list" where
  "CompleteBrowserFlow ol w flowID callbackURL mg0 =
     (case Get (bw_get w) (browser_key flowID) (mg_sessions mg0) of
        (None, ss) \<Rightarrow> (Inl (BrowserOAuthInput ''browser login expired or was not found''), mg0\<lparr>mg_sessions := ss\<rparr>, [])
      | (Some raw, ss) \<Rightarrow>
          (let mg = mg0\<lparr>mg_sessions := ss\<rparr>; ended = mg\<lparr>mg_sessions := Delete (browser_key flowID) ss\<rparr>
           in case ol_decode_browser ol raw of
                None \<Rightarrow> (Inl (AuthError ''decode browser OAuth flow''), mg, [])
              | Some flow \<Rightarrow>
                  if bw_now w div 1000000 \<ge> bf_ExpiresAt flow
                  then (Inl (BrowserOAuthInput ''browser login expired''), ended, [])
                  else (case parseBrowserCallback ol callbackURL of
                          Inl e \<Rightarrow> (Inl e, mg, [])
                        | Inr callback \<Rightarrow>
                            if cb_Error callback \<noteq> []
                            then (Inl (BrowserOAuthInput (''OpenAI authorization failed: '' @ cb_Error callback
                                    @ (if cb_ErrorDescription callback \<noteq> [] then '': '' @ cb_ErrorDescription callback else []))), ended, [])
                            else if cb_State callback \<noteq> bf_State flow
                            then (Inl (BrowserOAuthInput
                                    ''OAuth state does not match; restart login and paste the new callback URL''), mg, [])
                            else (let sent = [(cb_Code callback, bf_Verifier flow, browserRedirectURI)]
                                  in case bw_tokens w of
                                       Inl e \<Rightarrow> (Inl e, mg, sent)
                                     | Inr tokens \<Rightarrow>
                                         (let (r, mg') = connect ol (bw_connect w) (Delete (browser_key flowID)) tokens mg
                                          in (r, mg', sent))))))"

subsection \<open>The quota\<close>

text \<open>\<^verbatim>\<open>FetchQuota\<close> after its request: the answer is stored without the lock of the credential.\<close>

definition store_quota :: "oauth_lib \<Rightarrow> bool \<Rightarrow> int \<Rightarrow> int \<Rightarrow> gostring \<Rightarrow> manager \<Rightarrow> (auth_error + gostring \<times> int) \<times> manager" where
  "store_quota ol up fetchedAt status raw mg =
     (if status < 200 \<or> status \<ge> 300 then (Inl (upstreamError ol ''Codex quota request'' status raw), mg)
      else if \<not> ol_valid ol raw then (Inl (AuthError ''Codex quota response was not valid JSON''), mg)
      else (case SaveQuota up \<lparr>qs_payload = raw, qs_fetched_at = fetchedAt\<rparr> (mg_db mg) of
              (Some e, db) \<Rightarrow> (Inl (QuotaStorage e), mg\<lparr>mg_db := db\<rparr>)
            | (None, db) \<Rightarrow> (Inr (raw, fetchedAt), mg\<lparr>mg_db := db\<rparr>)))"

record quota_world =
  qw_up :: bool
  qw_now :: int
  qw_refresh :: refresh_world
  qw_answer :: "auth_error + int \<times> gostring"
  qw_fetched :: int
  qw_save_up :: bool

definition FetchQuota :: "oauth_lib \<Rightarrow> quota_world \<Rightarrow> manager \<Rightarrow> (auth_error + gostring \<times> int) \<times> manager" where
  "FetchQuota ol w mg =
     (let (credential, db, sent) = FreshCredential (ol_auth ol) (qw_up w) (qw_now w) (mg_db mg) (qw_refresh w) (mg_db mg);
          mg1 = mg\<lparr>mg_db := db\<rparr>
      in case credential of
           Inl e \<Rightarrow> (Inl e, mg1)
         | Inr c \<Rightarrow>
             (case qw_answer w of
                Inl e \<Rightarrow> (Inl e, mg1)
              | Inr (status, raw) \<Rightarrow> store_quota ol (qw_save_up w) (qw_fetched w) status raw mg1))"

subsection \<open>The manager as a machine\<close>

text \<open>
  Everything the manager does to the sessions and the tables it shares with the rest of the server. Each operation is
  one step; two completions that run at the same time may both read the flow before one of them deletes it.
\<close>

datatype manager_event =
    StartDevice start_world "auth_error + device_reply"
  | PollDevice poll_world gostring
  | StartBrowser start_world
  | CompleteBrowser complete_world gostring gostring
  | Import connect_world gostring
  | Disconnect bool
  | Refresh refresh_world
  | QuotaAnswered bool int int gostring

fun manager_step :: "oauth_lib \<Rightarrow> manager \<Rightarrow> manager_event \<Rightarrow> manager \<times> exchange list" where
  "manager_step ol mg (StartDevice w answer) = (snd (StartDeviceFlow ol w answer mg), [])"
| "manager_step ol mg (PollDevice w flowID) = snd (PollDeviceFlow ol w flowID mg)"
| "manager_step ol mg (StartBrowser w) = (snd (StartBrowserFlow ol w mg), [])"
| "manager_step ol mg (CompleteBrowser w flowID url) = snd (CompleteBrowserFlow ol w flowID url mg)"
| "manager_step ol mg (Import w raw) = (snd (ImportAuthJSON ol w raw mg), [])"
| "manager_step ol mg (Disconnect up) = (snd (deleteAccount up mg), [])"
| "manager_step ol mg (Refresh w) = (mg\<lparr>mg_db := fst (snd (refresh_locked (ol_auth ol) w (mg_db mg)))\<rparr>, [])"
| "manager_step ol mg (QuotaAnswered up fetchedAt status raw) = (snd (store_quota ol up fetchedAt status raw mg), [])"

text \<open>A whole quota request, with nothing between its parts, is a refresh or none and the storing of the answer or none.\<close>

lemma quota_is_run: "\<exists>es. snd (FetchQuota ol w mg) = final (manager_step ol) mg es \<and>
    (\<forall>e \<in> set es. case e of Refresh _ \<Rightarrow> True | QuotaAnswered _ _ _ _ \<Rightarrow> True | _ \<Rightarrow> False)"
proof -
  obtain credential db sent where fresh: "FreshCredential (ol_auth ol) (qw_up w) (qw_now w) (mg_db mg) (qw_refresh w) (mg_db mg)
      = (credential, db, sent)" by (metis prod_cases3)
  have "\<exists>es. mg\<lparr>mg_db := db\<rparr> = final (manager_step ol) mg es \<and> (\<forall>e \<in> set es. case e of Refresh _ \<Rightarrow> True | _ \<Rightarrow> False)"
  proof (cases "db = mg_db mg")
    case True
    then show ?thesis by (intro exI [of _ "[]"]) simp
  next
    case False
    with fresh have "refresh_locked (ol_auth ol) (qw_refresh w) (mg_db mg) = (credential, db, sent)"
      by (auto simp: FreshCredential_def split: sum.splits if_splits)
    then show ?thesis by (intro exI [of _ "[Refresh (qw_refresh w)]"]) simp
  qed
  then obtain es where es: "mg\<lparr>mg_db := db\<rparr> = final (manager_step ol) mg es"
    "\<forall>e \<in> set es. case e of Refresh _ \<Rightarrow> True | _ \<Rightarrow> False" by blast
  have own: "\<forall>e \<in> set es. case e of Refresh _ \<Rightarrow> True | QuotaAnswered _ _ _ _ \<Rightarrow> True | _ \<Rightarrow> False"
    using es(2) by (auto split: manager_event.splits)
  show ?thesis
  proof (cases "\<exists>c status raw. credential = Inr c \<and> qw_answer w = Inr (status, raw)")
    case True
    then obtain c status raw where q: "credential = Inr c" "qw_answer w = Inr (status, raw)" by blast
    let ?e = "QuotaAnswered (qw_save_up w) (qw_fetched w) status raw"
    show ?thesis
      by (intro exI [of _ "es @ [?e]"]) (use own q fresh es(1) in \<open>simp add: FetchQuota_def\<close>)
  next
    case False
    with fresh have "snd (FetchQuota ol w mg) = mg\<lparr>mg_db := db\<rparr>"
      by (auto simp: FetchQuota_def Let_def split: sum.splits)
    with es(1) own show ?thesis by auto
  qed
qed

lemma flow_keys [simp]: "browser_key a = browser_key b \<longleftrightarrow> a = b" "device_key a \<noteq> browser_key b"
  by (simp_all add: browser_key_def device_key_def)

text \<open>The sessions after an operation.\<close>

lemma connect_sessions:
  "mg_sessions mg = ss \<Longrightarrow> finish ss = ss' \<Longrightarrow>
     mg_sessions (snd (connect ol w finish tokens mg)) = ss \<or> mg_sessions (snd (connect ol w finish tokens mg)) = ss'"
  by (auto simp: connect_def split: sum.split prod.split option.split)

lemma connect_success:
  "fst (connect ol w finish tokens mg) = Inr view \<Longrightarrow> mg_sessions (snd (connect ol w finish tokens mg)) = finish (mg_sessions mg)"
  by (auto simp: connect_def split: sum.splits prod.splits option.splits)

lemma import_sessions: "mg_sessions (snd (ImportAuthJSON ol w raw mg)) = mg_sessions mg"
  using connect_sessions [of mg "mg_sessions mg" id] by (auto simp: ImportAuthJSON_def split: sum.split prod.split)

text \<open>A step of a flow leaves the manager as it is but for the lookup, drops the flow, or connects an account.\<close>

definition flow_outcome :: "oauth_lib \<Rightarrow> connect_world \<Rightarrow> gostring \<Rightarrow> memoryStore \<Rightarrow> manager \<Rightarrow> manager \<Rightarrow> bool" where
  "flow_outcome ol cw key ss mg mg' \<longleftrightarrow>
     mg' = mg\<lparr>mg_sessions := ss\<rparr> \<or> mg' = mg\<lparr>mg_sessions := Delete key ss\<rparr>
     \<or> (\<exists>tokens. mg' = snd (connect ol cw (Delete key) tokens (mg\<lparr>mg_sessions := ss\<rparr>)))"

lemma flow_outcome_sessions: "flow_outcome ol cw key ss mg mg' \<Longrightarrow> mg_sessions mg' \<in> {ss, Delete key ss}"
  using connect_sessions [of "mg\<lparr>mg_sessions := ss\<rparr>" ss "Delete key"] by (auto simp: flow_outcome_def)

lemma poll_outcome:
  "flow_outcome ol (pw_connect w) (device_key flowID) (snd (Get (pw_get w) (device_key flowID) (mg_sessions mg))) mg
     (fst (snd (PollDeviceFlow ol w flowID mg)))"
proof (cases "Get (pw_get w) (device_key flowID) (mg_sessions mg)")
  case got: (Pair found ss)
  show ?thesis
  proof (cases found)
    case None
    then show ?thesis by (simp add: PollDeviceFlow_def got flow_outcome_def)
  next
    case (Some raw)
    note def = PollDeviceFlow_def got flow_outcome_def Some
    show ?thesis
    proof (cases "ol_decode_device ol raw")
      case None
      then show ?thesis by (simp add: def)
    next
      case (Some flow)
      note def = def Some
      show ?thesis
      proof (cases "pw_answer w")
        case (Inl e)
        then show ?thesis by (simp add: def Let_def)
      next
        case (Inr answer)
        obtain status body where "answer = (status, body)" by force
        note def = def Inr this
        show ?thesis
        proof (cases "ol_tokenCode ol body")
          case None
          then show ?thesis by (simp add: def Let_def)
        next
          case (Some cv)
          obtain code verifier where "cv = (code, verifier)" by force
          note def = def Some this
          show ?thesis
          proof (cases "pw_tokens w")
            case (Inl e)
            then show ?thesis by (simp add: def Let_def)
          next
            case (Inr tokens)
            then show ?thesis by (auto simp: def Let_def split_beta)
          qed
        qed
      qed
    qed
  qed
qed

lemma complete_outcome:
  "flow_outcome ol (bw_connect w) (browser_key flowID) (snd (Get (bw_get w) (browser_key flowID) (mg_sessions mg))) mg
     (fst (snd (CompleteBrowserFlow ol w flowID url mg)))"
proof (cases "Get (bw_get w) (browser_key flowID) (mg_sessions mg)")
  case got: (Pair found ss)
  show ?thesis
  proof (cases found)
    case None
    then show ?thesis by (simp add: CompleteBrowserFlow_def got flow_outcome_def)
  next
    case (Some raw)
    note def = CompleteBrowserFlow_def got flow_outcome_def Some
    show ?thesis
    proof (cases "ol_decode_browser ol raw")
      case None
      then show ?thesis by (simp add: def)
    next
      case (Some flow)
      note def = def Some
      show ?thesis
      proof (cases "parseBrowserCallback ol url")
        case (Inl e)
        then show ?thesis by (simp add: def Let_def)
      next
        case (Inr callback)
        note def = def Inr
        show ?thesis
          by (cases "bw_tokens w") (auto simp: def Let_def split_beta)
      qed
    qed
  qed
qed

lemma poll_sessions:
  "mg_sessions (fst (snd (PollDeviceFlow ol w flowID mg))) \<in>
     (let ss = snd (Get (pw_get w) (device_key flowID) (mg_sessions mg)) in {ss, Delete (device_key flowID) ss})"
  unfolding Let_def by (rule flow_outcome_sessions [OF poll_outcome])

lemma complete_sessions:
  "mg_sessions (fst (snd (CompleteBrowserFlow ol w flowID url mg))) \<in>
     (let ss = snd (Get (bw_get w) (browser_key flowID) (mg_sessions mg)) in {ss, Delete (browser_key flowID) ss})"
  unfolding Let_def by (rule flow_outcome_sessions [OF complete_outcome])

lemma completed_sessions:
  assumes "fst (CompleteBrowserFlow ol w flowID url mg) = Inr view"
  shows "mg_sessions (fst (snd (CompleteBrowserFlow ol w flowID url mg))) =
    Delete (browser_key flowID) (snd (Get (bw_get w) (browser_key flowID) (mg_sessions mg)))"
proof (cases "Get (bw_get w) (browser_key flowID) (mg_sessions mg)")
  case got: (Pair found ss)
  note def = CompleteBrowserFlow_def got Let_def
  obtain raw where raw: "found = Some raw" using assms by (cases found) (simp_all add: def)
  obtain flow where flow: "ol_decode_browser ol raw = Some flow"
    using assms by (cases "ol_decode_browser ol raw") (simp_all add: def raw)
  obtain callback where callback: "parseBrowserCallback ol url = Inr callback"
    using assms by (cases "parseBrowserCallback ol url") (simp_all add: def raw flow split: if_splits)
  obtain tokens where tokens: "bw_tokens w = Inr tokens"
    using assms by (cases "bw_tokens w") (simp_all add: def raw flow callback split: if_splits)
  from assms show ?thesis
    by (simp add: def raw flow callback tokens split_beta connect_success split: if_splits)
qed

text \<open>What reaches the token endpoint when a browser login is completed.\<close>

lemma exchange_sent:
  assumes "x \<in> set (snd (snd (CompleteBrowserFlow ol w flowID url mg)))"
  shows "\<exists>raw flow callback. live (bw_get w) (mg_sessions mg) (browser_key flowID) = Some raw \<and>
    ol_decode_browser ol raw = Some flow \<and> parseBrowserCallback ol url = Inr callback \<and>
    cb_State callback = bf_State flow \<and> x = (cb_Code callback, bf_Verifier flow, browserRedirectURI)"
proof (cases "Get (bw_get w) (browser_key flowID) (mg_sessions mg)")
  case got: (Pair found ss)
  note def = CompleteBrowserFlow_def got Let_def
  obtain raw where raw: "found = Some raw" using assms by (cases found) (simp_all add: def)
  with got get_value [of "bw_get w" "browser_key flowID" "mg_sessions mg"]
  have "live (bw_get w) (mg_sessions mg) (browser_key flowID) = Some raw" by simp
  moreover obtain flow where flow: "ol_decode_browser ol raw = Some flow"
    using assms by (cases "ol_decode_browser ol raw") (simp_all add: def raw)
  moreover obtain callback where callback: "parseBrowserCallback ol url = Inr callback"
    using assms by (cases "parseBrowserCallback ol url") (simp_all add: def raw flow split: if_splits)
  moreover have "cb_State callback = bf_State flow \<and> x = (cb_Code callback, bf_Verifier flow, browserRedirectURI)"
    using assms by (cases "bw_tokens w") (simp_all add: def raw flow callback split_beta split: if_splits)
  ultimately show ?thesis by blast
qed

subsection \<open>Who started a flow\<close>

text \<open>The start of a flow that is still stored at a time.\<close>

definition starts_flow :: "oauth_lib \<Rightarrow> gostring \<Rightarrow> gostring \<Rightarrow> int \<Rightarrow> manager \<Rightarrow> manager_event \<Rightarrow> bool" where
  "starts_flow ol flowID raw t mg e \<longleftrightarrow>
     (case e of
        StartBrowser w \<Rightarrow>
          (\<exists>state verifier start. nth_token w 0 = Inr state \<and> nth_token w 1 = Inr verifier \<and> nth_token w 2 = Inr flowID \<and>
             raw = ol_encode_browser ol \<lparr>bf_State = state, bf_Verifier = verifier, bf_ExpiresAt = (st_now w + minutes 15) div 1000000\<rparr> \<and>
             t < st_put w + minutes 15 \<and> fst (StartBrowserFlow ol w mg) = Inr start \<and> bs_FlowID start = flowID)
      | _ \<Rightarrow> False)"

definition manager_ok :: "manager \<Rightarrow> bool" where
  "manager_ok mg \<longleftrightarrow> ms_inv (mg_sessions mg)"

definition flow_stored :: "gostring \<Rightarrow> gostring \<Rightarrow> int \<Rightarrow> manager \<Rightarrow> bool" where
  "flow_stored flowID raw t mg \<longleftrightarrow> live t (mg_sessions mg) (browser_key flowID) = Some raw"

lemma start_device_sessions:
  "mg_sessions (snd (StartDeviceFlow ol w answer mg)) = mg_sessions mg \<or>
   (\<exists>i v. mg_sessions (snd (StartDeviceFlow ol w answer mg)) = snd (Put (st_put w) (device_key i) v (minutes 15) (mg_sessions mg)))"
  by (cases answer; cases "nth_token w 0")
    (auto simp: StartDeviceFlow_def Let_def split: prod.split option.split, (metis snd_conv)+)

lemma start_browser_sessions:
  "mg_sessions (snd (StartBrowserFlow ol w mg)) = mg_sessions mg \<or>
   (\<exists>state verifier i. nth_token w 0 = Inr state \<and> nth_token w 1 = Inr verifier \<and> nth_token w 2 = Inr i \<and>
     (let raw = ol_encode_browser ol \<lparr>bf_State = state, bf_Verifier = verifier, bf_ExpiresAt = (st_now w + minutes 15) div 1000000\<rparr>;
          r = Put (st_put w) (browser_key i) raw (minutes 15) (mg_sessions mg)
      in mg_sessions (snd (StartBrowserFlow ol w mg)) = snd r \<and>
         (fst r = None \<longrightarrow> (\<exists>start. fst (StartBrowserFlow ol w mg) = Inr start \<and> bs_FlowID start = i))))"
  by (cases "nth_token w 0"; cases "nth_token w 1"; cases "nth_token w 2")
    (auto simp: StartBrowserFlow_def Let_def split: prod.split option.split)

lemma put_other_key:
  "live t (snd (Put now j v ttl ss)) k = Some raw \<Longrightarrow> ms_inv ss \<Longrightarrow> j \<noteq> k \<Longrightarrow> live t ss k = Some raw"
  using put_live_back by metis

lemma delete_account_sessions: "mg_sessions (snd (deleteAccount up mg)) = mg_sessions mg"
  by (simp add: deleteAccount_def split_beta)

lemma quota_sessions: "mg_sessions (snd (store_quota ol up fetchedAt status raw mg)) = mg_sessions mg"
  by (simp add: store_quota_def split: prod.split option.split)

lemmas kept_sessions = import_sessions delete_account_sessions quota_sessions

lemma manager_step_ok: "manager_ok mg \<Longrightarrow> manager_ok (fst (manager_step ol mg e))"
  unfolding manager_ok_def
proof (cases e)
  case (StartDevice w answer)
  assume "ms_inv (mg_sessions mg)"
  with start_device_sessions [of ol w answer mg] StartDevice show "ms_inv (mg_sessions (fst (manager_step ol mg e)))"
    by (auto simp: put_inv)
next
  case (PollDevice w flowID)
  assume "ms_inv (mg_sessions mg)"
  with poll_sessions [of ol w flowID mg] PollDevice show "ms_inv (mg_sessions (fst (manager_step ol mg e)))"
    by (auto simp: Let_def get_inv Delete_inv)
next
  case (StartBrowser w)
  assume "ms_inv (mg_sessions mg)"
  with start_browser_sessions [of ol w mg] StartBrowser show "ms_inv (mg_sessions (fst (manager_step ol mg e)))"
    by (auto simp: Let_def put_inv)
next
  case (CompleteBrowser w flowID url)
  assume "ms_inv (mg_sessions mg)"
  with complete_sessions [of ol w flowID url mg] CompleteBrowser show "ms_inv (mg_sessions (fst (manager_step ol mg e)))"
    by (auto simp: Let_def get_inv Delete_inv)
qed (simp_all add: kept_sessions)

lemma flow_opened:
  assumes "manager_ok mg" "flow_stored flowID raw t (fst (manager_step ol mg e))"
  shows "flow_stored flowID raw t mg \<or> starts_flow ol flowID raw t mg e"
proof (cases e)
  case (StartDevice w answer)
  from assms StartDevice start_device_sessions [of ol w answer mg] show ?thesis
    by (auto simp: flow_stored_def manager_ok_def dest: put_other_key [OF _ _ flow_keys(2)])
next
  case (PollDevice w i)
  from assms PollDevice poll_sessions [of ol w i mg] show ?thesis
    by (auto simp: flow_stored_def Let_def Delete_live dest!: get_live_back split: if_splits)
next
  case (StartBrowser w)
  from start_browser_sessions [of ol w mg] show ?thesis
  proof (elim disjE exE conjE)
    assume "mg_sessions (snd (StartBrowserFlow ol w mg)) = mg_sessions mg"
    with assms StartBrowser show ?thesis by (simp add: flow_stored_def)
  next
    fix state verifier i
    assume tokens: "nth_token w 0 = Inr state" "nth_token w 1 = Inr verifier" "nth_token w 2 = Inr i"
    let ?v = "ol_encode_browser ol \<lparr>bf_State = state, bf_Verifier = verifier, bf_ExpiresAt = (st_now w + minutes 15) div 1000000\<rparr>"
    let ?p = "Put (st_put w) (browser_key i) ?v (minutes 15) (mg_sessions mg)"
    assume "let raw = ?v; r = Put (st_put w) (browser_key i) raw (minutes 15) (mg_sessions mg)
      in mg_sessions (snd (StartBrowserFlow ol w mg)) = snd r \<and>
         (fst r = None \<longrightarrow> (\<exists>start. fst (StartBrowserFlow ol w mg) = Inr start \<and> bs_FlowID start = i))"
    then have ss: "mg_sessions (snd (StartBrowserFlow ol w mg)) = snd ?p"
      and start: "fst ?p = None \<Longrightarrow> \<exists>start. fst (StartBrowserFlow ol w mg) = Inr start \<and> bs_FlowID start = i"
      by (simp_all add: Let_def)
    from assms(2) StartBrowser ss have "live t (snd ?p) (browser_key flowID) = Some raw" by (simp add: flow_stored_def)
    from put_live_back [OF assms(1) [unfolded manager_ok_def] this] start tokens StartBrowser show ?thesis
      by (auto simp: flow_stored_def starts_flow_def)
  qed
next
  case (CompleteBrowser w i url)
  from assms CompleteBrowser complete_sessions [of ol w i url mg] show ?thesis
    by (auto simp: flow_stored_def Let_def Delete_live dest!: get_live_back split: if_splits)
qed (use assms in \<open>simp_all add: flow_stored_def kept_sessions\<close>)

text \<open>
  \<^verbatim>\<open>FetchQuota\<close> stores what it was answered without asking whose quota it is: when another account was connected
  while the request was under way, that account is shown with the quota of the one before it, although \<^verbatim>\<open>SaveAccount\<close>
  had removed that.
\<close>

lemma late_quota_is_shown:
  assumes "GetAccount True (mg_db mg) = Inr account" "ol_valid ol raw"
  shows "\<exists>view. manager_account ol True True (mg_db (snd (store_quota ol True fetchedAt 200 raw mg))) = Inr view
    \<and> vi_AccountID view = ac_account_id account \<and> vi_Quota view = Some raw"
  using assms
  by (cases "db_account (mg_db mg)")
    (simp_all add: GetAccount_def manager_account_def store_quota_def SaveQuota_def GetQuota_def Let_def)

subsection \<open>An instance\<close>

definition part_text :: "gostring \<Rightarrow> gostring" where
  "part_text s = replicate (length s) (CHR ''1'') @ CHR ''0'' # s"

definition unpart :: "gostring \<Rightarrow> gostring \<times> gostring" where
  "unpart t = (let n = length (takeWhile (\<lambda>c. c = CHR ''1'') t) in (take n (drop (Suc n) t), drop (Suc n + n) t))"

definition int_text :: "int \<Rightarrow> gostring" where
  "int_text i = (if i < 0 then CHR ''-'' else CHR ''+'') # replicate (nat \<bar>i\<bar>) (CHR ''1'')"

definition text_int :: "gostring \<Rightarrow> int" where
  "text_int t = (if hd t = CHR ''-'' then - int (length (tl t)) else int (length (tl t)))"

definition sample_oauth :: oauth_lib where
  "sample_oauth = \<lparr>ol_auth = sample_auth, ol_client_name = ''codex-tui'',
     ol_encode_device = (\<lambda>f. part_text (df_DeviceAuthID f) @ part_text (df_UserCode f) @ part_text (int_text (df_ExpiresAt f)) @ int_text (df_Interval f)),
     ol_decode_device = (\<lambda>t. let (a, t1) = unpart t; (u, t2) = unpart t1; (e, i) = unpart t2
       in Some \<lparr>df_DeviceAuthID = a, df_UserCode = u, df_ExpiresAt = text_int e, df_Interval = text_int i\<rparr>),
     ol_encode_browser = (\<lambda>f. part_text (bf_State f) @ part_text (bf_Verifier f) @ int_text (bf_ExpiresAt f)),
     ol_decode_browser = (\<lambda>t. let (s, t1) = unpart t; (v, e) = unpart t1
       in Some \<lparr>bf_State = s, bf_Verifier = v, bf_ExpiresAt = text_int e\<rparr>),
     ol_valid = (\<lambda>t. True), ol_int = (\<lambda>t. None), ol_Atoi = (\<lambda>t. None), ol_tokenCode = (\<lambda>t. None), ol_import = Inl,
     ol_sha256 = rev, ol_fold = id,
     ol_ParseURL = (\<lambda>u. Some \<lparr>cu_Scheme = ''http'', cu_Hostname = ''localhost'', cu_Port = ''1455'',
       cu_EscapedPath = ''/auth/callback'', cu_Query = [(''code'', ''c1''), (''state'', ''YWJj'')], cu_Fragment = []\<rparr>),
     ol_ParseQuery = (\<lambda>t. None), ol_EncodeValues = concat \<circ> map fst, ol_StatusText = (\<lambda>n. []), ol_storage_text = (\<lambda>e. []), ol_cipher_text = (\<lambda>e. [])\<rparr>"

definition sample_start :: start_world where
  "sample_start = \<lparr>st_tokens = [Inr ''abc'', Inr ''abc'', Inr ''abc''], st_now = 0, st_put = 0\<rparr>"

definition sample_complete :: complete_world where
  "sample_complete = \<lparr>bw_get = 0, bw_now = 0, bw_tokens = Inl (AuthError ''down''),
     bw_connect = \<lparr>cw_answered = 0, cw_save = sample_save, cw_up = True, cw_quota_up = True\<rparr>\<rparr>"

lemma unpart_part [simp]: "unpart (part_text s @ t) = (s, t)"
proof -
  have "takeWhile (\<lambda>c. c = CHR ''1'') (replicate (length s) (CHR ''1'') @ CHR ''0'' # s @ t) = replicate (length s) (CHR ''1'')"
    by (subst takeWhile_append2) simp_all
  then show ?thesis by (simp add: unpart_def part_text_def)
qed

lemma text_int [simp]: "text_int (int_text i) = i"
  by (simp add: text_int_def int_text_def)

lemma sample_flows_ok: "flows_ok sample_oauth"
  by (simp add: flows_ok_def sample_oauth_def)

lemma sample_token: "n < 3 \<Longrightarrow> nth_token sample_start n = Inr ''YWJj''"
proof -
  assume "n < 3"
  then have "n = 0 \<or> n = 1 \<or> n = 2" by arith
  then show ?thesis
    by (auto simp: nth_token_def sample_start_def RandomToken_def digit_def sextet_def byte_def RawURLEncoding_def letters_def)
qed

lemma sample_callback:
  "parseBrowserCallback sample_oauth ''url'' =
     Inr \<lparr>cb_Code = ''c1'', cb_State = ''YWJj'', cb_Error = [], cb_ErrorDescription = []\<rparr>"
proof -
  have "TrimSpace ''url'' = ''url''" "TrimSpace ''c1'' = ''c1''" "TrimSpace ''YWJj'' = ''YWJj''" "TrimSpace [] = []"
    by (rule TrimSpace_printable, simp_all add: printable_def)+
  then show ?thesis
    by (simp add: parseBrowserCallback_def sample_oauth_def query_get_def callback_values_def Let_def)
qed

definition sample_login :: browserFlow where
  "sample_login = \<lparr>bf_State = ''YWJj'', bf_Verifier = ''YWJj'', bf_ExpiresAt = 900000\<rparr>"

lemma sample_exchange:
  assumes "Get 0 (browser_key ''YWJj'') (mg_sessions mg) = (Some (ol_encode_browser sample_oauth sample_login), ss)"
  shows "snd (snd (CompleteBrowserFlow sample_oauth sample_complete ''YWJj'' ''url'' mg)) = [(''c1'', ''YWJj'', browserRedirectURI)]"
proof -
  have "ol_decode_browser sample_oauth (ol_encode_browser sample_oauth sample_login) = Some sample_login"
    using sample_flows_ok by (simp add: flows_ok_def)
  moreover have "bf_State sample_login = ''YWJj''" "bf_Verifier sample_login = ''YWJj''" "bf_ExpiresAt sample_login = 900000"
    by (simp_all add: sample_login_def)
  moreover have "bw_get sample_complete = 0" "bw_now sample_complete = 0" "bw_tokens sample_complete = Inl (AuthError ''down'')"
    by (simp_all add: sample_complete_def)
  ultimately show ?thesis using assms
    by (simp add: CompleteBrowserFlow_def sample_callback Let_def)
qed

end
