(* ===== verification/Logging.thy ===== *)
theory Logging
  imports Normalize
begin

text \<open>
  The application log (\<^verbatim>\<open>internal/logging/logging.go\<close>): a handler that writes JSON lines and a handler that keeps the
  newest entries for the console. A record is one of \<^verbatim>\<open>slog\<close>: its time, level and message and its own attributes;
  the JSON handler is the standard library's, whether it can write is an argument. Each call holds the lock.
\<close>

record Entry =
  en_Timestamp :: int
  en_Level :: gostring
  en_Message :: gostring
  en_Fields :: gobj

record Ring =
  ri_entries :: "Entry list"
  ri_limit :: nat

definition new_ring :: Ring where
  "new_ring = \<lparr>ri_entries = [], ri_limit = 500\<rparr>"

definition append_entry :: "Entry \<Rightarrow> Ring \<Rightarrow> Ring" where
  "append_entry e r =
     (if length (ri_entries r) = ri_limit r then r\<lparr>ri_entries := tl (ri_entries r) @ [e]\<rparr>
      else r\<lparr>ri_entries := ri_entries r @ [e]\<rparr>)"

definition ListEntries :: "int \<Rightarrow> Ring \<Rightarrow> Entry list" where
  "ListEntries limit0 r =
     (let limit1 = (if limit0 \<le> 0 \<or> limit0 > int (ri_limit r) then ri_limit r else nat limit0);
          limit = (if limit1 > length (ri_entries r) then length (ri_entries r) else limit1)
      in map (\<lambda>index. ri_entries r ! (length (ri_entries r) - 1 - index)) [0..<limit])"

subsection \<open>Handlers\<close>

record attr =
  at_Key :: gostring
  at_Value :: gj

record log_record =
  lr_Time :: int
  lr_Level :: int
  lr_LevelName :: gostring
  lr_Message :: gostring
  lr_Attrs :: "attr list"

record ringHandler =
  rh_attrs :: "attr list"
  rh_groups :: "gostring list"

definition addAttr :: "gostring list \<Rightarrow> attr \<Rightarrow> gobj \<Rightarrow> gobj" where
  "addAttr groups a entries =
     put (fold (\<lambda>group key. if group \<noteq> [] then group @ ''.'' @ key else key) groups (at_Key a)) (at_Value a) entries"

definition level_enabled :: "int \<Rightarrow> bool" where
  "level_enabled level \<longleftrightarrow> level \<ge> 0"

definition entry_of :: "ringHandler \<Rightarrow> log_record \<Rightarrow> Entry" where
  "entry_of h rec =
     \<lparr>en_Timestamp = lr_Time rec, en_Level = lr_LevelName rec, en_Message = lr_Message rec,
      en_Fields = fold (addAttr (rh_groups h)) (lr_Attrs rec) (fold (addAttr (rh_groups h)) (rh_attrs h) [])\<rparr>"

definition ring_handle :: "ringHandler \<Rightarrow> log_record \<Rightarrow> Ring \<Rightarrow> Ring" where
  "ring_handle h rec = append_entry (entry_of h rec)"

datatype log_handler = JSONHandler | RingHandler ringHandler

text \<open>\<^verbatim>\<open>teeHandler.Handle\<close>: the ring, and the error of the first handler that fails.\<close>

fun tee_handle :: "gostring option \<Rightarrow> log_handler list \<Rightarrow> log_record \<Rightarrow> Ring \<Rightarrow> Ring \<times> gostring option" where
  "tee_handle write_error [] rec r = (r, None)"
| "tee_handle write_error (JSONHandler # hs) rec r =
     (if level_enabled (lr_Level rec) \<and> write_error \<noteq> None then (r, write_error) else tee_handle write_error hs rec r)"
| "tee_handle write_error (RingHandler h # hs) rec r =
     tee_handle write_error hs rec (if level_enabled (lr_Level rec) then ring_handle h rec r else r)"

definition WithAttrs :: "attr list \<Rightarrow> log_handler list \<Rightarrow> log_handler list" where
  "WithAttrs attrs = map (\<lambda>h. case h of RingHandler g \<Rightarrow> RingHandler (g\<lparr>rh_attrs := rh_attrs g @ attrs\<rparr>) | JSONHandler \<Rightarrow> JSONHandler)"

definition WithGroup :: "gostring \<Rightarrow> log_handler list \<Rightarrow> log_handler list" where
  "WithGroup name = map (\<lambda>h. case h of RingHandler g \<Rightarrow> RingHandler (g\<lparr>rh_groups := rh_groups g @ [name]\<rparr>) | JSONHandler \<Rightarrow> JSONHandler)"

definition new_logger :: "log_handler list" where
  "new_logger = [JSONHandler, RingHandler \<lparr>rh_attrs = [], rh_groups = []\<rparr>]"

subsection \<open>The ring is the end of the log\<close>

definition ring_of :: "Entry list \<Rightarrow> Ring \<Rightarrow> bool" where
  "ring_of log r \<longleftrightarrow> ri_limit r = 500 \<and> ri_entries r = drop (length log - 500) log"

lemma ring_append: "ring_of log r \<Longrightarrow> ring_of (log @ [e]) (append_entry e r)"
proof -
  assume r: "ring_of log r"
  show ?thesis
  proof (cases "length log < 500")
    case True
    with r show ?thesis by (simp add: ring_of_def append_entry_def)
  next
    case False
    then have "length log + 1 - 500 = Suc (length log - 500)" by simp
    with r False show ?thesis by (simp add: ring_of_def append_entry_def drop_Suc tl_drop)
  qed
qed

lemma ring_appends: "ring_of log r \<Longrightarrow> ring_of (log @ es) (fold append_entry es r)"
proof (induction es arbitrary: log r)
  case (Cons e es)
  from Cons.IH [OF ring_append [OF Cons.prems]] show ?case by simp
qed simp

lemma new_ring_of: "ring_of [] new_ring"
  by (simp add: ring_of_def new_ring_def)

lemma map_rev_nth: "n \<le> length xs \<Longrightarrow> map (\<lambda>i. xs ! (length xs - 1 - i)) [0..<n] = take n (rev xs)"
  by (rule nth_equalityI) (simp_all add: rev_nth)

lemma list_ring:
  assumes "ring_of log r"
  shows "ListEntries n r = take (if n \<le> 0 \<or> n > 500 then 500 else nat n) (rev log)"
proof -
  let ?es = "drop (length log - 500) log"
  define k where "k = (if n \<le> 0 \<or> n > 500 then 500 else nat n)"
  have es: "rev ?es = take 500 (rev log)"
    by (cases "length log \<le> 500") (simp_all add: rev_drop)
  have "ListEntries n r = take (min k (length ?es)) (rev ?es)"
    using assms map_rev_nth [of "min k (length ?es)" ?es] by (auto simp: ListEntries_def ring_of_def Let_def k_def min_def)
  also have "\<dots> = take k (rev ?es)" by (simp add: min_def)
  also have "\<dots> = take k (rev log)" unfolding es by (auto simp: k_def min_def)
  finally show ?thesis by (simp add: k_def)
qed

subsection \<open>Loggers\<close>

text \<open>A logger made of the one \<^verbatim>\<open>New\<close> returns has both handlers, the second with some attributes and groups.\<close>

inductive logger :: "log_handler list \<Rightarrow> ringHandler \<Rightarrow> bool" where
  "logger new_logger \<lparr>rh_attrs = [], rh_groups = []\<rparr>"
| "logger hs h \<Longrightarrow> logger (WithAttrs attrs hs) (h\<lparr>rh_attrs := rh_attrs h @ attrs\<rparr>)"
| "logger hs h \<Longrightarrow> logger (WithGroup name hs) (h\<lparr>rh_groups := rh_groups h @ [name]\<rparr>)"

lemma logger_handlers: "logger hs h \<Longrightarrow> hs = [JSONHandler, RingHandler h]"
  by (induction rule: logger.induct) (simp_all add: new_logger_def WithAttrs_def WithGroup_def)

record log_call =
  lc_write_error :: "gostring option"
  lc_handlers :: "log_handler list"
  lc_ring :: ringHandler
  lc_record :: log_record

definition call_log :: "log_call \<Rightarrow> Ring \<Rightarrow> Ring" where
  "call_log c r = fst (tee_handle (lc_write_error c) (lc_handlers c) (lc_record c) r)"

definition logged :: "log_call \<Rightarrow> bool" where
  "logged c \<longleftrightarrow> level_enabled (lr_Level (lc_record c)) \<and> lc_write_error c = None"

lemma call_log_eq:
  "logger (lc_handlers c) (lc_ring c) \<Longrightarrow>
     call_log c r = (if logged c then append_entry (entry_of (lc_ring c) (lc_record c)) r else r)"
  by (drule logger_handlers) (simp add: call_log_def logged_def ring_handle_def)

text \<open>
  The log view refines the whole log: whatever was logged through whatever loggers, a list of the ring is the newest entries
  of all that were written at level Info or above, newest first, at most 500 of them and at most as many as were asked for.
\<close>

lemma ring_is_end_of_log:
  assumes "list_all (\<lambda>c. logger (lc_handlers c) (lc_ring c)) calls"
  shows "ListEntries n (fold call_log calls new_ring) =
    take (if n \<le> 0 \<or> n > 500 then 500 else nat n) (rev (map (\<lambda>c. entry_of (lc_ring c) (lc_record c)) (filter logged calls)))"
proof -
  have "ring_of (log @ map (\<lambda>c. entry_of (lc_ring c) (lc_record c)) (filter logged calls)) (fold call_log calls r)"
    if "ring_of log r" for log r
    using assms that
  proof (induction calls arbitrary: log r)
    case (Cons c calls)
    from Cons.prems have "logger (lc_handlers c) (lc_ring c)" by simp
    note c = call_log_eq [OF this, of r]
    from Cons.IH [of "if logged c then log @ [entry_of (lc_ring c) (lc_record c)] else log" "call_log c r"] Cons.prems ring_append c
    show ?case by (auto split: if_splits)
  qed simp
  from list_ring [OF this [OF new_ring_of]] show ?thesis by simp
qed

definition sample_logged :: "gostring \<Rightarrow> log_call" where
  "sample_logged m = \<lparr>lc_write_error = None, lc_handlers = new_logger, lc_ring = \<lparr>rh_attrs = [], rh_groups = []\<rparr>,
     lc_record = \<lparr>lr_Time = 7, lr_Level = 0, lr_LevelName = ''INFO'', lr_Message = m, lr_Attrs = []\<rparr>\<rparr>"

lemma ring_is_end_of_log_witness:
  "map en_Message (ListEntries 1 (fold call_log [sample_logged ''a'', sample_logged ''b''] new_ring)) = [''b'']"
proof -
  have "list_all (\<lambda>c. logger (lc_handlers c) (lc_ring c)) [sample_logged ''a'', sample_logged ''b'']"
    by (simp add: sample_logged_def logger.intros)
  from ring_is_end_of_log [OF this, of 1] show ?thesis
    by (simp add: sample_logged_def logged_def level_enabled_def entry_of_def)
qed

text \<open>The groups of an attribute are joined from the inside out, the other way round than \<^verbatim>\<open>slog\<close> nests them.\<close>

lemma nested_groups_reversed:
  "addAttr [''outer'', ''inner''] \<lparr>at_Key = ''key'', at_Value = v\<rparr> [] = [(''inner.outer.key'', v)]"
  by (simp add: addAttr_def)

end
