(* ===== verification/AdminAuth.thy ===== *)
theory AdminAuth
  imports LoginLimiter OAuthFlows Logging
begin

text \<open>
  \<^verbatim>\<open>internal/security/secret.go\<close>, the middleware of \<^verbatim>\<open>internal/web/middleware.go\<close> and the
  handlers of \<^verbatim>\<open>internal/web/admin.go\<close> that sign in, sign out, change the password and
  manage API keys. SHA-256 (as hexadecimal text), bcrypt's comparison, \<^verbatim>\<open>url.Parse\<close> and
  Unicode case folding, and what the Codex account needs, are fields of \<open>library\<close>; what is random (a token, a salted hash)
  and the readings of the clock are arguments of the call that uses them.
\<close>

subsection \<open>The library\<close>

record library =
  lb_sha256hex :: "gostring \<Rightarrow> gostring"
  lb_bcrypt_ok :: "gostring \<Rightarrow> gostring \<Rightarrow> bool"
  lb_parse_url :: "gostring \<Rightarrow> (gostring \<times> gostring) option"
  lb_fold :: "gostring \<Rightarrow> gostring"
  lb_oauth :: oauth_lib

definition EqualFold :: "library \<Rightarrow> gostring \<Rightarrow> gostring \<Rightarrow> bool" where
  "EqualFold lb a b \<longleftrightarrow> lb_fold lb a = lb_fold lb b"

subsection \<open>Secrets\<close>

definition HashSecret :: "library \<Rightarrow> gostring \<Rightarrow> gostring" where
  "HashSecret lb val = lb_sha256hex lb val"

definition CheckPassword :: "library \<Rightarrow> gostring \<Rightarrow> gostring \<Rightarrow> bool" where
  "CheckPassword lb hash password = lb_bcrypt_ok lb hash password"

definition ValidatePassword :: "gostring \<Rightarrow> gostring option" where
  "ValidatePassword password =
     (if length (TrimSpace password) < 12 then Some ''password must contain at least 12 characters''
      else if length password > 256 then Some ''password is too long''
      else None)"

text \<open>\<open>generated\<close> is what bcrypt makes of the password: an error text or a salted hash.\<close>

definition HashPassword :: "gostring + gostring \<Rightarrow> gostring \<Rightarrow> gostring + gostring" where
  "HashPassword generated password =
     (case ValidatePassword password of Some e \<Rightarrow> Inl e | None \<Rightarrow> generated)"

definition NewAPIKey :: "library \<Rightarrow> gostring option \<Rightarrow> (gostring \<times> gostring \<times> gostring) option" where
  "NewAPIKey lb token =
     (case token of None \<Rightarrow> None
      | Some tk \<Rightarrow>
          let plain = ''sk-codexone-'' @ tk;
              pre = (if length plain > 20 then take 20 plain else plain)
          in Some (plain, pre, HashSecret lb plain))"

subsection \<open>The server and its replies\<close>

record server_config =
  sc_session_ttl :: int
  sc_public_url :: gostring
  sc_storage_driver :: gostring
  sc_client_version :: gostring

record server =
  sv_db :: database
  sv_sessions :: memoryStore
  sv_login :: limiter

datatype body =
    ErrorBody gostring gostring
  | AuthenticatedBody bool
  | SessionBody bool gostring gostring gostring gostring
  | UpdatedBody
  | KeysBody "StoredKey list"
  | NewKeyBody StoredKey gostring
  | LogsBody "Logging.Entry list"
  | AccountBody AccountView
  | DeviceBody DeviceStart
  | StatusBody device_status
  | BrowserBody BrowserStart
  | QuotaBody gostring int
  | NoBody
  | OtherBody

record reply =
  rp_status :: int
  rp_body :: body
  rp_cookie :: "(gostring \<times> int) option"
  rp_retry_after :: "int option"

definition writeJSON :: "int \<Rightarrow> body \<Rightarrow> reply" where
  "writeJSON status b = \<lparr>rp_status = status, rp_body = b, rp_cookie = None, rp_retry_after = None\<rparr>"

definition writeError :: "int \<Rightarrow> gostring \<Rightarrow> gostring \<Rightarrow> reply" where
  "writeError status code message = writeJSON status (ErrorBody code message)"

text \<open>What the JSON decoder makes of a request body.\<close>

datatype 'a decoded = TooLarge | InvalidJSON | TooLargeAfter | TrailingData | Decoded 'a

definition decodeJSON :: "'a decoded \<Rightarrow> reply + 'a" where
  "decodeJSON d =
     (let too_large = writeError 413 ''request_too_large'' ''request body exceeds the 2 MiB limit''
      in case d of
           TooLarge \<Rightarrow> Inl too_large
         | InvalidJSON \<Rightarrow> Inl (writeError 400 ''invalid_json'' ''request body is invalid'')
         | TooLargeAfter \<Rightarrow> Inl too_large
         | TrailingData \<Rightarrow> Inl (writeError 400 ''invalid_json'' ''request body must contain one JSON value'')
         | Decoded v \<Rightarrow> Inr v)"

subsection \<open>Sessions of the administrator\<close>

definition adminPasswordSetting :: gostring where
  "adminPasswordSetting = ''admin_password_hash''"

definition session_key :: "library \<Rightarrow> gostring \<Rightarrow> gostring" where
  "session_key lb token = ''admin:'' @ HashSecret lb token"

definition adminSessionValue :: "library \<Rightarrow> gostring \<Rightarrow> gostring" where
  "adminSessionValue lb passwordHash = ''authenticated:'' @ HashSecret lb passwordHash"

definition adminSessionAuthenticated ::
  "library \<Rightarrow> int \<Rightarrow> bool \<Rightarrow> gostring \<Rightarrow> server \<Rightarrow> (db_error + bool) \<times> server" where
  "adminSessionAuthenticated lb now up token sv =
     (let (found, ss) = Get now (session_key lb token) (sv_sessions sv);
          sv1 = sv\<lparr>sv_sessions := ss\<rparr>
      in case found of
           None \<Rightarrow> (Inr False, sv1)
         | Some val \<Rightarrow>
             (case GetSetting up adminPasswordSetting (sv_db sv) of
                Inl e \<Rightarrow> (if IsNotFound e then Inr False else Inl e, sv1)
              | Inr passwordHash \<Rightarrow> (Inr (val = adminSessionValue lb passwordHash), sv1)))"

text \<open>\<^verbatim>\<open>int(d.Seconds())\<close>, which drops the fraction.\<close>

definition whole_seconds :: "int \<Rightarrow> int" where
  "whole_seconds d = sgn d * (\<bar>d\<bar> div 1000000000)"

text \<open>The handlers, up to the reading of the clock (in nanoseconds) and what is random.\<close>

record sign_in =
  in_address :: gostring
  in_asked :: int
  in_until :: int
  in_failed :: int
  in_stored :: int
  in_body :: "gostring decoded"
  in_up :: bool
  in_token :: "gostring option"

definition loginHandler :: "library \<Rightarrow> server_config \<Rightarrow> sign_in \<Rightarrow> server \<Rightarrow> reply \<times> server" where
  "loginHandler lb sc i sv =
     (let ((allowed, wait), l1) = Allow (in_asked i) (in_until i) (in_address i) (sv_login sv);
          sv1 = sv\<lparr>sv_login := l1\<rparr>
      in if \<not> allowed
         then ((writeError 429 ''login_blocked'' ''too many failed attempts'')\<lparr>rp_retry_after := Some wait\<rparr>, sv1)
         else case decodeJSON (in_body i) of
           Inl r \<Rightarrow> (r, sv1)
         | Inr password \<Rightarrow>
             (case GetSetting (in_up i) adminPasswordSetting (sv_db sv1) of
                Inl e \<Rightarrow> (writeError 503 ''authentication_unavailable'' ''authentication storage is unavailable'', sv1)
              | Inr hash \<Rightarrow>
                  if \<not> CheckPassword lb hash password
                  then (writeError 401 ''invalid_password'' ''password is incorrect'',
                        sv1\<lparr>sv_login := Failure (in_failed i) (in_address i) (sv_login sv1)\<rparr>)
                  else (case in_token i of
                     None \<Rightarrow> (writeError 500 ''session_failed'' ''could not create session'', sv1)
                   | Some token \<Rightarrow>
                       (case Put (in_stored i) (session_key lb token) (adminSessionValue lb hash)
                           (sc_session_ttl sc) (sv_sessions sv1) of
                          (Some e, ss) \<Rightarrow>
                            (writeError 500 ''session_failed'' ''could not store session'', sv1\<lparr>sv_sessions := ss\<rparr>)
                        | (None, ss) \<Rightarrow>
                            ((writeJSON 200 (AuthenticatedBody True))
                               \<lparr>rp_cookie := Some (token, whole_seconds (sc_session_ttl sc))\<rparr>,
                             sv1\<lparr>sv_sessions := ss, sv_login := Success (in_address i) (sv_login sv1)\<rparr>)))))"

text \<open>The argument is the cookie of the request, \<open>None\<close> where it has none.\<close>

definition logoutHandler :: "library \<Rightarrow> gostring option \<Rightarrow> server \<Rightarrow> reply \<times> server" where
  "logoutHandler lb cookie sv =
     ((writeJSON 200 (AuthenticatedBody False))\<lparr>rp_cookie := Some ([], -1)\<rparr>,
      case cookie of None \<Rightarrow> sv
      | Some token \<Rightarrow> sv\<lparr>sv_sessions := Delete (session_key lb token) (sv_sessions sv)\<rparr>)"

record password_change =
  pc_body :: "(gostring \<times> gostring) decoded"
  pc_up_read :: bool
  pc_generated :: "gostring + gostring"
  pc_up_write :: bool
  pc_now :: int

definition changePassword :: "library \<Rightarrow> password_change \<Rightarrow> server \<Rightarrow> reply \<times> server" where
  "changePassword lb c sv =
     (case decodeJSON (pc_body c) of
        Inl r \<Rightarrow> (r, sv)
      | Inr (current, next_password) \<Rightarrow>
          (let wrong = (writeError 401 ''invalid_password'' ''current password is incorrect'', sv)
           in case GetSetting (pc_up_read c) adminPasswordSetting (sv_db sv) of
                Inl e \<Rightarrow> wrong
              | Inr currentHash \<Rightarrow>
                  if \<not> CheckPassword lb currentHash current then wrong
                  else (case HashPassword (pc_generated c) next_password of
                     Inl e \<Rightarrow> (writeError 400 ''weak_password'' e, sv)
                   | Inr nextHash \<Rightarrow>
                       (case SetSetting (pc_up_write c) adminPasswordSetting nextHash (pc_now c) (sv_db sv) of
                          (Some e, db) \<Rightarrow>
                            (writeError 500 ''password_update_failed'' ''could not update password'',
                             sv\<lparr>sv_db := db\<rparr>)
                        | (None, db) \<Rightarrow> (writeJSON 200 UpdatedBody, sv\<lparr>sv_db := db\<rparr>)))))"

definition authSession ::
  "library \<Rightarrow> server_config \<Rightarrow> int \<Rightarrow> bool \<Rightarrow> gostring option \<Rightarrow> gostring \<Rightarrow> server \<Rightarrow> reply \<times> server" where
  "authSession lb sc now up cookie today sv =
     (let (authenticated, sv1) =
        (case cookie of
           None \<Rightarrow> (Inr False, sv)
         | Some token \<Rightarrow> if token = [] then (Inr False, sv) else adminSessionAuthenticated lb now up token sv)
      in case authenticated of
           Inl e \<Rightarrow> (writeError 503 ''authentication_unavailable'' ''authentication storage is unavailable'', sv1)
         | Inr a \<Rightarrow>
             (writeJSON 200 (SessionBody a (sc_public_url sc @ ''/v1'') (sc_storage_driver sc)
                (''codex-tui/'' @ sc_client_version sc) today), sv1))"

subsection \<open>API keys\<close>

record key_request =
  kq_body :: "gostring decoded"
  kq_secret :: "gostring option"
  kq_id :: "gostring option"
  kq_now :: int
  kq_up :: bool

definition createAPIKey :: "library \<Rightarrow> key_request \<Rightarrow> server \<Rightarrow> reply \<times> server" where
  "createAPIKey lb q sv =
     (case decodeJSON (kq_body q) of
        Inl r \<Rightarrow> (r, sv)
      | Inr raw \<Rightarrow>
          (let name = TrimSpace raw;
               failed = (writeError 500 ''key_failed'' ''could not generate API key'', sv)
           in if name = [] \<or> length name > 64
              then (writeError 400 ''invalid_name'' ''name must contain 1 to 64 characters'', sv)
              else case NewAPIKey lb (kq_secret q) of
                None \<Rightarrow> failed
              | Some (plain, pre, hash) \<Rightarrow>
                  (case kq_id q of
                     None \<Rightarrow> failed
                   | Some i \<Rightarrow>
                       (let key = \<lparr>dk_id = ''key_'' @ i, dk_name = name, dk_hash = hash, dk_prefix = pre,
                              dk_created_at = kq_now q, dk_last_used_at = None, dk_revoked_at = None\<rparr>
                        in case CreateAPIKey (kq_up q) key (sv_db sv) of
                             (Some e, db) \<Rightarrow> (writeError 500 ''key_failed'' ''could not save API key'', sv\<lparr>sv_db := db\<rparr>)
                           | (None, db) \<Rightarrow> (writeJSON 201 (NewKeyBody key plain), sv\<lparr>sv_db := db\<rparr>)))))"

definition listAPIKeys :: "bool \<Rightarrow> server \<Rightarrow> reply \<times> server" where
  "listAPIKeys up sv =
     (case ListAPIKeys up (sv_db sv) of
        Inl e \<Rightarrow> (writeError 500 ''keys_failed'' ''could not load API keys'', sv)
      | Inr keys \<Rightarrow> (writeJSON 200 (KeysBody keys), sv))"

definition revokeAPIKey :: "gostring \<Rightarrow> int \<Rightarrow> bool \<Rightarrow> server \<Rightarrow> reply \<times> server" where
  "revokeAPIKey key_id now up sv =
     (if \<not> has_prefix key_id ''key_'' then (writeError 400 ''invalid_key'' ''API key ID is invalid'', sv)
      else case RevokeAPIKey up key_id now (sv_db sv) of
        (Inl e, db) \<Rightarrow> (writeError 500 ''key_failed'' ''could not revoke API key'', sv\<lparr>sv_db := db\<rparr>)
      | (Inr revoked, db) \<Rightarrow>
          if \<not> revoked
          then (writeError 404 ''key_not_found'' ''API key was not found or already revoked'', sv\<lparr>sv_db := db\<rparr>)
          else (writeJSON 204 NoBody, sv\<lparr>sv_db := db\<rparr>))"

subsection \<open>Middleware\<close>

text \<open>
  A request as the middleware sees it: a header that is not there is the empty string. The
  handlers behind a middleware are its argument.
\<close>

record request =
  rq_method :: gostring
  rq_cookie :: "gostring option"
  rq_origin :: gostring
  rq_x_api_key :: gostring
  rq_authorization :: gostring

type_synonym handler = "server \<Rightarrow> reply \<times> server"

definition requireAdmin :: "library \<Rightarrow> int \<Rightarrow> bool \<Rightarrow> request \<Rightarrow> handler \<Rightarrow> handler" where
  "requireAdmin lb now up r next_handler sv =
     (case rq_cookie r of
        None \<Rightarrow> (writeError 401 ''unauthorized'' ''sign in required'', sv)
      | Some token \<Rightarrow>
          if token = [] then (writeError 401 ''unauthorized'' ''sign in required'', sv)
          else (case adminSessionAuthenticated lb now up token sv of
             (Inl e, sv1) \<Rightarrow>
               (writeError 503 ''authentication_unavailable'' ''authentication storage is unavailable'', sv1)
           | (Inr authenticated, sv1) \<Rightarrow>
               if \<not> authenticated then (writeError 401 ''unauthorized'' ''session expired'', sv1)
               else next_handler sv1))"

definition checkOrigin :: "library \<Rightarrow> server_config \<Rightarrow> request \<Rightarrow> handler \<Rightarrow> handler" where
  "checkOrigin lb sc r next_handler sv =
     (if rq_method r = ''GET'' \<or> rq_method r = ''HEAD'' \<or> rq_method r = ''OPTIONS'' then next_handler sv
      else
        (let origin = TrimSpace (rq_origin r)
         in if origin = [] then next_handler sv
            else case (lb_parse_url lb origin, lb_parse_url lb (sc_public_url sc)) of
              (Some (scheme, host), Some (public_scheme, public_host)) \<Rightarrow>
                if \<not> EqualFold lb scheme public_scheme \<or> \<not> EqualFold lb host public_host
                then (writeError 403 ''origin_rejected'' ''request origin is not allowed'', sv)
                else next_handler sv
            | _ \<Rightarrow> (writeError 403 ''origin_rejected'' ''request origin is not allowed'', sv)))"

definition provided_key :: "request \<Rightarrow> gostring" where
  "provided_key r =
     (let authorization = TrimSpace (rq_authorization r)
      in if has_prefix (map lower_char authorization) ''bearer '' then TrimSpace (drop 7 authorization)
         else TrimSpace (rq_x_api_key r))"

text \<open>The handler behind \<^verbatim>\<open>requireAPIKey\<close> finds the key in its context; OPTIONS has none.\<close>

definition requireAPIKey ::
  "library \<Rightarrow> int \<Rightarrow> bool \<Rightarrow> bool \<Rightarrow> request \<Rightarrow> (StoredKey option \<Rightarrow> handler) \<Rightarrow> handler" where
  "requireAPIKey lb now up up_touch r next_handler sv =
     (if rq_method r = ''OPTIONS'' then next_handler None sv
      else
        (let provided = provided_key r
         in if provided = [] then (writeError 401 ''invalid_api_key'' ''API key is required'', sv)
            else case FindActiveAPIKeyByHash up (HashSecret lb provided) (sv_db sv) of
              Inl e \<Rightarrow>
                if IsNotFound e
                then (writeError 401 ''invalid_api_key'' ''API key is invalid or revoked'', sv)
                else (writeError 503 ''database_unavailable'' ''API key storage is unavailable'', sv)
            | Inr key \<Rightarrow>
                next_handler (Some key)
                  (sv\<lparr>sv_db := snd (TouchAPIKey up_touch (dk_id key) now (sv_db sv))\<rparr>)))"

text \<open>
  The password rule counts bytes: four characters of three bytes each pass a rule that
  promises at least twelve characters.
\<close>

lemma four_characters_accepted:
  "ValidatePassword (map char_of [0xE4 :: nat, 0xB8, 0xAD, 0xE4, 0xB8, 0xAD, 0xE4, 0xB8, 0xAD, 0xE4, 0xB8, 0xAD]) =
     None"
proof -
  let ?s = "map char_of [0xE4 :: nat, 0xB8, 0xAD, 0xE4, 0xB8, 0xAD, 0xE4, 0xB8, 0xAD, 0xE4, 0xB8, 0xAD] :: gostring"
  have "TrimSpace ?s = ?s" by (rule TrimSpace_id) (simp_all add: space_codes_ends)
  then show ?thesis by (simp only: ValidatePassword_def) simp
qed

end
