(* ===== verification/AccountHandlers.thy ===== *)
theory AccountHandlers
  imports AdminAuth
begin

text \<open>
  The handlers of \<^verbatim>\<open>internal/web/admin.go\<close> behind the account page of the console and the log view. They work on the
  sessions and the database of the server through the operations of \<open>OAuthFlows\<close>; each is therefore a run of the
  manager's own events.
\<close>

subsection \<open>Handlers\<close>

definition manager_of :: "server \<Rightarrow> manager" where
  "manager_of sv = \<lparr>mg_sessions = sv_sessions sv, mg_db = sv_db sv\<rparr>"

definition with_manager :: "server \<Rightarrow> manager \<Rightarrow> server" where
  "with_manager sv mg = sv\<lparr>sv_sessions := mg_sessions mg, sv_db := mg_db mg\<rparr>"

definition applicationLogs :: "Ring \<Rightarrow> handler" where
  "applicationLogs ring sv = (writeJSON 200 (LogsBody (ListEntries 300 ring)), sv)"

definition account_view :: "oauth_lib \<Rightarrow> bool \<Rightarrow> bool \<Rightarrow> handler" where
  "account_view ol up quota_up sv =
     (case manager_account ol up quota_up (sv_db sv) of
        Inl e \<Rightarrow> (writeError 500 ''account_failed'' ''could not load account'', sv)
      | Inr view \<Rightarrow> (writeJSON 200 (AccountBody view), sv))"

definition delete_account_handler :: "bool \<Rightarrow> handler" where
  "delete_account_handler up sv =
     (let (err, mg) = deleteAccount up (manager_of sv)
      in (case err of
            Some e \<Rightarrow> writeError 500 ''account_delete_failed'' ''could not disconnect account''
          | None \<Rightarrow> writeJSON 204 NoBody, with_manager sv mg))"

definition startDeviceLogin :: "oauth_lib \<Rightarrow> start_world \<Rightarrow> auth_error + device_reply \<Rightarrow> handler" where
  "startDeviceLogin ol w answer sv =
     (let (flow, mg) = StartDeviceFlow ol w answer (manager_of sv)
      in (case flow of
            Inl e \<Rightarrow> writeError 502 ''device_login_failed'' (error_message ol e)
          | Inr f \<Rightarrow> writeJSON 200 (DeviceBody f), with_manager sv mg))"

definition invalid_flow :: "gostring \<Rightarrow> bool" where
  "invalid_flow flowID \<longleftrightarrow> length flowID < 16 \<or> length flowID > 128"

definition pollDeviceLogin :: "oauth_lib \<Rightarrow> poll_world \<Rightarrow> gostring \<Rightarrow> handler" where
  "pollDeviceLogin ol w flowID sv =
     (if invalid_flow flowID then (writeError 400 ''invalid_flow'' ''device login flow is invalid'', sv)
      else (let (status, mg, sent) = PollDeviceFlow ol w flowID (manager_of sv)
            in (case status of
                  Inl e \<Rightarrow> writeError 502 ''device_login_failed'' (error_message ol e)
                | Inr s \<Rightarrow> writeJSON 200 (StatusBody s), with_manager sv mg)))"

definition startBrowserLogin :: "oauth_lib \<Rightarrow> start_world \<Rightarrow> handler" where
  "startBrowserLogin ol w sv =
     (let (flow, mg) = StartBrowserFlow ol w (manager_of sv)
      in (case flow of
            Inl e \<Rightarrow> writeError 500 ''browser_login_failed'' ''could not start browser login''
          | Inr f \<Rightarrow> writeJSON 200 (BrowserBody f), with_manager sv mg))"

definition completeBrowserLogin :: "oauth_lib \<Rightarrow> complete_world \<Rightarrow> gostring \<Rightarrow> gostring decoded \<Rightarrow> handler" where
  "completeBrowserLogin ol w flowID received sv =
     (if invalid_flow flowID then (writeError 400 ''invalid_flow'' ''browser login flow is invalid'', sv)
      else (case decodeJSON received of
              Inl r \<Rightarrow> (r, sv)
            | Inr callbackURL \<Rightarrow>
                (let (view, mg, sent) = CompleteBrowserFlow ol w flowID callbackURL (manager_of sv)
                 in (case view of
                       Inl (BrowserOAuthInput t) \<Rightarrow> writeError 400 ''invalid_callback'' t
                     | Inl e \<Rightarrow> writeError 502 ''browser_login_failed'' (error_message ol e)
                     | Inr v \<Rightarrow> writeJSON 200 (AccountBody v), with_manager sv mg))))"

definition importAccount :: "oauth_lib \<Rightarrow> connect_world \<Rightarrow> gostring decoded \<Rightarrow> handler" where
  "importAccount ol w received sv =
     (case decodeJSON received of
        Inl r \<Rightarrow> (r, sv)
      | Inr content \<Rightarrow>
          (let (view, mg) = ImportAuthJSON ol w content (manager_of sv)
           in (case view of
                 Inl e \<Rightarrow> writeError 400 ''import_failed'' (error_message ol e)
               | Inr v \<Rightarrow> writeJSON 200 (AccountBody v), with_manager sv mg)))"

definition refreshQuota :: "oauth_lib \<Rightarrow> quota_world \<Rightarrow> handler" where
  "refreshQuota ol w sv =
     (let (quota, mg) = FetchQuota ol w (manager_of sv)
      in (case quota of
            Inl e \<Rightarrow> writeError 502 ''quota_failed'' (error_message ol e)
          | Inr (raw, fetchedAt) \<Rightarrow> writeJSON 200 (QuotaBody raw fetchedAt), with_manager sv mg))"

subsection \<open>One account request\<close>

datatype account_call =
    ShowLogs Ring
  | ShowAccount bool bool
  | DisconnectAccount bool
  | StartDeviceLogin start_world "auth_error + device_reply"
  | PollDeviceLogin poll_world gostring
  | StartBrowserLogin start_world
  | CompleteBrowserLogin complete_world gostring "gostring decoded"
  | ImportAccount connect_world "gostring decoded"
  | RefreshQuota quota_world

fun account_handler :: "oauth_lib \<Rightarrow> account_call \<Rightarrow> handler" where
  "account_handler ol (ShowLogs ring) = applicationLogs ring"
| "account_handler ol (ShowAccount up quota_up) = account_view ol up quota_up"
| "account_handler ol (DisconnectAccount up) = delete_account_handler up"
| "account_handler ol (StartDeviceLogin w answer) = startDeviceLogin ol w answer"
| "account_handler ol (PollDeviceLogin w flowID) = pollDeviceLogin ol w flowID"
| "account_handler ol (StartBrowserLogin w) = startBrowserLogin ol w"
| "account_handler ol (CompleteBrowserLogin w flowID received) = completeBrowserLogin ol w flowID received"
| "account_handler ol (ImportAccount w received) = importAccount ol w received"
| "account_handler ol (RefreshQuota w) = refreshQuota ol w"

text \<open>An event that a request can cause; only the request for a browser login starts one.\<close>

definition event_of :: "account_call \<Rightarrow> manager_event \<Rightarrow> bool" where
  "event_of c e \<longleftrightarrow> (case e of StartBrowser w \<Rightarrow> c = StartBrowserLogin w | _ \<Rightarrow> True)"

lemma with_manager_of [simp]:
  "manager_of (with_manager sv mg) = mg" "sv_login (with_manager sv mg) = sv_login sv" "with_manager sv (manager_of sv) = sv"
  by (simp_all add: manager_of_def with_manager_def)

lemma own_run_one: "event_of c e \<Longrightarrow> mg' = fst (manager_step ol mg e) \<Longrightarrow>
    \<exists>es. list_all (event_of c) es \<and> mg' = final (manager_step ol) mg es"
  by (intro exI [of _ "[e]"]) simp

lemma own_run_none: "\<exists>es. list_all (event_of c) es \<and> mg = final (manager_step ol) mg es"
  by (intro exI [of _ "[]"]) simp

lemma account_is_run:
  "\<exists>es. list_all (event_of c) es \<and> manager_of (snd (account_handler ol c sv)) = final (manager_step ol) (manager_of sv) es"
proof (cases c)
  case (DisconnectAccount up)
  then show ?thesis
    by (intro own_run_one [where e = "Disconnect up"]) (simp_all add: event_of_def delete_account_handler_def split_beta)
next
  case (StartDeviceLogin w answer)
  then show ?thesis
    by (intro own_run_one [where e = "StartDevice w answer"]) (simp_all add: event_of_def startDeviceLogin_def split_beta)
next
  case (PollDeviceLogin w flowID)
  show ?thesis
  proof (cases "invalid_flow flowID")
    case True
    with PollDeviceLogin show ?thesis using own_run_none by (simp add: pollDeviceLogin_def)
  next
    case False
    with PollDeviceLogin show ?thesis
      by (intro own_run_one [where e = "PollDevice w flowID"]) (simp_all add: event_of_def pollDeviceLogin_def split_beta)
  qed
next
  case (StartBrowserLogin w)
  then show ?thesis
    by (intro own_run_one [where e = "StartBrowser w"]) (simp_all add: event_of_def startBrowserLogin_def split_beta)
next
  case (CompleteBrowserLogin w flowID received)
  show ?thesis
  proof (cases "invalid_flow flowID \<or> isl (decodeJSON received)")
    case True
    with CompleteBrowserLogin show ?thesis
      using own_run_none by (cases "decodeJSON received") (auto simp: completeBrowserLogin_def)
  next
    case False
    then obtain url where "decodeJSON received = Inr url" by (cases "decodeJSON received") auto
    with False CompleteBrowserLogin show ?thesis
      by (intro own_run_one [where e = "CompleteBrowser w flowID url"])
        (simp_all add: event_of_def completeBrowserLogin_def split_beta)
  qed
next
  case (ImportAccount w received)
  show ?thesis
  proof (cases "decodeJSON received")
    case (Inl r)
    with ImportAccount show ?thesis using own_run_none by (simp add: importAccount_def)
  next
    case (Inr content)
    with ImportAccount show ?thesis
      by (intro own_run_one [where e = "Import w content"]) (simp_all add: event_of_def importAccount_def split_beta)
  qed
next
  case (RefreshQuota w)
  obtain es where es: "snd (FetchQuota ol w (manager_of sv)) = final (manager_step ol) (manager_of sv) es"
    "\<forall>e \<in> set es. case e of Refresh _ \<Rightarrow> True | QuotaAnswered _ _ _ _ \<Rightarrow> True | _ \<Rightarrow> False"
    using quota_is_run by blast
  from es(2) have "list_all (event_of c) es"
    unfolding list_all_iff event_of_def by (auto split: manager_event.splits)
  with es(1) RefreshQuota show ?thesis by (intro exI [of _ es]) (simp add: refreshQuota_def split_beta)
qed (use own_run_none in \<open>simp_all add: applicationLogs_def account_view_def split: sum.split\<close>)

lemma account_login [simp]: "sv_login (snd (account_handler ol c sv)) = sv_login sv"
  by (cases c)
    (simp_all add: applicationLogs_def account_view_def delete_account_handler_def startDeviceLogin_def pollDeviceLogin_def
      startBrowserLogin_def completeBrowserLogin_def importAccount_def refreshQuota_def split_beta split: sum.split)

text \<open>The manager leaves the settings and the sessions of the administrator alone.\<close>

lemma saveCredential_settings: "db_settings (snd (saveCredential al w c db)) = db_settings db"
  by (simp add: saveCredential_def SaveAccount_def Let_def split_beta split: sum.split)

lemma refresh_settings: "db_settings (fst (snd (refresh_locked al w db))) = db_settings db"
  using saveCredential_settings [of al "fw_save w"]
  by (simp add: refresh_locked_def split_beta split: sum.split option.split prod.split)

lemma connect_settings: "db_settings (mg_db (snd (connect ol w finish tokens mg))) = db_settings (mg_db mg)"
  using saveCredential_settings [of "ol_auth ol" "cw_save w"]
  by (auto simp: connect_def split_beta split: sum.split option.split)

lemma flow_outcome_settings: "flow_outcome ol cw key ss mg mg' \<Longrightarrow> db_settings (mg_db mg') = db_settings (mg_db mg)"
  by (auto simp: flow_outcome_def connect_settings)

lemma start_device_db: "mg_db (snd (StartDeviceFlow ol w answer mg)) = mg_db mg"
  by (simp add: StartDeviceFlow_def Let_def split: sum.split prod.split option.split)

lemma start_browser_db: "mg_db (snd (StartBrowserFlow ol w mg)) = mg_db mg"
  by (simp add: StartBrowserFlow_def Let_def split: sum.split prod.split option.split)

lemma import_settings: "db_settings (mg_db (snd (ImportAuthJSON ol w raw mg))) = db_settings (mg_db mg)"
  by (simp add: ImportAuthJSON_def connect_settings split: sum.split prod.split)

lemma quota_settings: "db_settings (mg_db (snd (store_quota ol up t status raw mg))) = db_settings (mg_db mg)"
  by (simp add: store_quota_def SaveQuota_def)

lemma delete_settings: "db_settings (mg_db (snd (deleteAccount up mg))) = db_settings (mg_db mg)"
  by (simp add: deleteAccount_def DeleteAccount_def)

lemma own_settings: "db_settings (mg_db (fst (manager_step ol mg e))) = db_settings (mg_db mg)"
  by (cases e)
    (simp_all add: start_device_db start_browser_db import_settings quota_settings delete_settings
      refresh_settings flow_outcome_settings [OF poll_outcome] flow_outcome_settings [OF complete_outcome])

text \<open>A key that no flow is stored under.\<close>

definition foreign_key :: "gostring \<Rightarrow> bool" where
  "foreign_key key \<longleftrightarrow> (\<forall>i. device_key i \<noteq> key \<and> browser_key i \<noteq> key)"

lemma session_foreign: "foreign_key (session_key lb token)"
  by (simp add: foreign_key_def session_key_def browser_key_def device_key_def)

lemma put_foreign:
  "live t (snd (Put now (device_key i) v ttl ss)) key = Some raw \<Longrightarrow> ms_inv ss \<Longrightarrow> foreign_key key \<Longrightarrow> live t ss key = Some raw"
  "live t (snd (Put now (browser_key i) v ttl ss)) key = Some raw \<Longrightarrow> ms_inv ss \<Longrightarrow> foreign_key key \<Longrightarrow> live t ss key = Some raw"
  by (metis foreign_key_def put_other_key)+

lemma own_live:
  assumes "manager_ok mg" "foreign_key key" "live t (mg_sessions (fst (manager_step ol mg e))) key = Some v"
  shows "live t (mg_sessions mg) key = Some v"
proof (cases e)
  case (StartDevice w answer)
  with assms start_device_sessions [of ol w answer mg] show ?thesis
    by (auto simp: manager_ok_def dest: put_foreign)
next
  case (PollDevice w i)
  with assms poll_sessions [of ol w i mg] show ?thesis
    by (auto simp: Let_def Delete_live dest!: get_live_back split: if_splits)
next
  case (StartBrowser w)
  with assms start_browser_sessions [of ol w mg] show ?thesis
    by (auto simp: manager_ok_def Let_def dest: put_foreign)
next
  case (CompleteBrowser w i url)
  with assms complete_sessions [of ol w i url mg] show ?thesis
    by (auto simp: Let_def Delete_live dest!: get_live_back split: if_splits)
qed (use assms in \<open>simp_all add: kept_sessions\<close>)

lemma own_run:
  assumes "manager_ok mg"
  shows "manager_ok (final (manager_step ol) mg es)"
    and "db_settings (mg_db (final (manager_step ol) mg es)) = db_settings (mg_db mg)"
    and "foreign_key key \<Longrightarrow> live t (mg_sessions (final (manager_step ol) mg es)) key = Some v \<Longrightarrow>
      live t (mg_sessions mg) key = Some v"
  using assms
proof (induction es arbitrary: mg)
  case (Cons e es)
  {
    case 1
    with Cons.IH(1) show ?case by (simp add: manager_step_ok)
  next
    case 2
    with Cons.IH(2) show ?case by (simp add: manager_step_ok own_settings)
  next
    case 3
    then have "live t (mg_sessions (fst (manager_step ol mg e))) key = Some v"
      using Cons.IH(3) by (simp add: manager_step_ok)
    from own_live [OF 3(3,1) this] show ?case .
  }
qed simp_all

text \<open>What an account request does to the rest of the server.\<close>

lemma account_frames:
  assumes "ms_inv (sv_sessions sv)"
  shows "ms_inv (sv_sessions (snd (account_handler ol c sv)))"
    and "db_settings (sv_db (snd (account_handler ol c sv))) = db_settings (sv_db sv)"
    and "foreign_key key \<Longrightarrow> live t (sv_sessions (snd (account_handler ol c sv))) key = Some v \<Longrightarrow>
      live t (sv_sessions sv) key = Some v"
proof -
  obtain es where es: "manager_of (snd (account_handler ol c sv)) = final (manager_step ol) (manager_of sv) es"
    using account_is_run [of c ol sv] by blast
  have ok: "manager_ok (manager_of sv)" using assms by (simp add: manager_ok_def manager_of_def)
  have parts: "sv_sessions s = mg_sessions (manager_of s)" "sv_db s = mg_db (manager_of s)" for s
    by (simp_all add: manager_of_def)
  from own_run(1) [OF ok, of ol es] show "ms_inv (sv_sessions (snd (account_handler ol c sv)))"
    by (simp add: parts es manager_ok_def)
  from own_run(2) [OF ok, of ol es] show "db_settings (sv_db (snd (account_handler ol c sv))) = db_settings (sv_db sv)"
    by (simp add: parts es)
  assume key: "foreign_key key" and "live t (sv_sessions (snd (account_handler ol c sv))) key = Some v"
  then have "live t (mg_sessions (final (manager_step ol) (manager_of sv) es)) key = Some v"
    by (simp only: parts es)
  from own_run(3) [OF ok key this] show "live t (sv_sessions sv) key = Some v"
    by (simp only: parts)
qed

text \<open>A browser login that is stored after an account request was stored before, or the request has started it.\<close>

lemma no_start_no_flow:
  assumes "flow_stored flowID raw t (final (manager_step ol) mg es)" "manager_ok mg"
    and "list_all (\<lambda>e. \<forall>w. e \<noteq> StartBrowser w) es"
  shows "flow_stored flowID raw t mg"
  using assms
proof (induction es arbitrary: mg)
  case (Cons e es)
  then have "flow_stored flowID raw t (fst (manager_step ol mg e))" by (simp add: manager_step_ok)
  from flow_opened [OF Cons.prems(2) this] Cons.prems(3) show ?case
    by (auto simp: starts_flow_def split: manager_event.splits)
qed simp

lemma account_opens:
  assumes "ms_inv (sv_sessions sv)"
    and "flow_stored flowID raw t (manager_of (snd (account_handler ol c sv)))" "\<not> flow_stored flowID raw t (manager_of sv)"
  obtains w start where "c = StartBrowserLogin w" "starts_flow ol flowID raw t (manager_of sv) (StartBrowser w)"
    "fst (StartBrowserFlow ol w (manager_of sv)) = Inr start" "rp_body (fst (account_handler ol c sv)) = BrowserBody start"
proof -
  have ok: "manager_ok (manager_of sv)" using assms(1) by (simp add: manager_ok_def manager_of_def)
  obtain es where es: "list_all (event_of c) es"
    "manager_of (snd (account_handler ol c sv)) = final (manager_step ol) (manager_of sv) es"
    using account_is_run by blast
  have "\<not> list_all (\<lambda>e. \<forall>w. e \<noteq> StartBrowser w) es"
    using no_start_no_flow [OF _ ok, of flowID raw t ol es] es(2) assms(2,3) by auto
  with es(1) obtain w where c: "c = StartBrowserLogin w"
    by (auto simp: list_all_iff event_of_def)
  have "manager_of (snd (account_handler ol c sv)) = fst (manager_step ol (manager_of sv) (StartBrowser w))"
    by (simp add: c startBrowserLogin_def split_beta)
  with assms(2,3) flow_opened [OF ok] have start: "starts_flow ol flowID raw t (manager_of sv) (StartBrowser w)"
    by metis
  then obtain s where "fst (StartBrowserFlow ol w (manager_of sv)) = Inr s" by (auto simp: starts_flow_def)
  moreover from this have "rp_body (fst (account_handler ol c sv)) = BrowserBody s"
    by (simp add: c startBrowserLogin_def split_beta writeJSON_def)
  ultimately show thesis using that c start by blast
qed

lemma account_closes:
  assumes "rp_body (fst (account_handler ol (CompleteBrowserLogin w flowID received) sv)) = AccountBody view"
  shows "\<not> flow_stored flowID raw t (manager_of (snd (account_handler ol (CompleteBrowserLogin w flowID received) sv)))"
proof -
  have flow: "\<not> invalid_flow flowID"
    using assms by (auto simp: completeBrowserLogin_def writeError_def writeJSON_def)
  obtain url where url: "decodeJSON received = Inr url"
    using assms flow
    by (cases received) (auto simp: completeBrowserLogin_def decodeJSON_def Let_def writeError_def writeJSON_def)
  let ?r = "CompleteBrowserFlow ol w flowID url (manager_of sv)"
  obtain v where "fst ?r = Inr v"
    using assms flow url
    by (cases "fst ?r") (auto simp: completeBrowserLogin_def split_beta writeError_def writeJSON_def split: auth_error.splits)
  from completed_sessions [OF this] show ?thesis
    using flow url by (simp add: completeBrowserLogin_def split_beta flow_stored_def Delete_live)
qed

end
