(* ===== verification/WebServer.thy ===== *)
theory WebServer
  imports AccountHandlers
begin

text \<open>
  \<^verbatim>\<open>internal/web/server.go\<close>: the routes with the middleware in front of them, as one step of
  the server on one routed request. Which route a request reaches is chi's matter; a call
  names the route and carries what its handler reads. The routes of the proxy act on this state
  through the database only: \<open>CV1\<close> stands for them, with any statements they run and any reply.
\<close>

subsection \<open>Routes\<close>

record overview_query =
  oq_range :: "(int \<times> int) option"
  oq_up_stats :: bool
  oq_up_logs :: bool

datatype call =
    CHealth bool
  | CSession int bool gostring
  | CLogin sign_in
  | CLogout
  | CPassword password_change
  | COverview overview_query
  | CListKeys bool
  | CCreateKey key_request
  | CRevokeKey gostring int bool
  | CAccount account_call
  | CV1Options
  | CV1 "(bool \<times> db_op) list" reply

datatype route_group = PublicGroup | AdminGroup | V1Group

fun group_of :: "call \<Rightarrow> route_group" where
  "group_of (CHealth up) = PublicGroup"
| "group_of (CSession now up today) = PublicGroup"
| "group_of (CLogin i) = PublicGroup"
| "group_of CLogout = AdminGroup"
| "group_of (CPassword c) = AdminGroup"
| "group_of (COverview q) = AdminGroup"
| "group_of (CListKeys up) = AdminGroup"
| "group_of (CCreateKey q) = AdminGroup"
| "group_of (CRevokeKey i now up) = AdminGroup"
| "group_of (CAccount a) = AdminGroup"
| "group_of CV1Options = V1Group"
| "group_of (CV1 ops rp) = V1Group"

text \<open>The only setting of the database is the password, and only its handler writes it.\<close>

definition no_settings :: "(bool \<times> db_op) list \<Rightarrow> (bool \<times> db_op) list" where
  "no_settings ops = filter (\<lambda>(up, op). case op of OpSetSetting k v t \<Rightarrow> False | _ \<Rightarrow> True) ops"

definition run_statements :: "(bool \<times> db_op) list \<Rightarrow> reply \<Rightarrow> handler" where
  "run_statements ops rp sv = (rp, sv\<lparr>sv_db := final db_step (sv_db sv) (no_settings ops)\<rparr>)"

definition health :: "bool \<Rightarrow> handler" where
  "health up sv =
     (if \<not> up then (writeError 503 ''database_unavailable'' ''database health check failed'', sv)
      else (writeJSON 200 OtherBody, sv))"

text \<open>The statistics and rows of the overview; its body is looked at in the root theory.\<close>

definition overview_reply :: "overview_query \<Rightarrow> database \<Rightarrow> reply + DayStats \<times> RequestLog list" where
  "overview_reply q db =
     (case oq_range q of
        None \<Rightarrow> Inl (writeError 400 ''invalid_date'' ''date must use YYYY-MM-DD'')
      | Some (start, end') \<Rightarrow>
          (case TodayStatsQuery (oq_up_stats q) start end' db of
             Inl e \<Rightarrow> Inl (writeError 500 ''overview_failed'' ''could not load statistics'')
           | Inr stats \<Rightarrow>
               (case ListRequestLogs (oq_up_logs q) start end' 150 db of
                  Inl e \<Rightarrow> Inl (writeError 500 ''overview_failed'' ''could not load request details'')
                | Inr entries \<Rightarrow> Inr (stats, entries))))"

definition overview :: "overview_query \<Rightarrow> handler" where
  "overview q sv =
     (case overview_reply q (sv_db sv) of Inl r \<Rightarrow> (r, sv) | Inr x \<Rightarrow> (writeJSON 200 OtherBody, sv))"

fun admin_handler :: "library \<Rightarrow> request \<Rightarrow> call \<Rightarrow> handler" where
  "admin_handler lb r CLogout = logoutHandler lb (rq_cookie r)"
| "admin_handler lb r (CPassword c) = changePassword lb c"
| "admin_handler lb r (COverview q) = overview q"
| "admin_handler lb r (CListKeys up) = listAPIKeys up"
| "admin_handler lb r (CCreateKey q) = createAPIKey lb q"
| "admin_handler lb r (CRevokeKey i now up) = revokeAPIKey i now up"
| "admin_handler lb r (CAccount a) = account_handler (lb_oauth lb) a"
| "admin_handler lb r c = (\<lambda>sv. (writeError 404 ''not_found'' ''route not found'', sv))"

fun public_handler :: "library \<Rightarrow> server_config \<Rightarrow> request \<Rightarrow> call \<Rightarrow> handler" where
  "public_handler lb sc r (CHealth up) = health up"
| "public_handler lb sc r (CSession now up today) = authSession lb sc now up (rq_cookie r) today"
| "public_handler lb sc r (CLogin i) = loginHandler lb sc i"
| "public_handler lb sc r c = (\<lambda>sv. (writeError 404 ''not_found'' ''route not found'', sv))"

fun v1_handler :: "call \<Rightarrow> StoredKey option \<Rightarrow> handler" where
  "v1_handler (CV1 ops rp) key = run_statements ops rp"
| "v1_handler c key = (\<lambda>sv. (writeJSON 204 NoBody, sv))"

text \<open>What the middleware reads besides the request: the time, and whether statements run.\<close>

record ambient =
  am_now :: int
  am_up :: bool
  am_up_touch :: bool

definition v1CORS :: "request \<Rightarrow> handler \<Rightarrow> handler" where
  "v1CORS r next_handler sv =
     (if rq_method r = ''OPTIONS'' then (writeJSON 204 NoBody, sv) else next_handler sv)"

definition serve :: "library \<Rightarrow> server_config \<Rightarrow> ambient \<times> request \<times> call \<Rightarrow> handler" where
  "serve lb sc e sv =
     (case e of (am, r, c) \<Rightarrow>
        (case group_of c of
           PublicGroup \<Rightarrow> public_handler lb sc r c sv
         | AdminGroup \<Rightarrow>
             requireAdmin lb (am_now am) (am_up am) r (checkOrigin lb sc r (admin_handler lb r c)) sv
         | V1Group \<Rightarrow>
             v1CORS r (requireAPIKey lb (am_now am) (am_up am) (am_up_touch am) r (v1_handler c)) sv))"

definition server_step :: "library \<Rightarrow> server_config \<Rightarrow> server \<Rightarrow> ambient \<times> request \<times> call \<Rightarrow> server \<times> reply list" where
  "server_step lb sc sv e = (let (rp, sv1) = serve lb sc e sv in (sv1, [rp]))"

lemma server_step_simps [simp]:
  "fst (server_step lb sc sv e) = snd (serve lb sc e sv)"
  "snd (server_step lb sc sv e) = [fst (serve lb sc e sv)]"
  by (simp_all add: server_step_def split_beta)

subsection \<open>Frames: what each handler leaves alone\<close>

lemma authenticated_db [simp]: "sv_db (snd (adminSessionAuthenticated lb now up tk sv)) = sv_db sv"
  by (simp add: adminSessionAuthenticated_def Let_def split_beta split: option.split sum.split)

lemma authenticated_sessions [simp]:
  "sv_sessions (snd (adminSessionAuthenticated lb now up tk sv)) =
     snd (Get now (session_key lb tk) (sv_sessions sv))"
  by (simp add: adminSessionAuthenticated_def Let_def split_beta split: option.split sum.split)

lemma changePassword_sessions [simp]: "sv_sessions (snd (changePassword lb c sv)) = sv_sessions sv"
  by (simp add: changePassword_def Let_def split: sum.split prod.split option.split)

lemma createAPIKey_sessions [simp]: "sv_sessions (snd (createAPIKey lb q sv)) = sv_sessions sv"
  by (simp add: createAPIKey_def Let_def split: sum.split prod.split option.split)

lemma revokeAPIKey_sessions [simp]: "sv_sessions (snd (revokeAPIKey i now up sv)) = sv_sessions sv"
  by (simp add: revokeAPIKey_def split: sum.split prod.split)

lemma listAPIKeys_same [simp]: "snd (listAPIKeys up sv) = sv"
  by (simp add: listAPIKeys_def split: sum.split)

lemma overview_same [simp]: "snd (overview q sv) = sv"
  by (simp add: overview_def split: sum.split)

lemma health_same [simp]: "snd (health up sv) = sv"
  by (simp add: health_def)

lemma run_statements_sessions [simp]: "sv_sessions (snd (run_statements ops rp sv)) = sv_sessions sv"
  by (simp add: run_statements_def)

lemma settings_kept: "db_settings (final db_step db (no_settings ops)) = db_settings db"
proof (induction ops arbitrary: db)
  case Nil
  then show ?case by (simp add: no_settings_def)
next
  case (Cons e ops)
  obtain up op where "e = (up, op)" by (cases e)
  with Cons show ?case by (cases op) (simp_all add: no_settings_def db_ops)
qed

lemma requireAPIKey_sessions:
  "(\<And>k sv'. sv_sessions (snd (h k sv')) = sv_sessions sv') \<Longrightarrow>
     sv_sessions (snd (requireAPIKey lb now up up2 r h sv)) = sv_sessions sv"
  by (simp add: requireAPIKey_def Let_def split: sum.split)

lemma v1_sessions: "sv_sessions (snd (v1_handler c k sv)) = sv_sessions sv"
  by (cases c) simp_all

lemma authSession_sessions:
  "sv_sessions (snd (authSession lb sc now up cookie today sv)) =
     (case cookie of None \<Rightarrow> sv_sessions sv
      | Some tk \<Rightarrow> if tk = [] then sv_sessions sv else snd (Get now (session_key lb tk) (sv_sessions sv)))"
  by (simp add: authSession_def Let_def split_beta split: option.split sum.split)

text \<open>The administrator's routes: refused, refused by the origin, or the handler ran.\<close>

lemma admin_cases:
  obtains (refused) rp where
      "requireAdmin lb now up r (checkOrigin lb sc r h) sv = (rp, sv)" "rp_status rp = 401"
      "\<forall>tk. rq_cookie r = Some tk \<longrightarrow> tk = []"
  | (checked) tk rp where
      "rq_cookie r = Some tk" "tk \<noteq> []"
      "requireAdmin lb now up r (checkOrigin lb sc r h) sv =
         (rp, snd (adminSessionAuthenticated lb now up tk sv))" "rp_status rp \<in> {401, 403, 503}"
  | (ran) tk where
      "rq_cookie r = Some tk" "tk \<noteq> []" "fst (adminSessionAuthenticated lb now up tk sv) = Inr True"
      "requireAdmin lb now up r (checkOrigin lb sc r h) sv =
         h (snd (adminSessionAuthenticated lb now up tk sv))"
proof (cases "rq_cookie r")
  case None
  then show thesis by (intro refused) (auto simp: requireAdmin_def writeError_def writeJSON_def)
next
  case (Some tk)
  show thesis
  proof (cases "tk = []")
    case True
    with Some show thesis by (intro refused) (auto simp: requireAdmin_def writeError_def writeJSON_def)
  next
    case False
    let ?a = "adminSessionAuthenticated lb now up tk sv"
    show thesis
    proof (cases "fst ?a = Inr True")
      case True
      then have run: "requireAdmin lb now up r (checkOrigin lb sc r h) sv = checkOrigin lb sc r h (snd ?a)"
        using Some False by (cases ?a) (simp add: requireAdmin_def)
      have "checkOrigin lb sc r h (snd ?a) = h (snd ?a) \<or>
          (\<exists>rp. checkOrigin lb sc r h (snd ?a) = (rp, snd ?a) \<and> rp_status rp = 403)"
        by (simp add: checkOrigin_def Let_def writeError_def writeJSON_def split: option.split prod.split)
      then show thesis
      proof
        assume "checkOrigin lb sc r h (snd ?a) = h (snd ?a)"
        with run Some False True show thesis by (intro ran [of tk]) simp_all
      next
        assume "\<exists>rp. checkOrigin lb sc r h (snd ?a) = (rp, snd ?a) \<and> rp_status rp = 403"
        then obtain rp where "checkOrigin lb sc r h (snd ?a) = (rp, snd ?a)" "rp_status rp = 403" by blast
        with run Some False show thesis by (intro checked [of tk rp]) simp_all
      qed
    next
      case notin: False
      obtain a s where a: "?a = (a, s)" by (cases ?a)
      have "\<exists>rp. requireAdmin lb now up r (checkOrigin lb sc r h) sv = (rp, s) \<and> rp_status rp \<in> {401, 503}"
        using Some False notin a
        by (cases a) (simp_all add: requireAdmin_def writeError_def writeJSON_def)
      then obtain rp where "requireAdmin lb now up r (checkOrigin lb sc r h) sv = (rp, s)"
        "rp_status rp \<in> {401, 503}" by blast
      with Some False a show thesis by (intro checked [of tk rp]) auto
    qed
  qed
qed

subsection \<open>Where sessions come from and go\<close>

definition signed_in_by ::
  "library \<Rightarrow> server_config \<Rightarrow> int \<Rightarrow> gostring \<Rightarrow> gostring \<Rightarrow> server \<Rightarrow> ambient \<times> request \<times> call \<Rightarrow> bool" where
  "signed_in_by lb sc t k v sv e \<longleftrightarrow>
     (\<exists>am r i tk pw h. e = (am, r, CLogin i) \<and> in_token i = Some tk \<and> session_key lb tk = k \<and>
        in_body i = Decoded pw \<and> GetSetting True adminPasswordSetting (sv_db sv) = Inr h \<and>
        CheckPassword lb h pw \<and> adminSessionValue lb h = v \<and> t < in_stored i + sc_session_ttl sc)"

definition signed_out_by ::
  "library \<Rightarrow> server_config \<Rightarrow> gostring \<Rightarrow> server \<Rightarrow> ambient \<times> request \<times> call \<Rightarrow> bool" where
  "signed_out_by lb sc k sv e \<longleftrightarrow>
     (\<exists>am r tk. e = (am, r, CLogout) \<and> rq_cookie r = Some tk \<and> session_key lb tk = k \<and>
        rp_status (fst (serve lb sc e sv)) = 200)"

definition sessions_ok :: "server \<Rightarrow> bool" where
  "sessions_ok sv \<longleftrightarrow> ms_inv (sv_sessions sv)"

text \<open>Behind the administrator's middleware the sessions change by the lookup and by signing out.\<close>

lemma admin_handler_sessions:
  "sv_sessions (snd (admin_handler lb r c sv)) =
     (case (c, rq_cookie r) of
        (CLogout, Some tk) \<Rightarrow> Delete (session_key lb tk) (sv_sessions sv)
      | (CAccount a, _) \<Rightarrow> sv_sessions (snd (account_handler (lb_oauth lb) a sv))
      | _ \<Rightarrow> sv_sessions sv)"
  by (cases c) (simp_all add: logoutHandler_def split: option.split)

lemma GetSetting_up: "GetSetting up k db = Inr h \<Longrightarrow> GetSetting True k db = Inr h"
  by (simp add: GetSetting_def split: if_splits)

text \<open>The sign-in handler stores at most one session, after the password was compared.\<close>

lemma login_sessions:
  "sv_sessions (snd (loginHandler lb sc i sv)) = sv_sessions sv \<or>
   (\<exists>tk pw h. in_token i = Some tk \<and> in_body i = Decoded pw \<and>
      GetSetting True adminPasswordSetting (sv_db sv) = Inr h \<and> CheckPassword lb h pw \<and>
      sv_sessions (snd (loginHandler lb sc i sv)) =
        snd (Put (in_stored i) (session_key lb tk) (adminSessionValue lb h) (sc_session_ttl sc) (sv_sessions sv)))"
  by (cases "in_body i")
    (auto simp: loginHandler_def decodeJSON_def Let_def split: prod.split option.split sum.split
      dest: GetSetting_up)

lemma login_db [simp]: "sv_db (snd (loginHandler lb sc i sv)) = sv_db sv"
  by (simp add: loginHandler_def Let_def split: prod.split option.split sum.split)

lemma serve_V1_sessions: "group_of c = V1Group \<Longrightarrow> sv_sessions (snd (serve lb sc (am, r, c) sv)) = sv_sessions sv"
  by (simp add: serve_def v1CORS_def requireAPIKey_sessions v1_sessions)

lemma serve_admin_sessions:
  assumes "group_of c = AdminGroup"
  shows "sv_sessions (snd (serve lb sc (am, r, c) sv)) = sv_sessions sv \<or>
    (\<exists>now tk. sv_sessions (snd (serve lb sc (am, r, c) sv)) = snd (Get now (session_key lb tk) (sv_sessions sv))) \<or>
    (\<exists>now tk. rq_cookie r = Some tk \<and> c = CLogout \<and> sv_sessions (snd (serve lb sc (am, r, c) sv)) =
       Delete (session_key lb tk) (snd (Get now (session_key lb tk) (sv_sessions sv)))) \<or>
    (\<exists>now tk a s. c = CAccount a \<and> sv_sessions s = snd (Get now (session_key lb tk) (sv_sessions sv)) \<and>
       sv_sessions (snd (serve lb sc (am, r, c) sv)) = sv_sessions (snd (account_handler (lb_oauth lb) a s)))"
proof -
  have serve: "serve lb sc (am, r, c) sv =
      requireAdmin lb (am_now am) (am_up am) r (checkOrigin lb sc r (admin_handler lb r c)) sv"
    using assms by (simp add: serve_def)
  show ?thesis
  proof (cases rule: admin_cases [of lb "am_now am" "am_up am" r sc "admin_handler lb r c" sv])
    case (refused rp)
    then show ?thesis by (simp add: serve)
  next
    case (checked tk rp)
    then show ?thesis by (auto simp: serve)
  next
    case (ran tk)
    let ?s = "snd (adminSessionAuthenticated lb (am_now am) (am_up am) tk sv)"
    show ?thesis
    proof (cases "\<exists>a. c = CAccount a")
      case True
      then obtain a where c: "c = CAccount a" by blast
      have "sv_sessions (snd (serve lb sc (am, r, c) sv)) = sv_sessions (snd (account_handler (lb_oauth lb) a ?s))"
        using ran(4) serve by (simp add: c)
      moreover have "sv_sessions ?s = snd (Get (am_now am) (session_key lb tk) (sv_sessions sv))" by simp
      ultimately show ?thesis using c by blast
    next
      case False
      with ran show ?thesis by (auto simp: serve admin_handler_sessions split: call.split)
    qed
  qed
qed

lemma serve_public_sessions:
  assumes "group_of c = PublicGroup"
  shows "sv_sessions (snd (serve lb sc (am, r, c) sv)) = sv_sessions sv \<or>
    (\<exists>now tk. sv_sessions (snd (serve lb sc (am, r, c) sv)) = snd (Get now (session_key lb tk) (sv_sessions sv))) \<or>
    (\<exists>i tk pw h. c = CLogin i \<and> in_token i = Some tk \<and> in_body i = Decoded pw \<and>
       GetSetting True adminPasswordSetting (sv_db sv) = Inr h \<and> CheckPassword lb h pw \<and>
       sv_sessions (snd (serve lb sc (am, r, c) sv)) =
         snd (Put (in_stored i) (session_key lb tk) (adminSessionValue lb h) (sc_session_ttl sc) (sv_sessions sv)))"
proof (cases c)
  case (CLogin i)
  then show ?thesis using login_sessions [of lb sc i sv] by (auto simp: serve_def)
qed (use assms in \<open>auto simp: serve_def authSession_sessions split: option.split\<close>)

lemma serve_sessions_ok: "sessions_ok sv \<Longrightarrow> sessions_ok (snd (serve lb sc e sv))"
proof -
  assume ok: "sessions_ok sv"
  obtain am r c where e: "e = (am, r, c)" by (cases e)
  show ?thesis
  proof (cases "group_of c")
    case PublicGroup
    from serve_public_sessions [OF this, of lb sc am r sv] ok e show ?thesis
      by (auto simp: sessions_ok_def put_inv get_inv)
  next
    case AdminGroup
    from serve_admin_sessions [OF this, of lb sc am r sv] show ?thesis
    proof (elim disjE exE conjE)
      fix now tk a s
      assume "sv_sessions s = snd (Get now (session_key lb tk) (sv_sessions sv))"
        and run: "sv_sessions (snd (serve lb sc (am, r, c) sv)) = sv_sessions (snd (account_handler (lb_oauth lb) a s))"
      then have "ms_inv (sv_sessions s)" using ok by (simp add: sessions_ok_def get_inv)
      from account_frames(1) [OF this] run e show ?thesis by (simp add: sessions_ok_def)
    qed (use ok e in \<open>simp_all add: sessions_ok_def Delete_inv get_inv\<close>)
  next
    case V1Group
    with ok e show ?thesis by (simp add: sessions_ok_def serve_V1_sessions)
  qed
qed

lemma serve_opens:
  assumes "sessions_ok sv" "foreign_key k" "live t (sv_sessions (snd (serve lb sc e sv))) k = Some v"
    and "live t (sv_sessions sv) k \<noteq> Some v"
  shows "signed_in_by lb sc t k v sv e"
proof -
  obtain am r c where e: "e = (am, r, c)" by (cases e)
  show ?thesis
  proof (cases "group_of c")
    case PublicGroup
    from serve_public_sessions [OF this, of lb sc am r sv] assms e show ?thesis
      by (auto simp: sessions_ok_def signed_in_by_def dest: get_live_back put_live_back)
  next
    case AdminGroup
    from serve_admin_sessions [OF this, of lb sc am r sv] show ?thesis
    proof (elim disjE exE conjE)
      assume "sv_sessions (snd (serve lb sc (am, r, c) sv)) = sv_sessions sv"
      with assms(3,4) e show ?thesis by simp
    next
      fix now tk
      assume "sv_sessions (snd (serve lb sc (am, r, c) sv)) = snd (Get now (session_key lb tk) (sv_sessions sv))"
      with assms(3) e have "live t (snd (Get now (session_key lb tk) (sv_sessions sv))) k = Some v" by simp
      from get_live_back [OF this] assms(4) show ?thesis by simp
    next
      fix now tk
      assume "sv_sessions (snd (serve lb sc (am, r, c) sv)) =
        Delete (session_key lb tk) (snd (Get now (session_key lb tk) (sv_sessions sv)))"
      with assms(3) e have "live t (snd (Get now (session_key lb tk) (sv_sessions sv))) k = Some v"
        by (simp add: Delete_live split: if_splits)
      from get_live_back [OF this] assms(4) show ?thesis by simp
    next
      fix now tk a s
      assume got: "sv_sessions s = snd (Get now (session_key lb tk) (sv_sessions sv))"
        and run: "sv_sessions (snd (serve lb sc (am, r, c) sv)) = sv_sessions (snd (account_handler (lb_oauth lb) a s))"
      then have "ms_inv (sv_sessions s)" using assms(1) by (simp add: sessions_ok_def get_inv)
      from account_frames(3) [OF this assms(2)] assms(3) run e have "live t (sv_sessions s) k = Some v" by simp
      then have "live t (snd (Get now (session_key lb tk) (sv_sessions sv))) k = Some v" by (simp only: got)
      from get_live_back [OF this] assms(4) show ?thesis by simp
    qed
  next
    case V1Group
    with assms e show ?thesis by (simp add: serve_V1_sessions)
  qed
qed

lemma serve_closes:
  assumes "signed_out_by lb sc k sv e"
  shows "live t (sv_sessions (snd (serve lb sc e sv))) k = None"
proof -
  obtain am r tk where e: "e = (am, r, CLogout)" "rq_cookie r = Some tk" "session_key lb tk = k"
    "rp_status (fst (serve lb sc e sv)) = 200"
    using assms by (auto simp: signed_out_by_def)
  have serve: "serve lb sc e sv =
      requireAdmin lb (am_now am) (am_up am) r (checkOrigin lb sc r (admin_handler lb r CLogout)) sv"
    by (simp add: serve_def e(1))
  show ?thesis
  proof (cases rule: admin_cases [of lb "am_now am" "am_up am" r sc "admin_handler lb r CLogout" sv])
    case (refused rp)
    with e serve show ?thesis by simp
  next
    case (checked tk' rp)
    with e serve show ?thesis by auto
  next
    case (ran tk')
    with e serve show ?thesis by (simp add: logoutHandler_def Delete_live)
  qed
qed

interpretation sessions: gated_machine "server_step lb sc" sessions_ok
  "\<lambda>sv. live t (sv_sessions sv) (session_key lb tk) = Some v" "signed_in_by lb sc t (session_key lb tk) v"
  "signed_out_by lb sc (session_key lb tk)"
  for lb sc t tk v
  by unfold_locales (simp_all add: serve_sessions_ok serve_opens serve_closes session_foreign)

lemma authenticated_iff:
  "fst (adminSessionAuthenticated lb now up tk sv) = Inr True \<longleftrightarrow>
     (\<exists>h. live now (sv_sessions sv) (session_key lb tk) = Some (adminSessionValue lb h) \<and>
        GetSetting up adminPasswordSetting (sv_db sv) = Inr h)"
  by (auto simp: adminSessionAuthenticated_def Let_def split_beta get_value split: option.split sum.split)

lemma session_key_inj: "inj (lb_sha256hex lb) \<Longrightarrow> session_key lb a = session_key lb b \<longleftrightarrow> a = b"
  by (simp add: session_key_def HashSecret_def inj_eq)

lemma adminSessionValue_inj:
  "inj (lb_sha256hex lb) \<Longrightarrow> adminSessionValue lb a = adminSessionValue lb b \<longleftrightarrow> a = b"
  by (simp add: adminSessionValue_def HashSecret_def inj_eq)

definition new_server :: "database \<Rightarrow> int \<Rightarrow> server" where
  "new_server db capacity =
     \<lparr>sv_db = db, sv_sessions = newMemoryStore capacity, sv_login = newLoginLimiter\<rparr>"

lemma new_server_ok [simp]:
  "sessions_ok (new_server db c)" "live t (sv_sessions (new_server db c)) k = None"
  by (simp_all add: sessions_ok_def new_server_def SessionStore.new_inv new_live)

lemma sign_in_behind_session:
  assumes "inj (lb_sha256hex lb)"
    and "sv = final (server_step lb sc) (new_server db capacity) es"
    and "fst (adminSessionAuthenticated lb now up tk sv) = Inr True"
  shows "\<exists>xs am r i ys pw h. es = xs @ (am, r, CLogin i) # ys \<and> in_token i = Some tk \<and>
    in_body i = Decoded pw \<and> CheckPassword lb h pw \<and>
    GetSetting True adminPasswordSetting (sv_db (final (server_step lb sc) (new_server db capacity) xs)) = Inr h \<and>
    GetSetting True adminPasswordSetting (sv_db sv) = Inr h \<and>
    now < in_stored i + sc_session_ttl sc \<and>
    none_of (server_step lb sc) (signed_out_by lb sc (session_key lb tk))
      (final (server_step lb sc) (new_server db capacity) (xs @ [(am, r, CLogin i)])) ys"
proof -
  from assms(3) obtain h where h: "live now (sv_sessions sv) (session_key lb tk) = Some (adminSessionValue lb h)"
    "GetSetting up adminPasswordSetting (sv_db sv) = Inr h"
    by (auto simp: authenticated_iff)
  let ?k = "session_key lb tk" and ?v = "adminSessionValue lb h"
  obtain xs e ys where es: "es = xs @ e # ys"
    "signed_in_by lb sc now ?k ?v (final (server_step lb sc) (new_server db capacity) xs) e"
    "none_of (server_step lb sc) (signed_out_by lb sc ?k)
       (final (server_step lb sc) (new_server db capacity) (xs @ [e])) ys"
    using sessions.gate_trace [where lb = lb and sc = sc and t = now and tk = tk and v = ?v
        and s = "new_server db capacity" and es = es] h(1) assms(2) by auto
  from es(2) obtain am r i tk' pw h' where i: "e = (am, r, CLogin i)" "in_token i = Some tk'"
    "session_key lb tk' = ?k" "in_body i = Decoded pw"
    "GetSetting True adminPasswordSetting (sv_db (final (server_step lb sc) (new_server db capacity) xs)) = Inr h'"
    "CheckPassword lb h' pw" "adminSessionValue lb h' = ?v" "now < in_stored i + sc_session_ttl sc"
    by (auto simp: signed_in_by_def)
  have "tk' = tk" "h' = h"
    using i(3,7) session_key_inj [OF assms(1)] adminSessionValue_inj [OF assms(1)] by auto
  with es(1,3) i h(2) show ?thesis by (blast intro: GetSetting_up)
qed


text \<open>A change of the password that was answered with 200 has stored the generated hash.\<close>

lemma changePassword_stored:
  assumes "rp_status (fst (changePassword lb c sv)) = 200" "pc_generated c = Inr nh"
  shows "GetSetting True adminPasswordSetting (sv_db (snd (changePassword lb c sv))) = Inr nh"
  using assms
  by (auto simp: changePassword_def HashPassword_def decodeJSON_def writeError_def writeJSON_def Let_def
      SetSetting_def GetSetting_def split: sum.splits prod.splits option.splits if_splits decoded.splits)

lemma serve_password_stored:
  assumes "rp_status (fst (serve lb sc (am, r, CPassword c) sv)) = 200" "pc_generated c = Inr nh"
  shows "GetSetting True adminPasswordSetting (sv_db (snd (serve lb sc (am, r, CPassword c) sv))) = Inr nh"
proof -
  have serve: "serve lb sc (am, r, CPassword c) sv =
      requireAdmin lb (am_now am) (am_up am) r (checkOrigin lb sc r (changePassword lb c)) sv"
    by (simp add: serve_def)
  show ?thesis
  proof (cases rule: admin_cases [of lb "am_now am" "am_up am" r sc "changePassword lb c" sv])
    case (refused rp)
    with assms serve show ?thesis by simp
  next
    case (checked tk rp)
    with assms serve show ?thesis by auto
  next
    case (ran tk)
    with assms serve show ?thesis by (simp add: changePassword_stored)
  qed
qed

lemma split_snoc: "es @ [e] = xs @ x # ys \<Longrightarrow> e \<noteq> x \<Longrightarrow> \<exists>zs. es = xs @ x # zs"
  by (cases ys rule: rev_cases) auto

text \<open>A concrete library and server for the witnesses: hashing by identity and by a prefix.\<close>

definition sample_library :: library where
  "sample_library = \<lparr>lb_sha256hex = (\<lambda>s. s), lb_bcrypt_ok = (\<lambda>h p. h = ''b:'' @ p),
     lb_parse_url = (\<lambda>s. Some (''https'', s)), lb_fold = (\<lambda>s. s), lb_oauth = sample_oauth\<rparr>"

definition sample_config :: server_config where
  "sample_config = \<lparr>sc_session_ttl = 100, sc_public_url = ''home'', sc_storage_driver = ''sqlite'',
     sc_client_version = ''1''\<rparr>"

definition sample_database :: database where
  "sample_database = empty_database\<lparr>db_settings := [adminPasswordSetting \<mapsto> (''b:old'', 0)]\<rparr>"

definition sample_sign_in :: sign_in where
  "sample_sign_in = \<lparr>in_address = ''ip'', in_asked = 1, in_until = 1, in_failed = 1, in_stored = 1,
     in_body = Decoded ''old'', in_up = True, in_token = Some ''tk''\<rparr>"

definition sample_ambient :: ambient where
  "sample_ambient = \<lparr>am_now = 2, am_up = True, am_up_touch = True\<rparr>"

definition sample_request :: request where
  "sample_request = \<lparr>rq_method = ''PUT'', rq_cookie = Some ''tk'', rq_origin = [], rq_x_api_key = [],
     rq_authorization = []\<rparr>"

definition sample_change :: password_change where
  "sample_change = \<lparr>pc_body = Decoded (''old'', ''new-password''), pc_up_read = True,
     pc_generated = Inr ''b:new-password'', pc_up_write = True, pc_now = 3\<rparr>"

lemmas sample_defs = sample_library_def sample_config_def sample_database_def sample_sign_in_def
  sample_ambient_def sample_request_def sample_change_def new_server_def

lemma sample_signed_in:
  "snd (serve sample_library sample_config (sample_ambient, sample_request, CLogin sample_sign_in)
     (new_server sample_database 4)) =
   \<lparr>sv_db = sample_database,
    sv_sessions = \<lparr>ms_items = [(''admin:tk'', \<lparr>mi_value = ''authenticated:b:old'', mi_expiresAt = 101\<rparr>)],
      ms_capacity = 4, ms_nextExpiry = Some 101\<rparr>,
    sv_login = Map.empty\<rparr>"
  by (simp add: sample_defs serve_def loginHandler_def limiter_defs newLoginLimiter_def decodeJSON_def
      GetSetting_def empty_database_def CheckPassword_def Put_def newMemoryStore_def removeExpiredLocked_def
      session_key_def adminSessionValue_def HashSecret_def adminPasswordSetting_def)

lemma sample_inj: "inj (lb_sha256hex sample_library)"
  by (simp add: sample_library_def)

subsection \<open>Requests without credentials\<close>

definition has_session :: "library \<Rightarrow> ambient \<Rightarrow> request \<Rightarrow> server \<Rightarrow> bool" where
  "has_session lb am r sv \<longleftrightarrow>
     (case rq_cookie r of None \<Rightarrow> False
      | Some tk \<Rightarrow> tk \<noteq> [] \<and> fst (adminSessionAuthenticated lb (am_now am) (am_up am) tk sv) = Inr True)"

definition has_api_key :: "library \<Rightarrow> ambient \<Rightarrow> request \<Rightarrow> server \<Rightarrow> bool" where
  "has_api_key lb am r sv \<longleftrightarrow> provided_key r \<noteq> [] \<and>
     (\<exists>k. FindActiveAPIKeyByHash (am_up am) (HashSecret lb (provided_key r)) (sv_db sv) = Inr k)"

lemma refused_admin:
  assumes "\<not> has_session lb am r sv"
  shows "rp_status (fst (requireAdmin lb (am_now am) (am_up am) r h sv)) \<in> {401, 503} \<and>
    sv_db (snd (requireAdmin lb (am_now am) (am_up am) r h sv)) = sv_db sv \<and>
    sv_login (snd (requireAdmin lb (am_now am) (am_up am) r h sv)) = sv_login sv \<and>
    (\<exists>tk. sv_sessions (snd (requireAdmin lb (am_now am) (am_up am) r h sv)) \<in>
       {sv_sessions sv, snd (Get (am_now am) (session_key lb tk) (sv_sessions sv))})"
proof -
  have login: "sv_login (snd (adminSessionAuthenticated lb (am_now am) (am_up am) tk sv)) = sv_login sv" for tk
    by (simp add: adminSessionAuthenticated_def Let_def split_beta split: option.split sum.split)
  show ?thesis
  proof (cases "rq_cookie r")
    case (Some tk)
    obtain a s where a: "adminSessionAuthenticated lb (am_now am) (am_up am) tk sv = (a, s)"
      by (cases "adminSessionAuthenticated lb (am_now am) (am_up am) tk sv")
    have s: "sv_db s = sv_db sv" "sv_login s = sv_login sv"
      "sv_sessions s = snd (Get (am_now am) (session_key lb tk) (sv_sessions sv))"
      using authenticated_db [of lb "am_now am" "am_up am" tk sv] login [of tk]
        authenticated_sessions [of lb "am_now am" "am_up am" tk sv] a by simp_all
    show ?thesis
    proof (cases "tk = []")
      case True
      with Some show ?thesis by (simp add: requireAdmin_def writeError_def writeJSON_def)
    next
      case False
      then have "a \<noteq> Inr True" using assms Some a by (simp add: has_session_def)
      with Some False a show ?thesis
        by (cases a) (auto simp: requireAdmin_def writeError_def writeJSON_def s)
    qed
  qed (auto simp: requireAdmin_def writeError_def writeJSON_def)
qed

lemma refused_v1:
  assumes "\<not> has_api_key lb am r sv" "rq_method r \<noteq> ''OPTIONS''"
  shows "rp_status (fst (v1CORS r (requireAPIKey lb (am_now am) (am_up am) (am_up_touch am) r h) sv)) \<in> {401, 503} \<and>
    snd (v1CORS r (requireAPIKey lb (am_now am) (am_up am) (am_up_touch am) r h) sv) = sv"
  using assms
  by (auto simp: v1CORS_def requireAPIKey_def has_api_key_def Let_def writeError_def writeJSON_def split: sum.split)

lemma find_appended:
  "\<not> p x' \<Longrightarrow> List.find p (xs @ [x]) = (case List.find p xs of None \<Rightarrow> if p x then Some x else None | Some y \<Rightarrow> Some y)"
  by (induction xs) auto

lemma find_new_hash:
  assumes "dk_hash k \<notin> dk_hash ` set ks" "dk_revoked_at k = None"
  shows "List.find (\<lambda>x. dk_hash x = dk_hash k \<and> dk_revoked_at x = None) (ks @ [k]) = Some k"
proof -
  have "\<forall>x \<in> set ks. \<not> (dk_hash x = dk_hash k \<and> dk_revoked_at x = None)"
    using assms(1) by (force simp: image_iff)
  then have "List.find (\<lambda>x. dk_hash x = dk_hash k \<and> dk_revoked_at x = None) ks = None"
    by (simp add: find_None_iff)
  with assms(2) show ?thesis by (induction ks) (auto split: if_splits)
qed

lemma last_token: "tk \<noteq> [] \<Longrightarrow> last (s @ tk) = last tk"
  by simp

lemma lower_bearer: "map lower_char ''Bearer '' = ''bearer ''"
  by code_simp

lemma provided_bearer:
  assumes "rq_authorization r = ''Bearer '' @ plain" "plain \<noteq> []" "printable (hd plain)" "printable (last plain)"
  shows "provided_key r = plain"
proof -
  have "TrimSpace (''Bearer '' @ plain) = ''Bearer '' @ plain"
    using assms(2,4) by (intro TrimSpace_printable) (simp_all add: printable_def)
  moreover have "TrimSpace plain = plain" using assms(2-4) by (rule TrimSpace_printable)
  ultimately show ?thesis
    using assms(1) lower_bearer by (simp add: provided_key_def has_prefix_def Let_def)
qed

lemma decodeJSON_error: "decodeJSON d = Inl r \<Longrightarrow> \<exists>c m. rp_body r = ErrorBody c m"
  by (cases d) (auto simp: decodeJSON_def writeError_def writeJSON_def Let_def)

lemma created_key:
  assumes "createAPIKey lb q sv = (rp, sv')" "rp_body rp = NewKeyBody key plain"
  shows "\<exists>tk. kq_secret q = Some tk \<and> plain = ''sk-codexone-'' @ tk \<and>
    dk_hash key = HashSecret lb plain \<and> dk_prefix key = take 20 plain \<and> dk_revoked_at key = None \<and>
    dk_last_used_at key = None \<and> dk_hash key \<notin> dk_hash ` set (db_keys (sv_db sv)) \<and>
    db_keys (sv_db sv') = db_keys (sv_db sv) @ [key] \<and> rp_status rp = 201"
proof -
  obtain raw where raw: "decodeJSON (kq_body q) = Inr raw"
    using assms decodeJSON_error [of "kq_body q"]
    by (cases "decodeJSON (kq_body q)") (auto simp: createAPIKey_def)
  have name: "\<not> (TrimSpace raw = [] \<or> length (TrimSpace raw) > 64)"
    using assms by (auto simp: createAPIKey_def raw writeError_def writeJSON_def Let_def)
  obtain tk where tk: "kq_secret q = Some tk"
    using assms name by (cases "kq_secret q") (auto simp: createAPIKey_def raw NewAPIKey_def writeError_def writeJSON_def Let_def)
  obtain i where i: "kq_id q = Some i"
    using assms name tk by (cases "kq_id q") (auto simp: createAPIKey_def raw NewAPIKey_def writeError_def writeJSON_def Let_def)
  let ?plain = "''sk-codexone-'' @ tk"
  let ?pre = "if length ?plain > 20 then take 20 ?plain else ?plain"
  have pre: "?pre = take 20 ?plain" by simp
  let ?key = "\<lparr>dk_id = ''key_'' @ i, dk_name = TrimSpace raw, dk_hash = HashSecret lb ?plain, dk_prefix = ?pre,
                dk_created_at = kq_now q, dk_last_used_at = None, dk_revoked_at = None\<rparr>"
  obtain e db where c: "CreateAPIKey (kq_up q) ?key (sv_db sv) = (e, db)"
    by (cases "CreateAPIKey (kq_up q) ?key (sv_db sv)")
  have run: "createAPIKey lb q sv =
      (case e of Some x \<Rightarrow> (writeError 500 ''key_failed'' ''could not save API key'', sv\<lparr>sv_db := db\<rparr>)
       | None \<Rightarrow> (writeJSON 201 (NewKeyBody ?key ?plain), sv\<lparr>sv_db := db\<rparr>))"
    using name tk i c by (cases e) (simp_all add: createAPIKey_def raw NewAPIKey_def Let_def del: append_Cons)
  show ?thesis
  proof (cases e)
    case (Some x)
    with run assms show ?thesis by (simp add: writeError_def writeJSON_def)
  next
    case None
    with run assms have out: "key = ?key" "plain = ?plain" "sv' = sv\<lparr>sv_db := db\<rparr>" "rp_status rp = 201"
      by (auto simp: writeJSON_def simp del: append_Cons)
    from c None have "dk_hash ?key \<notin> dk_hash ` set (db_keys (sv_db sv))"
      "db_keys db = db_keys (sv_db sv) @ [?key]"
      by (auto simp: CreateAPIKey_def simp del: append_Cons split: if_splits)
    with out tk pre show ?thesis by (simp del: append_Cons)
  qed
qed

subsection \<open>Properties\<close>

text \<open>C1. A session token is accepted only if the administrator signed in for it and that sign-in
  still counts: among the requests served since the start there is a sign-in that was given this
  token, with a password that matched the hash then stored; that hash is the one stored now; the
  session's lifetime has not run out; and no later sign-out with this token was answered with 200. (SHA-256 is taken to be free of collisions.)\<close>

theorem session_needs_sign_in:
  assumes "inj (lb_sha256hex lb)"
    and "sv = final (server_step lb sc) (new_server db capacity) es"
    and "fst (adminSessionAuthenticated lb now up tk sv) = Inr True"
  shows "\<exists>xs am r i ys pw h. es = xs @ (am, r, CLogin i) # ys \<and> in_token i = Some tk \<and>
    in_body i = Decoded pw \<and> CheckPassword lb h pw \<and>
    GetSetting True adminPasswordSetting (sv_db (final (server_step lb sc) (new_server db capacity) xs)) = Inr h \<and>
    GetSetting True adminPasswordSetting (sv_db sv) = Inr h \<and>
    now < in_stored i + sc_session_ttl sc \<and>
    none_of (server_step lb sc) (signed_out_by lb sc (session_key lb tk))
      (final (server_step lb sc) (new_server db capacity) (xs @ [(am, r, CLogin i)])) ys"
  by (rule sign_in_behind_session [OF assms])

theorem session_needs_sign_in_witness:
  "\<exists>xs am r i ys. [(sample_ambient, sample_request, CLogin sample_sign_in)] = xs @ (am, r, CLogin i) # ys \<and>
     in_token i = Some ''tk'' \<and> 50 < in_stored i + 100"
proof -
  let ?es = "[(sample_ambient, sample_request, CLogin sample_sign_in)]"
  have "fst (adminSessionAuthenticated sample_library 50 True ''tk''
      (final (server_step sample_library sample_config) (new_server sample_database 4) ?es)) = Inr True"
    by (simp add: sample_signed_in authenticated_iff live_def session_key_def adminSessionValue_def
        HashSecret_def GetSetting_def)
      (simp add: sample_library_def sample_database_def)
  from session_needs_sign_in [OF sample_inj refl this] show ?thesis
    by (simp add: sample_config_def) blast
qed

text \<open>C2. A changed password ends every session, the one that changed it included: when the
  server has answered a change with 200, no token is accepted, until someone signs in with the new
  password. (The salted hash of the new password is taken to differ from those stored before, and
  SHA-256 to be free of collisions.)\<close>

theorem password_change_ends_sessions:
  assumes "inj (lb_sha256hex lb)" and "pc_generated c = Inr nh"
    and fresh: "\<forall>xs ys. es = xs @ ys \<longrightarrow>
      GetSetting True adminPasswordSetting (sv_db (final (server_step lb sc) (new_server db capacity) xs)) \<noteq> Inr nh"
    and ok: "rp_status (fst (serve lb sc (am, r, CPassword c)
      (final (server_step lb sc) (new_server db capacity) es))) = 200"
  shows "fst (adminSessionAuthenticated lb now up tk
    (final (server_step lb sc) (new_server db capacity) (es @ [(am, r, CPassword c)]))) \<noteq> Inr True"
proof
  let ?run = "final (server_step lb sc) (new_server db capacity)"
  let ?e = "(am, r, CPassword c)"
  assume "fst (adminSessionAuthenticated lb now up tk (?run (es @ [?e]))) = Inr True"
  from sign_in_behind_session [OF assms(1) refl this] obtain xs am' r' i ys h where
    split: "es @ [?e] = xs @ (am', r', CLogin i) # ys"
    and h: "GetSetting True adminPasswordSetting (sv_db (?run xs)) = Inr h"
      "GetSetting True adminPasswordSetting (sv_db (?run (es @ [?e]))) = Inr h"
    by blast
  from split_snoc [OF split] obtain zs where "es = xs @ (am', r', CLogin i) # zs" by auto
  with fresh h(1) have "h \<noteq> nh" by blast
  moreover have "h = nh"
    using h(2) serve_password_stored [OF ok assms(2)] by simp
  ultimately show False by simp
qed

theorem password_change_ends_sessions_witness:
  "fst (adminSessionAuthenticated sample_library 5 True ''tk''
     (final (server_step sample_library sample_config) (new_server sample_database 4)
       ([(sample_ambient, sample_request, CLogin sample_sign_in)] @
        [(sample_ambient, sample_request, CPassword sample_change)]))) \<noteq> Inr True"
proof (rule password_change_ends_sessions [OF sample_inj, where nh = "''b:new-password''"])
  show "pc_generated sample_change = Inr ''b:new-password''" by (simp add: sample_change_def)
  let ?run = "final (server_step sample_library sample_config) (new_server sample_database 4)"
  let ?e = "(sample_ambient, sample_request, CLogin sample_sign_in)"
  show "\<forall>xs ys. [?e] = xs @ ys \<longrightarrow>
      GetSetting True adminPasswordSetting (sv_db (?run xs)) \<noteq> Inr ''b:new-password''"
    by (auto simp: Cons_eq_append_conv sample_signed_in)
      (simp_all add: sample_database_def new_server_def GetSetting_def)
  show "rp_status (fst (serve sample_library sample_config (sample_ambient, sample_request, CPassword sample_change)
      (?run [?e]))) = 200"
    by (simp add: sample_signed_in)
      (simp add: serve_def requireAdmin_def checkOrigin_def adminSessionAuthenticated_def Get_def Get_rest_def
        Get_read_def sample_defs session_key_def adminSessionValue_def HashSecret_def GetSetting_def
        adminPasswordSetting_def changePassword_def decodeJSON_def CheckPassword_def HashPassword_def
        ValidatePassword_def TrimSpace_printable printable_def SetSetting_def writeJSON_def Let_def)
qed

text \<open>C3. Without credentials nothing happens: a request for an administrator's route without an
  accepted session, or for a route of the API without an active key, is answered with 401, or with 503
  where the storage cannot be read; the database and the sign-in limiter stay as they are and no live
  session is gained or lost, whatever handler is behind the route.\<close>

theorem no_credentials_no_effect:
  assumes "group_of c = AdminGroup \<and> \<not> has_session lb am r sv \<or>
      group_of c = V1Group \<and> \<not> has_api_key lb am r sv \<and> rq_method r \<noteq> ''OPTIONS''"
    and "am_now am \<le> t"
  shows "rp_status (fst (serve lb sc (am, r, c) sv)) \<in> {401, 503} \<and>
    sv_db (snd (serve lb sc (am, r, c) sv)) = sv_db sv \<and>
    sv_login (snd (serve lb sc (am, r, c) sv)) = sv_login sv \<and>
    live t (sv_sessions (snd (serve lb sc (am, r, c) sv))) = live t (sv_sessions sv)"
  using assms(1)
proof
  assume a: "group_of c = AdminGroup \<and> \<not> has_session lb am r sv"
  then have "serve lb sc (am, r, c) sv =
      requireAdmin lb (am_now am) (am_up am) r (checkOrigin lb sc r (admin_handler lb r c)) sv"
    by (simp add: serve_def)
  with refused_admin [of lb am r sv "checkOrigin lb sc r (admin_handler lb r c)"] a assms(2) show ?thesis
    by (auto simp: get_live)
next
  assume "group_of c = V1Group \<and> \<not> has_api_key lb am r sv \<and> rq_method r \<noteq> ''OPTIONS''"
  then show ?thesis
    using refused_v1 [of lb am r sv "v1_handler c"] by (simp add: serve_def)
qed

theorem no_credentials_no_effect_witness:
  "rp_status (fst (serve sample_library sample_config
     (sample_ambient, sample_request, CCreateKey \<lparr>kq_body = Decoded ''x'', kq_secret = Some ''y'', kq_id = Some ''z'',
        kq_now = 1, kq_up = True\<rparr>) (new_server sample_database 4))) \<in> {401, 503}"
  using no_credentials_no_effect [of "CCreateKey \<lparr>kq_body = Decoded ''x'', kq_secret = Some ''y'',
      kq_id = Some ''z'', kq_now = 1, kq_up = True\<rparr>" sample_library sample_ambient sample_request
      "new_server sample_database 4" 9 sample_config]
  by (simp add: has_session_def sample_request_def sample_ambient_def authenticated_iff)

text \<open>Cross-site requests: a request that may change something and carries an origin whose scheme
  or host is not the public one, or an origin that is no URL, is answered with 403 even with a valid
  session, and its handler does not run.\<close>

lemma foreign_origin_rejected:
  assumes "group_of c = AdminGroup" and "has_session lb am r sv"
    and "rq_method r \<notin> {''GET'', ''HEAD'', ''OPTIONS''}" and "TrimSpace (rq_origin r) \<noteq> []"
    and "case (lb_parse_url lb (TrimSpace (rq_origin r)), lb_parse_url lb (sc_public_url sc)) of
        (Some (s, h), Some (ps, ph)) \<Rightarrow> \<not> (EqualFold lb s ps \<and> EqualFold lb h ph)
      | _ \<Rightarrow> True"
  shows "rp_status (fst (serve lb sc (am, r, c) sv)) = 403 \<and>
    sv_db (snd (serve lb sc (am, r, c) sv)) = sv_db sv"
proof -
  have origin: "checkOrigin lb sc r h s = (writeError 403 ''origin_rejected'' ''request origin is not allowed'', s)"
    for h s
    using assms(3-5) by (auto simp: checkOrigin_def Let_def split: option.splits prod.splits)
  have serve: "serve lb sc (am, r, c) sv =
      requireAdmin lb (am_now am) (am_up am) r (checkOrigin lb sc r (admin_handler lb r c)) sv"
    using assms(1) by (simp add: serve_def)
  obtain tk where tk: "rq_cookie r = Some tk" "tk \<noteq> []"
    "fst (adminSessionAuthenticated lb (am_now am) (am_up am) tk sv) = Inr True"
    using assms(2) by (auto simp: has_session_def split: option.splits)
  obtain s where s: "adminSessionAuthenticated lb (am_now am) (am_up am) tk sv = (Inr True, s)"
    using tk(3) by (cases "adminSessionAuthenticated lb (am_now am) (am_up am) tk sv") simp
  with authenticated_db [of lb "am_now am" "am_up am" tk sv] have "sv_db s = sv_db sv" by simp
  with tk s show ?thesis
    by (simp add: serve requireAdmin_def origin writeError_def writeJSON_def)
qed

lemma foreign_origin_rejected_witness:
  "rp_status (fst (serve sample_library sample_config
     (sample_ambient, sample_request\<lparr>rq_origin := ''evil''\<rparr>, CPassword sample_change)
     (snd (serve sample_library sample_config (sample_ambient, sample_request, CLogin sample_sign_in)
        (new_server sample_database 4))))) = 403"
proof -
  have "rp_status (fst (serve sample_library sample_config
       (sample_ambient, sample_request\<lparr>rq_origin := ''evil''\<rparr>, CPassword sample_change)
       (snd (serve sample_library sample_config (sample_ambient, sample_request, CLogin sample_sign_in)
          (new_server sample_database 4))))) = 403 \<and>
     sv_db (snd (serve sample_library sample_config
       (sample_ambient, sample_request\<lparr>rq_origin := ''evil''\<rparr>, CPassword sample_change)
       (snd (serve sample_library sample_config (sample_ambient, sample_request, CLogin sample_sign_in)
          (new_server sample_database 4))))) =
     sv_db (snd (serve sample_library sample_config (sample_ambient, sample_request, CLogin sample_sign_in)
          (new_server sample_database 4)))"
  proof (rule foreign_origin_rejected)
    show "has_session sample_library sample_ambient (sample_request\<lparr>rq_origin := ''evil''\<rparr>)
        (snd (serve sample_library sample_config (sample_ambient, sample_request, CLogin sample_sign_in)
           (new_server sample_database 4)))"
      unfolding sample_signed_in
      by (simp add: has_session_def authenticated_iff sample_request_def sample_ambient_def sample_library_def sample_database_def live_def
          session_key_def adminSessionValue_def HashSecret_def GetSetting_def)
  qed (simp_all add: TrimSpace_printable printable_def sample_request_def sample_library_def sample_config_def
      EqualFold_def)
  then show ?thesis by simp
qed

text \<open>A created key works at once and is stored only as a hash: the secret in the reply, sent as a
  bearer token, is found as this key and no other, so the API's handler runs with it; the row holds its SHA-256 and at most its
  first 20 characters. (The random part consists of printable characters, as base64url does.)\<close>

lemma created_key_authenticates:
  assumes "createAPIKey lb q sv = (rp, sv')" and "rp_body rp = NewKeyBody key plain"
    and "\<forall>tk. kq_secret q = Some tk \<longrightarrow> tk \<noteq> [] \<and> printable (last tk)"
    and "rq_authorization r = ''Bearer '' @ plain" and "rq_method r \<noteq> ''OPTIONS''"
  shows "requireAPIKey lb now True up r h sv' =
      h (Some (key\<lparr>dk_hash := []\<rparr>)) (sv'\<lparr>sv_db := snd (TouchAPIKey up (dk_id key) now (sv_db sv'))\<rparr>) \<and>
    dk_hash key = HashSecret lb plain \<and> length (dk_prefix key) \<le> 20"
proof -
  obtain tk where k: "kq_secret q = Some tk" "plain = ''sk-codexone-'' @ tk"
    "dk_hash key = HashSecret lb plain" "dk_prefix key = take 20 plain" "dk_revoked_at key = None"
    "dk_hash key \<notin> dk_hash ` set (db_keys (sv_db sv))"
    "db_keys (sv_db sv') = db_keys (sv_db sv) @ [key]"
    using created_key [OF assms(1,2)] by blast
  have "printable (hd plain)" "printable (last plain)" "plain \<noteq> []"
    using assms(3) k(1,2) by (simp_all add: printable_def)
  then have plain: "provided_key r = plain" "plain \<noteq> []"
    using provided_bearer [OF assms(4)] by simp_all
  have "FindActiveAPIKeyByHash True (HashSecret lb plain) (sv_db sv') = Inr (key\<lparr>dk_hash := []\<rparr>)"
    using find_new_hash [OF k(6,5)] k(3,7) by (simp add: FindActiveAPIKeyByHash_def find_active_def)
  with plain assms(5) k(3,4) show ?thesis by (simp add: requireAPIKey_def Let_def)
qed

definition sample_key_request :: key_request where
  "sample_key_request = \<lparr>kq_body = Decoded ''laptop'', kq_secret = Some ''abc'', kq_id = Some ''1'',
     kq_now = 5, kq_up = True\<rparr>"

lemma created_key_authenticates_witness:
  "\<exists>key plain. rp_body (fst (createAPIKey sample_library sample_key_request (new_server sample_database 4))) =
       NewKeyBody key plain \<and> dk_hash key = HashSecret sample_library plain"
proof -
  let ?c = "createAPIKey sample_library sample_key_request (new_server sample_database 4)"
  obtain key plain where b: "rp_body (fst ?c) = NewKeyBody key plain"
    by (simp add: createAPIKey_def sample_key_request_def decodeJSON_def TrimSpace_printable printable_def
        NewAPIKey_def CreateAPIKey_def new_server_def sample_database_def empty_database_def writeJSON_def Let_def)
  have "createAPIKey sample_library sample_key_request (new_server sample_database 4) = (fst ?c, snd ?c)"
    by simp
  from created_key_authenticates [OF this b, of "sample_request\<lparr>rq_authorization := ''Bearer '' @ plain\<rparr>" 1 True
      "\<lambda>k. health True"] b
  show ?thesis by (simp add: sample_key_request_def sample_request_def printable_def)
qed

end
