(* ===== verification/AccountLogin.thy ===== *)
theory AccountLogin
  imports WebServer
begin

text \<open>
  The browser login of the Codex account seen from the whole server: which requests can lead to an exchange of a code
  for tokens.
\<close>

lemma flow_on_server: "flow_stored flowID raw t (manager_of sv) \<longleftrightarrow> live t (sv_sessions sv) (browser_key flowID) = Some raw"
  by (simp add: flow_stored_def manager_of_def)

text \<open>A request that starts a login, answered with it; and one that completes it, answered with the account.\<close>

definition login_started ::
  "library \<Rightarrow> server_config \<Rightarrow> gostring \<Rightarrow> gostring \<Rightarrow> int \<Rightarrow> server \<Rightarrow> ambient \<times> request \<times> call \<Rightarrow> bool" where
  "login_started lb sc flowID raw t sv e \<longleftrightarrow>
     (\<exists>am r w start s. e = (am, r, CAccount (StartBrowserLogin w)) \<and> has_session lb am r sv \<and>
        rp_body (fst (serve lb sc e sv)) = BrowserBody start \<and>
        fst (StartBrowserFlow (lb_oauth lb) w s) = Inr start \<and>
        starts_flow (lb_oauth lb) flowID raw t s (StartBrowser w))"

definition login_completed :: "library \<Rightarrow> server_config \<Rightarrow> gostring \<Rightarrow> server \<Rightarrow> ambient \<times> request \<times> call \<Rightarrow> bool" where
  "login_completed lb sc flowID sv e \<longleftrightarrow>
     (\<exists>am r w received view. e = (am, r, CAccount (CompleteBrowserLogin w flowID received)) \<and>
        rp_body (fst (serve lb sc e sv)) = AccountBody view)"

lemma session_not_flow: "session_key lb tk \<noteq> browser_key flowID"
  using session_foreign [of lb tk] by (auto simp: foreign_key_def)

lemma public_opens_no_flow:
  assumes "sessions_ok sv" "group_of c = PublicGroup"
    and "live t (sv_sessions (snd (serve lb sc (am, r, c) sv))) (browser_key flowID) = Some raw"
  shows "live t (sv_sessions sv) (browser_key flowID) = Some raw"
  using serve_public_sessions [OF assms(2), of lb sc am r sv]
proof (elim disjE exE conjE)
  assume "sv_sessions (snd (serve lb sc (am, r, c) sv)) = sv_sessions sv"
  with assms(3) show ?thesis by simp
next
  fix now tk
  assume "sv_sessions (snd (serve lb sc (am, r, c) sv)) = snd (Get now (session_key lb tk) (sv_sessions sv))"
  with assms(3) have "live t (snd (Get now (session_key lb tk) (sv_sessions sv))) (browser_key flowID) = Some raw" by simp
  then show ?thesis by (rule get_live_back)
next
  fix i tk h
  assume "sv_sessions (snd (serve lb sc (am, r, c) sv)) =
    snd (Put (in_stored i) (session_key lb tk) (adminSessionValue lb h) (sc_session_ttl sc) (sv_sessions sv))"
  with assms(3) have "live t (snd (Put (in_stored i) (session_key lb tk) (adminSessionValue lb h) (sc_session_ttl sc)
    (sv_sessions sv))) (browser_key flowID) = Some raw" by simp
  then show ?thesis using assms(1) session_not_flow by (auto simp: sessions_ok_def intro: put_other_key)
qed

lemma admin_opens:
  assumes "sessions_ok sv" "group_of c = AdminGroup"
    and "live t (sv_sessions (snd (serve lb sc (am, r, c) sv))) (browser_key flowID) = Some raw"
    and "live t (sv_sessions sv) (browser_key flowID) \<noteq> Some raw"
  shows "login_started lb sc flowID raw t sv (am, r, c)"
proof -
  have serve: "serve lb sc (am, r, c) sv =
      requireAdmin lb (am_now am) (am_up am) r (checkOrigin lb sc r (admin_handler lb r c)) sv"
    using assms(2) by (simp add: serve_def)
  have get: "live t (snd (Get now k (sv_sessions sv))) (browser_key flowID) \<noteq> Some raw" for now k
    using get_live_back assms(4) by blast
  show ?thesis
  proof (cases rule: admin_cases [of lb "am_now am" "am_up am" r sc "admin_handler lb r c" sv])
    case (refused rp)
    with assms(3,4) serve show ?thesis by simp
  next
    case (checked tk rp)
    with assms(3) get serve show ?thesis by simp
  next
    case (ran tk)
    let ?s = "snd (adminSessionAuthenticated lb (am_now am) (am_up am) tk sv)"
    have session: "has_session lb am r sv" using ran(1-3) by (simp add: has_session_def)
    have before: "\<not> flow_stored flowID raw t (manager_of ?s)" using get by (simp add: flow_on_server)
    have after: "flow_stored flowID raw t (manager_of (snd (admin_handler lb r c ?s)))"
      using assms(3) serve ran(4) by (simp add: flow_on_server)
    show ?thesis
    proof (cases "\<exists>a. c = CAccount a")
      case True
      then obtain a where c: "c = CAccount a" by blast
      have "ms_inv (sv_sessions ?s)" using assms(1) by (simp add: sessions_ok_def get_inv)
      then obtain w start where "a = StartBrowserLogin w" "starts_flow (lb_oauth lb) flowID raw t (manager_of ?s) (StartBrowser w)"
        "fst (StartBrowserFlow (lb_oauth lb) w (manager_of ?s)) = Inr start"
        "rp_body (fst (account_handler (lb_oauth lb) a ?s)) = BrowserBody start"
        using account_opens [OF _ _ before, of "lb_oauth lb" a] after c by auto
      with session c serve ran(4) show ?thesis unfolding login_started_def by auto
    next
      case False
      then have "sv_sessions (snd (admin_handler lb r c ?s)) \<in> {sv_sessions ?s, Delete (session_key lb tk) (sv_sessions ?s)}"
        using ran(1) by (auto simp: admin_handler_sessions split: call.split)
      with after before show ?thesis by (auto simp: flow_on_server Delete_live split: if_splits)
    qed
  qed
qed

lemma server_opens:
  assumes "sessions_ok sv" "flow_stored flowID raw t (manager_of (snd (serve lb sc e sv)))"
    and "\<not> flow_stored flowID raw t (manager_of sv)"
  shows "login_started lb sc flowID raw t sv e"
proof -
  obtain am r c where e: "e = (am, r, c)" by (cases e)
  note stored = assms(2,3) [unfolded flow_on_server]
  show ?thesis
  proof (cases "group_of c")
    case PublicGroup
    with stored assms(1) e public_opens_no_flow show ?thesis by metis
  next
    case AdminGroup
    with stored assms(1) e admin_opens show ?thesis by metis
  next
    case V1Group
    with stored e show ?thesis by (simp add: serve_V1_sessions)
  qed
qed

lemma server_closes:
  assumes "login_completed lb sc flowID sv e"
  shows "\<not> flow_stored flowID raw t (manager_of (snd (serve lb sc e sv)))"
proof -
  obtain am r w received view where e: "e = (am, r, CAccount (CompleteBrowserLogin w flowID received))"
    and body: "rp_body (fst (serve lb sc e sv)) = AccountBody view"
    using assms by (auto simp: login_completed_def)
  let ?h = "account_handler (lb_oauth lb) (CompleteBrowserLogin w flowID received)"
  have serve: "serve lb sc e sv = requireAdmin lb (am_now am) (am_up am) r (checkOrigin lb sc r ?h) sv"
    by (simp add: e serve_def)
  show ?thesis
  proof (cases "\<exists>s. serve lb sc e sv = ?h s")
    case True
    then obtain s where "serve lb sc e sv = ?h s" by blast
    with body account_closes show ?thesis by metis
  next
    case False
    then show ?thesis using body
      by (auto simp: serve requireAdmin_def checkOrigin_def Let_def writeError_def writeJSON_def
          split: option.splits prod.splits sum.splits if_splits)
  qed
qed

interpretation logins: gated_machine "server_step lb sc" sessions_ok
  "\<lambda>sv. flow_stored flowID raw t (manager_of sv)" "login_started lb sc flowID raw t" "login_completed lb sc flowID"
  for lb sc flowID raw t
  by unfold_locales (simp_all add: serve_sessions_ok server_opens server_closes)

lemma new_server_stores_no_flow: "\<not> flow_stored flowID raw t (manager_of (new_server db capacity))"
  by (simp add: flow_on_server)

subsection \<open>Property\<close>

text \<open>C30.
  A pasted callback is exchanged for tokens only within a login the administrator has started: an earlier request with an
  accepted session was answered with a browser login of this flow ID; the state in the callback is the random state of that
  login, the verifier sent with the code is the one whose challenge was in its URL, less than fifteen minutes have passed, and
  no completion of the login has been answered with the account since. The callback of another login is never exchanged.
\<close>

theorem browser_login_is_ours:
  assumes "flows_ok (lb_oauth lb)"
    and "x \<in> set (snd (snd (CompleteBrowserFlow (lb_oauth lb) w flowID url
          (manager_of (final (server_step lb sc) (new_server db capacity) es)))))"
  shows "\<exists>xs am r w0 ys start state verifier callback.
    es = xs @ (am, r, CAccount (StartBrowserLogin w0)) # ys
    \<and> has_session lb am r (final (server_step lb sc) (new_server db capacity) xs)
    \<and> rp_body (fst (serve lb sc (am, r, CAccount (StartBrowserLogin w0))
        (final (server_step lb sc) (new_server db capacity) xs))) = BrowserBody start
    \<and> bs_FlowID start = flowID
    \<and> nth_token w0 0 = Inr state \<and> nth_token w0 1 = Inr verifier
    \<and> bs_AuthorizationURL start =
        browserAuthorizationURL (lb_oauth lb) state (EncodeToString RawURLEncoding (ol_sha256 (lb_oauth lb) verifier))
    \<and> parseBrowserCallback (lb_oauth lb) url = Inr callback \<and> cb_State callback = state
    \<and> x = (cb_Code callback, verifier, browserRedirectURI)
    \<and> bw_get w < st_put w0 + minutes 15
    \<and> none_of (server_step lb sc) (login_completed lb sc flowID)
        (final (server_step lb sc) (new_server db capacity) (xs @ [(am, r, CAccount (StartBrowserLogin w0))])) ys"
proof -
  let ?run = "final (server_step lb sc) (new_server db capacity)"
  obtain raw flow callback where
    stored: "flow_stored flowID raw (bw_get w) (manager_of (?run es))" and raw: "ol_decode_browser (lb_oauth lb) raw = Some flow"
    and callback: "parseBrowserCallback (lb_oauth lb) url = Inr callback" "cb_State callback = bf_State flow"
      "x = (cb_Code callback, bf_Verifier flow, browserRedirectURI)"
    using exchange_sent [OF assms(2)] unfolding flow_stored_def by blast
  obtain xs e ys where run: "es = xs @ e # ys" "login_started lb sc flowID raw (bw_get w) (?run xs) e"
    "none_of (server_step lb sc) (login_completed lb sc flowID) (?run (xs @ [e])) ys"
    using logins.gate_trace [OF stored new_server_stores_no_flow new_server_ok(1)] by blast
  from run(2) obtain am r w0 start s where e: "e = (am, r, CAccount (StartBrowserLogin w0))"
    and session: "has_session lb am r (?run xs)" and body: "rp_body (fst (serve lb sc e (?run xs))) = BrowserBody start"
    and answer: "fst (StartBrowserFlow (lb_oauth lb) w0 s) = Inr start"
    and starts: "starts_flow (lb_oauth lb) flowID raw (bw_get w) s (StartBrowser w0)"
    unfolding login_started_def by blast
  from starts obtain state verifier where tokens: "nth_token w0 0 = Inr state" "nth_token w0 1 = Inr verifier"
    "nth_token w0 2 = Inr flowID" "bw_get w < st_put w0 + minutes 15"
    "raw = ol_encode_browser (lb_oauth lb)
       \<lparr>bf_State = state, bf_Verifier = verifier, bf_ExpiresAt = (st_now w0 + minutes 15) div 1000000\<rparr>"
    by (auto simp: starts_flow_def)
  have flow: "bf_State flow = state" "bf_Verifier flow = verifier"
    using raw tokens(5) assms(1) by (auto simp: flows_ok_def)
  have start: "bs_FlowID start = flowID" "bs_AuthorizationURL start =
      browserAuthorizationURL (lb_oauth lb) state (EncodeToString RawURLEncoding (ol_sha256 (lb_oauth lb) verifier))"
    using tokens(1-3) answer by (auto simp: StartBrowserFlow_def Let_def split: prod.splits option.splits)
  show ?thesis
    by (rule exI [of _ xs], rule exI [of _ am], rule exI [of _ r], rule exI [of _ w0], rule exI [of _ ys],
        rule exI [of _ start], rule exI [of _ state], rule exI [of _ verifier], rule exI [of _ callback])
      (use run(1,3) e session body tokens flow start callback in simp)
qed

definition signed_in :: "ambient \<times> request \<times> call" where
  "signed_in = (sample_ambient, sample_request, CLogin sample_sign_in)"

definition login_begun :: "ambient \<times> request \<times> call" where
  "login_begun = (sample_ambient, sample_request, CAccount (StartBrowserLogin sample_start))"

lemma sample_flow_stored:
  "live 0 (sv_sessions (final (server_step sample_library sample_config) (new_server sample_database 4) [signed_in, login_begun]))
     (browser_key ''YWJj'') = Some (ol_encode_browser sample_oauth sample_login)"
proof -
  let ?raw = "ol_encode_browser sample_oauth sample_login"
  let ?sv = "snd (serve sample_library sample_config signed_in (new_server sample_database 4))"
  let ?ss = "sv_sessions ?sv"
  have ss: "?ss = \<lparr>ms_items = [(''admin:tk'', \<lparr>mi_value = ''authenticated:b:old'', mi_expiresAt = 101\<rparr>)],
      ms_capacity = 4, ms_nextExpiry = Some 101\<rparr>"
    by (simp add: signed_in_def sample_signed_in)
  have inv: "ms_inv ?ss" using serve_sessions_ok [OF new_server_ok(1)] unfolding sessions_ok_def .
  have "fst (Put 0 (browser_key ''YWJj'') ?raw (minutes 15) ?ss) = None"
    by (simp add: ss Put_def removeExpiredLocked_def browser_key_def Let_def)
  then obtain ss' where p: "Put 0 (browser_key ''YWJj'') ?raw (minutes 15) ?ss = (None, ss')" by (metis prod.collapse)
  have live: "live 0 ss' (browser_key ''YWJj'') = Some ?raw" using put_live [OF p inv, of 0] by simp
  have world: "st_now sample_start = 0" "st_put sample_start = 0" by (simp_all add: sample_start_def)
  have db: "sv_db ?sv = sample_database" by (simp add: signed_in_def sample_signed_in)
  have hash: "lb_sha256hex sample_library x = x" for x by (simp add: sample_library_def)
  have "fst (adminSessionAuthenticated sample_library 2 True ''tk'' ?sv) = Inr True"
    by (simp add: authenticated_iff db ss hash live_def session_key_def adminSessionValue_def HashSecret_def GetSetting_def)
      (simp add: sample_database_def)
  moreover have "sv_sessions (snd (adminSessionAuthenticated sample_library 2 True ''tk'' ?sv)) = ?ss"
    by (simp add: ss Get_def Get_rest_def Get_read_def session_key_def HashSecret_def hash)
  ultimately obtain s where s: "adminSessionAuthenticated sample_library 2 True ''tk'' ?sv = (Inr True, s)"
    "sv_sessions s = ?ss" by (metis prod.collapse)
  have "serve sample_library sample_config login_begun ?sv = startBrowserLogin sample_oauth sample_start s"
    using s(1) by (simp add: login_begun_def serve_def requireAdmin_def checkOrigin_def sample_request_def sample_ambient_def
        sample_library_def TrimSpace_def)
  moreover have "sv_sessions (snd (startBrowserLogin sample_oauth sample_start s)) = ss'"
    using p s(2)
    by (simp add: startBrowserLogin_def StartBrowserFlow_def sample_token world Let_def with_manager_def manager_of_def
        sample_login_def split_beta)
  ultimately show ?thesis using live by simp
qed

lemma sample_sent:
  "(''c1'', ''YWJj'', browserRedirectURI) \<in> set (snd (snd (CompleteBrowserFlow (lb_oauth sample_library) sample_complete ''YWJj'' ''url''
     (manager_of (final (server_step sample_library sample_config) (new_server sample_database 4) [signed_in, login_begun])))))"
proof -
  let ?mg = "manager_of (final (server_step sample_library sample_config) (new_server sample_database 4) [signed_in, login_begun])"
  have "mg_sessions ?mg = sv_sessions
      (final (server_step sample_library sample_config) (new_server sample_database 4) [signed_in, login_begun])"
    by (simp only: manager_of_def manager.simps)
  then have "fst (Get 0 (browser_key ''YWJj'') (mg_sessions ?mg)) = Some (ol_encode_browser sample_oauth sample_login)"
    by (simp only: get_value sample_flow_stored)
  then have "Get 0 (browser_key ''YWJj'') (mg_sessions ?mg) =
      (Some (ol_encode_browser sample_oauth sample_login), snd (Get 0 (browser_key ''YWJj'') (mg_sessions ?mg)))"
    by (simp only: prod_eq_iff fst_conv snd_conv simp_thms)
  from sample_exchange [OF this] show ?thesis
    by (simp only: sample_library_def library.simps list.set insertI1)
qed

theorem browser_login_is_ours_witness:
  "\<exists>xs am r w0 ys. [signed_in, login_begun] = xs @ (am, r, CAccount (StartBrowserLogin w0)) # ys
     \<and> has_session sample_library am r (final (server_step sample_library sample_config) (new_server sample_database 4) xs)
     \<and> bw_get sample_complete < st_put w0 + minutes 15"
proof -
  have "flows_ok (lb_oauth sample_library)" using sample_flows_ok by (simp add: sample_library_def)
  from browser_login_is_ours [OF this sample_sent] show ?thesis by blast
qed

end
