(* ===== verification/ChatStream.thy ===== *)
theory ChatStream
  imports ProxyEvents
begin

text \<open>
  \<^verbatim>\<open>streamChatResponse\<close> and \<^verbatim>\<open>translateChatEvent\<close> of \<^verbatim>\<open>internal/proxy/chat.go\<close>: the event stream of the
  upstream becomes a stream of chat completion chunks. An event is turned into the list of
  chunks it writes. A write that fails ends the stream; what the event would still have changed
  is not read after that, so the chunks of an event can be computed first and written then.
\<close>

subsection \<open>Data\<close>

record chat_event =
  ev_Type :: gostring
  ev_Delta :: gostring
  ev_OutputIndex :: int
  ev_Response :: "response_part option"
  ev_item_Type :: gostring
  ev_item_CallID :: gostring
  ev_item_Name :: gostring
  ev_error_Message :: gostring

record chatStreamState =
  cs_id :: gostring
  cs_model :: gostring
  cs_created :: int
  cs_roleSent :: bool
  cs_terminalSent :: bool
  cs_tools :: "(int \<times> int) list"
  cs_nextTool :: int
  cs_usage :: tokenUsage
  cs_telemetry :: requestTelemetry

datatype delta =
    AssistantRole
  | ReasoningContent gostring
  | Content gostring
  | ToolCall int gostring gostring
  | ToolArguments int gostring
  | EmptyDelta

text \<open>A chunk carries the identity of the stream at the time it is made.\<close>

record chunk_head =
  ch_id :: gostring
  ch_created :: int
  ch_model :: gostring

datatype chunk =
    Choice chunk_head delta "gostring option"
  | UsageChunk chunk_head int int int "int option"
  | ErrorChunk gostring
  | Done

subsection \<open>Events\<close>

definition read_metadata :: "(gostring \<Rightarrow> gostring) \<Rightarrow> chat_event \<Rightarrow> chatStreamState \<Rightarrow> chatStreamState" where
  "read_metadata lower e s0 =
     (case ev_Response e of
        None \<Rightarrow> s0
      | Some r \<Rightarrow>
          (let s1 = (if rp_ID r \<noteq> [] then s0\<lparr>cs_id := rp_ID r\<rparr> else s0);
               s2 = (if rp_Model r \<noteq> [] then s1\<lparr>cs_model := rp_Model r\<rparr> else s1);
               s3 = (if rp_CreatedAt r \<noteq> 0 then s2\<lparr>cs_created := rp_CreatedAt r\<rparr> else s2)
           in s3\<lparr>cs_usage := parseResponseUsage lower (Some r) (cs_usage s3)\<rparr>))"

definition head_of :: "chatStreamState \<Rightarrow> chunk_head" where
  "head_of s = \<lparr>ch_id = cs_id s, ch_created = cs_created s, ch_model = cs_model s\<rparr>"

definition send :: "chatStreamState \<Rightarrow> delta \<Rightarrow> gostring option \<Rightarrow> chunk" where
  "send s d finish = Choice (head_of s) d finish"

definition ensureRole :: "chatStreamState \<Rightarrow> chatStreamState \<times> chunk list" where
  "ensureRole s =
     (if cs_roleSent s then (s, []) else (s\<lparr>cs_roleSent := True\<rparr>, [send s AssistantRole None]))"

definition usage_chunk :: "chatStreamState \<Rightarrow> chunk" where
  "usage_chunk s =
     (let u = cs_usage s
      in UsageChunk (head_of s) (InputTokens u) (OutputTokens u) (InputTokens u + OutputTokens u)
           (if HasReasoningTokens u then Some (ReasoningTokens u) else None))"

definition on_reasoning :: "int \<Rightarrow> chat_event \<Rightarrow> chatStreamState \<Rightarrow> chatStreamState \<times> chunk list" where
  "on_reasoning ms e s =
     (if ev_Delta e = [] then (s, [])
      else (let t = cs_telemetry s;
                s1 = s\<lparr>cs_telemetry := t\<lparr>FirstReasoningMS := first_time ms (FirstReasoningMS t)\<rparr>\<rparr>;
                (s2, role) = ensureRole s1
            in (s2, role @ [send s2 (ReasoningContent (ev_Delta e)) None])))"

definition on_text :: "int \<Rightarrow> chat_event \<Rightarrow> chatStreamState \<Rightarrow> chatStreamState \<times> chunk list" where
  "on_text ms e s =
     (let t = cs_telemetry s;
          s1 = (if ev_Delta e \<noteq> [] then s\<lparr>cs_telemetry := t\<lparr>FirstOutputMS := first_time ms (FirstOutputMS t)\<rparr>\<rparr> else s);
          (s2, role) = ensureRole s1
      in (s2, role @ [send s2 (Content (ev_Delta e)) None]))"

definition new_tool :: "int \<Rightarrow> chatStreamState \<Rightarrow> chatStreamState \<times> int" where
  "new_tool output s =
     (let index = cs_nextTool s
      in (s\<lparr>cs_nextTool := index + 1, cs_tools := AList.update output index (cs_tools s)\<rparr>, index))"

definition on_item_added :: "chat_event \<Rightarrow> chatStreamState \<Rightarrow> chatStreamState \<times> chunk list" where
  "on_item_added e s =
     (if ev_item_Type e \<noteq> ''function_call'' then (s, [])
      else (let (s1, role) = ensureRole s;
                (s2, index) = new_tool (ev_OutputIndex e) s1
            in (s2, role @ [send s2 (ToolCall index (ev_item_CallID e) (ev_item_Name e)) None])))"

definition on_arguments :: "chat_event \<Rightarrow> chatStreamState \<Rightarrow> chatStreamState \<times> chunk list" where
  "on_arguments e s =
     (let (s1, index) = (case map_of (cs_tools s) (ev_OutputIndex e) of
                           Some index \<Rightarrow> (s, index)
                         | None \<Rightarrow> new_tool (ev_OutputIndex e) s)
      in (s1, [send s1 (ToolArguments index (ev_Delta e)) None]))"

definition on_completed :: "bool \<Rightarrow> chatStreamState \<Rightarrow> chatStreamState \<times> chunk list" where
  "on_completed includeUsage s =
     (let (s1, role) = ensureRole s;
          finish = (if cs_tools s1 \<noteq> [] then ''tool_calls'' else ''stop'')
      in (s1\<lparr>cs_terminalSent := True\<rparr>,
          role @ [send s1 EmptyDelta (Some finish)] @ (if includeUsage then [usage_chunk s1] else []) @ [Done]))"

definition on_failed :: "chat_event \<Rightarrow> chatStreamState \<Rightarrow> chatStreamState \<times> chunk list" where
  "on_failed e s =
     (s\<lparr>cs_terminalSent := True\<rparr>,
      [ErrorChunk (responseFailureMessage (ev_error_Message e) (ev_Response e)), Done])"

definition translateChatEvent ::
  "(gostring \<Rightarrow> gostring) \<Rightarrow> bool \<Rightarrow> int \<Rightarrow> chat_event option \<Rightarrow> chatStreamState \<Rightarrow> chatStreamState \<times> chunk list" where
  "translateChatEvent lower includeUsage ms event s0 =
     (case event of
        None \<Rightarrow> (s0, [])
      | Some e \<Rightarrow>
          (let s = read_metadata lower e s0; t = ev_Type e
           in if t = ''response.created'' then ensureRole s
              else if t = ''response.reasoning_summary_text.delta'' \<or> t = ''response.reasoning_text.delta''
              then on_reasoning ms e s
              else if t = ''response.reasoning_summary_text.done'' \<or> t = ''response.reasoning_text.done'' then (s, [])
              else if t = ''response.output_text.delta'' then on_text ms e s
              else if t = ''response.output_item.added'' then on_item_added e s
              else if t = ''response.function_call_arguments.delta'' then on_arguments e s
              else if is_completed t then on_completed includeUsage s
              else if is_failed t then on_failed e s
              else (s, [])))"

subsection \<open>The stream\<close>

definition chat_init :: "gostring \<Rightarrow> int \<Rightarrow> chatStreamState" where
  "chat_init fallbackModel now =
     \<lparr>cs_id = [], cs_model = fallbackModel, cs_created = now, cs_roleSent = False, cs_terminalSent = False,
      cs_tools = [], cs_nextTool = 0, cs_usage = no_usage, cs_telemetry = no_telemetry\<rparr>"

text \<open>Writes as many chunks as the client takes; whether it took all.\<close>

fun write_chunks :: "nat option \<Rightarrow> chunk list \<Rightarrow> chunk list \<times> nat option \<times> bool" where
  "write_chunks room [] = ([], room, True)"
| "write_chunks room (c # cs) =
     (if \<not> takes room then ([], room, False)
      else (let (written, room', ok) = write_chunks (used_up room) cs in (c # written, room', ok)))"

definition line_event :: "(gostring \<Rightarrow> chat_event option) \<Rightarrow> gostring \<Rightarrow> chat_event option" where
  "line_event decode line =
     (let payload = ssePayload line in if is_data payload then decode payload else None)"

fun chat_lines ::
  "(gostring \<Rightarrow> gostring) \<Rightarrow> (gostring \<Rightarrow> chat_event option) \<Rightarrow> (gostring \<Rightarrow> gostring) \<Rightarrow> bool \<Rightarrow> stream_end \<Rightarrow>
     nat option \<Rightarrow> chatStreamState \<Rightarrow> (int \<times> gostring) list \<Rightarrow> chunk list \<times> stream_result" where
  "chat_lines lower decode expose includeUsage ending room s [] =
     (case ending of
        EOF \<Rightarrow> (if \<not> cs_terminalSent s then fst (write_chunks room [Done]) else [],
                stream_ended ending (cs_usage s, cs_telemetry s))
      | ReadError e \<Rightarrow> ([], stream_ended ending (cs_usage s, cs_telemetry s)))"
| "chat_lines lower decode expose includeUsage ending room s ((ms, line) # rest) =
     (let (s1, cs) = translateChatEvent lower includeUsage ms (line_event decode (expose line)) s;
          (written, room', ok) = write_chunks room cs
      in if \<not> ok then (written, client_gone (cs_usage s1, cs_telemetry s1))
         else (let (more, r) = chat_lines lower decode expose includeUsage ending room' s1 rest
               in (written @ more, r)))"

definition streamChatResponse ::
  "(gostring \<Rightarrow> gostring) \<Rightarrow> (gostring \<Rightarrow> chat_event option) \<Rightarrow> (gostring \<Rightarrow> gostring) \<Rightarrow> gostring \<Rightarrow> bool \<Rightarrow> int \<Rightarrow>
     stream_end \<Rightarrow> nat option \<Rightarrow> (int \<times> gostring) list \<Rightarrow> chunk list \<times> stream_result" where
  "streamChatResponse lower decode expose fallbackModel includeUsage now ending room lines =
     chat_lines lower decode expose includeUsage ending room (chat_init fallbackModel now) lines"

subsection \<open>The stream as a machine\<close>

definition chat_step ::
  "(gostring \<Rightarrow> gostring) \<Rightarrow> bool \<Rightarrow> chatStreamState \<Rightarrow> int \<times> chat_event option \<Rightarrow> chatStreamState \<times> chunk list" where
  "chat_step lower includeUsage s x = translateChatEvent lower includeUsage (fst x) (snd x) s"

definition read_lines ::
  "(gostring \<Rightarrow> chat_event option) \<Rightarrow> (gostring \<Rightarrow> gostring) \<Rightarrow> (int \<times> gostring) list \<Rightarrow> (int \<times> chat_event option) list" where
  "read_lines decode expose lines = map (\<lambda>(ms, line). (ms, line_event decode (expose line))) lines"

lemma takes_all [simp]: "takes None" "used_up None = None"
  by (simp_all add: takes_def used_up_def)

lemma write_all [simp]: "write_chunks None cs = (cs, None, True)"
  by (induction cs) simp_all

lemma chat_lines_exec:
  "chat_lines lower decode expose iu EOF None s lines =
     (let s' = final (chat_step lower iu) s (read_lines decode expose lines)
      in (outputs (chat_step lower iu) s (read_lines decode expose lines) @ (if cs_terminalSent s' then [] else [Done]),
          stream_ended EOF (cs_usage s', cs_telemetry s')))"
  by (induction lines arbitrary: s)
    (auto simp: read_lines_def chat_step_def Let_def split: prod.splits)

text \<open>A client that goes away has received the beginning of the stream.\<close>

lemma write_prefix:
  "write_chunks room cs = (written, room', ok) \<Longrightarrow> prefix written cs \<and> (ok \<longrightarrow> written = cs)"
  by (induction cs arbitrary: room written) (auto split: if_splits prod.splits)

lemma chat_lines_prefix:
  "prefix (fst (chat_lines lower decode expose iu ending room s lines))
     (fst (chat_lines lower decode expose iu EOF None s lines))"
proof (induction lines arbitrary: s room)
  case Nil
  obtain written room' ok where "write_chunks room [Done] = (written, room', ok)"
    by (cases "write_chunks room [Done]")
  with write_prefix [OF this] show ?case
    by (cases ending) (simp_all del: write_chunks.simps)
next
  case (Cons x lines)
  obtain ms line where x: "x = (ms, line)" by (cases x)
  obtain s1 cs where t: "translateChatEvent lower iu ms (line_event decode (expose line)) s = (s1, cs)"
    by (cases "translateChatEvent lower iu ms (line_event decode (expose line)) s")
  obtain written room' ok where w: "write_chunks room cs = (written, room', ok)" by (cases "write_chunks room cs")
  obtain more r where m: "chat_lines lower decode expose iu ending room' s1 lines = (more, r)"
    by (cases "chat_lines lower decode expose iu ending room' s1 lines")
  obtain all q where a: "chat_lines lower decode expose iu EOF None s1 lines = (all, q)"
    by (cases "chat_lines lower decode expose iu EOF None s1 lines")
  have "prefix more all" using Cons [of room' s1] by (simp add: m a)
  moreover have "prefix written cs" "ok \<Longrightarrow> written = cs" using write_prefix [OF w] by simp_all
  ultimately show ?case by (cases ok) (simp_all add: x t w m a)
qed

subsection \<open>What the client puts together\<close>

fun chunk_text :: "chunk \<Rightarrow> gostring" where
  "chunk_text (Choice _ (Content t) _) = t"
| "chunk_text _ = []"

fun chunk_reasoning :: "chunk \<Rightarrow> gostring" where
  "chunk_reasoning (Choice _ (ReasoningContent t) _) = t"
| "chunk_reasoning _ = []"

fun chunk_arguments :: "int \<Rightarrow> chunk \<Rightarrow> gostring" where
  "chunk_arguments n (Choice _ (ToolArguments m t) _) = (if m = n then t else [])"
| "chunk_arguments n _ = []"

fun chunk_tool :: "chunk \<Rightarrow> int option" where
  "chunk_tool (Choice _ (ToolCall m _ _) _) = Some m"
| "chunk_tool (Choice _ (ToolArguments m _) _) = Some m"
| "chunk_tool _ = None"

text \<open>And what the upstream sent.\<close>

definition is_reasoning :: "chat_event \<Rightarrow> bool" where
  "is_reasoning e \<longleftrightarrow>
     ev_Type e = ''response.reasoning_summary_text.delta'' \<or> ev_Type e = ''response.reasoning_text.delta''"

definition is_text :: "chat_event \<Rightarrow> bool" where
  "is_text e \<longleftrightarrow> ev_Type e = ''response.output_text.delta''"

definition is_call :: "chat_event \<Rightarrow> bool" where
  "is_call e \<longleftrightarrow> ev_Type e = ''response.output_item.added'' \<and> ev_item_Type e = ''function_call''"

definition is_arguments :: "chat_event \<Rightarrow> bool" where
  "is_arguments e \<longleftrightarrow> ev_Type e = ''response.function_call_arguments.delta''"

definition is_terminal :: "chat_event \<Rightarrow> bool" where
  "is_terminal e \<longleftrightarrow> is_completed (ev_Type e) \<or> is_failed (ev_Type e)"

lemmas kind_defs = is_reasoning_def is_text_def is_call_def is_arguments_def is_terminal_def is_completed_def
  is_failed_def

definition deltas :: "(chat_event \<Rightarrow> bool) \<Rightarrow> chat_event list \<Rightarrow> gostring" where
  "deltas p es = concat (map ev_Delta (filter p es))"

lemmas translate_defs = translateChatEvent_def on_reasoning_def on_text_def on_item_added_def on_arguments_def
  on_completed_def on_failed_def ensureRole_def new_tool_def send_def usage_chunk_def Let_def

lemma metadata_same [simp]:
  "cs_roleSent (read_metadata lower e s) = cs_roleSent s" "cs_tools (read_metadata lower e s) = cs_tools s"
  "cs_nextTool (read_metadata lower e s) = cs_nextTool s"
  "cs_terminalSent (read_metadata lower e s) = cs_terminalSent s"
  by (simp_all add: read_metadata_def Let_def split: option.split)

lemma step_text:
  "concat (map chunk_text (snd (translateChatEvent lower iu ms (Some e) s))) = (if is_text e then ev_Delta e else [])"
  by (simp add: translate_defs kind_defs split: option.split)

lemma step_reasoning:
  "concat (map chunk_reasoning (snd (translateChatEvent lower iu ms (Some e) s))) =
     (if is_reasoning e then ev_Delta e else [])"
  by (auto simp: translate_defs kind_defs split: option.split)

text \<open>The events of a list of lines, the last one apart.\<close>

definition chat_events :: "(int \<times> chat_event option) list \<Rightarrow> chat_event list" where
  "chat_events xs = List.map_filter snd xs"

lemma chat_events_simps [simp]:
  "chat_events [] = []" "chat_events (xs @ [(ms, None)]) = chat_events xs"
  "chat_events (xs @ [(ms, Some e)]) = chat_events xs @ [e]"
  by (simp_all add: chat_events_def List.map_filter_def)

lemma deltas_simps [simp]:
  "deltas p [] = []" "deltas p (es @ [e]) = deltas p es @ (if p e then ev_Delta e else [])"
  by (simp_all add: deltas_def)

lemma step_none [simp]: "chat_step lower iu s (ms, None) = (s, [])"
  by (simp add: chat_step_def translateChatEvent_def)

lemma step_event [simp]: "chat_step lower iu s (ms, Some e) = translateChatEvent lower iu ms (Some e) s"
  by (simp add: chat_step_def)

lemma run_text:
  "concat (map chunk_text (outputs (chat_step lower iu) s xs)) = deltas is_text (chat_events xs)"
proof (induction xs rule: rev_induct)
  case (snoc x xs)
  then show ?case by (cases x; cases "snd x") (auto simp: outputs_append step_text)
qed simp

lemma run_reasoning:
  "concat (map chunk_reasoning (outputs (chat_step lower iu) s xs)) = deltas is_reasoning (chat_events xs)"
proof (induction xs rule: rev_induct)
  case (snoc x xs)
  then show ?case by (cases x; cases "snd x") (auto simp: outputs_append step_reasoning)
qed simp

subsection \<open>Tool calls\<close>

text \<open>The output items with tool events, in the order in which they appear.\<close>

definition next_order :: "chat_event \<Rightarrow> int list \<Rightarrow> int list" where
  "next_order e order =
     (if (is_call e \<or> is_arguments e) \<and> ev_OutputIndex e \<notin> set order then order @ [ev_OutputIndex e] else order)"

definition call_order :: "chat_event list \<Rightarrow> int list" where
  "call_order es = fold next_order es []"

text \<open>No item is announced after another tool event of the same item.\<close>

fun announced_first :: "chat_event list \<Rightarrow> bool" where
  "announced_first [] = True"
| "announced_first (e # es) =
     (list_all (\<lambda>e'. is_call e' \<longrightarrow> (is_call e \<or> is_arguments e) \<longrightarrow> ev_OutputIndex e' \<noteq> ev_OutputIndex e) es
      \<and> announced_first es)"

lemma call_order_simps [simp]:
  "call_order [] = []" "call_order (es @ [e]) = next_order e (call_order es)"
  by (simp_all add: call_order_def)

lemma distinct_order: "distinct (call_order es)"
  by (induction es rule: rev_induct) (simp_all add: next_order_def)

lemma in_order: "set (call_order es) = ev_OutputIndex ` {e \<in> set es. is_call e \<or> is_arguments e}"
  by (induction es rule: rev_induct) (auto simp: next_order_def)

lemma announced_snoc:
  "announced_first (es @ [e]) \<longleftrightarrow>
     announced_first es \<and> (is_call e \<longrightarrow> ev_OutputIndex e \<notin> set (call_order es))"
  by (induction es) (auto simp: in_order list_all_iff)

definition numbered :: "int list \<Rightarrow> (int \<times> int) list" where
  "numbered order = zip order (map int [0..<length order])"

lemma numbered_snoc [simp]: "numbered (order @ [i]) = numbered order @ [(i, int (length order))]"
  by (simp add: numbered_def)

lemma map_of_numbered: "distinct order \<Longrightarrow> n < length order \<Longrightarrow> map_of (numbered order) (order ! n) = Some (int n)"
  by (simp add: numbered_def map_of_zip_nth)

lemma map_of_numbered_None: "map_of (numbered order) i = None \<longleftrightarrow> i \<notin> set order"
  by (simp add: numbered_def map_of_zip_is_None)

lemma update_new: "map_of xs k = None \<Longrightarrow> AList.update k v xs = xs @ [(k, v)]"
  by (induction xs) (auto split: if_splits)

text \<open>The state of a stream whose items are announced first.\<close>

definition tools_as :: "int list \<Rightarrow> chatStreamState \<Rightarrow> bool" where
  "tools_as order s \<longleftrightarrow> distinct order \<and> cs_tools s = numbered order \<and> cs_nextTool s = int (length order)"

definition calls_in :: "chunk list \<Rightarrow> (int \<times> gostring \<times> gostring) list" where
  "calls_in cs = List.map_filter (\<lambda>c. case c of Choice _ (ToolCall n i name) _ \<Rightarrow> Some (n, i, name) | _ \<Rightarrow> None) cs"

lemma calls_in_simps [simp]:
  "calls_in [] = []" "calls_in (xs @ ys) = calls_in xs @ calls_in ys"
  "calls_in (Choice h d f # cs) = (case d of ToolCall n i name \<Rightarrow> [(n, i, name)] | _ \<Rightarrow> []) @ calls_in cs"
  "calls_in (UsageChunk h a b c r # cs) = calls_in cs" "calls_in (ErrorChunk m # cs) = calls_in cs"
  "calls_in (Done # cs) = calls_in cs"
  by (simp_all add: calls_in_def List.map_filter_def split: delta.split)

lemma step_call:
  assumes "tools_as order s" "is_call e" "ev_OutputIndex e \<notin> set order"
  shows "tools_as (order @ [ev_OutputIndex e]) (fst (translateChatEvent lower iu ms (Some e) s))"
    and "calls_in (snd (translateChatEvent lower iu ms (Some e) s)) =
      [(int (length order), ev_item_CallID e, ev_item_Name e)]"
    and "concat (map (chunk_arguments n) (snd (translateChatEvent lower iu ms (Some e) s))) = []"
  using assms map_of_numbered_None [of order "ev_OutputIndex e"]
  by (auto simp: tools_as_def translate_defs kind_defs update_new)

lemma step_arguments_old:
  assumes "tools_as order s" "is_arguments e" "k < length order" "order ! k = ev_OutputIndex e"
  shows "tools_as order (fst (translateChatEvent lower iu ms (Some e) s))"
    and "calls_in (snd (translateChatEvent lower iu ms (Some e) s)) = []"
    and "concat (map (chunk_arguments n) (snd (translateChatEvent lower iu ms (Some e) s))) =
      (if n = int k then ev_Delta e else [])"
  using assms map_of_numbered [of order k]
  by (auto simp: tools_as_def translate_defs kind_defs)

lemma step_arguments_new:
  assumes "tools_as order s" "is_arguments e" "ev_OutputIndex e \<notin> set order"
  shows "tools_as (order @ [ev_OutputIndex e]) (fst (translateChatEvent lower iu ms (Some e) s))"
    and "calls_in (snd (translateChatEvent lower iu ms (Some e) s)) = []"
    and "concat (map (chunk_arguments n) (snd (translateChatEvent lower iu ms (Some e) s))) =
      (if n = int (length order) then ev_Delta e else [])"
  using assms map_of_numbered_None [of order "ev_OutputIndex e"]
  by (auto simp: tools_as_def translate_defs kind_defs update_new)

lemma step_other:
  assumes "tools_as order s" "\<not> is_call e" "\<not> is_arguments e"
  shows "tools_as order (fst (translateChatEvent lower iu ms (Some e) s))"
    and "calls_in (snd (translateChatEvent lower iu ms (Some e) s)) = []"
    and "concat (map (chunk_arguments n) (snd (translateChatEvent lower iu ms (Some e) s))) = []"
  using assms by (auto simp: tools_as_def translate_defs kind_defs)

definition arguments_of :: "int \<Rightarrow> chat_event list \<Rightarrow> gostring" where
  "arguments_of i es = deltas (\<lambda>e. is_arguments e \<and> ev_OutputIndex e = i) es"

lemma arguments_none: "i \<notin> set (call_order es) \<Longrightarrow> arguments_of i es = []"
  by (auto simp: in_order arguments_of_def deltas_def filter_empty_conv)

lemma arguments_simps [simp]:
  "arguments_of i [] = []"
  "arguments_of i (es @ [e]) = arguments_of i es @ (if is_arguments e \<and> ev_OutputIndex e = i then ev_Delta e else [])"
  by (simp_all add: arguments_of_def)

text \<open>What the client has, compared with the events so far.\<close>

definition arguments_match :: "int list \<Rightarrow> chat_event list \<Rightarrow> chunk list \<Rightarrow> bool" where
  "arguments_match order es out \<longleftrightarrow>
     (\<forall>n. concat (map (chunk_arguments n) out) =
        (if 0 \<le> n \<and> n < int (length order) then arguments_of (order ! nat n) es else []))"

definition calls_match :: "int list \<Rightarrow> chat_event list \<Rightarrow> chunk list \<Rightarrow> bool" where
  "calls_match order es out \<longleftrightarrow>
     (\<forall>(n, c) \<in> set (calls_in out). 0 \<le> n \<and> n < int (length order)) \<and>
     map (\<lambda>(n, c, name). (order ! nat n, c, name)) (calls_in out) =
       map (\<lambda>e. (ev_OutputIndex e, ev_item_CallID e, ev_item_Name e)) (filter is_call es)"

lemma nth_grow: "0 \<le> n \<Longrightarrow> n < int (length order) \<Longrightarrow> (order @ [i]) ! nat n = order ! nat n"
  by (simp add: nth_append nat_less_iff)

lemma calls_match_grow: "calls_match order es out \<Longrightarrow> calls_match (order @ [i]) es out"
proof -
  assume a: "calls_match order es out"
  then have "map (\<lambda>(n, c, name). ((order @ [i]) ! nat n, c, name)) (calls_in out) =
      map (\<lambda>(n, c, name). (order ! nat n, c, name)) (calls_in out)"
    by (intro map_cong) (auto simp: calls_match_def nth_grow)
  with a show ?thesis by (fastforce simp: calls_match_def)
qed

lemma arguments_match_grow:
  "arguments_match order es out \<Longrightarrow> arguments_of i es = [] \<Longrightarrow> arguments_match (order @ [i]) es out"
  by (auto simp: arguments_match_def nth_append nat_less_iff)

lemma call_no_arguments: "is_call e \<Longrightarrow> \<not> is_arguments e"
  by (simp add: kind_defs)

text \<open>Chunks without calls or arguments, and one call or one delta, added to a match.\<close>

lemma arguments_match_quiet:
  "arguments_match order es out \<Longrightarrow> \<not> is_arguments e \<Longrightarrow> (\<And>n. concat (map (chunk_arguments n) cs) = []) \<Longrightarrow>
     arguments_match order (es @ [e]) (out @ cs)"
  by (simp add: arguments_match_def)

lemma calls_match_quiet:
  "calls_match order es out \<Longrightarrow> \<not> is_call e \<Longrightarrow> calls_in cs = [] \<Longrightarrow> calls_match order (es @ [e]) (out @ cs)"
  by (simp add: calls_match_def)

lemma match_call:
  assumes "arguments_match order es out" "calls_match order es out" "is_call e"
    and "arguments_of (ev_OutputIndex e) es = []"
    and "calls_in cs = [(int (length order), ev_item_CallID e, ev_item_Name e)]"
    and "\<And>n. concat (map (chunk_arguments n) cs) = []"
  shows "arguments_match (order @ [ev_OutputIndex e]) (es @ [e]) (out @ cs)
    \<and> calls_match (order @ [ev_OutputIndex e]) (es @ [e]) (out @ cs)"
proof
  show "arguments_match (order @ [ev_OutputIndex e]) (es @ [e]) (out @ cs)"
    using assms(1,4,6) call_no_arguments [OF assms(3)]
    by (intro arguments_match_quiet arguments_match_grow)
  have "calls_match (order @ [ev_OutputIndex e]) es out" using assms(2) by (rule calls_match_grow)
  then show "calls_match (order @ [ev_OutputIndex e]) (es @ [e]) (out @ cs)"
    using assms(3) by (simp add: calls_match_def assms(5))
qed

lemma match_arguments:
  assumes "arguments_match order es out" "calls_match order es out" "is_arguments e" "distinct order"
    and "k < length order" "order ! k = ev_OutputIndex e" "calls_in cs = []"
    and "\<And>n. concat (map (chunk_arguments n) cs) = (if n = int k then ev_Delta e else [])"
  shows "arguments_match order (es @ [e]) (out @ cs) \<and> calls_match order (es @ [e]) (out @ cs)"
proof -
  have "concat (map (chunk_arguments n) (out @ cs)) =
      (if 0 \<le> n \<and> n < int (length order) then arguments_of (order ! nat n) (es @ [e]) else [])" for n
  proof (cases "0 \<le> n \<and> n < int (length order)")
    case True
    then have "ev_OutputIndex e = order ! nat n \<longleftrightarrow> n = int k"
      unfolding assms(6) [symmetric] using nth_eq_iff_index_eq [OF assms(4), of k "nat n"] assms(5)
      by (simp add: nat_less_iff eq_nat_nat_iff) linarith
    with True assms(1,3,8) show ?thesis by (simp add: arguments_match_def)
  next
    case False
    with assms(5) have "n \<noteq> int k" by auto
    with False assms(1,8) show ?thesis unfolding if_not_P [OF False] by (auto simp: arguments_match_def)
  qed
  then have "arguments_match order (es @ [e]) (out @ cs)" by (simp add: arguments_match_def)
  moreover have "\<not> is_call e" using assms(3) call_no_arguments by blast
  ultimately show ?thesis using calls_match_quiet [OF assms(2) _ assms(7)] by blast
qed

lemma run_tools:
  assumes "announced_first (chat_events xs)" "tools_as [] s"
  shows "tools_as (call_order (chat_events xs)) (final (chat_step lower iu) s xs)
    \<and> arguments_match (call_order (chat_events xs)) (chat_events xs) (outputs (chat_step lower iu) s xs)
    \<and> calls_match (call_order (chat_events xs)) (chat_events xs) (outputs (chat_step lower iu) s xs)"
  using assms(1)
proof (induction xs rule: rev_induct)
  case Nil
  then show ?case using assms(2) by (simp add: arguments_match_def calls_match_def)
next
  case (snoc x xs)
  let ?es = "chat_events xs" and ?s = "final (chat_step lower iu) s xs"
  let ?order = "call_order ?es"
  obtain ms eo where x: "x = (ms, eo)" by (cases x)
  show ?case
  proof (cases eo)
    case None
    with snoc x show ?thesis by (simp add: outputs_append)
  next
    case (Some e)
    let ?i = "ev_OutputIndex e"
    have IH: "tools_as ?order ?s" "arguments_match ?order ?es (outputs (chat_step lower iu) s xs)"
      "calls_match ?order ?es (outputs (chat_step lower iu) s xs)"
      and new: "is_call e \<Longrightarrow> ?i \<notin> set ?order"
      using snoc by (simp_all add: x Some announced_snoc)
    note x = x Some outputs_append next_order_def
    consider "is_call e" | "is_arguments e" "?i \<in> set ?order" | "is_arguments e" "?i \<notin> set ?order"
      | "\<not> is_call e" "\<not> is_arguments e" by blast
    then show ?thesis
    proof cases
      case 1
      note st = step_call [OF IH(1) 1 new [OF 1], where lower = lower and iu = iu and ms = ms]
      show ?thesis
        using match_call [OF IH(2,3) 1 arguments_none [OF new [OF 1]] st(2,3)] st(1) 1 new
        by (simp add: x)
    next
      case 2
      then obtain k where k: "k < length ?order" "?order ! k = ?i" by (auto simp: in_set_conv_nth)
      note st = step_arguments_old [OF IH(1) 2(1) k, where lower = lower and iu = iu and ms = ms]
      show ?thesis
        using match_arguments [OF IH(2,3) 2(1) distinct_order k st(2,3)] st(1) 2 by (simp add: x)
    next
      case 3
      let ?o = "?order @ [?i]"
      note st = step_arguments_new [OF IH(1) 3, where lower = lower and iu = iu and ms = ms]
      have g: "arguments_match ?o ?es (outputs (chat_step lower iu) s xs)"
        "calls_match ?o ?es (outputs (chat_step lower iu) s xs)"
        using IH(2,3) 3 arguments_none by (simp_all add: arguments_match_grow calls_match_grow)
      have "distinct ?o" using 3 distinct_order by simp
      from match_arguments [OF g 3(1) this _ _ st(2,3)] st(1) 3 show ?thesis by (simp add: x)
    next
      case 4
      note st = step_other [OF IH(1) 4, where lower = lower and iu = iu and ms = ms]
      show ?thesis using arguments_match_quiet [OF IH(2) 4(2) st(3)] calls_match_quiet [OF IH(3) 4(1) st(2)] st(1) 4
        by (simp add: x)
    qed
  qed
qed


subsection \<open>The frame of the stream\<close>

fun is_role :: "chunk \<Rightarrow> bool" where
  "is_role (Choice _ AssistantRole _) = True"
| "is_role _ = False"

text \<open>Chunks that need the role before them. Arguments of an item not announced do not wait for it.\<close>

fun after_role :: "chunk \<Rightarrow> bool" where
  "after_role (Choice _ AssistantRole _) = False"
| "after_role (Choice _ (ToolArguments _ _) _) = False"
| "after_role (Choice _ _ _) = True"
| "after_role _ = False"

definition role_first :: "chunk list \<Rightarrow> bool" where
  "role_first cs \<longleftrightarrow> length (filter is_role cs) \<le> 1 \<and> list_all (\<lambda>c. \<not> after_role c) (takeWhile (\<lambda>c. \<not> is_role c) cs)"

lemma takeWhile_all: "list_all (\<lambda>c. \<not> p c) xs \<Longrightarrow> takeWhile (\<lambda>c. \<not> p c) (xs @ ys) = xs @ takeWhile (\<lambda>c. \<not> p c) ys"
  by (induction xs) simp_all

lemma takeWhile_some: "\<not> list_all (\<lambda>c. \<not> p c) xs \<Longrightarrow> takeWhile (\<lambda>c. \<not> p c) (xs @ ys) = takeWhile (\<lambda>c. \<not> p c) xs"
  by (induction xs) auto

text \<open>What one event writes: at most the role first, and nothing of the rest without it.\<close>

definition role_step :: "chatStreamState \<Rightarrow> chatStreamState \<times> chunk list \<Rightarrow> bool" where
  "role_step s p \<longleftrightarrow>
     (cs_roleSent s \<longrightarrow> list_all (\<lambda>c. \<not> is_role c) (snd p)) \<and> (\<not> cs_roleSent s \<longrightarrow> role_first (snd p)) \<and>
     (cs_roleSent (fst p) \<longleftrightarrow> cs_roleSent s \<or> \<not> list_all (\<lambda>c. \<not> is_role c) (snd p))"

lemma handlers_role:
  "role_step s (s, [])" "role_step s (ensureRole s)" "role_step s (on_reasoning ms e s)" "role_step s (on_text ms e s)"
  "role_step s (on_item_added e s)" "role_step s (on_arguments e s)" "role_step s (on_completed iu s)"
  "role_step s (on_failed e s)"
  by (simp_all add: role_step_def role_first_def ensureRole_def on_reasoning_def on_text_def on_item_added_def
      on_arguments_def on_completed_def on_failed_def new_tool_def send_def usage_chunk_def Let_def split: option.split)

lemma step_role: "role_step s (chat_step lower iu s x)"
proof (cases "snd x")
  case None
  then show ?thesis by (simp add: chat_step_def translateChatEvent_def handlers_role)
next
  case (Some e)
  have "role_step s p \<longleftrightarrow> role_step (read_metadata lower e s) p" for p by (simp add: role_step_def)
  then show ?thesis by (simp add: chat_step_def translateChatEvent_def handlers_role Some Let_def)
qed

lemma role_first_append:
  assumes "role_first xs" "list_all (\<lambda>c. \<not> is_role c) xs \<or> list_all (\<lambda>c. \<not> is_role c) ys"
    and "list_all (\<lambda>c. \<not> is_role c) xs \<Longrightarrow> role_first ys"
  shows "role_first (xs @ ys)"
proof (cases "list_all (\<lambda>c. \<not> is_role c) xs")
  case True
  then have "filter is_role xs = []" "takeWhile (\<lambda>c. \<not> is_role c) xs = xs"
    by (auto simp: filter_empty_conv list_all_iff)
  with True assms show ?thesis by (simp add: role_first_def takeWhile_all)
next
  case False
  then have "filter is_role ys = []" using assms(2) by (auto simp: filter_empty_conv list_all_iff)
  with False assms(1) show ?thesis by (simp add: role_first_def takeWhile_some)
qed

lemma run_role:
  "\<not> cs_roleSent s \<Longrightarrow> role_first (outputs (chat_step lower iu) s xs)
     \<and> (cs_roleSent (final (chat_step lower iu) s xs) \<longleftrightarrow>
          \<not> list_all (\<lambda>c. \<not> is_role c) (outputs (chat_step lower iu) s xs))"
proof (induction xs rule: rev_induct)
  case Nil
  then show ?case by (simp add: role_first_def)
next
  case (snoc x xs)
  let ?s = "final (chat_step lower iu) s xs"
  from snoc have IH: "role_first (outputs (chat_step lower iu) s xs)"
    "cs_roleSent ?s \<longleftrightarrow> \<not> list_all (\<lambda>c. \<not> is_role c) (outputs (chat_step lower iu) s xs)" by simp_all
  have "role_first (outputs (chat_step lower iu) s xs @ snd (chat_step lower iu ?s x))"
    using IH step_role [of ?s] unfolding role_step_def by (intro role_first_append) blast+
  moreover have "cs_roleSent (fst (chat_step lower iu ?s x)) \<longleftrightarrow>
      cs_roleSent ?s \<or> \<not> list_all (\<lambda>c. \<not> is_role c) (snd (chat_step lower iu ?s x))"
    using step_role [of ?s] unfolding role_step_def by blast
  ultimately show ?case using IH(2) by (simp add: outputs_append)
qed

text \<open>The end mark comes with a terminal event, or at the end of the input.\<close>

lemma step_done:
  "\<not> is_terminal e \<Longrightarrow> Done \<notin> set (snd (translateChatEvent lower iu ms (Some e) s))
     \<and> cs_terminalSent (fst (translateChatEvent lower iu ms (Some e) s)) = cs_terminalSent s"
  by (simp add: translate_defs kind_defs split: option.split)

lemma step_terminal:
  "is_terminal e \<Longrightarrow> \<exists>cs. snd (translateChatEvent lower iu ms (Some e) s) = cs @ [Done] \<and> Done \<notin> set cs"
  "is_terminal e \<Longrightarrow> cs_terminalSent (fst (translateChatEvent lower iu ms (Some e) s))"
  by (auto simp: translate_defs kind_defs)

lemma run_no_done:
  "list_all (\<lambda>e. \<not> is_terminal e) (chat_events xs) \<Longrightarrow> \<not> cs_terminalSent s \<Longrightarrow>
     Done \<notin> set (outputs (chat_step lower iu) s xs) \<and> \<not> cs_terminalSent (final (chat_step lower iu) s xs)"
proof (induction xs rule: rev_induct)
  case (snoc x xs)
  then show ?case by (cases x; cases "snd x") (auto simp: outputs_append step_done)
qed simp

lemma run_after_end: "chat_events xs = [] \<Longrightarrow> outputs (chat_step lower iu) s xs = [] \<and> final (chat_step lower iu) s xs = s"
  by (induction xs) (auto simp: chat_events_def List.map_filter_def chat_step_def translateChatEvent_def
      split: if_splits)

lemma run_done:
  assumes "list_all (\<lambda>e. \<not> is_terminal e) (butlast (chat_events xs))" "\<not> cs_terminalSent s"
  shows "\<exists>cs. outputs (chat_step lower iu) s xs
      @ (if cs_terminalSent (final (chat_step lower iu) s xs) then [] else [Done]) = cs @ [Done] \<and> Done \<notin> set cs"
  using assms(1)
proof (induction xs rule: rev_induct)
  case Nil
  then show ?case using assms(2) by simp
next
  case (snoc x xs)
  obtain ms eo where x: "x = (ms, eo)" by (cases x)
  show ?case
  proof (cases eo)
    case None
    with snoc x show ?thesis by (simp add: outputs_append)
  next
    case (Some e)
    with snoc.prems x have no: "list_all (\<lambda>e. \<not> is_terminal e) (chat_events xs)" by simp
    note pre = run_no_done [OF no assms(2), of lower iu]
    show ?thesis
    proof (cases "is_terminal e")
      case True
      with step_terminal [OF this, of lower iu ms "final (chat_step lower iu) s xs"] pre show ?thesis
        by (auto simp: x Some outputs_append)
    next
      case False
      with step_done [OF this, of lower iu ms "final (chat_step lower iu) s xs"] pre show ?thesis
        by (simp add: x Some outputs_append)
    qed
  qed
qed


subsection \<open>Properties\<close>

lemma stream_exec:
  "streamChatResponse lower decode expose model iu now EOF None lines =
     (let xs = read_lines decode expose lines; s = final (chat_step lower iu) (chat_init model now) xs
      in (outputs (chat_step lower iu) (chat_init model now) xs @ (if cs_terminalSent s then [] else [Done]),
          stream_ended EOF (cs_usage s, cs_telemetry s)))"
  by (simp add: streamChatResponse_def chat_lines_exec Let_def)

lemma init_simps [simp]:
  "tools_as [] (chat_init model now)" "\<not> cs_roleSent (chat_init model now)" "\<not> cs_terminalSent (chat_init model now)"
  by (simp_all add: chat_init_def tools_as_def numbered_def)

text \<open>
  A chat completion stream carries the upstream's answer. Put together, the content of its
  chunks is the text the upstream sent and the reasoning content is the reasoning it sent,
  whatever other events are mixed in, lost or malformed. The role is announced once and before
  every content, reasoning, tool call and finish chunk. A client that goes away, or an upstream that
  breaks off, leaves the client with a beginning of the stream.
\<close>

lemma chat_stream_text:
  "let (cs, r) = streamChatResponse lower decode expose model iu now EOF None lines;
       es = chat_events (read_lines decode expose lines)
   in concat (map chunk_text cs) = deltas is_text es \<and> concat (map chunk_reasoning cs) = deltas is_reasoning es
     \<and> role_first cs \<and> sr_status r = 200
     \<and> prefix (fst (streamChatResponse lower decode expose model iu now ending room lines)) cs"
proof -
  let ?xs = "read_lines decode expose lines" and ?s = "chat_init model now"
  have "role_first (outputs (chat_step lower iu) ?s ?xs @ (if b then [] else [Done]))" for b
    using run_role [of ?s lower iu ?xs] by (intro role_first_append) (simp_all add: role_first_def)
  moreover have "concat (map chunk_text (outputs (chat_step lower iu) ?s ?xs @ (if b then [] else [Done]))) =
      deltas is_text (chat_events ?xs)"
    "concat (map chunk_reasoning (outputs (chat_step lower iu) ?s ?xs @ (if b then [] else [Done]))) =
      deltas is_reasoning (chat_events ?xs)" for b
    by (simp_all add: run_text run_reasoning)
  ultimately show ?thesis
    using chat_lines_prefix [of lower decode expose iu ending room ?s lines]
    unfolding streamChatResponse_def chat_lines_exec by (simp add: Let_def stream_ended_def)
qed

text \<open>
  Tool calls arrive complete. If the upstream announces every function call before its
  arguments, the calls are numbered from zero in the order in which the items appear; each start chunk names the
  item's call and function, and the arguments a client collects under a number are
  exactly those of that item, whatever is interleaved. Under other numbers it collects nothing.
\<close>

lemma tool_calls_complete:
  assumes "announced_first (chat_events (read_lines decode expose lines))"
  shows "let cs = fst (streamChatResponse lower decode expose model iu now EOF None lines);
      es = chat_events (read_lines decode expose lines); order = call_order es
    in distinct order \<and> calls_match order es cs \<and> arguments_match order es cs"
proof -
  let ?xs = "read_lines decode expose lines"
  note run = run_tools [OF assms init_simps(1), of lower iu model now]
  have "calls_match order es out \<Longrightarrow> calls_match order es (out @ (if b then [] else [Done]))"
    "arguments_match order es out \<Longrightarrow> arguments_match order es (out @ (if b then [] else [Done]))"
    for order es out b
    by (simp_all add: calls_match_def arguments_match_def)
  with run show ?thesis by (simp add: stream_exec Let_def distinct_order)
qed

definition sample_events :: "gostring \<Rightarrow> chat_event option" where
  "sample_events s =
     (let e = \<lparr>ev_Type = [], ev_Delta = [], ev_OutputIndex = 1, ev_Response = None, ev_item_Type = [],
        ev_item_CallID = [], ev_item_Name = [], ev_error_Message = []\<rparr>
      in if s = ''a'' then Some (e\<lparr>ev_Type := ''response.output_item.added'', ev_item_Type := ''function_call'', ev_item_CallID := ''c1''\<rparr>)
         else if s = ''b'' then Some (e\<lparr>ev_Type := ''response.function_call_arguments.delta'', ev_Delta := ''{}''\<rparr>)
         else if s = ''c'' then Some (e\<lparr>ev_Type := ''response.completed''\<rparr>)
         else if s = ''t'' then Some (e\<lparr>ev_Type := ''response.output_text.delta'', ev_Delta := ''late''\<rparr>)
         else None)"

lemma sample_line [simp]:
  "printable c \<Longrightarrow> line_event sample_events (''data:'' @ [c]) = sample_events [c]"
proof -
  assume c: "printable c"
  have "TrimSpace (''data:'' @ [c]) = ''data:'' @ [c]" "TrimSpace [c] = [c]"
    using c by (intro TrimSpace_printable; simp add: printable_def)+
  moreover have "[c] \<noteq> ''[DONE]''" by simp
  ultimately show ?thesis by (simp add: line_event_def ssePayload_def has_prefix_def is_data_def Let_def)
qed

lemma sample_read:
  "chat_events (read_lines sample_events id [(1, ''data:a''), (2, ''data:b''), (3, ''data:c'')]) =
     List.map_filter id [sample_events ''a'', sample_events ''b'', sample_events ''c'']"
  using sample_line [of "CHR ''a''"] sample_line [of "CHR ''b''"] sample_line [of "CHR ''c''"]
  by (simp add: chat_events_def read_lines_def List.map_filter_def printable_def)

lemma tool_calls_complete_witness:
  "calls_match [1] (List.map_filter id [sample_events ''a'', sample_events ''b'', sample_events ''c''])
     (fst (streamChatResponse to_lower sample_events id ''m'' True 0 EOF None
        [(1, ''data:a''), (2, ''data:b''), (3, ''data:c'')]))"
  using tool_calls_complete [of sample_events id "[(1, ''data:a''), (2, ''data:b''), (3, ''data:c'')]" to_lower "''m''" True 0]
  unfolding sample_read
  by (simp add: Let_def sample_events_def List.map_filter_def kind_defs call_order_def next_order_def)

text \<open>The end mark. If nothing follows the first terminal event of the upstream, or there is none,
  the stream ends with exactly one end mark, the last chunk.
\<close>

lemma one_end_mark:
  assumes "list_all (\<lambda>e. \<not> is_terminal e) (butlast (chat_events (read_lines decode expose lines)))"
  shows "\<exists>cs. fst (streamChatResponse lower decode expose model iu now EOF None lines) = cs @ [Done] \<and> Done \<notin> set cs"
  using run_done [OF assms init_simps(3), of lower iu model now] by (simp add: stream_exec Let_def)

lemma one_end_mark_witness:
  "\<exists>cs. fst (streamChatResponse to_lower sample_events id ''m'' True 0 EOF None
     [(1, ''data:a''), (2, ''data:b''), (3, ''data:c'')]) = cs @ [Done] \<and> Done \<notin> set cs"
  by (rule one_end_mark, unfold sample_read) (simp add: sample_events_def List.map_filter_def kind_defs)

text \<open>Without that hypothesis it fails: an event after the terminal one is still translated.\<close>

lemma text_after_end:
  "fst (streamChatResponse to_lower sample_events id ''m'' False 0 EOF None [(1, ''data:c''), (2, ''data:t'')]) =
     (let h = \<lparr>ch_id = [], ch_created = 0, ch_model = ''m''\<rparr>
      in [Choice h AssistantRole None, Choice h EmptyDelta (Some ''stop''), Done, Choice h (Content ''late'') None])"
proof -
  have "read_lines sample_events id [(1, ''data:c''), (2, ''data:t'')] = [(1, sample_events ''c''), (2, sample_events ''t'')]"
    using sample_line [of "CHR ''c''"] sample_line [of "CHR ''t''"] by (simp add: read_lines_def printable_def)
  then show ?thesis
    by (simp add: stream_exec Let_def sample_events_def chat_init_def translate_defs kind_defs read_metadata_def
        head_of_def)
qed

end
