(* ===== verification/ChatConvert.thy ===== *)
theory ChatConvert
  imports Normalize ChatStream
begin

text \<open>
  The two conversions of \<^verbatim>\<open>internal/proxy/chat.go\<close> between the chat API and the Responses API: \<^verbatim>\<open>convertChatRequest\<close>
  and \<^verbatim>\<open>convertChatResponse\<close>, on decoded JSON. The decoder's error texts and \<^verbatim>\<open>json.Marshal\<close> of a value that is no text are
  arguments. The body that is encoded to be normalised is decoded again there; the two steps cancel.
\<close>

subsection \<open>Requests\<close>

text \<open>The request as its struct: a tool that is \<^verbatim>\<open>null\<close> is \<open>None\<close>, a message that is \<^verbatim>\<open>null\<close> an empty object.\<close>

record chat_request =
  cq_Model :: gostring
  cq_Messages :: "gobj list"
  cq_Tools :: "gobj option list"
  cq_ToolChoice :: gj
  cq_Stream :: bool
  cq_StreamOptions :: gobj
  cq_ParallelToolCalls :: "bool option"
  cq_ReasoningEffort :: gostring
  cq_Reasoning_Effort :: gostring
  cq_PromptCacheKey :: gostring

datatype chat_body = NotJSON | Undecodable gostring | ChatBody chat_request

datatype chat_error =
    NotOneValue
  | DecodeFailed gostring
  | NoModel
  | NoMessages
  | NoToolCallID
  | UnsupportedRole gostring
  | NoUsableInput
  | NotNormalizable normalize_error

fun join :: "gostring \<Rightarrow> gostring list \<Rightarrow> gostring" where
  "join sep [] = []"
| "join sep [s] = s"
| "join sep (s # ss) = s @ sep @ join sep ss"

definition nonempty :: "gostring \<Rightarrow> gostring list" where
  "nonempty s = (if s = [] then [] else [s])"

definition object_or_empty :: "gj \<Rightarrow> gobj" where
  "object_or_empty v = (case obj_of v of None \<Rightarrow> [] | Some m \<Rightarrow> m)"

definition array_or_empty :: "gj \<Rightarrow> gj list" where
  "array_or_empty v = (case arr_of v of None \<Rightarrow> [] | Some xs \<Rightarrow> xs)"

definition text_part :: "gj \<Rightarrow> gostring list" where
  "text_part item =
     (let part = object_or_empty item; kind = str_of (index_nil part ''type'')
      in if kind = ''text'' \<or> kind = ''input_text'' \<or> kind = ''output_text''
         then nonempty (str_of (index_nil part ''text'')) else [])"

definition flattenTextContent :: "(gj \<Rightarrow> gostring) \<Rightarrow> gj \<Rightarrow> gostring" where
  "flattenTextContent marshal val =
     (case val of
        JStr content \<Rightarrow> content
      | JNull \<Rightarrow> []
      | JArr items \<Rightarrow> join [CHR 0x0A] (concat (map text_part items))
      | _ \<Rightarrow> marshal val)"

definition typed_text :: "gostring \<Rightarrow> gostring \<Rightarrow> gj" where
  "typed_text kind t = JObj [(''type'', JStr kind), (''text'', JStr t)]"

definition user_part :: "gj \<Rightarrow> gj list" where
  "user_part item =
     (let part = object_or_empty item; kind = index_nil part ''type''
      in if kind = JStr ''text'' \<or> kind = JStr ''input_text''
         then map (typed_text ''input_text'') (nonempty (str_of (index_nil part ''text'')))
         else if kind = JStr ''image_url''
         then (let image = object_or_empty (index_nil part ''image_url'');
                   location = str_of (index_nil image ''url''); detail = str_of (index_nil image ''detail'')
               in if location = [] then []
                  else [JObj ([(''type'', JStr ''input_image''), (''image_url'', JStr location)]
                          @ (if detail = [] then [] else [(''detail'', JStr detail)]))])
         else if kind = JStr ''input_image'' then [JObj part] else [])"

definition convertUserContent :: "gj \<Rightarrow> gj list" where
  "convertUserContent val =
     (case val of JStr t \<Rightarrow> [typed_text ''input_text'' t] | _ \<Rightarrow> concat (map user_part (array_or_empty val)))"

definition convert_call :: "gj \<Rightarrow> gj list" where
  "convert_call callValue =
     (let call = object_or_empty callValue; function = object_or_empty (index_nil call ''function'');
          name = str_of (index_nil function ''name''); arguments = str_of (index_nil function ''arguments'');
          callID = str_of (index_nil call ''id'')
      in if name \<noteq> [] \<and> callID \<noteq> []
         then [JObj [(''type'', JStr ''function_call''), (''call_id'', JStr callID), (''name'', JStr name),
                 (''arguments'', JStr arguments)]]
         else [])"

definition input_message :: "gostring \<Rightarrow> gj list \<Rightarrow> gj" where
  "input_message role content = JObj [(''type'', JStr ''message''), (''role'', JStr role), (''content'', JArr content)]"

text \<open>What one message adds to the instructions and to the input.\<close>

definition convert_message :: "(gj \<Rightarrow> gostring) \<Rightarrow> gobj \<Rightarrow> chat_error + gostring list \<times> gj list" where
  "convert_message marshal message =
     (let role = str_of (index_nil message ''role''); content = index_nil message ''content'';
          flat = flattenTextContent marshal content
      in if role = ''system'' \<or> role = ''developer'' then Inr (nonempty flat, [])
         else if role = ''user''
         then Inr ([], (if convertUserContent content = [] then [] else [input_message ''user'' (convertUserContent content)]))
         else if role = ''assistant''
         then Inr ([], map (\<lambda>t. input_message ''assistant'' [typed_text ''output_text'' t]) (nonempty flat)
                @ concat (map convert_call (array_or_empty (index_nil message ''tool_calls''))))
         else if role = ''tool''
         then (let callID = str_of (index_nil message ''tool_call_id'')
               in if callID = [] then Inl NoToolCallID
                  else Inr ([], [JObj [(''type'', JStr ''function_call_output''), (''call_id'', JStr callID), (''output'', JStr flat)]]))
         else Inl (UnsupportedRole role))"

fun convert_messages :: "(gj \<Rightarrow> gostring) \<Rightarrow> gobj list \<Rightarrow> chat_error + gostring list \<times> gj list" where
  "convert_messages marshal [] = Inr ([], [])"
| "convert_messages marshal (m # ms) =
     (case convert_message marshal m of
        Inl e \<Rightarrow> Inl e
      | Inr (instructions, input) \<Rightarrow>
          (case convert_messages marshal ms of
             Inl e \<Rightarrow> Inl e
           | Inr (instructions', input') \<Rightarrow> Inr (instructions @ instructions', input @ input')))"

definition convert_tool :: "gobj option \<Rightarrow> gj list" where
  "convert_tool tool =
     (let m = (case tool of None \<Rightarrow> [] | Some m \<Rightarrow> m)
      in if index_nil m ''type'' \<noteq> JStr ''function'' then [case tool of None \<Rightarrow> JNull | Some m \<Rightarrow> JObj m]
         else (let function = object_or_empty (index_nil m ''function''); name = str_of (index_nil function ''name'')
               in if name = [] then []
                  else [JObj ([(''type'', JStr ''function''), (''name'', JStr name)]
                          @ List.map_filter (\<lambda>field. map_option (Pair field) (map_of function field))
                              [''description'', ''parameters'', ''strict''])]))"

definition convertToolChoice :: "gj \<Rightarrow> gj" where
  "convertToolChoice val =
     (case val of
        JObj choice \<Rightarrow>
          if index_nil choice ''type'' \<noteq> JStr ''function'' then val
          else (let name = str_of (index_nil (object_or_empty (index_nil choice ''function'')) ''name'')
                in if name = [] then val else JObj [(''type'', JStr ''function''), (''name'', JStr name)])
      | _ \<Rightarrow> val)"

definition chat_effort :: "(gostring \<Rightarrow> gostring) \<Rightarrow> chat_request \<Rightarrow> gostring" where
  "chat_effort lower q =
     (let e1 = canonicalReasoningEffort lower (cq_ReasoningEffort q);
          e2 = (if e1 = [] then canonicalReasoningEffort lower (cq_Reasoning_Effort q) else e1)
      in if e2 = [] \<or> e2 = ''auto'' then ''medium'' else e2)"

definition chat_reasoning :: "gostring \<Rightarrow> gj" where
  "chat_reasoning effort =
     JObj ((''effort'', JStr effort) # (if effort = ''none'' then [] else [(''summary'', JStr ''auto'')]))"

definition chat_responses :: "(gostring \<Rightarrow> gostring) \<Rightarrow> chat_request \<Rightarrow> gostring list \<Rightarrow> gj list \<Rightarrow> gobj" where
  "chat_responses lower q instructions input =
     [(''model'', JStr (cq_Model q)), (''stream'', JBool (cq_Stream q)), (''input'', JArr input),
      (''instructions'', JStr (join [CHR 0x0A, CHR 0x0A] instructions))]
     @ (if cq_Tools q = [] then [] else [(''tools'', JArr (concat (map convert_tool (cq_Tools q))))])
     @ (if cq_ToolChoice q = JNull then [] else [(''tool_choice'', convertToolChoice (cq_ToolChoice q))])
     @ (case cq_ParallelToolCalls q of None \<Rightarrow> [] | Some b \<Rightarrow> [(''parallel_tool_calls'', JBool b)])
     @ [(''reasoning'', chat_reasoning (chat_effort lower q))]
     @ (if cq_PromptCacheKey q = [] then [] else [(''prompt_cache_key'', JStr (cq_PromptCacheKey q))])"

text \<open>The result carries the model that the log names; on an error it is the first component.\<close>

definition convertChatRequest ::
  "(gostring \<Rightarrow> gostring) \<Rightarrow> (gj \<Rightarrow> gostring) \<Rightarrow> chat_body \<Rightarrow> gostring \<times> (chat_error + gobj \<times> bool \<times> bool)" where
  "convertChatRequest lower marshal received =
     (case received of
        NotJSON \<Rightarrow> ([], Inl NotOneValue)
      | Undecodable e \<Rightarrow> ([], Inl (DecodeFailed e))
      | ChatBody q \<Rightarrow>
          if TrimSpace (cq_Model q) = [] then ([], Inl NoModel)
          else if cq_Messages q = [] then (cq_Model q, Inl NoMessages)
          else (cq_Model q,
                (case convert_messages marshal (cq_Messages q) of
                   Inl e \<Rightarrow> Inl e
                 | Inr (instructions, input) \<Rightarrow>
                     if input = [] then Inl NoUsableInput
                     else (case normalizeResponsesRequest lower (Some (JObj (chat_responses lower q instructions input))) of
                             Inl e \<Rightarrow> Inl (NotNormalizable e)
                           | Inr (normalized, s, m) \<Rightarrow>
                               Inr (normalized, cq_Stream q, bool_of (index_nil (cq_StreamOptions q) ''include_usage''))))))"

subsection \<open>Whole answers\<close>

text \<open>The completed response as its struct. An output item that is no object has no fields.\<close>

record chat_answer =
  ca_ID :: gostring
  ca_Model :: gostring
  ca_CreatedAt :: int
  ca_Output :: "gj list"
  ca_InputTokens :: int
  ca_OutputTokens :: int
  ca_TotalTokens :: int
  ca_ReasoningTokens :: "int option"

text \<open>The chat completion: a tool call has an id, a name and arguments as the item gave them.\<close>

record chat_completion =
  co_ID :: gostring
  co_Created :: int
  co_Model :: gostring
  co_Content :: gostring
  co_Reasoning :: "gostring option"
  co_ToolCalls :: "(gj \<times> gj \<times> gj) list"
  co_FinishReason :: gostring
  co_PromptTokens :: int
  co_CompletionTokens :: int
  co_TotalTokens :: int
  co_ReasoningTokens :: "int option"

definition parts_of_type :: "gostring \<Rightarrow> gj \<Rightarrow> gostring list" where
  "parts_of_type kind val =
     concat (map (\<lambda>p. let part = object_or_empty p
                    in if index_nil part ''type'' = JStr kind then nonempty (str_of (index_nil part ''text'')) else [])
       (array_or_empty val))"

definition item_reasoning :: "gobj \<Rightarrow> gostring list" where
  "item_reasoning item =
     (if index_nil item ''type'' = JStr ''reasoning''
      then parts_of_type ''summary_text'' (index_nil item ''summary'') @ parts_of_type ''reasoning_text'' (index_nil item ''content'')
      else [])"

definition item_text :: "gobj \<Rightarrow> gostring list" where
  "item_text item =
     (if index_nil item ''type'' = JStr ''message''
      then (case index_nil item ''content'' of
              JStr content \<Rightarrow> nonempty content
            | JArr parts \<Rightarrow> concat (map (\<lambda>p. nonempty (str_of (index_nil (object_or_empty p) ''text''))) parts)
            | _ \<Rightarrow> [])
      else [])"

definition item_call :: "gobj \<Rightarrow> (gj \<times> gj \<times> gj) list" where
  "item_call item =
     (if index_nil item ''type'' = JStr ''function_call''
      then [(index_nil item ''call_id'', index_nil item ''name'', index_nil item ''arguments'')] else [])"

definition output_parts :: "(gobj \<Rightarrow> 'a list) \<Rightarrow> gj list \<Rightarrow> 'a list" where
  "output_parts f output = concat (map (\<lambda>v. f (object_or_empty v)) output)"

definition convertChatResponse :: "int \<Rightarrow> chat_answer option \<Rightarrow> chat_completion option" where
  "convertChatResponse now decoded =
     (case decoded of
        None \<Rightarrow> None
      | Some a \<Rightarrow>
          (let reasoning = output_parts item_reasoning (ca_Output a); calls = output_parts item_call (ca_Output a)
           in Some \<lparr>co_ID = ca_ID a, co_Created = (if ca_CreatedAt a = 0 then now else ca_CreatedAt a), co_Model = ca_Model a,
                co_Content = join [] (output_parts item_text (ca_Output a)),
                co_Reasoning = (if reasoning = [] then None else Some (join [] reasoning)),
                co_ToolCalls = calls, co_FinishReason = (if calls = [] then ''stop'' else ''tool_calls''),
                co_PromptTokens = ca_InputTokens a, co_CompletionTokens = ca_OutputTokens a, co_TotalTokens = ca_TotalTokens a,
                co_ReasoningTokens = ca_ReasoningTokens a\<rparr>))"

lemma join_empty [simp]: "join [] ss = concat ss"
  by (induction "[] :: gostring" ss rule: join.induct) auto

subsection \<open>The stream and the whole answer\<close>

text \<open>What a client has after the last chunk: the calls with their collected arguments, and the finish reasons.\<close>

definition client_calls :: "chunk list \<Rightarrow> (gj \<times> gj \<times> gj) list" where
  "client_calls cs =
     map (\<lambda>(n, i, name). (JStr i, JStr name, JStr (concat (map (chunk_arguments n) cs)))) (calls_in cs)"

definition finish_reasons :: "chunk list \<Rightarrow> gostring list" where
  "finish_reasons cs = List.map_filter (\<lambda>c. case c of Choice h d f \<Rightarrow> f | _ \<Rightarrow> None) cs"

text \<open>
  The events of an answer that is completed: every call is announced before its arguments, the completion comes last, and
  the deltas add up to the output items. This is how the Responses API documents its streams.
\<close>

definition stream_carries :: "chat_event list \<Rightarrow> gj list \<Rightarrow> bool" where
  "stream_carries es output \<longleftrightarrow>
     announced_first es \<and> list_all (\<lambda>e. is_arguments e \<longrightarrow> list_ex (\<lambda>c. is_call c \<and> ev_OutputIndex c = ev_OutputIndex e) es) es
     \<and> es \<noteq> [] \<and> is_completed (ev_Type (last es)) \<and> list_all (\<lambda>e. \<not> is_terminal e) (butlast es)
     \<and> deltas is_text es = concat (output_parts item_text output)
     \<and> deltas is_reasoning es = concat (output_parts item_reasoning output)
     \<and> map (\<lambda>e. (JStr (ev_item_CallID e), JStr (ev_item_Name e), JStr (arguments_of (ev_OutputIndex e) es))) (filter is_call es)
        = output_parts item_call output"

lemma finish_reasons_simps [simp]:
  "finish_reasons [] = []" "finish_reasons (xs @ ys) = finish_reasons xs @ finish_reasons ys"
  "finish_reasons (Choice h d f # cs) = (case f of None \<Rightarrow> [] | Some r \<Rightarrow> [r]) @ finish_reasons cs"
  "finish_reasons (UsageChunk h a b c r # cs) = finish_reasons cs" "finish_reasons (ErrorChunk m # cs) = finish_reasons cs"
  "finish_reasons (Done # cs) = finish_reasons cs"
  by (simp_all add: finish_reasons_def List.map_filter_def split: option.split)

lemma step_no_finish:
  "\<not> is_terminal e \<Longrightarrow> finish_reasons (snd (translateChatEvent lower iu ms (Some e) s)) = []"
  by (simp add: translate_defs kind_defs split: option.split)

lemma step_finish:
  "is_completed (ev_Type e) \<Longrightarrow> finish_reasons (snd (translateChatEvent lower iu ms (Some e) s)) =
     [if cs_tools s \<noteq> [] then ''tool_calls'' else ''stop'']"
  by (auto simp: translate_defs kind_defs)

lemma run_no_finish:
  "list_all (\<lambda>e. \<not> is_terminal e) (chat_events xs) \<Longrightarrow> finish_reasons (outputs (chat_step lower iu) s xs) = []"
proof (induction xs rule: rev_induct)
  case (snoc x xs)
  then show ?case by (cases x; cases "snd x") (auto simp: outputs_append step_no_finish)
qed simp

lemma order_empty: "call_order es = [] \<longleftrightarrow> \<not> list_ex (\<lambda>e. is_call e \<or> is_arguments e) es"
proof -
  have "call_order es = [] \<longleftrightarrow> set (call_order es) = {}" by simp
  also have "\<dots> \<longleftrightarrow> \<not> list_ex (\<lambda>e. is_call e \<or> is_arguments e) es" by (auto simp: in_order list_ex_iff)
  finally show ?thesis .
qed

lemma run_finish:
  assumes "tools_as [] s" "announced_first (chat_events xs)" "chat_events xs \<noteq> []"
    and "is_completed (ev_Type (last (chat_events xs)))" "list_all (\<lambda>e. \<not> is_terminal e) (butlast (chat_events xs))"
  shows "finish_reasons (outputs (chat_step lower iu) s xs) =
    [if list_ex (\<lambda>e. is_call e \<or> is_arguments e) (chat_events xs) then ''tool_calls'' else ''stop'']"
  using assms(2-)
proof (induction xs rule: rev_induct)
  case (snoc x xs)
  obtain ms eo where x: "x = (ms, eo)" by (cases x)
  show ?case
  proof (cases eo)
    case None
    with snoc show ?thesis by (simp add: x outputs_append)
  next
    case (Some e)
    let ?es = "chat_events xs"
    have prem: "announced_first ?es" "is_completed (ev_Type e)" "list_all (\<lambda>e. \<not> is_terminal e) ?es"
      using snoc.prems by (simp_all add: x Some announced_snoc)
    have "tools_as (call_order ?es) (final (chat_step lower iu) s xs)"
      using run_tools [OF prem(1) assms(1)] by blast
    then have "cs_tools (final (chat_step lower iu) s xs) = [] \<longleftrightarrow> \<not> list_ex (\<lambda>e. is_call e \<or> is_arguments e) ?es"
      by (auto simp: tools_as_def numbered_def order_empty [symmetric])
    moreover have "\<not> is_call e" "\<not> is_arguments e" using prem(2) by (auto simp: kind_defs)
    ultimately show ?thesis
      using run_no_finish [OF prem(3), of lower iu s] step_finish [OF prem(2), of lower iu ms]
      by (simp add: x Some outputs_append)
  qed
qed simp

text \<open>The calls a client has put together are those of the announcements, with all their arguments.\<close>

lemma client_calls_match:
  assumes "calls_match order es cs" "arguments_match order es cs"
  shows "client_calls cs =
    map (\<lambda>e. (JStr (ev_item_CallID e), JStr (ev_item_Name e), JStr (arguments_of (ev_OutputIndex e) es))) (filter is_call es)"
proof -
  let ?f = "\<lambda>(i, c, name). (JStr c, JStr name, JStr (arguments_of i es))"
  have "client_calls cs = map (?f \<circ> (\<lambda>(n, c, name). (order ! nat n, c, name))) (calls_in cs)"
    unfolding client_calls_def
  proof (rule map_cong [OF refl])
    fix x assume x: "x \<in> set (calls_in cs)"
    obtain n c name where n: "x = (n, c, name)" by (cases x)
    with x assms(1) have "0 \<le> n" "n < int (length order)" by (auto simp: calls_match_def)
    with assms(2) have "concat (map (chunk_arguments n) cs) = arguments_of (order ! nat n) es"
      by (simp add: arguments_match_def)
    then show "(case x of (n, i, name) \<Rightarrow> (JStr i, JStr name, JStr (concat (map (chunk_arguments n) cs)))) =
        (?f \<circ> (\<lambda>(n, c, name). (order ! nat n, c, name))) x"
      by (simp add: n)
  qed
  also have "\<dots> = map ?f (map (\<lambda>(n, c, name). (order ! nat n, c, name)) (calls_in cs))" by simp
  also have "\<dots> = map ?f (map (\<lambda>e. (ev_OutputIndex e, ev_item_CallID e, ev_item_Name e)) (filter is_call es))"
    using assms(1) by (simp only: calls_match_def)
  finally show ?thesis by (simp add: comp_def)
qed

text \<open>C17.
  Streamed or not, the client gets the same answer: for a completed response, the text, the reasoning, the tool calls with
  their arguments and the finish reason that a client puts together from the chunks are those of the chat completion that
  is made of the whole response. (The events are taken to carry the response, as the Responses API documents.)
\<close>

theorem stream_agrees_with_whole:
  assumes "convertChatResponse now (Some a) = Some c"
    and "stream_carries (chat_events (read_lines decode expose lines)) (ca_Output a)"
  shows "let cs = fst (streamChatResponse lower decode expose model iu started EOF None lines)
    in concat (map chunk_text cs) = co_Content c
      \<and> concat (map chunk_reasoning cs) = (case co_Reasoning c of None \<Rightarrow> [] | Some t \<Rightarrow> t)
      \<and> client_calls cs = co_ToolCalls c
      \<and> finish_reasons cs = [co_FinishReason c]"
proof -
  let ?xs = "read_lines decode expose lines" and ?s = "chat_init model started"
  let ?es = "chat_events ?xs" and ?out = "outputs (chat_step lower iu) (chat_init model started) (read_lines decode expose lines)"
  from assms(2) have announced: "announced_first ?es" and completed: "?es \<noteq> []" "is_completed (ev_Type (last ?es))"
      "list_all (\<lambda>e. \<not> is_terminal e) (butlast ?es)"
    and args: "list_all (\<lambda>e. is_arguments e \<longrightarrow> list_ex (\<lambda>c. is_call c \<and> ev_OutputIndex c = ev_OutputIndex e) ?es) ?es"
    and parts: "deltas is_text ?es = concat (output_parts item_text (ca_Output a))"
      "deltas is_reasoning ?es = concat (output_parts item_reasoning (ca_Output a))"
    and calls_of: "map (\<lambda>e. (JStr (ev_item_CallID e), JStr (ev_item_Name e), JStr (arguments_of (ev_OutputIndex e) ?es)))
        (filter is_call ?es) = output_parts item_call (ca_Output a)"
    unfolding stream_carries_def by blast+
  obtain tail where cs: "fst (streamChatResponse lower decode expose model iu started EOF None lines) = ?out @ tail"
    and tail: "tail = [] \<or> tail = [Done]"
    by (auto simp: stream_exec Let_def)
  have tools: "calls_match (call_order ?es) ?es ?out" "arguments_match (call_order ?es) ?es ?out"
    using run_tools [OF announced init_simps(1), of lower iu model started] by blast+
  have c: "co_Content c = concat (output_parts item_text (ca_Output a))" "co_ToolCalls c = output_parts item_call (ca_Output a)"
    "(case co_Reasoning c of None \<Rightarrow> [] | Some t \<Rightarrow> t) = concat (output_parts item_reasoning (ca_Output a))"
    "co_FinishReason c = (if output_parts item_call (ca_Output a) = [] then ''stop'' else ''tool_calls'')"
    using assms(1) by (auto simp: convertChatResponse_def Let_def)
  have calls: "client_calls (?out @ tail) = output_parts item_call (ca_Output a)"
    using tail client_calls_match [OF tools] calls_of by (auto simp: client_calls_def)
  have "list_ex (\<lambda>e. is_call e \<or> is_arguments e) ?es \<longleftrightarrow> filter is_call ?es \<noteq> []"
    using args unfolding list_ex_iff list_all_iff filter_empty_conv by blast
  also have "\<dots> \<longleftrightarrow> output_parts item_call (ca_Output a) \<noteq> []"
    unfolding calls_of [symmetric] by simp
  finally have "finish_reasons ?out = [co_FinishReason c]"
    using run_finish [OF init_simps(1) announced completed, of lower iu model started] c(4) by simp
  moreover have "concat (map chunk_text ?out) = co_Content c"
    "concat (map chunk_reasoning ?out) = (case co_Reasoning c of None \<Rightarrow> [] | Some t \<Rightarrow> t)"
    using parts c(1,3) by (simp_all add: run_text run_reasoning)
  ultimately show ?thesis unfolding cs Let_def calls c(2) using tail by auto
qed

definition sample_answer_body :: chat_answer where
  "sample_answer_body = \<lparr>ca_ID = ''r1'', ca_Model = ''m'', ca_CreatedAt = 0,
     ca_Output = [JObj [(''type'', JStr ''function_call''), (''call_id'', JStr ''c1''), (''name'', JStr []), (''arguments'', JStr ''{}'')]],
     ca_InputTokens = 1, ca_OutputTokens = 1, ca_TotalTokens = 2, ca_ReasoningTokens = None\<rparr>"

theorem stream_agrees_with_whole_witness:
  "\<exists>c. convertChatResponse 5 (Some sample_answer_body) = Some c \<and> co_ToolCalls c = [(JStr ''c1'', JStr [], JStr ''{}'')]
     \<and> client_calls (fst (streamChatResponse to_lower sample_events id ''m'' True 0 EOF None
          [(1, ''data:a''), (2, ''data:b''), (3, ''data:c'')])) = co_ToolCalls c"
proof -
  obtain c where c: "convertChatResponse 5 (Some sample_answer_body) = Some c" "co_ToolCalls c = [(JStr ''c1'', JStr [], JStr ''{}'')]"
    by (simp add: convertChatResponse_def sample_answer_body_def output_parts_def item_call_def object_or_empty_def obj_of_def
        index_nil_def Let_def)
  have "stream_carries (chat_events (read_lines sample_events id [(1, ''data:a''), (2, ''data:b''), (3, ''data:c'')]))
      (ca_Output sample_answer_body)"
    unfolding sample_read
    by (simp add: stream_carries_def sample_events_def List.map_filter_def kind_defs deltas_def arguments_of_def
        sample_answer_body_def output_parts_def item_call_def item_text_def item_reasoning_def object_or_empty_def obj_of_def
        index_nil_def)
  from stream_agrees_with_whole [OF c(1) this, of to_lower "''m''" True 0] c show ?thesis
    by (simp add: Let_def)
qed

subsection \<open>What is sent for a chat request\<close>

definition message_input :: "(gj \<Rightarrow> gostring) \<Rightarrow> gobj \<Rightarrow> gj list" where
  "message_input marshal m = (case convert_message marshal m of Inl e \<Rightarrow> [] | Inr (instructions, input) \<Rightarrow> input)"

definition message_instructions :: "(gj \<Rightarrow> gostring) \<Rightarrow> gobj \<Rightarrow> gostring list" where
  "message_instructions marshal m = (case convert_message marshal m of Inl e \<Rightarrow> [] | Inr (instructions, input) \<Rightarrow> instructions)"

lemma convert_messages_parts:
  "convert_messages marshal ms = Inr (instructions, input) \<Longrightarrow>
     instructions = concat (map (message_instructions marshal) ms) \<and> input = concat (map (message_input marshal) ms)"
  by (induction ms arbitrary: instructions input)
    (auto simp: message_instructions_def message_input_def split: sum.splits)

lemma convert_messages_total:
  "(\<exists>r. convert_messages marshal ms = Inr r) \<longleftrightarrow> list_all (\<lambda>m. \<not> isl (convert_message marshal m)) ms"
  by (induction ms) (auto split: sum.split prod.split)

text \<open>A message is refused for an unknown role or a tool output without its call.\<close>

lemma message_refused_iff:
  "isl (convert_message marshal m) \<longleftrightarrow>
     (let role = str_of (index_nil m ''role'')
      in role \<notin> {''system'', ''developer'', ''user'', ''assistant'', ''tool''}
         \<or> role = ''tool'' \<and> str_of (index_nil m ''tool_call_id'') = [])"
  by (auto simp: convert_message_def Let_def)

context lowering
begin

lemma chat_effort_canonical:
  "canonicalReasoningEffort lower (chat_effort lower q) = chat_effort lower q"
  "TrimSpace (chat_effort lower q) = chat_effort lower q" "chat_effort lower q \<noteq> []" "chat_effort lower q \<noteq> ''auto''"
  by (simp_all add: chat_effort_def Let_def canonical_idem canonical_words canonical_trim)

end

lemma normal_effort:
  assumes "canonicalReasoningEffort lower e = e" "TrimSpace e = e" "e \<noteq> []" "e \<noteq> ''auto''"
  shows "normalize_reasoning_object lower [] ((''effort'', JStr e) # (if e = ''none'' then [] else [(''summary'', JStr ''auto'')]))
    = (''effort'', JStr e) # (if e = ''none'' then [] else [(''summary'', JStr ''auto'')])"
proof -
  let ?r = "(''effort'', JStr e) # (if e = ''none'' then [] else [(''summary'', JStr ''auto'')])"
  have "chosen_effort lower [] ?r = e" using assms by (simp add: chosen_effort_def index_nil_def str_of_def)
  moreover have "TrimSpace [] = []" by (simp add: TrimSpace_def)
  ultimately show ?thesis using assms(3)
    by (simp add: normalize_reasoning_object_def index_nil_def str_of_def Let_def)
qed

text \<open>The fields of the converted request.\<close>

definition chat_fields :: "gostring list" where
  "chat_fields = [''model'', ''stream'', ''input'', ''instructions'', ''tools'', ''tool_choice'', ''parallel_tool_calls'',
     ''reasoning'', ''prompt_cache_key'']"

lemma chat_lookup:
  "map_of (chat_responses lower q instructions input) ''model'' = Some (JStr (cq_Model q))"
  "map_of (chat_responses lower q instructions input) ''input'' = Some (JArr input)"
  "map_of (chat_responses lower q instructions input) ''instructions'' = Some (JStr (join [CHR 0x0A, CHR 0x0A] instructions))"
  "map_of (chat_responses lower q instructions input) ''reasoning'' = Some (chat_reasoning (chat_effort lower q))"
  "map_of (chat_responses lower q instructions input) ''reasoning_effort'' = None"
  by (simp_all add: chat_responses_def map_of_append split: option.split)

lemma chat_other: "k \<notin> set chat_fields \<Longrightarrow> map_of (chat_responses lower q instructions input) k = None"
  by (simp add: chat_responses_def chat_fields_def map_add_def split: option.split)

lemma chat_body_fields:
  assumes "lowering lower" and b: "b = chat_responses lower q instructions input"
  shows "map_of (normalize_body lower b) ''input'' = Some (JArr (map (on_objects normalize_item) input))"
    and "map_of (normalize_body lower b) ''instructions'' = Some (JStr (join [CHR 0x0A, CHR 0x0A] instructions))"
    and "map_of (normalize_body lower b) ''reasoning'' = Some (chat_reasoning (chat_effort lower q))"
proof -
  show "map_of (normalize_body lower b) ''input'' = Some (JArr (map (on_objects normalize_item) input))"
    by (simp add: normalize_body_def map_of_stages stripped_fields_def b chat_lookup wrap_input_def normalizeInput_def on_elements_def)
  show "map_of (normalize_body lower b) ''instructions'' = Some (JStr (join [CHR 0x0A, CHR 0x0A] instructions))"
    by (simp add: normalize_body_def map_of_stages stripped_fields_def b chat_lookup index_nil_def)
  have "TrimSpace [] = []" by (simp add: TrimSpace_def)
  then show "map_of (normalize_body lower b) ''reasoning'' = Some (chat_reasoning (chat_effort lower q))"
    using normal_effort [OF lowering.chat_effort_canonical [OF assms(1)], of q]
    by (simp add: normalize_body_def map_of_stages stripped_fields_def b chat_lookup index_nil_def str_of_def obj_of_def chat_reasoning_def)
qed

text \<open>When a chat request is accepted.\<close>

lemma chat_accepted_iff:
  "(\<exists>r. snd (convertChatRequest lower marshal (ChatBody q)) = Inr r) \<longleftrightarrow>
     TrimSpace (cq_Model q) \<noteq> [] \<and> cq_Messages q \<noteq> []
     \<and> list_all (\<lambda>m. \<not> isl (convert_message marshal m)) (cq_Messages q)
     \<and> concat (map (message_input marshal) (cq_Messages q)) \<noteq> []"
proof (cases "TrimSpace (cq_Model q) = [] \<or> cq_Messages q = []")
  case False
  then have model: "cq_Model q \<noteq> []" by (auto simp: TrimSpace_def)
  show ?thesis
  proof (cases "convert_messages marshal (cq_Messages q)")
    case (Inl e)
    with False show ?thesis
      using convert_messages_total [of marshal "cq_Messages q"] by (auto simp: convertChatRequest_def)
  next
    case (Inr r)
    obtain instructions input where r: "r = (instructions, input)" by (cases r)
    have parts: "input = concat (map (message_input marshal) (cq_Messages q))"
      using convert_messages_parts Inr r by blast
    have "list_all (\<lambda>m. \<not> isl (convert_message marshal m)) (cq_Messages q)"
      using convert_messages_total [of marshal "cq_Messages q"] Inr by blast
    moreover have "normalizeResponsesRequest lower (Some (JObj (chat_responses lower q instructions input)))
        = Inr (normalize_body lower (chat_responses lower q instructions input), cq_Stream q, cq_Model q)"
      using model by (simp add: accepted index_nil_def chat_lookup str_of_def) (simp add: chat_responses_def bool_of_def)
    ultimately show ?thesis using False Inr r parts by (auto simp: convertChatRequest_def)
  qed
qed (auto simp: convertChatRequest_def)


definition sample_chat :: chat_request where
  "sample_chat = \<lparr>cq_Model = ''m'', cq_Messages = [[(''role'', JStr ''system''), (''content'', JStr ''brief'')],
       [(''role'', JStr ''user''), (''content'', JStr ''hi'')]],
     cq_Tools = [], cq_ToolChoice = JNull, cq_Stream = False, cq_StreamOptions = [], cq_ParallelToolCalls = None,
     cq_ReasoningEffort = [], cq_Reasoning_Effort = ''none'', cq_PromptCacheKey = []\<rparr>"


end
