(* ===== verification/Conversation.thy ===== *)
theory Conversation
  imports Compat Normalize
begin

text \<open>
  \<^verbatim>\<open>internal/proxy/websocket_state.go\<close>: the conversation behind one WebSocket. A turn is prepared
  into a plan with two bodies, one that continues the last response of the upstream connection and one
  that replays the whole conversation, and is committed when the upstream has completed it. Raw JSON is
  decoded JSON; \<open>json_size\<close> is the length of an encoded body. \<open>None\<close> of a preparation is the endless
  search for an item id of \<open>Compat\<close>.
\<close>

subsection \<open>Items\<close>

record item_meta =
  im_id :: gostring
  im_kind :: gostring
  im_callID :: gostring

definition meta_of :: "gj \<Rightarrow> item_meta" where
  "meta_of val =
     (let object = item_of val
      in \<lparr>im_id = jsonString (index_nil object ''id''), im_kind = jsonString (index_nil object ''type''),
          im_callID = jsonString (index_nil object ''call_id'')\<rparr>)"

definition isWebSocketToolCall :: "gostring \<Rightarrow> bool" where
  "isWebSocketToolCall kind \<longleftrightarrow> kind = ''function_call'' \<or> kind = ''custom_tool_call''"

definition is_tool_output :: "gostring \<Rightarrow> bool" where
  "is_tool_output kind \<longleftrightarrow> kind = ''function_call_output'' \<or> kind = ''custom_tool_call_output''"

text \<open>The call an item makes or answers, if it has an id.\<close>

definition call_made :: "gj \<Rightarrow> gostring option" where
  "call_made val = (let m = meta_of val in if isWebSocketToolCall (im_kind m) \<and> im_callID m \<noteq> [] then Some (im_callID m) else None)"

definition call_answered :: "gj \<Rightarrow> gostring option" where
  "call_answered val = (let m = meta_of val in if is_tool_output (im_kind m) \<and> im_callID m \<noteq> [] then Some (im_callID m) else None)"

fun dedupe_calls :: "gostring list \<Rightarrow> gj list \<Rightarrow> gj list" where
  "dedupe_calls seen [] = []"
| "dedupe_calls seen (val # rest) =
     (case call_made val of
        Some c \<Rightarrow> if c \<in> set seen then dedupe_calls seen rest else val # dedupe_calls (c # seen) rest
      | None \<Rightarrow> val # dedupe_calls seen rest)"

definition keep_step ::
  "gostring list \<Rightarrow> nat \<times> gj \<Rightarrow> (gostring \<times> nat \<times> bool) list \<Rightarrow> (gostring \<times> nat \<times> bool) list" where
  "keep_step refs p keep =
     (let m = meta_of (snd p); referenced = (im_callID m \<in> set refs \<and> im_callID m \<noteq> [])
      in if im_id m = [] then keep
         else (case map_of keep (im_id m) of
                 None \<Rightarrow> AList.update (im_id m) (fst p, referenced) keep
               | Some (index, keepReferenced) \<Rightarrow>
                   if referenced \<or> \<not> keepReferenced then AList.update (im_id m) (fst p, referenced) keep else keep))"

definition keep_by_id :: "gj list \<Rightarrow> (gostring \<times> nat \<times> bool) list" where
  "keep_by_id items = fold (keep_step (List.map_filter call_answered items)) (enumerate 0 items) []"

definition kept :: "(gostring \<times> nat \<times> bool) list \<Rightarrow> nat \<times> gj \<Rightarrow> bool" where
  "kept keep p =
     (let i = im_id (meta_of (snd p)) in i = [] \<or> map_option fst (map_of keep i) = Some (fst p))"

definition mergeWebSocketItems :: "gj list list \<Rightarrow> gj list" where
  "mergeWebSocketItems groups =
     (let items = concat groups
      in if length items < 2 then items
         else (let deduped = dedupe_calls [] items
               in map snd (filter (kept (keep_by_id deduped)) (enumerate 0 deduped))))"

definition webSocketInputLooksLikeTranscript :: "gj \<Rightarrow> bool" where
  "webSocketInputLooksLikeTranscript val =
     (case arr_of val of
        None \<Rightarrow> False
      | Some items \<Rightarrow>
          list_ex (\<lambda>raw. let kind = jsonString (index_nil (item_of raw) ''type'')
            in kind \<in> {''function_call'', ''custom_tool_call'', ''compaction'', ''compaction_trigger''}
              \<or> kind = ''message'' \<and> jsonString (index_nil (item_of raw) ''role'') = ''assistant'') items)"

definition webSocketInputSatisfiesCalls :: "gj \<Rightarrow> gostring list \<Rightarrow> bool" where
  "webSocketInputSatisfiesCalls val pending =
     (if pending = [] then True
      else (case arr_of val of
              None \<Rightarrow> False
            | Some items \<Rightarrow> list_all (\<lambda>callID. callID \<in> set (List.map_filter call_answered items)) pending))"

definition pendingWebSocketCallIDs :: "gj list \<Rightarrow> gostring list" where
  "pendingWebSocketCallIDs items =
     fold (\<lambda>c pending. if c \<in> set pending then pending else pending @ [c]) (List.map_filter call_made items) []"

subsection \<open>State\<close>

record webSocketConversation =
  cv_identity :: "codexIdentity option"
  cv_model :: gostring
  cv_instructions :: "gj option"
  cv_turnSettings :: gobj
  cv_history :: "gj list"
  cv_lastResponseID :: gostring
  cv_lastGeneration :: nat
  cv_pendingCallIDs :: "gostring list"
  cv_hasCompleted :: bool
  cv_maxReplayBytes :: int

record webSocketTurnPlan =
  tp_model :: gostring
  tp_reasoning :: gostring
  tp_incremental :: gobj
  tp_replay :: gobj
  tp_currentInput :: "gj list"
  tp_reset :: bool
  tp_continuation :: bool
  tp_identity :: codexIdentity
  tp_turnSettings :: gobj
  tp_instructionsSet :: bool

datatype conversation_error =
    InvalidJSON
  | NotJSONObject
  | UnsupportedType
  | AppendBeforeCompleted
  | InputMissing
  | AppendNeedsArray
  | PreviousUnavailable
  | PreviousMismatch
  | MissingToolOutputs
  | ModelMissing
  | NotNormalized normalize_error
  | IdentityFailed identity_error
  | InputNotArray
  | ReplayTooLarge
  | ResponseIDMissing
  | BadTerminal

definition replayLimit :: "webSocketConversation \<Rightarrow> int" where
  "replayLimit c = (if cv_maxReplayBytes c > 0 then cv_maxReplayBytes c else 32 * 1024 * 1024)"

definition webSocketContinuationFields :: "gostring list" where
  "webSocketContinuationFields = [''tools'', ''tool_choice'', ''parallel_tool_calls'']"

definition webSocketTurnSettings :: "gobj \<Rightarrow> gobj" where
  "webSocketTurnSettings object =
     fold (\<lambda>name settings. case map_of object name of Some v \<Rightarrow> put name v settings | None \<Rightarrow> settings)
       webSocketContinuationFields []"

definition rawMessageArray :: "gj \<Rightarrow> gj list option" where
  "rawMessageArray val = (case val of JArr xs \<Rightarrow> Some xs | JNull \<Rightarrow> Some [] | _ \<Rightarrow> None)"

subsection \<open>Preparing a turn\<close>

record turn_request =
  tr_object :: gobj
  tr_previous :: gostring
  tr_continuation :: bool
  tr_reset :: bool

text \<open>The checks on the request against the state of the conversation.\<close>

definition check_turn :: "webSocketConversation \<Rightarrow> gobj \<Rightarrow> conversation_error + turn_request" where
  "check_turn c object =
     (let requestType = jsonString (index_nil object ''type'');
          input = index_nil object ''input'';
          previous = jsonString (index_nil object ''previous_response_id'')
      in if requestType \<noteq> ''response.create'' \<and> requestType \<noteq> ''response.append'' then Inl UnsupportedType
         else if requestType = ''response.append'' \<and> \<not> cv_hasCompleted c then Inl AppendBeforeCompleted
         else if map_of object ''input'' = None then Inl InputMissing
         else if requestType = ''response.append'' \<and> arr_of input = None then Inl AppendNeedsArray
         else if \<not> cv_hasCompleted c \<and> previous \<noteq> [] then Inl PreviousUnavailable
         else
           (let continuation0 = (requestType = ''response.append'' \<or> previous \<noteq> []);
                looksComplete = (requestType = ''response.create'' \<and> webSocketInputLooksLikeTranscript input);
                reset = (\<not> continuation0 \<or> looksComplete);
                continuation = (continuation0 \<and> \<not> looksComplete);
                object' = (if looksComplete then del ''previous_response_id'' object else object)
            in if continuation \<and> previous \<noteq> [] \<and> previous \<noteq> cv_lastResponseID c then Inl PreviousMismatch
               else if continuation \<and> \<not> webSocketInputSatisfiesCalls input (cv_pendingCallIDs c) then Inl MissingToolOutputs
               else Inr \<lparr>tr_object = object', tr_previous = previous, tr_continuation = continuation, tr_reset = reset\<rparr>))"

text \<open>What a continuation takes over from the turns before.\<close>

definition inherit_setting :: "gobj \<Rightarrow> gostring \<Rightarrow> gobj \<Rightarrow> gobj" where
  "inherit_setting settings name object =
     (if map_of object name \<noteq> None then object
      else (case map_of settings name of Some v \<Rightarrow> put name v object | None \<Rightarrow> object))"

definition take_over :: "webSocketConversation \<Rightarrow> turn_request \<Rightarrow> gobj \<Rightarrow> gobj" where
  "take_over c t object =
     (if \<not> tr_continuation t then object
      else
        (let o1 = (case cv_instructions c of
                     Some instr \<Rightarrow> if map_of object ''instructions'' = None then put ''instructions'' instr object else object
                   | None \<Rightarrow> object);
             o2 = (if tr_previous t = [] then put ''previous_response_id'' (JStr (cv_lastResponseID c)) o1 else o1)
         in fold (inherit_setting (cv_turnSettings c)) webSocketContinuationFields o2))"

definition turn_object :: "webSocketConversation \<Rightarrow> turn_request \<Rightarrow> conversation_error + gobj \<times> gostring" where
  "turn_object c t =
     (let own = jsonString (index_nil (tr_object t) ''model'');
          model = (if own = [] then cv_model c else own)
      in if model = [] then Inl ModelMissing
         else Inr (put ''type'' (JStr ''response.create'') (take_over c t (put ''model'' (JStr model) (tr_object t))), model))"

text \<open>The two strings the log reads from a body, if they have the right types.\<close>

definition string_or_null :: "gj \<Rightarrow> gostring option" where
  "string_or_null v = (case v of JStr s \<Rightarrow> Some s | JNull \<Rightarrow> Some [] | _ \<Rightarrow> None)"

definition effort_fields :: "gobj \<Rightarrow> (gostring \<times> gostring) option" where
  "effort_fields object =
     (case (string_or_null (index_nil object ''reasoning_effort''),
            case index_nil object ''reasoning'' of
              JObj m \<Rightarrow> string_or_null (index_nil m ''effort'') | JNull \<Rightarrow> Some [] | _ \<Rightarrow> None) of
        (Some flat, Some effort) \<Rightarrow> Some (effort, flat)
      | _ \<Rightarrow> None)"

text \<open>The request of the client: its API key and headers, the account's plan, and whether identities are remapped.\<close>

record turn_context =
  tc_lib :: compat_lib
  tc_key :: "gostring option"
  tc_headers :: headers
  tc_remap :: bool
  tc_planType :: gostring
  tc_json_size :: "gobj \<Rightarrow> int"

definition replay_object :: "gobj \<Rightarrow> gj list \<Rightarrow> gobj" where
  "replay_object object input =
     put ''type'' (JStr ''response.create'') (del ''previous_response_id'' (put ''input'' (JArr input) object))"

text \<open>The end of \<^verbatim>\<open>prepare\<close>, from the normalised body on, with the identity that was applied to it.\<close>

definition plan_turn ::
  "turn_context \<Rightarrow> webSocketConversation \<Rightarrow> turn_request \<Rightarrow> gostring \<Rightarrow> bool \<Rightarrow> gobj \<Rightarrow> codexIdentity \<Rightarrow>
     (codexIdentity \<times> (conversation_error + webSocketTurnPlan)) option" where
  "plan_turn tc c t model instructionsSet body i =
     map_option (\<lambda>(i', r).
       (i', case r of
          Inl e \<Rightarrow> Inl (IdentityFailed e)
        | Inr normalized \<Rightarrow>
            (let object = put ''type'' (JStr ''response.create'') normalized
             in case rawMessageArray (index_nil object ''input'') of
                  None \<Rightarrow> Inl InputNotArray
                | Some currentInput \<Rightarrow>
                    (let replayInput = (if tr_reset t then currentInput else mergeWebSocketItems [cv_history c, currentInput]);
                         replay = replay_object object replayInput
                     in if tc_json_size tc replay > replayLimit c then Inl ReplayTooLarge
                        else Inr \<lparr>tp_model = model,
                               tp_reasoning = reasoningEffortFromBody (cl_lower (tc_lib tc)) (effort_fields normalized),
                               tp_incremental = object, tp_replay = replay, tp_currentInput = currentInput,
                               tp_reset = tr_reset t, tp_continuation = tr_continuation t, tp_identity = i',
                               tp_turnSettings = webSocketTurnSettings body, tp_instructionsSet = instructionsSet\<rparr>))))
       (prepareCodexWebSocketBody (tc_lib tc) (JObj body) model (tc_planType tc) (tc_headers tc) i)"

text \<open>The identity of the conversation is changed in place, also by a turn that is refused.\<close>

definition prepare ::
  "turn_context \<Rightarrow> webSocketConversation \<Rightarrow> gj option \<Rightarrow>
     (webSocketConversation \<times> (conversation_error + webSocketTurnPlan)) option" where
  "prepare tc c raw =
     (let fail = (\<lambda>e. Some (c, Inl e)); il = cl_identity (tc_lib tc)
      in case raw of
           None \<Rightarrow> fail InvalidJSON
         | Some v \<Rightarrow>
             (case obj_of v of
                None \<Rightarrow> fail NotJSONObject
              | Some object0 \<Rightarrow>
                  (case check_turn c object0 of
                     Inl e \<Rightarrow> fail e
                   | Inr t \<Rightarrow>
                       (case turn_object c t of
                          Inl e \<Rightarrow> fail e
                        | Inr (object, model) \<Rightarrow>
                            (case normalizeResponsesRequest (cl_lower (tc_lib tc)) (Some (JObj object)) of
                               Inl e \<Rightarrow> fail (NotNormalized e)
                             | Inr (normalized, _, _) \<Rightarrow>
                                 (let instructionsSet = (map_of object0 ''instructions'' \<noteq> None)
                                  in case cv_identity c of
                                       None \<Rightarrow>
                                         (case prepareRequestIdentity il (tc_key tc) (tc_headers tc) (JObj normalized) (tc_remap tc) of
                                            Inl e \<Rightarrow> fail (IdentityFailed e)
                                          | Inr (body, i) \<Rightarrow>
                                              map_option (\<lambda>(i', r). (c, r)) (plan_turn tc c t model instructionsSet body i))
                                     | Some i0 \<Rightarrow>
                                         (case prepareBody il True (JObj normalized) i0 of
                                            (i, Inl e) \<Rightarrow> Some (c\<lparr>cv_identity := Some i\<rparr>, Inl (IdentityFailed e))
                                          | (i, Inr body) \<Rightarrow>
                                              map_option (\<lambda>(i', r). (c\<lparr>cv_identity := Some i'\<rparr>, r))
                                                (plan_turn tc c t model instructionsSet body i))))))))"

definition bodyFor :: "webSocketConversation \<Rightarrow> webSocketTurnPlan \<Rightarrow> nat \<Rightarrow> bool \<Rightarrow> gobj" where
  "bodyFor c plan generation httpFallback =
     (if \<not> httpFallback \<and> tp_continuation plan \<and> generation \<noteq> 0 \<and> generation = cv_lastGeneration c
      then tp_incremental plan else tp_replay plan)"

subsection \<open>Committing a turn\<close>

text \<open>The terminal event, decoded.\<close>

record terminal_event =
  te_ID :: gostring
  te_Output :: "gj list"
  te_Instructions :: "gj option"

definition not_blank :: "gj \<Rightarrow> bool" where
  "not_blank v = (case v of JStr txt \<Rightarrow> TrimSpace txt \<noteq> [] | _ \<Rightarrow> True)"

definition committed_instructions :: "webSocketConversation \<Rightarrow> webSocketTurnPlan \<Rightarrow> terminal_event \<Rightarrow> gj option" where
  "committed_instructions c plan e =
     (let i0 = (if tp_reset plan \<or> tp_instructionsSet plan then None else cv_instructions c);
          raw = index_nil (tp_incremental plan) ''instructions'';
          i1 = (if tp_instructionsSet plan \<and> not_blank raw then Some raw else i0)
      in if tp_reset plan \<and> \<not> tp_instructionsSet plan
         then (case te_Instructions e of Some v \<Rightarrow> if not_blank v then Some v else i1 | None \<Rightarrow> i1)
         else i1)"

definition committed_history :: "webSocketConversation \<Rightarrow> webSocketTurnPlan \<Rightarrow> terminal_event \<Rightarrow> gj list" where
  "committed_history c plan e =
     mergeWebSocketItems
       [if tp_reset plan then tp_currentInput plan else mergeWebSocketItems [cv_history c, tp_currentInput plan], te_Output e]"

definition commit_turn ::
  "(gobj \<Rightarrow> int) \<Rightarrow> webSocketConversation \<Rightarrow> webSocketTurnPlan \<Rightarrow> terminal_event option \<Rightarrow> nat \<Rightarrow>
     conversation_error + webSocketConversation" where
  "commit_turn json_size c plan terminal generation =
     (case terminal of
        None \<Rightarrow> Inl BadTerminal
      | Some e \<Rightarrow>
          if TrimSpace (te_ID e) = [] then Inl ResponseIDMissing
          else
            (let history = committed_history c plan e
             in if json_size (put ''input'' (JArr history) (tp_replay plan)) > replayLimit c then Inl ReplayTooLarge
                else Inr (c\<lparr>cv_history := history, cv_identity := Some (tp_identity plan), cv_model := tp_model plan,
                    cv_lastResponseID := TrimSpace (te_ID e), cv_lastGeneration := generation,
                    cv_pendingCallIDs := pendingWebSocketCallIDs (te_Output e), cv_hasCompleted := True,
                    cv_turnSettings := fold (\<lambda>(name, v) settings. put name v settings) (tp_turnSettings plan)
                      (if tp_reset plan then [] else cv_turnSettings c),
                    cv_instructions := committed_instructions c plan e\<rparr>)))"

subsection \<open>Merged items\<close>

definition mid :: "gj \<Rightarrow> gostring" where
  "mid val = im_id (meta_of val)"

definition unique_items :: "gj list \<Rightarrow> bool" where
  "unique_items xs \<longleftrightarrow> distinct (filter (\<lambda>i. i \<noteq> []) (map mid xs)) \<and> distinct (List.map_filter call_made xs)"

lemma map_filter_simps [simp]:
  "List.map_filter f [] = []"
  "List.map_filter f (x # xs) = (case f x of None \<Rightarrow> List.map_filter f xs | Some y \<Rightarrow> y # List.map_filter f xs)"
  "List.map_filter f (xs @ ys) = List.map_filter f xs @ List.map_filter f ys"
  by (simp_all add: List.map_filter_def split: option.split)

lemma dedupe_subseq: "subseq (dedupe_calls seen xs) xs"
  by (induction seen xs rule: dedupe_calls.induct) (auto split: option.split)

lemma dedupe_distinct:
  "distinct (List.map_filter call_made (dedupe_calls seen xs)) \<and>
     set (List.map_filter call_made (dedupe_calls seen xs)) \<inter> set seen = {}"
  by (induction seen xs rule: dedupe_calls.induct) (auto split: option.split)

lemma dedupe_id:
  "distinct (List.map_filter call_made xs) \<Longrightarrow> set (List.map_filter call_made xs) \<inter> set seen = {} \<Longrightarrow>
     dedupe_calls seen xs = xs"
  by (induction seen xs rule: dedupe_calls.induct) (auto split: option.splits)

lemma dedupe_keeps:
  "x \<in> set xs \<Longrightarrow> call_made x = None \<Longrightarrow> x \<in> set (dedupe_calls seen xs)"
  by (induction seen xs rule: dedupe_calls.induct) (auto split: option.splits)

text \<open>The index kept for an id is the index of an item with that id, and every id has one.\<close>

lemma keep_run:
  "(\<forall>i j r. map_of (fold (keep_step refs) (enumerate 0 xs) []) i = Some (j, r) \<longrightarrow> j < length xs \<and> mid (xs ! j) = i \<and> i \<noteq> [])
   \<and> (\<forall>x \<in> set xs. mid x \<noteq> [] \<longrightarrow> map_of (fold (keep_step refs) (enumerate 0 xs) []) (mid x) \<noteq> None)"
proof (induction xs rule: rev_induct)
  case Nil
  then show ?case by simp
next
  case (snoc x xs)
  let ?k = "fold (keep_step refs) (enumerate 0 xs) []"
  have e: "fold (keep_step refs) (enumerate 0 (xs @ [x])) [] = keep_step refs (length xs, x) ?k"
    by (simp add: enumerate_append_eq)
  have old: "map_of ?k i = Some (j, r) \<Longrightarrow> j < length xs \<and> mid ((xs @ [x]) ! j) = i \<and> i \<noteq> []" for i j r
    using snoc by (auto simp: nth_append)
  have some: "y \<in> set xs \<Longrightarrow> mid y \<noteq> [] \<Longrightarrow> map_of ?k (mid y) \<noteq> None" for y using snoc by blast
  show ?case
    unfolding e using old some
    by (auto simp: keep_step_def Let_def update_conv' mid_def [symmetric] split: option.splits if_splits)
      (fastforce simp: less_Suc_eq)+
qed

lemma keep_index: "map_of (keep_by_id xs) i = Some (j, r) \<Longrightarrow> j < length xs \<and> mid (xs ! j) = i \<and> i \<noteq> []"
  using keep_run unfolding keep_by_id_def by blast

lemma keep_all: "x \<in> set xs \<Longrightarrow> mid x \<noteq> [] \<Longrightarrow> map_of (keep_by_id xs) (mid x) \<noteq> None"
  using keep_run unfolding keep_by_id_def by blast

definition kept_pairs :: "gj list \<Rightarrow> (nat \<times> gj) list" where
  "kept_pairs xs = filter (kept (keep_by_id xs)) (enumerate 0 xs)"

lemma kept_mid: "kept keep p \<longleftrightarrow> mid (snd p) = [] \<or> map_option fst (map_of keep (mid (snd p))) = Some (fst p)"
  by (simp add: kept_def mid_def Let_def)

lemma kept_subseq: "subseq (map snd (kept_pairs xs)) xs"
proof -
  have "subseq (map snd (kept_pairs xs)) (map snd (enumerate 0 xs))"
    unfolding kept_pairs_def by (intro Sublist.subseq_map subseq_filter_left)
  then show ?thesis by simp
qed

lemma kept_ids_distinct: "distinct (filter (\<lambda>i. i \<noteq> []) (map mid (map snd (kept_pairs xs))))"
proof -
  let ?ps = "filter (\<lambda>p. mid (snd p) \<noteq> []) (kept_pairs xs)"
  have "distinct (kept_pairs xs)" by (simp add: kept_pairs_def distinct_enumerate)
  moreover have "inj_on (\<lambda>p. mid (snd p)) (set ?ps)"
  proof (rule inj_onI)
    fix p q assume pq: "p \<in> set ?ps" "q \<in> set ?ps" "mid (snd p) = mid (snd q)"
    then have "fst p = fst q" by (auto simp: kept_pairs_def kept_mid)
    moreover have "snd p = xs ! fst p" "snd q = xs ! fst q"
      using pq by (auto simp: kept_pairs_def in_set_enumerate_eq)
    ultimately show "p = q" by (simp add: prod_eq_iff)
  qed
  ultimately have "distinct (map (\<lambda>p. mid (snd p)) ?ps)" by (simp add: distinct_map)
  then show ?thesis by (simp add: filter_map o_def)
qed

lemma map_filter_subseq: "subseq xs ys \<Longrightarrow> subseq (List.map_filter f xs) (List.map_filter f ys)"
  unfolding List.map_filter_def by (intro Sublist.subseq_map subseq_filter)

lemma distinct_subseq: "subseq xs ys \<Longrightarrow> distinct ys \<Longrightarrow> distinct xs"
  by (induction rule: list_emb.induct) (auto dest: list_emb_set)

lemma unique_short: "length xs < 2 \<Longrightarrow> unique_items xs"
  by (cases xs; cases "tl xs") (auto simp: unique_items_def split: option.split)

lemma merge_eq:
  "mergeWebSocketItems groups =
     (if length (concat groups) < 2 then concat groups else map snd (kept_pairs (dedupe_calls [] (concat groups))))"
  by (simp add: mergeWebSocketItems_def kept_pairs_def Let_def)

lemma merge_unique: "unique_items (mergeWebSocketItems groups)"
proof (cases "length (concat groups) < 2")
  case True
  then show ?thesis using unique_short by (simp add: merge_eq)
next
  case False
  let ?d = "dedupe_calls [] (concat groups)"
  have "distinct (List.map_filter call_made (map snd (kept_pairs ?d)))"
    using distinct_subseq [OF map_filter_subseq [OF kept_subseq] conjunct1 [OF dedupe_distinct]] .
  with False kept_ids_distinct [of ?d] show ?thesis by (simp add: merge_eq unique_items_def)
qed

lemma merge_subseq: "subseq (mergeWebSocketItems groups) (concat groups)"
  using subseq_order.trans [OF kept_subseq dedupe_subseq] by (simp add: merge_eq)

text \<open>Unique items stay as they are.\<close>

lemma same_id_same_index:
  assumes "distinct (filter (\<lambda>i. i \<noteq> []) (map mid xs))" "i < length xs" "j < length xs"
    "mid (xs ! i) = mid (xs ! j)" "mid (xs ! i) \<noteq> []"
  shows "i = j"
  using assms
proof (induction xs arbitrary: i j)
  case (Cons x xs)
  have tail: "distinct (filter (\<lambda>i. i \<noteq> []) (map mid xs))" using Cons.prems(1) by (simp split: if_splits)
  have fresh: "k < length xs \<Longrightarrow> mid x \<noteq> [] \<Longrightarrow> mid x \<noteq> mid (xs ! k)" for k
    using Cons.prems(1) by (auto simp: image_iff)
  show ?case
  proof (cases i)
    case 0
    then have "j = Suc k \<Longrightarrow> False" for k
      using fresh [of k] Cons.prems(3) Cons.prems(4) Cons.prems(5) by simp
    with 0 show ?thesis by (cases j) simp_all
  next
    case (Suc i')
    then have "j = 0 \<Longrightarrow> False" using fresh [of i'] Cons.prems(2) Cons.prems(4) Cons.prems(5) by simp
    then obtain j' where "j = Suc j'" by (cases j) simp_all
    with Suc Cons.IH [OF tail, of i' j'] Cons.prems(2) Cons.prems(3) Cons.prems(4) Cons.prems(5) show ?thesis by simp
  qed
qed simp

lemma unique_kept:
  assumes "distinct (filter (\<lambda>i. i \<noteq> []) (map mid xs))"
  shows "kept_pairs xs = enumerate 0 xs"
proof -
  have "kept (keep_by_id xs) p" if "p \<in> set (enumerate 0 xs)" for p
  proof (cases "mid (snd p) = []")
    case True
    then show ?thesis by (simp add: kept_mid)
  next
    case False
    from that have p: "fst p < length xs" "snd p = xs ! fst p" by (auto simp: in_set_enumerate_eq)
    then have "snd p \<in> set xs" by simp
    then obtain j r where j: "map_of (keep_by_id xs) (mid (snd p)) = Some (j, r)" using keep_all False by fastforce
    then have "j < length xs" "mid (xs ! j) = mid (xs ! fst p)" using keep_index p by fastforce+
    with same_id_same_index [OF assms, of j "fst p"] p False have "j = fst p" by simp
    with j show ?thesis by (simp add: kept_mid)
  qed
  then show ?thesis by (simp add: kept_pairs_def)
qed

lemma merge_id: "unique_items xs \<Longrightarrow> mergeWebSocketItems [xs] = xs"
  by (simp add: merge_eq unique_items_def dedupe_id unique_kept)

text \<open>Items without an id that make no call are all kept, in order.\<close>

definition plain_item :: "gj \<Rightarrow> bool" where
  "plain_item x \<longleftrightarrow> mid x = [] \<and> call_made x = None"

lemma dedupe_plain: "filter plain_item (dedupe_calls seen xs) = filter plain_item xs"
  by (induction seen xs rule: dedupe_calls.induct) (auto simp: plain_item_def split: option.splits)

lemma kept_plain: "filter plain_item (map snd (kept_pairs xs)) = filter plain_item xs"
proof -
  have "filter (\<lambda>p. plain_item (snd p)) (kept_pairs xs) = filter (\<lambda>p. plain_item (snd p)) (enumerate 0 xs)"
    unfolding kept_pairs_def filter_filter by (rule filter_cong) (auto simp: kept_mid plain_item_def)
  then have "filter plain_item (map snd (kept_pairs xs)) = filter plain_item (map snd (enumerate 0 xs))"
    by (simp only: filter_map o_def)
  then show ?thesis by (simp only: map_snd_enumerate)
qed

lemma merge_plain: "filter plain_item (mergeWebSocketItems groups) = filter plain_item (concat groups)"
  by (simp add: merge_eq kept_plain dedupe_plain)

text \<open>
  A merged transcript makes no call twice and has no id twice; it is a subsequence of the items
  given; merging it again changes nothing; and every item without an id that makes no call is in it.
\<close>

lemma merged_items:
  "unique_items (mergeWebSocketItems groups) \<and> subseq (mergeWebSocketItems groups) (concat groups)
   \<and> mergeWebSocketItems [mergeWebSocketItems groups] = mergeWebSocketItems groups
   \<and> filter plain_item (mergeWebSocketItems groups) = filter plain_item (concat groups)"
  by (intro conjI merge_unique merge_subseq merge_id merge_plain)

subsection \<open>Fields that pass through a preparation\<close>

lemma prepareBody_field:
  assumes "prepareBody il fixed (JObj b) i = (i', Inr b')" "k \<noteq> ''prompt_cache_key''" "k \<noteq> ''client_metadata''"
  shows "map_of b' k = map_of b k"
  using assms
  by (auto simp: prepareBody_def obj_of_def Let_def mappingError_def and_then_def split: sum.splits if_splits option.splits prod.splits)

lemma request_identity_field:
  assumes "prepareRequestIdentity il key h (JObj b) remap = Inr (b', i)" "k \<noteq> ''prompt_cache_key''" "k \<noteq> ''client_metadata''"
  shows "map_of b' k = map_of b k"
  using assms by (auto simp: prepareRequestIdentity_def prepareBody_field split: sum.splits prod.splits)

definition same_answers :: "gj \<Rightarrow> gj \<Rightarrow> bool" where
  "same_answers v w \<longleftrightarrow>
     map_option (List.map_filter call_answered) (arr_of v) = map_option (List.map_filter call_answered) (arr_of w)"

lemma call_answered_eq: "index_nil (item_of v) ''type'' = index_nil (item_of w) ''type'' \<Longrightarrow>
    index_nil (item_of v) ''call_id'' = index_nil (item_of w) ''call_id'' \<Longrightarrow> call_answered v = call_answered w"
  by (simp add: call_answered_def meta_of_def Let_def)

lemma map_filter_map_eq: "(\<And>x. f (g x) = f x) \<Longrightarrow> List.map_filter f (map g xs) = List.map_filter f xs"
  by (induction xs) (auto split: option.split)

lemma normalize_item_answers: "call_answered (on_objects normalize_item v) = call_answered v"
  by (rule call_answered_eq; cases v) (simp_all add: on_objects_def item_of_def obj_of_def normalize_item_def index_nil_def)

lemma normalize_answers: "same_answers (normalizeInput v) v"
  by (cases v) (simp_all add: same_answers_def normalizeInput_def on_elements_def arr_of_def map_filter_map_eq normalize_item_answers)

lemma object_answers:
  assumes "sanitize_object il sha256 reserved m z = Some z'"
  shows "List.map_filter call_answered (sz_out z') = List.map_filter call_answered (sz_out z @ [JObj m])"
proof -
  have "call_answered (JObj (put ''id'' v m)) = call_answered (JObj m)" for v
    by (rule call_answered_eq) (simp_all add: item_of_def obj_of_def index_nil_def)
  with assms show ?thesis
    by (auto simp: sanitize_object_def append_item_def Let_def bind_eq_Some_conv split: if_splits)
qed

lemma reasoning_answers: "str_of (index_nil m ''type'') = ''reasoning'' \<Longrightarrow> call_answered (JObj m) = None"
proof -
  assume "str_of (index_nil m ''type'') = ''reasoning''"
  moreover have "TrimSpace ''reasoning'' = ''reasoning''" by (rule TrimSpace_printable) (simp_all add: printable_def)
  ultimately have "jsonString (index_nil m ''type'') = [] \<or> jsonString (index_nil m ''type'') = ''reasoning''"
    by (simp add: jsonString_def cleanIdentityValue_def Let_def)
  then show ?thesis by (auto simp: call_answered_def meta_of_def item_of_def obj_of_def is_tool_output_def Let_def)
qed

lemma value_answers:
  assumes "sanitize_value il sha256 store reserved val z = Some z'"
  shows "List.map_filter call_answered (sz_out z') = List.map_filter call_answered (sz_out z @ [val])"
proof (cases "obj_of val")
  case None
  with assms show ?thesis by (auto simp: sanitize_value_def append_item_def)
next
  case (Some item)
  then have val: "val = JObj item" by (cases val) (simp_all add: obj_of_def)
  show ?thesis
  proof (cases "str_of (index_nil item ''type'') = ''reasoning''")
    case False
    with assms Some val object_answers show ?thesis by (auto simp: sanitize_value_def)
  next
    case True
    obtain m kept where m: "sanitizeCodexReasoningItem item store = (m, kept)" by fastforce
    have "call_answered (JObj item) = None" "call_answered (JObj m) = None"
      using True reasoning_type [OF m] by (simp_all add: reasoning_answers)
    with assms Some True m object_answers [of il sha256 reserved m z z'] show ?thesis
      by (cases kept) (auto simp: sanitize_value_def val)
  qed
qed

lemma values_answers:
  "sanitize_values il sha256 store reserved vals z = Some z' \<Longrightarrow>
     List.map_filter call_answered (sz_out z') = List.map_filter call_answered (sz_out z @ vals)"
proof (induction vals arbitrary: z)
  case (Cons val vals)
  then obtain z1 where z1: "sanitize_value il sha256 store reserved val z = Some z1"
    "sanitize_values il sha256 store reserved vals z1 = Some z'" by (auto simp: bind_eq_Some_conv)
  with Cons.IH [OF z1(2)] value_answers [OF z1(1)] show ?case by (simp split: option.split)
qed simp

lemma sanitize_fields:
  assumes "sanitizeCodexInputItems il sha256 b i = Some (i', Inr b')"
  shows "same_answers (index_nil b' ''input'') (index_nil b ''input'')" "k \<noteq> ''input'' \<Longrightarrow> map_of b' k = map_of b k"
  using assms values_answers
  by (auto simp: sanitizeCodexInputItems_def same_answers_def mappingError_def index_nil_def arr_of_def [of "JArr _"]
      split: option.splits)

lemma websocket_body_fields:
  assumes "prepareCodexWebSocketBody cl (JObj b) model planType h i = Some (i', Inr b')"
  shows "same_answers (index_nil b' ''input'') (index_nil b ''input'')"
    "k \<notin> {''input'', ''tools'', ''parallel_tool_calls'', ''safety_identifier''} \<Longrightarrow> map_of b' k = map_of b k"
proof -
  let ?il = "cl_identity cl"
  let ?b1 = "ensureCodexImageGenerationTool ?il (cl_lower cl) (del ''safety_identifier'' b) model planType h"
  from assms obtain r where r: "sanitizeCodexInputItems ?il (cl_sha256 cl) ?b1 i = Some r"
    and then_r: "and_then r (\<lambda>i' o'. (i', Inr (normalizeCodexParallelToolCalls ?il o' h True))) = (i', Inr b')"
    by (auto simp: prepareCodexWebSocketBody_def obj_of_def prepareCodexInferenceObject_def Let_def)
  from then_r obtain b2 where r_eq: "r = (i', Inr b2)" and b': "b' = normalizeCodexParallelToolCalls ?il b2 h True"
    by (cases r) (auto simp: and_then_def split: sum.splits)
  have b2: "sanitizeCodexInputItems ?il (cl_sha256 cl) ?b1 i = Some (i', Inr b2)" using r r_eq by simp
  have b1: "k \<noteq> ''tools'' \<Longrightarrow> map_of ?b1 k = map_of (del ''safety_identifier'' b) k" for k
    by (simp add: ensureCodexImageGenerationTool_def split: option.split)
  have b3: "k \<noteq> ''parallel_tool_calls'' \<Longrightarrow> map_of b' k = map_of b2 k" for k
    by (simp add: b' normalizeCodexParallelToolCalls_def)
  have "index_nil b' ''input'' = index_nil b2 ''input''" "index_nil ?b1 ''input'' = index_nil b ''input''"
    using b1 b3 by (simp_all add: index_nil_def)
  with sanitize_fields(1) [OF b2] show "same_answers (index_nil b' ''input'') (index_nil b ''input'')" by simp
  show "k \<notin> {''input'', ''tools'', ''parallel_tool_calls'', ''safety_identifier''} \<Longrightarrow> map_of b' k = map_of b k"
    using b1 b3 sanitize_fields(2) [OF b2] by simp
qed

subsection \<open>Plans\<close>

text \<open>What an accepted request leads to, up to the body that is made ready for the upstream.\<close>

lemma prepare_obtains:
  assumes "prepare tc c raw = Some (c', Inr plan)"
  obtains object0 t object model normalized stream m body i i' where
    "raw = Some (JObj object0)" "check_turn c object0 = Inr t" "turn_object c t = Inr (object, model)"
    "normalizeResponsesRequest (cl_lower (tc_lib tc)) (Some (JObj object)) = Inr (normalized, stream, m)"
    "\<And>k. k \<noteq> ''prompt_cache_key'' \<Longrightarrow> k \<noteq> ''client_metadata'' \<Longrightarrow> map_of body k = map_of normalized k"
    "plan_turn tc c t model (map_of object0 ''instructions'' \<noteq> None) body i = Some (i', Inr plan)"
    "c' = (if cv_identity c = None then c else c\<lparr>cv_identity := Some i'\<rparr>)"
proof -
  from assms obtain v object0 t object model normalized stream m where
    raw: "raw = Some v" "obj_of v = Some object0" "check_turn c object0 = Inr t" "turn_object c t = Inr (object, model)"
    and n: "normalizeResponsesRequest (cl_lower (tc_lib tc)) (Some (JObj object)) = Inr (normalized, stream, m)"
    by (auto simp: prepare_def Let_def split: option.splits sum.splits prod.splits)
  have v: "v = JObj object0" using raw(2) by (cases v) (simp_all add: obj_of_def)
  note known = raw n
  show thesis
  proof (cases "cv_identity c")
    case None
    with assms known obtain body i i' where
      "prepareRequestIdentity (cl_identity (tc_lib tc)) (tc_key tc) (tc_headers tc) (JObj normalized) (tc_remap tc) = Inr (body, i)"
      "plan_turn tc c t model (map_of object0 ''instructions'' \<noteq> None) body i = Some (i', Inr plan)" "c' = c"
      by (auto simp: prepare_def Let_def split: sum.splits)
    with None raw n v show thesis using that [of object0 t object model normalized stream m body i i'] request_identity_field by simp
  next
    case (Some i0)
    with assms known obtain body i i' where
      "prepareBody (cl_identity (tc_lib tc)) True (JObj normalized) i0 = (i, Inr body)"
      "plan_turn tc c t model (map_of object0 ''instructions'' \<noteq> None) body i = Some (i', Inr plan)"
      "c' = c\<lparr>cv_identity := Some i'\<rparr>"
      by (auto simp: prepare_def Let_def split: sum.splits prod.splits)
    with Some raw n v show thesis using that [of object0 t object model normalized stream m body i i'] prepareBody_field by simp
  qed
qed

lemma plan_obtains:
  assumes "plan_turn tc c t model ins body i = Some (i', Inr plan)"
  obtains n where "prepareCodexWebSocketBody (tc_lib tc) (JObj body) model (tc_planType tc) (tc_headers tc) i = Some (i', Inr n)"
    "tp_incremental plan = put ''type'' (JStr ''response.create'') n"
    "rawMessageArray (index_nil (tp_incremental plan) ''input'') = Some (tp_currentInput plan)"
    "tp_replay plan = replay_object (tp_incremental plan)
       (if tr_reset t then tp_currentInput plan else mergeWebSocketItems [cv_history c, tp_currentInput plan])"
    "tc_json_size tc (tp_replay plan) \<le> replayLimit c" "tp_model plan = model" "tp_reset plan = tr_reset t"
    "tp_continuation plan = tr_continuation t" "tp_identity plan = i'" "tp_instructionsSet plan = ins"
    "tp_turnSettings plan = webSocketTurnSettings body"
proof -
  from assms obtain r where r: "prepareCodexWebSocketBody (tc_lib tc) (JObj body) model (tc_planType tc) (tc_headers tc) i = Some (i', r)"
    by (auto simp: plan_turn_def)
  with assms obtain n where "r = Inr n" by (cases r) (auto simp: plan_turn_def)
  with assms r that [of n] show thesis
    by (auto simp: plan_turn_def Let_def split: option.splits if_splits)
qed

lemma guard_Inr: "(if b then Inl e else r) = Inr v \<longleftrightarrow> \<not> b \<and> r = Inr v"
  by simp

lemma check_facts:
  assumes "check_turn c ob = Inr t"
  shows "tr_reset t \<longleftrightarrow> \<not> tr_continuation t"
    "tr_continuation t \<Longrightarrow> cv_hasCompleted c \<and> tr_object t = ob
       \<and> tr_previous t = jsonString (index_nil ob ''previous_response_id'')
       \<and> (tr_previous t = [] \<or> tr_previous t = cv_lastResponseID c)
       \<and> webSocketInputSatisfiesCalls (index_nil ob ''input'') (cv_pendingCallIDs c)"
proof -
  let ?kind = "jsonString (index_nil ob ''type'')" and ?prev = "jsonString (index_nil ob ''previous_response_id'')"
  let ?in = "index_nil ob ''input''"
  let ?cont0 = "?kind = ''response.append'' \<or> ?prev \<noteq> []"
  let ?looks = "?kind = ''response.create'' \<and> webSocketInputLooksLikeTranscript ?in"
  note chk = assms [unfolded check_turn_def Let_def guard_Inr sum.inject]
  from chk have t: "t = \<lparr>tr_object = (if ?looks then del ''previous_response_id'' ob else ob), tr_previous = ?prev,
      tr_continuation = (?cont0 \<and> \<not> ?looks), tr_reset = (\<not> ?cont0 \<or> ?looks)\<rparr>" by (elim conjE) (rule sym)
  show "tr_reset t \<longleftrightarrow> \<not> tr_continuation t" unfolding t by simp
  from chk have early: "?cont0 \<Longrightarrow> cv_hasCompleted c" by blast
  from chk have late: "?cont0 \<and> \<not> ?looks \<Longrightarrow> ?prev = [] \<or> ?prev = cv_lastResponseID c"
    "?cont0 \<and> \<not> ?looks \<Longrightarrow> webSocketInputSatisfiesCalls ?in (cv_pendingCallIDs c)" by blast+
  assume "tr_continuation t"
  then have "?cont0" "\<not> ?looks" by (simp_all add: t)
  with early late show "cv_hasCompleted c \<and> tr_object t = ob
       \<and> tr_previous t = jsonString (index_nil ob ''previous_response_id'')
       \<and> (tr_previous t = [] \<or> tr_previous t = cv_lastResponseID c)
       \<and> webSocketInputSatisfiesCalls (index_nil ob ''input'') (cv_pendingCallIDs c)"
    unfolding t by (simp only: if_False turn_request.simps) blast
qed

lemma settings_keep:
  "k \<notin> set names \<Longrightarrow> map_of (fold (inherit_setting st) names ob) k = map_of ob k"
  by (induction names arbitrary: ob) (auto simp: inherit_setting_def split: option.split)

lemma take_over_field:
  "k \<notin> {''instructions'', ''previous_response_id''} \<union> set webSocketContinuationFields \<Longrightarrow> map_of (take_over c t ob) k = map_of ob k"
  by (auto simp: take_over_def Let_def settings_keep split: option.split)

lemma turn_object_facts:
  assumes "turn_object c t = Inr (object, model)"
  shows "model \<noteq> []" "map_of object ''input'' = map_of (tr_object t) ''input''"
    "tr_continuation t \<Longrightarrow> map_of object ''previous_response_id'' =
       (if tr_previous t = [] then Some (JStr (cv_lastResponseID c)) else map_of (tr_object t) ''previous_response_id'')"
  using assms
proof -
  from assms show "model \<noteq> []" by (auto simp: turn_object_def Let_def split: if_splits)
  from assms have ob: "object = put ''type'' (JStr ''response.create'') (take_over c t (put ''model'' (JStr model) (tr_object t)))"
    by (auto simp: turn_object_def Let_def split: if_splits)
  show "map_of object ''input'' = map_of (tr_object t) ''input''"
    using take_over_field [of "''input''" c t] by (simp add: ob webSocketContinuationFields_def)
  have "map_of (take_over c t ob) ''previous_response_id'' =
      (if tr_previous t = [] then Some (JStr (cv_lastResponseID c)) else map_of ob ''previous_response_id'')"
    if "tr_continuation t" for ob
    using that settings_keep [of "''previous_response_id''" webSocketContinuationFields]
    by (simp add: take_over_def webSocketContinuationFields_def Let_def split: option.split)
  then show "tr_continuation t \<Longrightarrow> map_of object ''previous_response_id'' =
       (if tr_previous t = [] then Some (JStr (cv_lastResponseID c)) else map_of (tr_object t) ''previous_response_id'')"
    by (simp add: ob)
qed

lemma jsonString_obtains:
  assumes "jsonString (index_nil ob k) = s" "s \<noteq> []"
  obtains r where "map_of ob k = Some (JStr r)" "TrimSpace r = s"
proof (cases "index_nil ob k")
  case (JStr r)
  with assms that [of r] show thesis
    by (auto simp: jsonString_def cleanIdentityValue_def str_of_def index_nil_def Let_def split: option.splits if_splits)
qed (use assms in \<open>simp_all add: jsonString_def cleanIdentityValue_def str_of_def validIdentityValue_def Let_def\<close>)

lemma accepted_body:
  assumes "normalizeResponsesRequest lower (Some (JObj b)) = Inr (b', x)"
  shows "b' = normalize_body lower b"
  using assms by (auto simp: normalizeResponsesRequest_def Let_def split: if_splits)

lemma normalized_input: "map_of (normalize_body lower b) ''input'' = map_option (\<lambda>v. normalizeInput (wrap_input v)) (map_of b ''input'')"
  by (simp add: normalize_body_def map_of_stages stripped_fields_def option.map_comp o_def)

lemma satisfied_answers:
  assumes "webSocketInputSatisfiesCalls v pending" "same_answers w (normalizeInput (wrap_input v))" "rawMessageArray w = Some items"
  shows "set pending \<subseteq> set (List.map_filter call_answered items)"
proof (cases "pending = []")
  case False
  then obtain xs where v: "v = JArr xs" and all: "list_all (\<lambda>c. c \<in> set (List.map_filter call_answered xs)) pending"
    using assms(1) by (cases v) (auto simp: webSocketInputSatisfiesCalls_def arr_of_def)
  have "same_answers w (JArr xs)"
    using assms(2) normalize_answers [of "JArr xs"] by (simp add: v wrap_input_def same_answers_def)
  with assms(3) have "List.map_filter call_answered items = List.map_filter call_answered xs"
    by (cases w) (auto simp: same_answers_def arr_of_def rawMessageArray_def)
  with all show ?thesis by (auto simp: list_all_iff)
qed simp

lemma plan_facts:
  assumes "prepare tc c raw = Some (c', Inr plan)"
  shows "tp_model plan \<noteq> [] \<and> (tp_reset plan \<longleftrightarrow> \<not> tp_continuation plan)
    \<and> map_of (tp_replay plan) ''previous_response_id'' = None
    \<and> tc_json_size tc (tp_replay plan) \<le> replayLimit c
    \<and> (tp_continuation plan \<longrightarrow>
         cv_hasCompleted c
         \<and> (\<exists>s. map_of (tp_incremental plan) ''previous_response_id'' = Some (JStr s)
               \<and> cv_lastResponseID c \<in> {s, TrimSpace s})
         \<and> set (cv_pendingCallIDs c) \<subseteq> set (List.map_filter call_answered (tp_currentInput plan)))"
proof -
  obtain object0 t object model normalized stream m body i i' where
    check: "check_turn c object0 = Inr t" and obj: "turn_object c t = Inr (object, model)"
    and norm: "normalizeResponsesRequest (cl_lower (tc_lib tc)) (Some (JObj object)) = Inr (normalized, stream, m)"
    and body: "\<And>k. k \<noteq> ''prompt_cache_key'' \<Longrightarrow> k \<noteq> ''client_metadata'' \<Longrightarrow> map_of body k = map_of normalized k"
    and plan: "plan_turn tc c t model (map_of object0 ''instructions'' \<noteq> None) body i = Some (i', Inr plan)"
    using assms by (rule prepare_obtains) blast
  obtain n where n: "prepareCodexWebSocketBody (tc_lib tc) (JObj body) model (tc_planType tc) (tc_headers tc) i = Some (i', Inr n)"
    and inc: "tp_incremental plan = put ''type'' (JStr ''response.create'') n"
    and input: "rawMessageArray (index_nil (tp_incremental plan) ''input'') = Some (tp_currentInput plan)"
    and facts: "tp_replay plan = replay_object (tp_incremental plan)
        (if tr_reset t then tp_currentInput plan else mergeWebSocketItems [cv_history c, tp_currentInput plan])"
      "tc_json_size tc (tp_replay plan) \<le> replayLimit c" "tp_model plan = model" "tp_reset plan = tr_reset t"
      "tp_continuation plan = tr_continuation t"
    using plan by (rule plan_obtains)
  note nb = accepted_body [OF norm]
  have prev: "map_of (tp_incremental plan) ''previous_response_id'' = map_of object ''previous_response_id''"
    using websocket_body_fields(2) [OF n] body by (simp add: inc nb map_of_untouched touched_fields_def stripped_fields_def)
  have "same_answers (index_nil (tp_incremental plan) ''input'') (normalizeInput (wrap_input (index_nil (tr_object t) ''input'')))"
  proof -
    have "index_nil body ''input'' = normalizeInput (wrap_input (index_nil (tr_object t) ''input''))"
      using body [of "''input''"] turn_object_facts(2) [OF obj]
      by (simp add: nb normalized_input index_nil_def wrap_input_def normalizeInput_def on_elements_def split: option.split)
    with websocket_body_fields(1) [OF n] show ?thesis by (simp add: inc index_nil_def)
  qed
  then have answers: "set (cv_pendingCallIDs c) \<subseteq> set (List.map_filter call_answered (tp_currentInput plan))" if "tr_continuation t"
    using check_facts(2) [OF check that] satisfied_answers [OF _ _ input, of "index_nil (tr_object t) ''input''"] by simp
  have last: "\<exists>s. map_of (tp_incremental plan) ''previous_response_id'' = Some (JStr s) \<and> cv_lastResponseID c \<in> {s, TrimSpace s}"
    if cont: "tr_continuation t"
  proof (cases "tr_previous t = []")
    case True
    with turn_object_facts(3) [OF obj cont] prev show ?thesis by auto
  next
    case False
    with check_facts(2) [OF check cont] have "jsonString (index_nil object0 ''previous_response_id'') = cv_lastResponseID c"
      "cv_lastResponseID c \<noteq> []" by auto
    then obtain r where "map_of object0 ''previous_response_id'' = Some (JStr r)" "TrimSpace r = cv_lastResponseID c"
      by (rule jsonString_obtains)
    with False check_facts(2) [OF check cont] turn_object_facts(3) [OF obj cont] prev show ?thesis by auto
  qed
  show ?thesis
    using check_facts [OF check] turn_object_facts(1) [OF obj] last answers facts
    by (simp add: replay_object_def)
qed

text \<open>C22.
  The plan of an accepted request either starts over or continues. Its replay body never names an earlier
  response and is within the limit. A plan that continues needs a completed response, its incremental body
  names the last response of the conversation, and its input answers every call that is pending.
\<close>

theorem planned_turn:
  assumes "prepare tc c raw = Some (c', Inr plan)"
  shows "tp_model plan \<noteq> [] \<and> (tp_reset plan \<longleftrightarrow> \<not> tp_continuation plan)
    \<and> map_of (tp_replay plan) ''previous_response_id'' = None
    \<and> tc_json_size tc (tp_replay plan) \<le> replayLimit c
    \<and> (tp_continuation plan \<longrightarrow>
         cv_hasCompleted c
         \<and> (\<exists>s. map_of (tp_incremental plan) ''previous_response_id'' = Some (JStr s)
               \<and> cv_lastResponseID c \<in> {s, TrimSpace s})
         \<and> set (cv_pendingCallIDs c) \<subseteq> set (List.map_filter call_answered (tp_currentInput plan)))"
  by (rule plan_facts [OF assms])

subsection \<open>Runs of a conversation\<close>

text \<open>
  A conversation from its start: requests are prepared, and prepared turns are committed, in between the shared
  identity may change. The committed turns are the index of the relation: the plan and the output of each.
\<close>

definition fresh_conversation :: "int \<Rightarrow> webSocketConversation" where
  "fresh_conversation limit =
     \<lparr>cv_identity = None, cv_model = [], cv_instructions = None, cv_turnSettings = [], cv_history = [],
      cv_lastResponseID = [], cv_lastGeneration = 0, cv_pendingCallIDs = [], cv_hasCompleted = False,
      cv_maxReplayBytes = limit\<rparr>"

inductive conversation_run :: "int \<Rightarrow> webSocketConversation \<Rightarrow> (webSocketTurnPlan \<times> gj list) list \<Rightarrow> bool" for limit where
  start: "conversation_run limit (fresh_conversation limit) []"
| prepared: "conversation_run limit c ts \<Longrightarrow> prepare tc c raw = Some (c', r) \<Longrightarrow> conversation_run limit c' ts"
| identified: "conversation_run limit c ts \<Longrightarrow> cv_identity c \<noteq> None \<Longrightarrow> conversation_run limit (c\<lparr>cv_identity := Some i\<rparr>) ts"
| committed: "conversation_run limit c ts \<Longrightarrow> prepare tc c0 raw = Some (c1, Inr plan) \<Longrightarrow> c = c1\<lparr>cv_identity := cv_identity c\<rparr> \<Longrightarrow>
    commit_turn sz c (plan\<lparr>tp_identity := i\<rparr>) (Some e) g = Inr c' \<Longrightarrow>
    conversation_run limit c' (ts @ [(plan, te_Output e)])"

lemma prepare_keeps:
  "prepare tc c raw = Some (c', r) \<Longrightarrow> c' = c\<lparr>cv_identity := cv_identity c'\<rparr> \<and> (cv_identity c \<noteq> None \<longrightarrow> cv_identity c' \<noteq> None)"
  by (auto simp: prepare_def Let_def split: option.splits sum.splits prod.splits)

lemma commit_obtains:
  assumes "commit_turn sz c plan (Some e) g = Inr c'"
  shows "cv_history c' = committed_history c plan e" "cv_identity c' = Some (tp_identity plan)" "cv_model c' = tp_model plan"
    "cv_lastResponseID c' = TrimSpace (te_ID e)" "cv_lastResponseID c' \<noteq> []" "cv_hasCompleted c'"
    "cv_pendingCallIDs c' = pendingWebSocketCallIDs (te_Output e)" "cv_lastGeneration c' = g"
    "cv_maxReplayBytes c' = cv_maxReplayBytes c"
  using assms by (auto simp: commit_turn_def Let_def split: if_splits)

lemma pending_distinct: "distinct (pendingWebSocketCallIDs items)"
proof -
  have "distinct ys \<Longrightarrow> distinct (fold (\<lambda>c pending. if c \<in> set pending then pending else pending @ [c]) xs ys)"
    for xs ys :: "gostring list" by (induction xs arbitrary: ys) auto
  then show ?thesis by (simp add: pendingWebSocketCallIDs_def)
qed

lemma pending_set: "set (pendingWebSocketCallIDs items) = set (List.map_filter call_made items)"
proof -
  have "set (fold (\<lambda>c pending. if c \<in> set pending then pending else pending @ [c]) xs ys) = set xs \<union> set ys"
    for xs ys :: "gostring list" by (induction xs arbitrary: ys) auto
  then show ?thesis by (simp add: pendingWebSocketCallIDs_def)
qed

text \<open>
  In every run of a conversation: a continuation is possible exactly when a turn was committed; then the last response,
  the model and the identity are known, the pending calls are those of the last output, each once, and the history has no
  id and no call twice. Before that there is nothing to replay.
\<close>

lemma conversation_invariant:
  assumes "conversation_run limit c ts"
  shows "unique_items (cv_history c) \<and> distinct (cv_pendingCallIDs c) \<and> cv_maxReplayBytes c = limit
    \<and> (if ts = [] then \<not> cv_hasCompleted c \<and> cv_history c = [] \<and> cv_lastResponseID c = [] \<and> cv_pendingCallIDs c = []
       else cv_hasCompleted c \<and> cv_lastResponseID c \<noteq> [] \<and> cv_model c \<noteq> [] \<and> cv_identity c \<noteq> None
         \<and> set (cv_pendingCallIDs c) = set (List.map_filter call_made (snd (last ts))))"
  using assms
proof induction
  case start
  then show ?case by (simp add: fresh_conversation_def unique_items_def)
next
  case (prepared c ts tc raw c' r)
  from prepare_keeps [OF prepared.hyps(2)] obtain i where "c' = c\<lparr>cv_identity := i\<rparr>" "cv_identity c \<noteq> None \<longrightarrow> i \<noteq> None" by auto
  with prepared.IH show ?case by (auto split: if_splits)
next
  case (identified c ts i)
  then show ?case by (auto split: if_splits)
next
  case (committed c ts tc c0 raw c1 plan sz i e g c')
  have "tp_model plan \<noteq> []" using plan_facts [OF committed.hyps(2)] by simp
  with commit_obtains [OF committed.hyps(4)] committed.IH show ?case
    by (simp add: committed_history_def merge_unique pending_distinct pending_set)
qed

text \<open>The transcript of the committed turns since the last one that started over.\<close>

definition transcript :: "(webSocketTurnPlan \<times> gj list) list \<Rightarrow> gj list" where
  "transcript ts = foldl (\<lambda>t (plan, output). (if tp_reset plan then [] else t) @ tp_currentInput plan @ output) [] ts"

lemma unique_append: "unique_items (xs @ ys) \<Longrightarrow> unique_items xs"
  by (simp add: unique_items_def)

lemma merge_unique_id: "unique_items (concat groups) \<Longrightarrow> mergeWebSocketItems groups = concat groups"
  using merge_id [of "concat groups"] by (simp add: mergeWebSocketItems_def)

lemma history_transcript:
  "conversation_run limit c ts \<Longrightarrow> unique_items (transcript ts) \<Longrightarrow> cv_history c = transcript ts"
proof (induction rule: conversation_run.induct)
  case start
  then show ?case by (simp add: fresh_conversation_def transcript_def)
next
  case (prepared c ts tc raw c' r)
  from prepare_keeps [OF prepared.hyps(2)] obtain i where "c' = c\<lparr>cv_identity := i\<rparr>" by auto
  with prepared show ?case by simp
next
  case (identified c ts i)
  then show ?case by simp
next
  case (committed c ts tc c0 raw c1 plan sz i e g c')
  let ?t = "(if tp_reset plan then [] else transcript ts) @ tp_currentInput plan"
  have t: "transcript (ts @ [(plan, te_Output e)]) = ?t @ te_Output e" by (simp add: transcript_def)
  note u = committed.prems [unfolded t]
  have first: "(if tp_reset plan then tp_currentInput plan else mergeWebSocketItems [cv_history c, tp_currentInput plan]) = ?t"
  proof (cases "tp_reset plan")
    case False
    then have "unique_items (transcript ts @ tp_currentInput plan)" using unique_append [OF u] by simp
    with False committed.IH [OF unique_append] show ?thesis by (simp add: merge_unique_id)
  qed simp
  have "cv_history c' = mergeWebSocketItems [?t, te_Output e]"
    using commit_obtains(1) [OF committed.hyps(4)] by (simp add: committed_history_def flip: first)
  with u show ?case by (simp add: merge_unique_id t)
qed

lemma replay_input:
  assumes "prepare tc c raw = Some (c', Inr plan)"
  shows "map_of (tp_replay plan) ''input'' =
    Some (JArr (if tp_reset plan then tp_currentInput plan else mergeWebSocketItems [cv_history c, tp_currentInput plan]))"
proof -
  have "\<exists>t model ins body i i'. plan_turn tc c t model ins body i = Some (i', Inr plan)"
    using assms by (rule prepare_obtains) (intro exI)
  then obtain t model ins body i i' where "plan_turn tc c t model ins body i = Some (i', Inr plan)" by blast
  then have "tp_replay plan = replay_object (tp_incremental plan)
      (if tr_reset t then tp_currentInput plan else mergeWebSocketItems [cv_history c, tp_currentInput plan])"
    and "tp_reset plan = tr_reset t" by (auto elim!: plan_obtains)
  then show ?thesis by (simp add: replay_object_def)
qed

text \<open>C23.
  The replay body of a turn is the abstract conversation: as long as no id and no call occurs twice, its input is the
  input and output of every turn committed since the last one that started over, in order, followed by the new input.
  So a connection that lost the conversation is sent all of it.
\<close>

theorem replay_is_transcript:
  assumes "conversation_run limit c ts" "prepare tc c raw = Some (c', Inr plan)"
    and "unique_items (transcript (ts @ [(plan, [])]))"
  shows "map_of (tp_replay plan) ''input'' = Some (JArr (transcript (ts @ [(plan, [])])))"
proof -
  have t: "transcript (ts @ [(plan, [])]) = (if tp_reset plan then [] else transcript ts) @ tp_currentInput plan"
    by (simp add: transcript_def)
  show ?thesis
  proof (cases "tp_reset plan")
    case True
    with replay_input [OF assms(2)] t show ?thesis by simp
  next
    case False
    then have u: "unique_items (transcript ts @ tp_currentInput plan)" using assms(3) t by simp
    then have "cv_history c = transcript ts" using history_transcript [OF assms(1)] unique_append by blast
    with False u replay_input [OF assms(2)] t show ?thesis by (simp add: merge_unique_id)
  qed
qed

subsection \<open>Instances\<close>

lemma valid_ascii: "ascii s \<Longrightarrow> valid_utf8 s"
proof (induction s)
  case (Cons c s)
  then have "utf8_length (c # s) = 1" "ascii s" by (simp_all add: ascii_def utf8_length_def)
  with Cons show ?case by (subst valid_utf8.simps) simp
qed (simp add: valid_utf8.simps)

lemma clean_printable:
  assumes "s \<noteq> []" "list_all printable s" "length s \<le> 1024"
  shows "cleanIdentityValue s = s"
proof -
  have p: "c \<in> set s \<Longrightarrow> printable c" for c using assms(2) by (simp add: list_all_iff)
  then have t: "TrimSpace s = s" using assms(1) by (intro TrimSpace_printable) simp_all
  have "ascii s" using p by (auto simp: ascii_def list_all_iff within_bytes_def byte_def printable_def dest!: p)
  moreover have "\<not> list_ex control s" by (auto simp: list_ex_iff control_def byte_def printable_def dest!: p)
  ultimately show ?thesis
    using assms(1,3) by (simp add: cleanIdentityValue_def validIdentityValue_def t valid_ascii maxIdentityBytes_def Let_def)
qed

lemma jsonString_printable:
  "s \<noteq> [] \<Longrightarrow> list_all printable s \<Longrightarrow> length s \<le> 1024 \<Longrightarrow> jsonString (JStr s) = s"
  by (simp add: jsonString_def str_of_def clean_printable)

lemma jsonString_none [simp]: "jsonString JNull = []" "jsonString (JArr xs) = []"
  by (simp_all add: jsonString_def str_of_def cleanIdentityValue_def validIdentityValue_def Let_def)

lemma sample_words:
  "jsonString (JStr ''response.create'') = ''response.create''" "jsonString (JStr ''response.append'') = ''response.append''"
  "jsonString (JStr ''function_call'') = ''function_call''" "jsonString (JStr ''function_call_output'') = ''function_call_output''"
  "jsonString (JStr ''c1'') = ''c1''" "jsonString (JStr ''m'') = ''m''"
  by (rule jsonString_printable; simp add: printable_def)+

lemma sample_trimmed: "TrimSpace ''free'' = ''free''" "TrimSpace ''r1'' = ''r1''"
  by (rule TrimSpace_printable; simp add: printable_def)+

definition sample_context :: turn_context where
  "sample_context = \<lparr>tc_lib = \<lparr>cl_identity = sample_il, cl_sha256 = sample_sha, cl_lower = to_lower\<rparr>, tc_key = Some ''k'',
     tc_headers = [], tc_remap = False, tc_planType = ''free'', tc_json_size = (\<lambda>ob. int (length ob))\<rparr>"

definition sample_call :: gj where
  "sample_call = JObj [(''type'', JStr ''function_call''), (''call_id'', JStr ''c1'')]"

definition sample_answer :: gj where
  "sample_answer = JObj [(''type'', JStr ''function_call_output''), (''call_id'', JStr ''c1'')]"

definition sample_terminal :: terminal_event where
  "sample_terminal = \<lparr>te_ID = ''r1'', te_Output = [sample_call], te_Instructions = None\<rparr>"

lemma sample_items:
  "call_made sample_call = Some ''c1''" "call_answered sample_answer = Some ''c1''" "call_made sample_answer = None"
  "mid sample_call = []" "mid sample_answer = []"
  by (simp_all add: call_made_def call_answered_def meta_of_def mid_def sample_call_def sample_answer_def item_of_def obj_of_def
      index_nil_def sample_words is_tool_output_def isWebSocketToolCall_def Let_def)

definition first_request :: gobj where
  "first_request = [(''type'', JStr ''response.create''), (''model'', JStr ''m''), (''input'', JArr []),
     (''prompt_cache_key'', JStr ''chat'')]"

definition filled :: "gobj \<Rightarrow> gobj" where
  "filled ob = ob @ [(''instructions'', JStr []), (''stream'', JBool True), (''store'', JBool False),
     (''parallel_tool_calls'', JBool True), (''include'', JArr [JStr ''reasoning.encrypted_content''])]"

definition first_plan :: webSocketTurnPlan where
  "first_plan = \<lparr>tp_model = ''m'', tp_reasoning = [], tp_incremental = filled first_request, tp_replay = filled first_request,
     tp_currentInput = [], tp_reset = True, tp_continuation = False, tp_identity = sample_identity,
     tp_turnSettings = [(''parallel_tool_calls'', JBool True)], tp_instructionsSet = False\<rparr>"

definition answered_conversation :: webSocketConversation where
  "answered_conversation = (fresh_conversation 0)\<lparr>cv_identity := Some sample_identity, cv_model := ''m'',
     cv_history := [sample_call], cv_lastResponseID := ''r1'', cv_lastGeneration := 1, cv_pendingCallIDs := [''c1''],
     cv_hasCompleted := True, cv_turnSettings := [(''parallel_tool_calls'', JBool True)]\<rparr>"

definition second_request :: gobj where
  "second_request = [(''type'', JStr ''response.append''), (''input'', JArr [sample_answer])]"

definition second_object :: gobj where
  "second_object = [(''type'', JStr ''response.create''), (''input'', JArr [sample_answer]), (''model'', JStr ''m''),
     (''previous_response_id'', JStr ''r1''), (''parallel_tool_calls'', JBool True)]"

definition second_body :: gobj where
  "second_body = second_object @ [(''instructions'', JStr []), (''stream'', JBool True), (''store'', JBool False),
     (''include'', JArr [JStr ''reasoning.encrypted_content''])]"

definition second_ready :: gobj where
  "second_ready = second_body @ [(''prompt_cache_key'', JStr ''chat'')]"

lemmas sample_bodies = first_request_def filled_def second_request_def second_object_def second_body_def second_ready_def

text \<open>Both requests go through the stages of their preparation.\<close>

lemma sample_normalized:
  "normalizeResponsesRequest to_lower (Some (JObj first_request)) = Inr (filled first_request, False, ''m'')"
  "normalizeResponsesRequest to_lower (Some (JObj second_object)) = Inr (second_body, False, ''m'')"
proof -
  have "normalize_body to_lower first_request = filled first_request" "normalize_body to_lower second_object = second_body"
    by (simp_all add: normalize_body_def fill_defaults_def force_fields_def strip_fields_def strip_tier_def normalize_parts_def
        normalizeReasoningConfig_def sample_bodies index_nil_def obj_of_def str_of_def at_key_def wrap_input_def
        stripped_fields_def normalizeInput_def on_elements_def on_objects_def normalize_item_def sample_answer_def Let_def)
  then show "normalizeResponsesRequest to_lower (Some (JObj first_request)) = Inr (filled first_request, False, ''m'')"
    "normalizeResponsesRequest to_lower (Some (JObj second_object)) = Inr (second_body, False, ''m'')"
    by (simp_all add: accepted) (simp_all add: sample_bodies index_nil_def bool_of_def str_of_def)
qed

lemma sample_identified:
  "prepareRequestIdentity sample_il (Some ''k'') [] (JObj (filled first_request)) False = Inr (filled first_request, sample_identity)"
  "prepareBody sample_il True (JObj second_body) sample_identity = (sample_identity, Inr second_ready)"
proof -
  have "newCodexIdentity sample_il (Some ''k'') [] (JObj (filled first_request)) False = Inr sample_identity"
    by (simp add: newCodexIdentity_def obj_of_def identityStringField_def index_nil_def sample_clean client_session_def
        fresh_identity_def mapValue_def cleanIdentityValue_def sample_identity_def sample_bodies Let_def)
  then show "prepareRequestIdentity sample_il (Some ''k'') [] (JObj (filled first_request)) False = Inr (filled first_request, sample_identity)"
    by (simp add: prepareRequestIdentity_def prepareBody_def obj_of_def identityStringField_def index_nil_def
        sample_clean sample_identity_def mappingError_def sample_bodies Let_def)
  show "prepareBody sample_il True (JObj second_body) sample_identity = (sample_identity, Inr second_ready)"
    by (simp add: prepareBody_def obj_of_def identityStringField_def index_nil_def sample_identity_def sample_bodies
        mappingError_def Let_def)
qed

definition untouched_item :: "gj \<Rightarrow> bool" where
  "untouched_item v \<longleftrightarrow> item_id (item_of v) = [] \<and> str_of (index_nil (item_of v) ''type'') \<noteq> ''reasoning''"

lemma sample_item_untouched: "untouched_item sample_answer"
  by (simp add: untouched_item_def sample_answer_def item_of_def obj_of_def item_id_def index_nil_def str_of_def)

lemma untouched_values:
  "list_all untouched_item xs \<Longrightarrow> sanitize_values il sha256 store reserved xs z = Some (z\<lparr>sz_out := sz_out z @ xs\<rparr>)"
proof (induction xs arbitrary: z)
  case (Cons x xs)
  then have "sanitize_value il sha256 store reserved x z = Some (append_item x z)"
    by (cases x) (simp_all add: untouched_item_def sanitize_value_def sanitize_object_def obj_of_def item_of_def)
  with Cons show ?case by (simp add: append_item_def)
qed simp

lemma sample_websocket_body:
  assumes "map_of b ''input'' = Some (JArr xs)" "list_all untouched_item xs" "map_of b ''safety_identifier'' = None"
    "map_of b ''client_metadata'' = None"
  shows "prepareCodexWebSocketBody (tc_lib sample_context) (JObj b) model ''free'' [] sample_identity = Some (sample_identity, Inr b)"
proof -
  have lite: "\<not> isCodexResponsesLiteRequest sample_il b []"
    using assms(4) by (simp add: isCodexResponsesLiteRequest_def headerValueFold_def first_clean_def sample_il_def item_of_def
        index_nil_def obj_of_def)
  have "arr_of (index_nil b ''input'') = Some xs" using assms(1) by (simp add: index_nil_def arr_of_def)
  then have "sanitizeCodexInputItems sample_il sample_sha b sample_identity = Some (sample_identity, Inr b)"
    using assms put_same [OF assms(1)]
    by (simp add: sanitizeCodexInputItems_def untouched_values mappingError_def) (simp add: sample_identity_def)
  with lite show ?thesis
    by (simp add: prepareCodexWebSocketBody_def obj_of_def prepareCodexInferenceObject_def ensureCodexImageGenerationTool_def
        sample_context_def del_absent assms(3) sample_trimmed normalizeCodexParallelToolCalls_def and_then_def)
qed

lemma sample_context_fields:
  "cl_lower (tc_lib sample_context) = to_lower" "cl_identity (tc_lib sample_context) = sample_il" "tc_key sample_context = Some ''k''"
  "tc_headers sample_context = []" "\<not> tc_remap sample_context" "tc_planType sample_context = ''free''"
  "tc_json_size sample_context = (\<lambda>ob. int (length ob))"
  by (simp_all add: sample_context_def)

lemma first_prepared:
  "prepare sample_context (fresh_conversation 0) (Some (JObj first_request)) = Some (fresh_conversation 0, Inr first_plan)"
proof -
  let ?t = "\<lparr>tr_object = first_request, tr_previous = [], tr_continuation = False, tr_reset = True\<rparr>"
  have check: "check_turn (fresh_conversation 0) first_request = Inr ?t"
    by (simp add: check_turn_def first_request_def index_nil_def sample_words fresh_conversation_def
        webSocketInputLooksLikeTranscript_def arr_of_def Let_def)
  have object: "turn_object (fresh_conversation 0) ?t = Inr (first_request, ''m'')"
    by (simp add: turn_object_def first_request_def index_nil_def sample_words take_over_def Let_def)
  have body: "prepareCodexWebSocketBody (tc_lib sample_context) (JObj (filled first_request)) ''m'' ''free'' [] sample_identity =
      Some (sample_identity, Inr (filled first_request))"
    by (rule sample_websocket_body [where xs = "[]"]) (simp_all add: sample_bodies)
  have "put ''type'' (JStr ''response.create'') (filled first_request) = filled first_request"
    "index_nil (filled first_request) ''input'' = JArr []" "replay_object (filled first_request) [] = filled first_request"
    "effort_fields (filled first_request) = Some ([], [])"
    "webSocketTurnSettings (filled first_request) = [(''parallel_tool_calls'', JBool True)]"
    "length (filled first_request) = 9"
    by (simp_all add: replay_object_def sample_bodies index_nil_def effort_fields_def string_or_null_def
        webSocketTurnSettings_def webSocketContinuationFields_def)
  moreover have "replayLimit (fresh_conversation 0) = 33554432" by (simp add: replayLimit_def fresh_conversation_def)
  ultimately have "plan_turn sample_context (fresh_conversation 0) ?t ''m'' False (filled first_request) sample_identity =
      Some (sample_identity, Inr first_plan)"
    using body by (simp add: plan_turn_def sample_context_fields rawMessageArray_def first_plan_def reasoningEffortFromBody_def
        ascii.canonical_words Let_def)
  moreover have "cv_identity (fresh_conversation 0) = None" "map_of first_request ''instructions'' = None"
    by (simp_all add: fresh_conversation_def first_request_def)
  ultimately show ?thesis
    using check object sample_normalized(1) sample_identified(1) by (simp add: prepare_def sample_context_fields obj_of_def Let_def)
qed

lemma first_committed:
  "commit_turn (\<lambda>ob. int (length ob)) (fresh_conversation 0) first_plan (Some sample_terminal) (Suc 0) = Inr answered_conversation"
proof -
  have "committed_history (fresh_conversation 0) first_plan sample_terminal = [sample_call]"
    by (simp add: committed_history_def mergeWebSocketItems_def first_plan_def sample_terminal_def)
  moreover have "length (put ''input'' (JArr [sample_call]) (filled first_request)) = 9" by (simp add: sample_bodies)
  ultimately show ?thesis
    by (simp add: commit_turn_def sample_terminal_def sample_trimmed Let_def)
      (simp add: first_plan_def replayLimit_def fresh_conversation_def pendingWebSocketCallIDs_def sample_items
        committed_instructions_def answered_conversation_def)
qed

lemma second_prepared:
  "\<exists>plan. prepare sample_context answered_conversation (Some (JObj second_request)) = Some (answered_conversation, Inr plan)
     \<and> tp_continuation plan \<and> \<not> tp_reset plan \<and> tp_incremental plan = second_ready \<and> tp_currentInput plan = [sample_answer]"
proof -
  let ?t = "\<lparr>tr_object = second_request, tr_previous = [], tr_continuation = True, tr_reset = False\<rparr>"
  have cv: "cv_identity answered_conversation = Some sample_identity"
    "answered_conversation\<lparr>cv_identity := Some sample_identity\<rparr> = answered_conversation"
    "replayLimit answered_conversation = 33554432"
    by (simp_all add: answered_conversation_def fresh_conversation_def replayLimit_def)
  have check: "check_turn answered_conversation second_request = Inr ?t"
    by (simp add: check_turn_def second_request_def index_nil_def sample_words answered_conversation_def fresh_conversation_def
        webSocketInputSatisfiesCalls_def arr_of_def sample_items Let_def)
  have object: "turn_object answered_conversation ?t = Inr (second_object, ''m'')"
    by (simp add: turn_object_def second_request_def index_nil_def take_over_def answered_conversation_def
        fresh_conversation_def webSocketContinuationFields_def inherit_setting_def second_object_def Let_def)
  have body: "prepareCodexWebSocketBody (tc_lib sample_context) (JObj second_ready) ''m'' ''free'' [] sample_identity =
      Some (sample_identity, Inr second_ready)"
    by (rule sample_websocket_body [where xs = "[sample_answer]"]) (simp_all add: sample_bodies sample_item_untouched)
  have "put ''type'' (JStr ''response.create'') second_ready = second_ready" "index_nil second_ready ''input'' = JArr [sample_answer]"
    "length (replay_object second_ready xs) = 9" for xs
    by (simp_all add: replay_object_def sample_bodies index_nil_def)
  then have "\<exists>plan. plan_turn sample_context answered_conversation ?t ''m'' False second_ready sample_identity =
      Some (sample_identity, Inr plan) \<and> tp_continuation plan \<and> \<not> tp_reset plan \<and> tp_incremental plan = second_ready
      \<and> tp_currentInput plan = [sample_answer]"
    using body by (auto simp: plan_turn_def sample_context_fields cv rawMessageArray_def Let_def)
  moreover have "map_of second_request ''instructions'' = None" by (simp add: second_request_def)
  ultimately show ?thesis
    using check object sample_normalized(2) sample_identified(2) cv(1,2) by (auto simp: prepare_def sample_context_fields obj_of_def)
qed

lemma sample_run: "conversation_run 0 answered_conversation [(first_plan, [sample_call])]"
proof -
  have "cv_identity (fresh_conversation 0) = None" "first_plan\<lparr>tp_identity := sample_identity\<rparr> = first_plan"
    by (simp_all add: fresh_conversation_def first_plan_def)
  then have "commit_turn (\<lambda>ob. int (length ob)) (fresh_conversation 0) (first_plan\<lparr>tp_identity := sample_identity\<rparr>)
      (Some sample_terminal) (Suc 0) = Inr answered_conversation" using first_committed by simp
  from conversation_run.committed [OF conversation_run.start first_prepared _ this]
  show ?thesis by (simp add: sample_terminal_def)
qed

theorem planned_turn_witness:
  "\<exists>plan s. prepare sample_context answered_conversation (Some (JObj second_request)) = Some (answered_conversation, Inr plan)
     \<and> map_of (tp_incremental plan) ''previous_response_id'' = Some (JStr s) \<and> ''r1'' \<in> {s, TrimSpace s}
     \<and> ''c1'' \<in> set (List.map_filter call_answered (tp_currentInput plan))"
proof -
  obtain plan where p: "prepare sample_context answered_conversation (Some (JObj second_request)) = Some (answered_conversation, Inr plan)"
    "tp_continuation plan" using second_prepared by blast
  have "cv_lastResponseID answered_conversation = ''r1''" "cv_pendingCallIDs answered_conversation = [''c1'']"
    by (simp_all add: answered_conversation_def fresh_conversation_def)
  with planned_turn [OF p(1)] p show ?thesis by auto
qed

lemma conversation_invariant_witness:
  "cv_hasCompleted answered_conversation \<and> set (cv_pendingCallIDs answered_conversation) = {''c1''}"
  using conversation_invariant [OF sample_run] by (simp add: sample_items)

theorem replay_is_transcript_witness:
  "\<exists>plan. prepare sample_context answered_conversation (Some (JObj second_request)) = Some (answered_conversation, Inr plan)
     \<and> map_of (tp_replay plan) ''input'' = Some (JArr [sample_call, sample_answer])"
proof -
  obtain plan where p: "prepare sample_context answered_conversation (Some (JObj second_request)) = Some (answered_conversation, Inr plan)"
    "\<not> tp_reset plan" "tp_currentInput plan = [sample_answer]" using second_prepared by blast
  then have t: "transcript ([(first_plan, [sample_call])] @ [(plan, [])]) = [sample_call, sample_answer]"
    by (simp add: transcript_def first_plan_def)
  have "unique_items [sample_call, sample_answer]" by (simp add: unique_items_def sample_items)
  with replay_is_transcript [OF sample_run p(1)] t p(1) show ?thesis by auto
qed

end
