(* ===== verification/WebSocketSession.thy ===== *)
theory WebSocketSession
  imports Conversation Credentials
begin

text \<open>
  \<^verbatim>\<open>internal/proxy/websocket.go\<close>: the turns of one client WebSocket. The connection to the upstream, its
  handshake, the events it sends and the HTTP answer of the fallback are the inputs of a turn, together with
  the clock, the credential and the state of the database; what is sent and closed are its outputs.
  The conversation and the plan hold one identity object, which is why an identity that a step changes
  is stored in both.
\<close>

subsection \<open>Texts\<close>

definition trimText :: "gostring \<Rightarrow> nat \<Rightarrow> gostring" where
  "trimText val limit = (if length val \<le> limit then val else take limit val)"

definition compactError :: "gostring \<Rightarrow> gostring" where
  "compactError body = trimText (TrimSpace body) 500"

fun valid_cut :: "gostring \<Rightarrow> nat \<Rightarrow> gostring" where
  "valid_cut reason 0 = []"
| "valid_cut reason (Suc n) = (if valid_utf8 (take (Suc n) reason) then take (Suc n) reason else valid_cut reason n)"

definition truncateWebSocketCloseReason :: "gostring \<Rightarrow> nat \<Rightarrow> gostring" where
  "truncateWebSocketCloseReason reason0 maxBytes =
     (let reason = TrimSpace reason0 in if length reason \<le> maxBytes then reason else valid_cut reason maxBytes)"

lemma valid_cut_length: "length (valid_cut reason n) \<le> n"
  by (induction reason n rule: valid_cut.induct) auto

lemma close_reason_fits: "length (truncateWebSocketCloseReason reason n) \<le> n"
  by (simp add: truncateWebSocketCloseReason_def Let_def valid_cut_length)

definition codexResponsesWebSocketBeta :: gostring where
  "codexResponsesWebSocketBeta = ''responses_websockets=2026-02-06''"

fun beta_values :: "(gostring \<Rightarrow> gostring) \<Rightarrow> bool \<Rightarrow> gostring list \<Rightarrow> gostring list" where
  "beta_values lower found [] = (if found then [] else [codexResponsesWebSocketBeta])"
| "beta_values lower found (val0 # rest) =
     (let val = TrimSpace val0
      in if val = [] then beta_values lower found rest
         else if has_prefix (lower val) ''responses_websockets=''
         then (if found then beta_values lower True rest else codexResponsesWebSocketBeta # beta_values lower True rest)
         else val # beta_values lower found rest)"

fun join_comma :: "gostring list \<Rightarrow> gostring" where
  "join_comma [] = []"
| "join_comma [x] = x"
| "join_comma (x # y # xs) = x @ '','' @ join_comma (y # xs)"

definition mergeWebSocketBetaHeader :: "(gostring \<Rightarrow> gostring) \<Rightarrow> gostring \<Rightarrow> gostring" where
  "mergeWebSocketBetaHeader lower clientValue = join_comma (beta_values lower False (split_on (CHR '','') clientValue))"

text \<open>\<^verbatim>\<open>url.Parse\<close> and \<^verbatim>\<open>String\<close> are arguments.\<close>

record parsed_url =
  pu_Scheme :: gostring
  pu_Host :: gostring
  pu_rest :: gostring

definition codexWebSocketURL ::
  "(gostring \<Rightarrow> gostring + parsed_url) \<Rightarrow> (parsed_url \<Rightarrow> gostring) \<Rightarrow> (gostring \<Rightarrow> gostring) \<Rightarrow> gostring \<Rightarrow> gostring + gostring" where
  "codexWebSocketURL parse render lower raw =
     (case parse raw of
        Inl e \<Rightarrow> Inl (''parse Codex WebSocket URL: '' @ e)
      | Inr parsed \<Rightarrow>
          (let scheme = lower (pu_Scheme parsed)
           in if scheme \<noteq> ''http'' \<and> scheme \<noteq> ''https'' then Inl (''unsupported Codex WebSocket URL scheme \"'' @ pu_Scheme parsed @ ''\"'')
              else if pu_Host parsed = [] then Inl ''Codex WebSocket URL host is empty''
              else Inr (render (parsed\<lparr>pu_Scheme := (if scheme = ''http'' then ''ws'' else ''wss'')\<rparr>))))"

text \<open>
  \<^verbatim>\<open>readSSEData\<close>, called until it fails: the data of each event, an event that is too long, and the end
  of the stream. A line is what \<^verbatim>\<open>ReadBytes\<close> returns; the last one may lack its line break.
\<close>

datatype sse_end = SSEEof | SSEError gostring

definition trim_eol :: "gostring \<Rightarrow> gostring" where
  "trim_eol line = rev (dropWhile (\<lambda>c. byte c = 13 \<or> byte c = 10) (rev line))"

fun readSSEData :: "nat \<Rightarrow> stream_end \<Rightarrow> int \<Rightarrow> gostring \<Rightarrow> (int \<times> gostring) list \<Rightarrow> (int \<times> gostring) list \<times> sse_end" where
  "readSSEData maxBytes ending endms buf [] =
     (case ending of
        EOF \<Rightarrow> (if buf \<noteq> [] then ([(endms, buf)], SSEEof) else ([], SSEEof))
      | ReadError e \<Rightarrow> ([], SSEError e))"
| "readSSEData maxBytes ending endms buf ((ms, line0) # rest) =
     (let line = trim_eol line0
      in if line0 = [] then readSSEData maxBytes ending endms buf rest
         else if line = []
         then (if buf \<noteq> [] then (let (ps, e) = readSSEData maxBytes ending endms [] rest in ((ms, buf) # ps, e))
               else readSSEData maxBytes ending endms buf rest)
         else if has_prefix line ''data:''
         then (let part = TrimSpace (drop (length ''data:'') line);
                   buf' = (if buf \<noteq> [] then buf @ [CHR 0x0A] @ part else part)
               in if length buf' > maxBytes then ([], SSEError (''SSE event exceeds '' @ itoa maxBytes @ '' bytes''))
                  else readSSEData maxBytes ending endms buf' rest)
         else readSSEData maxBytes ending endms buf rest)"

subsection \<open>State\<close>

record upstreamWebSocket =
  uw_generation :: nat
  uw_accountID :: gostring

record responsesWebSocketSession =
  ws_conversation :: webSocketConversation
  ws_upstream :: "upstreamWebSocket option"
  ws_nextGeneration :: nat
  ws_webSocketRetryAt :: "int option"

text \<open>A message is a text of this file or the text of an error of the preparation.\<close>

datatype turn_message =
    Text gostring
  | Refused conversation_error
  | StorageFailed db_error
  | IdentityRefused identity_error
  | FallbackUnavailable turn_message gostring

record webSocketTurnResult =
  tn_model :: gostring
  tn_status :: int
  tn_usage :: tokenUsage
  tn_telemetry :: requestTelemetry
  tn_errText :: turn_message
  tn_fatal :: bool
  tn_closeCode :: int
  tn_closeReason :: gostring

definition new_result :: webSocketTurnResult where
  "new_result = \<lparr>tn_model = [], tn_status = 200, tn_usage = no_usage, tn_telemetry = no_telemetry, tn_errText = Text [],
     tn_fatal = False, tn_closeCode = 0, tn_closeReason = []\<rparr>"

datatype session_effect =
    ToClient gostring
  | ClientError gostring turn_message int
  | Submit nat gobj
  | PostHTTP headers gobj
  | Dial gostring headers
  | CloseUpstream nat
  | CloseClient int gostring

text \<open>\<^verbatim>\<open>json.Unmarshal\<close> and \<^verbatim>\<open>json.Marshal\<close> of event payloads.\<close>

record session_lib =
  sl_object :: "gostring \<Rightarrow> gobj option"
  sl_encode :: "gobj \<Rightarrow> gostring"
  sl_Type :: "gostring \<Rightarrow> gostring"
  sl_observed :: "gostring \<Rightarrow> observed_event option"
  sl_failure :: "gostring \<Rightarrow> failure_fields"
  sl_terminal :: "gostring \<Rightarrow> terminal_event option"
  sl_StatusText :: "int \<Rightarrow> gostring"

record session_config =
  sc_lib :: compat_lib
  sc_json :: session_lib
  sc_key :: "gostring option"
  sc_headers :: headers
  sc_remap :: bool
  sc_fallback :: bool
  sc_url :: "gostring + gostring"
  sc_http_error :: "gostring option"
  sc_UserAgent :: gostring
  sc_ClientVersion :: gostring
  sc_json_size :: "gobj \<Rightarrow> int"

text \<open>What the environment does in one turn. \<open>room\<close>: how many more writes the client takes.\<close>

datatype socket_error = CloseError int gostring gostring | OtherError gostring

datatype upstream_end = ClientDone | EventsClosed "socket_error option"

datatype http_outcome =
    HttpFailed gostring
  | HttpAnswer int gostring "(int \<times> gostring) list" stream_end int

record turn_world =
  tw_found :: bool
  tw_touched :: bool
  tw_now :: int
  tw_credential :: "gostring + Credential"
  tw_alive :: bool
  tw_dialed :: "(gostring \<times> (int \<times> gostring) option) option"
  tw_dial_time :: int
  tw_written :: bool
  tw_events :: "(int \<times> gostring) list"
  tw_end :: upstream_end
  tw_room :: "nat option"
  tw_http :: http_outcome

subsection \<open>Helpers of a turn\<close>

definition writeClientError :: "gostring \<Rightarrow> turn_message \<Rightarrow> int \<Rightarrow> session_effect" where
  "writeClientError code message status =
     ClientError code (case message of Text t \<Rightarrow> Text (trimText t 1000) | m \<Rightarrow> m) status"

definition first_text :: "turn_message \<Rightarrow> gostring \<Rightarrow> turn_message" where
  "first_text m other = (case m of Text t \<Rightarrow> Text (firstNonEmpty [t, other]) | _ \<Rightarrow> m)"

fun firstPositive :: "int list \<Rightarrow> int" where
  "firstPositive [] = 0"
| "firstPositive (val # rest) = (if val > 0 then val else firstPositive rest)"

definition errorText :: "socket_error option \<Rightarrow> gostring" where
  "errorText e = (case e of None \<Rightarrow> [] | Some (CloseError code txt message) \<Rightarrow> message | Some (OtherError message) \<Rightarrow> message)"

definition webSocketCloseForUpstreamError :: "socket_error option \<Rightarrow> int \<times> gostring" where
  "webSocketCloseForUpstreamError e =
     (case e of
        Some (CloseError code txt message) \<Rightarrow>
          if code = 1009 then (1009, firstNonEmpty [txt, ''upstream message too big''])
          else (1012, ''upstream disconnected; reconnect and replay the full turn'')
      | _ \<Rightarrow> (1012, ''upstream disconnected; reconnect and replay the full turn''))"

definition closeUpstream :: "responsesWebSocketSession \<Rightarrow> responsesWebSocketSession \<times> session_effect list" where
  "closeUpstream s =
     (case ws_upstream s of
        None \<Rightarrow> (s, [])
      | Some u \<Rightarrow> (s\<lparr>ws_upstream := None\<rparr>, [CloseUpstream (uw_generation u)]))"

definition invalidateUpstream :: "responsesWebSocketSession \<Rightarrow> responsesWebSocketSession \<times> session_effect list" where
  "invalidateUpstream s =
     (case ws_upstream s of
        None \<Rightarrow> (s, [])
      | Some u \<Rightarrow> (s\<lparr>ws_upstream := None\<rparr>, [CloseUpstream (uw_generation u)]))"

definition normalizeWebSocketTerminal :: "session_lib \<Rightarrow> gostring \<Rightarrow> gostring" where
  "normalizeWebSocketTerminal sl payload =
     (case sl_object sl payload of
        Some event \<Rightarrow>
          if jsonString (index_nil event ''type'') = ''response.done''
          then sl_encode sl (put ''type'' (JStr ''response.completed'') event) else payload
      | None \<Rightarrow> payload)"

definition webSocketEventType :: "session_lib \<Rightarrow> gostring \<Rightarrow> gostring" where
  "webSocketEventType sl payload = TrimSpace (sl_Type sl payload)"

definition ApplyCodexHeaders :: "gostring \<Rightarrow> gostring \<Rightarrow> Credential \<Rightarrow> gostring \<Rightarrow> headers \<Rightarrow> headers" where
  "ApplyCodexHeaders UserAgent ClientVersion credential accept h =
     header_set ''Accept'' accept
       (header_set ''Version'' ClientVersion
         (header_set ''Originator'' ''codex-tui''
           (header_set ''User-Agent'' UserAgent
             (header_set ''Chatgpt-Account-Id'' (cr_AccountID credential)
               (header_set ''Authorization'' (''Bearer '' @ cr_AccessToken credential) h)))))"

text \<open>The identity of the plan changed in place, which is also the conversation's when it has one.\<close>

definition share_identity ::
  "codexIdentity \<Rightarrow> responsesWebSocketSession \<times> webSocketTurnPlan \<Rightarrow> responsesWebSocketSession \<times> webSocketTurnPlan" where
  "share_identity i sp =
     (let (s, plan) = sp; c = ws_conversation s
      in (if cv_identity c = None then s else s\<lparr>ws_conversation := c\<lparr>cv_identity := Some i\<rparr>\<rparr>, plan\<lparr>tp_identity := i\<rparr>))"

definition observe :: "session_config \<Rightarrow> int \<Rightarrow> gostring \<Rightarrow> webSocketTurnResult \<Rightarrow> webSocketTurnResult" where
  "observe sc ms payload r =
     (let (u, t) = observeResponsePayload (cl_lower (sc_lib sc)) ms (sl_observed (sc_json sc) payload) (tn_usage r, tn_telemetry r)
      in r\<lparr>tn_usage := u, tn_telemetry := t\<rparr>)"

definition merge_usage :: "webSocketTurnResult \<Rightarrow> webSocketTurnResult" where
  "merge_usage r = r\<lparr>tn_telemetry := mergeResponse no_telemetry (tn_usage r) (tn_telemetry r)\<rparr>"

definition failure_result :: "session_config \<Rightarrow> gostring \<Rightarrow> webSocketTurnResult \<Rightarrow> webSocketTurnResult" where
  "failure_result sc payload r =
     (let failure = parseUpstreamResponseError (sl_failure (sc_json sc) payload)
      in merge_usage (r\<lparr>tn_status := HTTPStatus (cl_lower (sc_lib sc)) failure,
           tn_errText := Text (''upstream error: '' @ ue_Message failure)\<rparr>))"

subsection \<open>A turn\<close>

definition identityFor :: "webSocketConversation \<Rightarrow> webSocketTurnPlan \<Rightarrow> codexIdentity" where
  "identityFor c plan = (case cv_identity c of Some i \<Rightarrow> i | None \<Rightarrow> tp_identity plan)"

definition policy_violation :: "gostring \<Rightarrow> webSocketTurnResult \<Rightarrow> webSocketTurnResult" where
  "policy_violation err r = r\<lparr>tn_status := 401, tn_errText := Text err, tn_fatal := True, tn_closeCode := 1008,
     tn_closeReason := ''API key is invalid or revoked''\<rparr>"

definition authorizeTurn ::
  "session_config \<Rightarrow> turn_world \<Rightarrow> database \<Rightarrow> webSocketTurnResult \<Rightarrow>
     database \<times> webSocketTurnResult \<times> session_effect list \<times> bool" where
  "authorizeTurn sc w db r =
     (let revoked = writeClientError ''invalid_api_key'' (Text ''API key is invalid or revoked'') 401
      in case sc_key sc of
           None \<Rightarrow> (db, policy_violation ''API key is missing from the WebSocket session'' r, [revoked], False)
         | Some key \<Rightarrow>
             if TrimSpace key = []
             then (db, policy_violation ''API key is missing from the WebSocket session'' r, [revoked], False)
             else (case FindActiveAPIKeyByID (tw_found w) key db of
                     Inl e \<Rightarrow>
                       if IsNotFound e then (db, policy_violation ''API key is invalid or revoked'' r, [revoked], False)
                       else (db, r\<lparr>tn_status := 503, tn_errText := StorageFailed e\<rparr>,
                             [writeClientError ''database_unavailable'' (Text ''API key storage is unavailable'') 503], False)
                   | Inr active \<Rightarrow> (snd (TouchAPIKey (tw_touched w) (dk_id active) (tw_now w) db), r, [], True)))"

text \<open>A failed dial: the status, and the message of the last failure.\<close>

type_synonym dial_failure = "int \<times> turn_message"

definition ensureUpstream ::
  "session_config \<Rightarrow> turn_world \<Rightarrow> Credential \<Rightarrow> responsesWebSocketSession \<times> webSocketTurnPlan \<Rightarrow>
     (responsesWebSocketSession \<times> webSocketTurnPlan) \<times> (dial_failure + nat) \<times> session_effect list" where
  "ensureUpstream sc w credential sp0 =
     (let (s0, plan) = sp0;
          fresh = (let (s, closed) = closeUpstream s0
             in if sc_fallback sc \<and> (case ws_webSocketRetryAt s of Some t \<Rightarrow> tw_now w < t | None \<Rightarrow> False)
                then ((s, plan), Inl (0, Text ''WebSocket retry cooldown is active''), closed)
                else (case sc_url sc of
                        Inl e \<Rightarrow> ((s, plan), Inl (500, Text e), closed)
                      | Inr url \<Rightarrow>
                          (case applyHeaders (cl_identity (sc_lib sc)) (copyCodexContextHeaders [] (sc_headers sc)) (sc_headers sc) True
                                  (tp_identity plan) of
                             (i, Inl e) \<Rightarrow> (share_identity i (s, plan), Inl (400, IdentityRefused e), closed)
                           | (i, Inr h) \<Rightarrow>
                               (let (s1, plan1) = share_identity i (s, plan);
                                    h' = header_set ''OpenAI-Beta''
                                      (mergeWebSocketBetaHeader (cl_lower (sc_lib sc)) (header_get (sc_headers sc) ''OpenAI-Beta''))
                                      (ApplyCodexHeaders (sc_UserAgent sc) (sc_ClientVersion sc) credential ''application/json'' h)
                                in case tw_dialed w of
                                     Some (message, handshake) \<Rightarrow>
                                       ((s1\<lparr>ws_webSocketRetryAt := Some (tw_dial_time w + 20000)\<rparr>, plan1),
                                        Inl (case handshake of
                                               None \<Rightarrow> (502, Text message)
                                             | Some (status, raw) \<Rightarrow>
                                                 (status, Text (if compactError raw \<noteq> [] then compactError raw else message))),
                                        closed @ [Dial url h'])
                                   | None \<Rightarrow>
                                       (let g = Suc (ws_nextGeneration s1)
                                        in ((s1\<lparr>ws_nextGeneration := g,
                                               ws_upstream := Some \<lparr>uw_generation = g, uw_accountID = cr_AccountID credential\<rparr>,
                                               ws_webSocketRetryAt := None\<rparr>, plan1),
                                            Inr g, closed @ [Dial url h']))))))
      in case ws_upstream s0 of
           Some u \<Rightarrow> if uw_accountID u = cr_AccountID credential \<and> tw_alive w then (sp0, Inr (uw_generation u), []) else fresh
         | None \<Rightarrow> fresh)"

definition client_left :: "webSocketTurnResult \<Rightarrow> webSocketTurnResult" where
  "client_left r = r\<lparr>tn_status := 499, tn_errText := Text ''client disconnected''\<rparr>"

definition forward_ended ::
  "upstream_end \<Rightarrow> responsesWebSocketSession \<Rightarrow> webSocketTurnResult \<Rightarrow>
     responsesWebSocketSession \<times> webSocketTurnResult \<times> session_effect list" where
  "forward_ended ending s r =
     (case ending of
        ClientDone \<Rightarrow> (s, client_left r, [])
      | EventsClosed err \<Rightarrow>
          (let (code, reason) = webSocketCloseForUpstreamError err;
               message = Text (firstNonEmpty [errorText err, ''upstream WebSocket closed before a terminal response'']);
               r' = r\<lparr>tn_errText := message, tn_fatal := True, tn_closeCode := code, tn_closeReason := reason,
                       tn_status := if code = 1009 then 413 else 502\<rparr>;
               told = (if code = 1009 then writeClientError ''message_too_big'' (Text ''upstream WebSocket message is too large'') 413
                       else writeClientError ''upstream_disconnected'' message 502);
               (s', closed) = invalidateUpstream s
           in (s', r', told # closed)))"

fun forwardWebSocketTurn ::
  "session_config \<Rightarrow> webSocketTurnPlan \<Rightarrow> nat \<Rightarrow> upstream_end \<Rightarrow> nat option \<Rightarrow> (int \<times> gostring) list \<Rightarrow>
     responsesWebSocketSession \<Rightarrow> webSocketTurnResult \<Rightarrow>
     responsesWebSocketSession \<times> webSocketTurnResult \<times> session_effect list" where
  "forwardWebSocketTurn sc plan generation ending room [] s r = forward_ended ending s r"
| "forwardWebSocketTurn sc plan generation ending room ((ms, raw) # rest) s r0 =
     (let sl = sc_json sc;
          payload = normalizeWebSocketTerminal sl raw;
          r = observe sc ms payload r0;
          out = ToClient (exposePayload (cl_identity (sc_lib sc)) (identityFor (ws_conversation s) plan) payload);
          kind = webSocketEventType sl payload
      in if \<not> takes room then (s, (client_left r)\<lparr>tn_fatal := True, tn_closeCode := 1001\<rparr>, [])
         else if is_completed kind
         then (case commit_turn (sc_json_size sc) (ws_conversation s) plan (sl_terminal sl payload) generation of
                 Inl e \<Rightarrow> (s, merge_usage (r\<lparr>tn_status := 502, tn_errText := Refused e, tn_fatal := True\<rparr>),
                           [out, writeClientError ''invalid_upstream_response'' (Refused e) 502])
               | Inr c \<Rightarrow> (s\<lparr>ws_conversation := c\<rparr>, merge_usage r, [out]))
         else if is_failed kind
         then (let (s', closed) = invalidateUpstream s in (s', failure_result sc payload r, out # closed))
         else (let (s', r', es) = forwardWebSocketTurn sc plan generation ending (used_up room) rest s r in (s', r', out # es)))"

definition fallback_ended ::
  "sse_end \<Rightarrow> responsesWebSocketSession \<Rightarrow> webSocketTurnResult \<Rightarrow>
     responsesWebSocketSession \<times> webSocketTurnResult \<times> session_effect list" where
  "fallback_ended ending s r =
     (let message = Text (case ending of SSEEof \<Rightarrow> ''HTTP fallback stream ended before a terminal response'' | SSEError e \<Rightarrow> e)
      in (s, r\<lparr>tn_status := 502, tn_errText := message\<rparr>, [writeClientError ''upstream_stream_failed'' message 502]))"

text \<open>The events of the HTTP answer; a commit has the generation 0, which no connection has.\<close>

fun fallback_events ::
  "session_config \<Rightarrow> webSocketTurnPlan \<Rightarrow> sse_end \<Rightarrow> nat option \<Rightarrow> (int \<times> gostring) list \<Rightarrow>
     responsesWebSocketSession \<Rightarrow> webSocketTurnResult \<Rightarrow>
     responsesWebSocketSession \<times> webSocketTurnResult \<times> session_effect list" where
  "fallback_events sc plan ending room [] s r = fallback_ended ending s r"
| "fallback_events sc plan ending room ((ms, raw) # rest) s r0 =
     (if \<not> is_data raw then fallback_events sc plan ending room rest s r0
      else
        (let sl = sc_json sc;
             payload = normalizeWebSocketTerminal sl raw;
             r = observe sc ms payload r0;
             out = ToClient (exposePayload (cl_identity (sc_lib sc)) (tp_identity plan) payload);
             kind = webSocketEventType sl payload
         in if \<not> takes room then (s, client_left r, [])
            else if is_completed kind
            then (case commit_turn (sc_json_size sc) (ws_conversation s) plan (sl_terminal sl payload) 0 of
                    Inl e \<Rightarrow> (s, merge_usage (r\<lparr>tn_status := 502, tn_errText := Refused e\<rparr>),
                              [out, writeClientError ''invalid_upstream_response'' (Refused e) 502])
                  | Inr c \<Rightarrow> (s\<lparr>ws_conversation := c\<rparr>, merge_usage r, [out]))
            else if is_failed kind then (s, failure_result sc payload r, [out])
            else (let (s', r', es) = fallback_events sc plan ending (used_up room) rest s r in (s', r', out # es))))"

text \<open>The request of the fallback, or the status, code and message with which it is refused.\<close>

definition fallback_request ::
  "session_config \<Rightarrow> Credential \<Rightarrow> responsesWebSocketSession \<times> webSocketTurnPlan \<Rightarrow>
     ((responsesWebSocketSession \<times> webSocketTurnPlan) \<times> ((int \<times> gostring \<times> turn_message) + headers \<times> gobj)) option" where
  "fallback_request sc credential sp0 =
     (case prepareCodexHTTPBody (sc_lib sc) (JObj (del ''type'' (bodyFor (ws_conversation (fst sp0)) (snd sp0) 0 True)))
             (tp_model (snd sp0)) (cr_PlanType credential) (sc_headers sc) (tp_identity (snd sp0)) of
        None \<Rightarrow> None
      | Some (i1, Inl e) \<Rightarrow> Some (share_identity i1 sp0, Inl (500, ''request_failed'', IdentityRefused e))
      | Some (i1, Inr body) \<Rightarrow>
          (let sp1 = share_identity i1 sp0
           in case sc_http_error sc of
                Some e \<Rightarrow> Some (sp1, Inl (500, ''request_failed'', Text e))
              | None \<Rightarrow>
                  (case applyHeaders (cl_identity (sc_lib sc))
                          (copyCodexContextHeaders (header_set ''Content-Type'' ''application/json'' []) (sc_headers sc))
                          (sc_headers sc) False (tp_identity (snd sp1)) of
                     (i2, Inl e) \<Rightarrow> Some (share_identity i2 sp1, Inl (400, ''invalid_request'', IdentityRefused e))
                   | (i2, Inr h) \<Rightarrow>
                       Some (share_identity i2 sp1, Inr (ApplyCodexHeaders (sc_UserAgent sc) (sc_ClientVersion sc) credential ''text/event-stream'' h, body)))))"

definition both_failed :: "turn_message \<Rightarrow> gostring \<Rightarrow> turn_message" where
  "both_failed dialed e =
     (case dialed of
        Text t \<Rightarrow> Text (if t \<noteq> [] then ''WebSocket unavailable ('' @ t @ ''); HTTP fallback failed: '' @ e else e)
      | m \<Rightarrow> FallbackUnavailable m e)"

definition fallback_answer ::
  "session_config \<Rightarrow> turn_world \<Rightarrow> dial_failure \<Rightarrow> responsesWebSocketSession \<times> webSocketTurnPlan \<Rightarrow> webSocketTurnResult \<Rightarrow>
     responsesWebSocketSession \<times> webSocketTurnResult \<times> session_effect list" where
  "fallback_answer sc w failure sp r =
     (case tw_http w of
        HttpFailed e \<Rightarrow>
          (let m = both_failed (snd failure) e
           in (fst sp, r\<lparr>tn_status := 502, tn_errText := m\<rparr>, [writeClientError ''upstream_unavailable'' m 502]))
      | HttpAnswer status raw lines ending endms \<Rightarrow>
          if status < 200 \<or> status \<ge> 300
          then (let e = compactError (exposePayload (cl_identity (sc_lib sc)) (tp_identity (snd sp)) raw)
                in (fst sp, r\<lparr>tn_status := status, tn_errText := Text e\<rparr>,
                    [writeClientError ''upstream_rejected'' (Text (firstNonEmpty [e, sl_StatusText (sc_json sc) status])) status]))
          else (let (payloads, stop_reason) = readSSEData (64 * 1024 * 1024) ending endms [] lines
                in fallback_events sc (snd sp) stop_reason (tw_room w) payloads (fst sp) r))"

definition executeHTTPFallback ::
  "session_config \<Rightarrow> turn_world \<Rightarrow> Credential \<Rightarrow> dial_failure \<Rightarrow> responsesWebSocketSession \<times> webSocketTurnPlan \<Rightarrow>
     webSocketTurnResult \<Rightarrow> (responsesWebSocketSession \<times> webSocketTurnResult \<times> session_effect list) option" where
  "executeHTTPFallback sc w credential failure sp0 r =
     map_option (\<lambda>(sp, request).
         case request of
           Inl (status, code, m) \<Rightarrow> (fst sp, r\<lparr>tn_status := status, tn_errText := m\<rparr>, [writeClientError code m status])
         | Inr (h, body) \<Rightarrow> (let (s', r', es) = fallback_answer sc w failure sp r in (s', r', PostHTTP h body # es)))
       (fallback_request sc credential sp0)"

text \<open>The whole turn; \<open>db\<close> is the database of the service.\<close>

definition turn_context_of :: "session_config \<Rightarrow> Credential \<Rightarrow> turn_context" where
  "turn_context_of sc credential =
     \<lparr>tc_lib = sc_lib sc, tc_key = sc_key sc, tc_headers = sc_headers sc, tc_remap = sc_remap sc,
      tc_planType = cr_PlanType credential, tc_json_size = sc_json_size sc\<rparr>"

text \<open>What follows the preparation: the connection, and the turn over it or over HTTP.\<close>

definition run_plan ::
  "session_config \<Rightarrow> turn_world \<Rightarrow> Credential \<Rightarrow> responsesWebSocketSession \<times> webSocketTurnPlan \<Rightarrow> webSocketTurnResult \<Rightarrow>
     (responsesWebSocketSession \<times> webSocketTurnResult \<times> session_effect list) option" where
  "run_plan sc w credential sp0 r =
     (case ensureUpstream sc w credential sp0 of
        (sp, Inl failure, es) \<Rightarrow>
          if sc_fallback sc
          then map_option (\<lambda>(s', r', es'). (s', r', es @ es')) (executeHTTPFallback sc w credential failure sp r)
          else (let message = first_text (snd failure) ''upstream WebSocket is unavailable''; status = firstPositive [fst failure, 502]
                in Some (fst sp, r\<lparr>tn_status := status, tn_errText := message\<rparr>,
                         es @ [writeClientError ''upstream_unavailable'' message status]))
      | ((s, plan), Inr generation, es) \<Rightarrow>
          (let body = bodyFor (ws_conversation s) plan generation False; sent = Submit generation body
           in if \<not> tw_written w
              then (let message = Text ''upstream WebSocket disconnected while submitting the request; delivery outcome is unknown'';
                        (s', closed) = invalidateUpstream s
                    in Some (s', r\<lparr>tn_status := 502, tn_errText := message, tn_fatal := True, tn_closeCode := 1012,
                               tn_closeReason := ''upstream outcome unknown; reconnect and replay the full turn''\<rparr>,
                             es @ sent # closed @ [writeClientError ''upstream_outcome_unknown'' message 502]))
              else (let (s', r', es') = forwardWebSocketTurn sc plan generation (tw_end w) (tw_room w) (tw_events w) s r
                    in Some (s', r', es @ sent # es'))))"

definition handleTurn ::
  "session_config \<Rightarrow> turn_world \<Rightarrow> gj option \<Rightarrow> database \<times> responsesWebSocketSession \<Rightarrow>
     ((database \<times> responsesWebSocketSession) \<times> webSocketTurnResult \<times> session_effect list) option" where
  "handleTurn sc w raw dbs =
     (let (db, s) = dbs
      in case authorizeTurn sc w db new_result of
           (db', r, es, False) \<Rightarrow> Some ((db', s), r, es)
         | (db', r, es, True) \<Rightarrow>
             (case tw_credential w of
                Inl e \<Rightarrow>
                  (let (s', closed) = closeUpstream s
                   in Some ((db', s'), r\<lparr>tn_status := 503, tn_errText := Text e\<rparr>,
                        closed @ [writeClientError ''account_unavailable''
                          (Text ''Codex account is unavailable; reconnect it in the admin dashboard'') 503]))
              | Inr credential \<Rightarrow>
                  (case prepare (turn_context_of sc credential) (ws_conversation s) raw of
                     None \<Rightarrow> None
                   | Some (c, Inl e) \<Rightarrow>
                       Some ((db', s\<lparr>ws_conversation := c\<rparr>), r\<lparr>tn_status := 400, tn_errText := Refused e\<rparr>,
                         [writeClientError ''invalid_request'' (Refused e) 400])
                   | Some (c, Inr plan) \<Rightarrow>
                       map_option (\<lambda>(s', r', es'). ((db', s'), r', es'))
                         (run_plan sc w credential (s\<lparr>ws_conversation := c\<rparr>, plan)
                            (r\<lparr>tn_model := tp_model plan, tn_telemetry := (tn_telemetry r)\<lparr>ReasoningEffort := tp_reasoning plan\<rparr>\<rparr>)))))"

text \<open>
  The loop of \<^verbatim>\<open>ResponsesWebSocket\<close>: the messages of the client one after the other, until a turn is fatal.
  Before each turn others may have changed the database.
\<close>

record turn_input =
  ti_statements :: "(bool \<times> db_op) list"
  ti_world :: turn_world
  ti_message :: "gj option"

definition new_session :: "int \<Rightarrow> responsesWebSocketSession" where
  "new_session readLimit =
     \<lparr>ws_conversation = fresh_conversation readLimit,
      ws_upstream = None, ws_nextGeneration = 0, ws_webSocketRetryAt = None\<rparr>"

definition close_client :: "webSocketTurnResult \<Rightarrow> session_effect" where
  "close_client r = CloseClient (if tn_closeCode r = 0 then 1012 else tn_closeCode r)
     (truncateWebSocketCloseReason (tn_closeReason r) 123)"

fun session_loop ::
  "session_config \<Rightarrow> turn_input list \<Rightarrow> database \<times> responsesWebSocketSession \<Rightarrow>
     ((database \<times> responsesWebSocketSession) \<times> (webSocketTurnResult \<times> session_effect list) list) option" where
  "session_loop sc [] dbs = Some (dbs, [])"
| "session_loop sc (t # ts) dbs =
     (case handleTurn sc (ti_world t) (ti_message t) (final db_step (fst dbs) (ti_statements t), snd dbs) of
        None \<Rightarrow> None
      | Some (dbs', r, es) \<Rightarrow>
          if tn_fatal r then Some (dbs', [(r, es @ [close_client r])])
          else map_option (\<lambda>(dbs2, rest). (dbs2, (r, es) # rest)) (session_loop sc ts dbs'))"

text \<open>The session of one client; the connection to the upstream is closed when it ends.\<close>

definition ResponsesWebSocket ::
  "session_config \<Rightarrow> int \<Rightarrow> turn_input list \<Rightarrow> database \<Rightarrow>
     (database \<times> (webSocketTurnResult \<times> session_effect list) list \<times> session_effect list) option" where
  "ResponsesWebSocket sc MaxRequestBytes ts db =
     map_option (\<lambda>((db', s), trace). (db', trace, snd (closeUpstream s)))
       (session_loop sc ts (db, new_session (if MaxRequestBytes \<le> 0 then 32 * 1024 * 1024 else MaxRequestBytes)))"

subsection \<open>One submission per turn\<close>

definition is_submission :: "session_effect \<Rightarrow> bool" where
  "is_submission e = (case e of Submit g b \<Rightarrow> True | PostHTTP h b \<Rightarrow> True | _ \<Rightarrow> False)"

lemma submission_simps [simp]:
  "\<not> is_submission (ToClient t)" "\<not> is_submission (writeClientError code m status)" "\<not> is_submission (CloseUpstream g)"
  "\<not> is_submission (Dial url h)" "\<not> is_submission (close_client r)" "is_submission (Submit g b)" "is_submission (PostHTTP h b)"
  by (simp_all add: is_submission_def writeClientError_def close_client_def)

lemma submit_not_close [simp]: "Submit g b \<noteq> close_client r"
  by (simp add: close_client_def)

definition silent :: "session_effect list \<Rightarrow> bool" where
  "silent es \<longleftrightarrow> list_all (\<lambda>e. \<not> is_submission e) es"

lemma silent_simps [simp]:
  "silent []" "silent (e # es) \<longleftrightarrow> \<not> is_submission e \<and> silent es" "silent (xs @ ys) \<longleftrightarrow> silent xs \<and> silent ys"
  by (simp_all add: silent_def)

lemma silent_filter: "silent es \<Longrightarrow> filter is_submission es = []"
  by (induction es) auto

lemma silent_not_in: "silent es \<Longrightarrow> is_submission e \<Longrightarrow> e \<notin> set es"
  by (auto simp: silent_def list_all_iff)

lemma close_silent: "closeUpstream s = (s', es) \<Longrightarrow> silent es" "invalidateUpstream s = (s', es) \<Longrightarrow> silent es"
  by (auto simp: closeUpstream_def invalidateUpstream_def split: option.splits)

lemma forward_silent:
  "forwardWebSocketTurn sc plan g ending room events s r = (s', r', es) \<Longrightarrow> silent es"
proof (induction sc plan g ending room events s r arbitrary: s' r' es rule: forwardWebSocketTurn.induct)
  case 1
  then show ?case
    by (auto simp: forward_ended_def Let_def dest: close_silent split: upstream_end.splits prod.splits if_splits)
next
  case (2 sc plan generation ending room ms raw rest s r0)
  then show ?case
    by (auto simp: Let_def dest: close_silent split: if_splits sum.splits prod.splits)
qed

lemma fallback_silent: "fallback_events sc plan ending room events s r = (s', r', es) \<Longrightarrow> silent es"
proof (induction sc plan ending room events s r arbitrary: s' r' es rule: fallback_events.induct)
  case 1
  then show ?case by (auto simp: fallback_ended_def Let_def)
next
  case (2 sc plan ending room ms raw rest s r0)
  then show ?case by (auto simp: Let_def split: if_splits sum.splits prod.splits)
qed

lemma ensure_silent: "ensureUpstream sc w credential sp = (sp', r, es) \<Longrightarrow> silent es"
  by (auto simp: ensureUpstream_def Let_def split: prod.splits option.splits sum.splits if_splits dest!: close_silent(1))

lemma answer_silent: "fallback_answer sc w failure sp r = (s', r', es) \<Longrightarrow> silent es"
  by (auto simp: fallback_answer_def Let_def dest: fallback_silent split: http_outcome.splits if_splits prod.splits)

lemma fallback_one:
  assumes "executeHTTPFallback sc w credential failure sp r = Some (s', r', es)"
  shows "length (filter is_submission es) \<le> 1" "Submit g b \<notin> set es"
proof -
  from assms obtain sp1 request where q: "fallback_request sc credential sp = Some (sp1, request)"
    by (auto simp: executeHTTPFallback_def)
  have "length (filter is_submission es) \<le> 1 \<and> Submit g b \<notin> set es"
  proof (cases request)
    case (Inl f)
    with assms q show ?thesis by (cases f) (auto simp: executeHTTPFallback_def writeClientError_def is_submission_def)
  next
    case (Inr f)
    with assms q obtain h body es' where "es = PostHTTP h body # es'" "fallback_answer sc w failure sp1 r = (s', r', es')"
      by (cases f) (auto simp: executeHTTPFallback_def split: prod.splits)
    with answer_silent silent_filter [of es'] silent_not_in [of es' "Submit g b"] show ?thesis by auto
  qed
  then show "length (filter is_submission es) \<le> 1" "Submit g b \<notin> set es" by simp_all
qed

lemma run_plan_one:
  assumes "run_plan sc w credential sp r = Some (s', r', es)"
  shows "length (filter is_submission es) \<le> 1"
proof -
  obtain sp1 out es1 where e: "ensureUpstream sc w credential sp = (sp1, out, es1)" by (cases "ensureUpstream sc w credential sp")
  note quiet = silent_filter [OF ensure_silent [OF e]]
  show ?thesis
  proof (cases out)
    case (Inl failure)
    show ?thesis
    proof (cases "sc_fallback sc")
      case True
      with assms e Inl obtain es2 where "executeHTTPFallback sc w credential failure sp1 r = Some (s', r', es2)" "es = es1 @ es2"
        by (auto simp: run_plan_def)
      with fallback_one(1) quiet show ?thesis by simp
    next
      case False
      with assms e Inl quiet show ?thesis by (cases sp1) (auto simp: run_plan_def Let_def)
    qed
  next
    case (Inr g)
    obtain s plan where sp1: "sp1 = (s, plan)" by (cases sp1)
    show ?thesis
    proof (cases "tw_written w")
      case True
      with assms e Inr sp1 obtain b es2 where "forwardWebSocketTurn sc plan g (tw_end w) (tw_room w) (tw_events w) s r = (s', r', es2)"
        "es = es1 @ Submit g b # es2" by (auto simp: run_plan_def Let_def split: prod.splits)
      with forward_silent silent_filter [of es2] quiet show ?thesis by simp
    next
      case False
      with assms e Inr sp1 obtain b closed s2 where "invalidateUpstream s = (s2, closed)"
        "es = es1 @ Submit g b # closed @ [writeClientError ''upstream_outcome_unknown'' (Text ''upstream WebSocket disconnected while submitting the request; delivery outcome is unknown'') 502]"
        by (auto simp: run_plan_def Let_def split: prod.splits)
      with close_silent(2) silent_filter [of closed] quiet show ?thesis by simp
    qed
  qed
qed

text \<open>C24.
  A turn submits its request to the upstream at most once, over the WebSocket or over HTTP: in particular
  the HTTP fallback is not used once the request was written to a connection.
\<close>

theorem submitted_once:
  assumes "handleTurn sc w raw dbs = Some (dbs', r, es)"
  shows "length (filter is_submission es) \<le> 1"
proof -
  obtain db s where dbs: "dbs = (db, s)" by (cases dbs)
  obtain db1 r1 es1 ok where auth: "authorizeTurn sc w db new_result = (db1, r1, es1, ok)"
    by (cases "authorizeTurn sc w db new_result")
  have "silent es1"
    using auth by (auto simp: authorizeTurn_def Let_def split: option.splits sum.splits if_splits)
  then show ?thesis
    using assms dbs auth
    by (cases ok) (auto simp: handleTurn_def Let_def silent_filter dest!: close_silent(1) run_plan_one
        split: sum.splits option.splits prod.splits)
qed

subsection \<open>Where a continuation goes\<close>

definition last_of :: "responsesWebSocketSession \<Rightarrow> nat \<times> gostring" where
  "last_of s = (cv_lastGeneration (ws_conversation s), cv_lastResponseID (ws_conversation s))"

text \<open>The completed response an upstream event carries.\<close>

definition completes :: "session_config \<Rightarrow> gostring \<Rightarrow> gostring \<Rightarrow> bool" where
  "completes sc raw p \<longleftrightarrow>
     (let payload = normalizeWebSocketTerminal (sc_json sc) raw
      in is_completed (webSocketEventType (sc_json sc) payload)
        \<and> (\<exists>e. sl_terminal (sc_json sc) payload = Some e \<and> TrimSpace (te_ID e) = p))"

lemma commit_last:
  assumes "commit_turn sz c plan e g = Inr c'"
  shows "\<exists>ev. e = Some ev \<and> cv_lastResponseID c' = TrimSpace (te_ID ev)" "cv_lastGeneration c' = g"
  using assms by (auto simp: commit_turn_def Let_def split: option.splits if_splits)

lemma close_last: "closeUpstream s = (s', es) \<Longrightarrow> last_of s' = last_of s" "invalidateUpstream s = (s', es) \<Longrightarrow> last_of s' = last_of s"
  by (auto simp: closeUpstream_def invalidateUpstream_def last_of_def split: option.splits)

lemma forward_last:
  "forwardWebSocketTurn sc plan g ending room events s r = (s', r', es) \<Longrightarrow>
     last_of s' = last_of s \<or> (\<exists>(ms, raw) \<in> set events. \<exists>p. completes sc raw p \<and> last_of s' = (g, p))"
proof (induction sc plan g ending room events s r arbitrary: s' r' es rule: forwardWebSocketTurn.induct)
  case 1
  then show ?case
    by (auto simp: forward_ended_def Let_def dest: close_last split: upstream_end.splits prod.splits if_splits)
next
  case (2 sc plan g ending room ms raw rest s r0)
  let ?p = "normalizeWebSocketTerminal (sc_json sc) raw"
  let ?kind = "webSocketEventType (sc_json sc) ?p"
  let ?commit = "commit_turn (sc_json_size sc) (ws_conversation s) plan (sl_terminal (sc_json sc) ?p) g"
  consider "\<not> takes room" | "takes room" "is_completed ?kind" | "takes room" "\<not> is_completed ?kind" "is_failed ?kind"
    | "takes room" "\<not> is_completed ?kind" "\<not> is_failed ?kind" by blast
  then show ?case
  proof cases
    case 2
    show ?thesis
    proof (cases ?commit)
      case (Inl e)
      with 2 "2.prems" show ?thesis by (auto simp: Let_def)
    next
      case (Inr c)
      with 2 "2.prems" have "s' = s\<lparr>ws_conversation := c\<rparr>" by (auto simp: Let_def)
      with commit_last [OF Inr] 2 show ?thesis by (auto simp: last_of_def completes_def Let_def)
    qed
  next
    case 4
    with "2.prems" obtain r2 es2 where "forwardWebSocketTurn sc plan g ending (used_up room) rest s (observe sc ms ?p r0) = (s', r2, es2)"
      by (auto simp: Let_def split: prod.splits)
    moreover have "\<not> \<not> takes room" using 4(1) by simp
    ultimately show ?thesis using "2.IH" [OF refl refl refl refl refl _ 4(2,3)] by auto
  qed (use "2.prems" in \<open>auto simp: Let_def dest: close_last split: prod.splits\<close>)
qed

lemma fallback_last:
  "fallback_events sc plan ending room events s r = (s', r', es) \<Longrightarrow> last_of s' = last_of s \<or> fst (last_of s') = 0"
proof (induction sc plan ending room events s r arbitrary: s' r' es rule: fallback_events.induct)
  case 1
  then show ?case by (auto simp: fallback_ended_def Let_def)
next
  case (2 sc plan ending room ms raw rest s r0)
  then show ?case
    by (auto simp: Let_def last_of_def dest!: commit_last(2) split: if_splits sum.splits prod.splits)
qed

text \<open>What a step on the identity leaves as it is.\<close>

definition same_turn ::
  "responsesWebSocketSession \<times> webSocketTurnPlan \<Rightarrow> responsesWebSocketSession \<times> webSocketTurnPlan \<Rightarrow> bool" where
  "same_turn sp sp' \<longleftrightarrow> last_of (fst sp') = last_of (fst sp) \<and> tp_incremental (snd sp') = tp_incremental (snd sp)
     \<and> tp_replay (snd sp') = tp_replay (snd sp) \<and> tp_continuation (snd sp') = tp_continuation (snd sp)"

lemma same_turn_refl [simp]: "same_turn sp sp" and same_turn_trans: "same_turn a b \<Longrightarrow> same_turn b c \<Longrightarrow> same_turn a c"
  by (simp_all add: same_turn_def)

lemma share_same: "same_turn sp (share_identity i sp)"
  by (cases sp) (simp add: share_identity_def same_turn_def last_of_def Let_def)

lemma ensure_same: "ensureUpstream sc w credential sp = (sp', r, es) \<Longrightarrow> same_turn sp sp'"
proof -
  assume e: "ensureUpstream sc w credential sp = (sp', r, es)"
  obtain s0 plan where sp: "sp = (s0, plan)" by (cases sp)
  obtain s1 closed where c: "closeUpstream s0 = (s1, closed)" by (cases "closeUpstream s0")
  obtain i h where a: "applyHeaders (cl_identity (sc_lib sc)) (copyCodexContextHeaders [] (sc_headers sc)) (sc_headers sc) True
      (tp_identity plan) = (i, h)"
    by fastforce
  obtain s2 plan2 where sh: "share_identity i (s1, plan) = (s2, plan2)" by fastforce
  have "same_turn sp (s1, plan)" using close_last(1) [OF c] by (simp add: sp same_turn_def)
  moreover from this have "same_turn sp (s2, plan2)" using share_same [of "(s1, plan)" i] same_turn_trans by (simp add: sh)
  moreover have "same_turn sp (s2\<lparr>ws_webSocketRetryAt := t\<rparr>, plan2)"
    "same_turn sp (s2\<lparr>ws_nextGeneration := g, ws_upstream := u, ws_webSocketRetryAt := t\<rparr>, plan2)" for t g u
    using calculation(2) by (simp_all add: same_turn_def last_of_def)
  ultimately show ?thesis
    using e by (auto simp: ensureUpstream_def sp c a sh Let_def split: option.splits sum.splits if_splits prod.splits)
qed

lemma request_same: "fallback_request sc credential sp = Some (sp', q) \<Longrightarrow> same_turn sp sp'"
  by (auto simp: fallback_request_def Let_def intro: share_same same_turn_trans [OF share_same share_same]
      split: option.splits sum.splits prod.splits)

lemma answer_last:
  "fallback_answer sc w failure sp r = (s', r', es) \<Longrightarrow> last_of s' = last_of (fst sp) \<or> fst (last_of s') = 0"
  by (auto simp: fallback_answer_def Let_def dest: fallback_last split: http_outcome.splits if_splits prod.splits)

lemma http_last:
  assumes "executeHTTPFallback sc w credential failure sp r = Some (s', r', es)"
  shows "last_of s' = last_of (fst sp) \<or> fst (last_of s') = 0"
proof -
  from assms obtain sp1 q where q: "fallback_request sc credential sp = Some (sp1, q)"
    by (auto simp: executeHTTPFallback_def)
  then have "last_of (fst sp1) = last_of (fst sp)" using request_same by (simp add: same_turn_def)
  with assms q show ?thesis
    by (auto simp: executeHTTPFallback_def dest!: answer_last split: sum.splits prod.splits)
qed

text \<open>What a plan leads to: at most a new last response, from an event of the connection it was submitted on.\<close>

lemma run_plan_last:
  assumes "run_plan sc w credential sp r = Some (s', r', es)"
  shows "last_of s' = last_of (fst sp) \<or> fst (last_of s') = 0
     \<or> (\<exists>g b ms raw p. Submit g b \<in> set es \<and> (ms, raw) \<in> set (tw_events w) \<and> completes sc raw p \<and> last_of s' = (g, p))"
    and "Submit g b \<in> set es \<Longrightarrow>
      b = tp_replay (snd sp) \<or> b = tp_incremental (snd sp) \<and> tp_continuation (snd sp) \<and> g = fst (last_of (fst sp)) \<and> g \<noteq> 0"
proof -
  obtain sp1 out es1 where e: "ensureUpstream sc w credential sp = (sp1, out, es1)" by (cases "ensureUpstream sc w credential sp")
  obtain s1 plan where sp1: "sp1 = (s1, plan)" by (cases sp1)
  note same = ensure_same [OF e, unfolded sp1 same_turn_def]
  have quiet: "Submit g b \<notin> set es1" for g b using silent_not_in [OF ensure_silent [OF e]] by simp
  have "(last_of s' = last_of (fst sp) \<or> fst (last_of s') = 0
       \<or> (\<exists>g b ms raw p. Submit g b \<in> set es \<and> (ms, raw) \<in> set (tw_events w) \<and> completes sc raw p \<and> last_of s' = (g, p)))
     \<and> (Submit g b \<in> set es \<longrightarrow>
      b = tp_replay (snd sp) \<or> b = tp_incremental (snd sp) \<and> tp_continuation (snd sp) \<and> g = fst (last_of (fst sp)) \<and> g \<noteq> 0)"
  proof (cases out)
    case (Inl failure)
    show ?thesis
    proof (cases "sc_fallback sc")
      case True
      with assms e Inl obtain es2 where h: "executeHTTPFallback sc w credential failure sp1 r = Some (s', r', es2)" "es = es1 @ es2"
        by (auto simp: run_plan_def)
      with http_last [OF h(1)] fallback_one(2) [OF h(1)] quiet same show ?thesis by (simp add: sp1)
    next
      case False
      with assms e Inl sp1 have "s' = s1" "\<exists>m st. es = es1 @ [writeClientError ''upstream_unavailable'' m st]"
        by (auto simp: run_plan_def Let_def)
      with quiet same show ?thesis by (auto simp: writeClientError_def)
    qed
  next
    case (Inr g0)
    let ?b = "bodyFor (ws_conversation s1) plan g0 False"
    have body: "?b = tp_replay (snd sp) \<or> ?b = tp_incremental (snd sp) \<and> tp_continuation (snd sp)
        \<and> g0 = fst (last_of (fst sp)) \<and> g0 \<noteq> 0"
      using same by (auto simp: bodyFor_def last_of_def)
    show ?thesis
    proof (cases "tw_written w")
      case True
      with assms e Inr sp1 obtain es2 where f: "forwardWebSocketTurn sc plan g0 (tw_end w) (tw_room w) (tw_events w) s1 r = (s', r', es2)"
        and es: "es = es1 @ Submit g0 ?b # es2" by (auto simp: run_plan_def Let_def split: prod.splits)
      have "Submit g b \<notin> set es2" for g b using silent_not_in [OF forward_silent [OF f]] by simp
      with forward_last [OF f] es body quiet same show ?thesis by fastforce
    next
      case False
      with assms e Inr sp1 obtain closed m where c: "invalidateUpstream s1 = (s', closed)"
        and es: "es = es1 @ Submit g0 ?b # closed @ [writeClientError ''upstream_outcome_unknown'' m 502]"
        by (auto simp: run_plan_def Let_def split: prod.splits)
      have "Submit g b \<notin> set closed" for g b using silent_not_in [OF close_silent(2) [OF c]] by simp
      with close_last(2) [OF c] es body quiet same show ?thesis by (auto simp: writeClientError_def)
    qed
  qed
  then show "last_of s' = last_of (fst sp) \<or> fst (last_of s') = 0
     \<or> (\<exists>g b ms raw p. Submit g b \<in> set es \<and> (ms, raw) \<in> set (tw_events w) \<and> completes sc raw p \<and> last_of s' = (g, p))"
    and "Submit g b \<in> set es \<Longrightarrow>
      b = tp_replay (snd sp) \<or> b = tp_incremental (snd sp) \<and> tp_continuation (snd sp) \<and> g = fst (last_of (fst sp)) \<and> g \<noteq> 0"
    by blast+
qed

lemma prepare_last:
  "prepare tc c raw = Some (c', r) \<Longrightarrow> cv_lastGeneration c' = cv_lastGeneration c \<and> cv_lastResponseID c' = cv_lastResponseID c"
  by (auto simp: prepare_def Let_def split: option.splits sum.splits prod.splits)

lemma authorize_quiet: "authorizeTurn sc w db r = (db', r', es, ok) \<Longrightarrow> silent es"
  by (auto simp: authorizeTurn_def Let_def split: option.splits sum.splits if_splits)

lemma turn_cases:
  assumes "handleTurn sc w raw (db, s) = Some ((db', s'), r, es)"
  obtains (quiet) "last_of s' = last_of s" "silent es"
  | (ran) credential c plan r1 where "prepare (turn_context_of sc credential) (ws_conversation s) raw = Some (c, Inr plan)"
      "run_plan sc w credential (s\<lparr>ws_conversation := c\<rparr>, plan) r1 = Some (s', r, es)"
proof -
  obtain db1 r1 es1 ok where auth: "authorizeTurn sc w db new_result = (db1, r1, es1, ok)"
    by (cases "authorizeTurn sc w db new_result")
  show thesis
  proof (cases ok)
    case False
    with assms auth authorize_quiet [OF auth] quiet show thesis by (simp add: handleTurn_def)
  next
    case ok: True
    show thesis
    proof (cases "tw_credential w")
      case (Inl e)
      with assms auth ok quiet close_last(1) [of s] close_silent(1) [of s] show thesis
        by (auto simp: handleTurn_def Let_def split: prod.splits)
    next
      case (Inr credential)
      with assms auth ok obtain c p where p: "prepare (turn_context_of sc credential) (ws_conversation s) raw = Some (c, p)"
        by (auto simp: handleTurn_def split: option.splits)
      show thesis
      proof (cases p)
        case (Inl e)
        with assms auth ok Inr p prepare_last [OF p] quiet show thesis by (auto simp: handleTurn_def last_of_def)
      next
        case plan: (Inr plan)
        with assms auth ok Inr p ran [of credential c plan] show thesis
          by (auto simp: handleTurn_def split: option.splits)
      qed
    qed
  qed
qed

definition answered :: "session_config \<Rightarrow> (turn_world \<times> session_effect list) list \<Rightarrow> nat \<Rightarrow> gostring \<Rightarrow> bool" where
  "answered sc hist g p \<longleftrightarrow>
     (\<exists>(w, es) \<in> set hist. (\<exists>b. Submit g b \<in> set es) \<and> (\<exists>(ms, raw) \<in> set (tw_events w). completes sc raw p))"

definition last_answered :: "session_config \<Rightarrow> (turn_world \<times> session_effect list) list \<Rightarrow> responsesWebSocketSession \<Rightarrow> bool" where
  "last_answered sc hist s \<longleftrightarrow> fst (last_of s) = 0 \<or> answered sc hist (fst (last_of s)) (snd (last_of s))"

lemma answered_append: "answered sc hist g p \<Longrightarrow> answered sc (hist @ later) g p"
  by (auto simp: answered_def)

lemma turn_answered:
  assumes "handleTurn sc w raw (db, s) = Some ((db', s'), r, es)" "last_answered sc hist s"
  shows "last_answered sc (hist @ [(w, es)]) s'"
  using assms(1)
proof (cases rule: turn_cases)
  case quiet
  with assms(2) answered_append show ?thesis by (auto simp: last_answered_def)
next
  case (ran credential c plan r1)
  have same: "last_of (s\<lparr>ws_conversation := c\<rparr>) = last_of s"
    using prepare_last [OF ran(1)] by (simp add: last_of_def)
  from run_plan_last(1) [OF ran(2)] consider "last_of s' = last_of s" | "fst (last_of s') = 0"
    | g b ms raw' p where "Submit g b \<in> set es" "(ms, raw') \<in> set (tw_events w)" "completes sc raw' p" "last_of s' = (g, p)"
    by (auto simp: same)
  then show ?thesis
  proof cases
    case 1
    with assms(2) answered_append show ?thesis by (auto simp: last_answered_def)
  next
    case 2
    then show ?thesis by (simp add: last_answered_def)
  next
    case 3
    then have "answered sc [(w, es)] g p" by (auto simp: answered_def)
    then have "answered sc (hist @ [(w, es)]) g p" by (auto simp: answered_def)
    with 3(4) show ?thesis by (simp add: last_answered_def)
  qed
qed

lemma turn_submits:
  assumes "handleTurn sc w raw (db, s) = Some ((db', s'), r, es)" "last_answered sc hist s"
    and "Submit g body \<in> set es" "map_of body ''previous_response_id'' = Some v"
  shows "\<exists>p t. v = JStr t \<and> p \<in> {t, TrimSpace t} \<and> answered sc hist g p"
  using assms(1)
proof (cases rule: turn_cases)
  case quiet
  with assms(3) silent_not_in [of es "Submit g body"] show ?thesis by simp
next
  case (ran credential c plan r1)
  note facts = plan_facts [OF ran(1)]
  have same: "last_of (s\<lparr>ws_conversation := c\<rparr>) = last_of s"
    using prepare_last [OF ran(1)] by (simp add: last_of_def)
  from facts assms(4) have "body \<noteq> tp_replay plan" by auto
  with run_plan_last(2) [OF ran(2) assms(3)] have inc: "body = tp_incremental plan" "tp_continuation plan" "g = fst (last_of s)" "g \<noteq> 0"
    by (simp_all add: same)
  from facts inc(1,2) assms(4) obtain t where "v = JStr t" "cv_lastResponseID (ws_conversation s) \<in> {t, TrimSpace t}" by auto
  with assms(2) inc(3,4) show ?thesis by (auto simp: last_answered_def last_of_def)
qed

lemma loop_submits:
  "session_loop sc ts (db, s) = Some (dbs', trace) \<Longrightarrow> last_answered sc hist s \<Longrightarrow> i < length trace \<Longrightarrow>
     Submit g body \<in> set (snd (trace ! i)) \<Longrightarrow> map_of body ''previous_response_id'' = Some v \<Longrightarrow>
     \<exists>p t. v = JStr t \<and> p \<in> {t, TrimSpace t}
       \<and> answered sc (hist @ take i (zip (map ti_world ts) (map snd trace))) g p"
proof (induction ts arbitrary: db s hist trace i)
  case Nil
  then show ?case by simp
next
  case (Cons x ts)
  let ?w = "ti_world x"
  from Cons.prems(1) obtain db1 s1 r es where
    h: "handleTurn sc ?w (ti_message x) (final db_step db (ti_statements x), s) = Some ((db1, s1), r, es)"
    by (auto split: option.splits prod.splits if_splits)
  show ?case
  proof (cases i)
    case 0
    with Cons.prems h have "Submit g body \<in> set es" by (auto split: if_splits)
    from turn_submits [OF h Cons.prems(2) this Cons.prems(5)] 0 show ?thesis by simp
  next
    case (Suc k)
    with Cons.prems h obtain rest where rest: "session_loop sc ts (db1, s1) = Some (dbs', rest)" "trace = (r, es) # rest"
      by (auto split: if_splits)
    from Cons.IH [OF rest(1) turn_answered [OF h Cons.prems(2)], of k] Cons.prems(3-5) rest(2) Suc show ?thesis by simp
  qed
qed


subsection \<open>A session runs a conversation\<close>

definition runs :: "int \<Rightarrow> responsesWebSocketSession \<Rightarrow> bool" where
  "runs limit s \<longleftrightarrow> (\<exists>turns. conversation_run limit (ws_conversation s) turns)"

text \<open>The plan at hand was prepared from this conversation; the identity may have changed since.\<close>

definition planned :: "int \<Rightarrow> responsesWebSocketSession \<times> webSocketTurnPlan \<Rightarrow> bool" where
  "planned limit sp \<longleftrightarrow> runs limit (fst sp) \<and>
     (\<exists>tc c0 raw c1 plan i. prepare tc c0 raw = Some (c1, Inr plan) \<and> snd sp = plan\<lparr>tp_identity := i\<rparr>
        \<and> ws_conversation (fst sp) = c1\<lparr>cv_identity := cv_identity (ws_conversation (fst sp))\<rparr>)"

lemma planned_runs: "planned limit sp \<Longrightarrow> runs limit (fst sp)"
  by (simp add: planned_def)

lemma plannedI:
  "conversation_run limit (ws_conversation s) turns \<Longrightarrow> prepare tc c0 raw = Some (c1, Inr plan) \<Longrightarrow>
     ws_conversation s = c1\<lparr>cv_identity := cv_identity (ws_conversation s)\<rparr> \<Longrightarrow> planned limit (s, plan\<lparr>tp_identity := i\<rparr>)"
  unfolding planned_def runs_def fst_conv snd_conv by blast

lemma planned_same:
  "planned limit (s, plan) \<Longrightarrow> ws_conversation s' = ws_conversation s \<Longrightarrow> planned limit (s', plan)"
  by (simp add: planned_def runs_def)

lemma share_planned: "planned limit sp \<Longrightarrow> planned limit (share_identity i sp)"
proof -
  assume p: "planned limit sp"
  obtain s plan' where sp: "sp = (s, plan')" by (cases sp)
  from p obtain turns tc c0 raw c1 plan j where run: "conversation_run limit (ws_conversation s) turns"
    and prep: "prepare tc c0 raw = Some (c1, Inr plan)" "plan' = plan\<lparr>tp_identity := j\<rparr>"
      "ws_conversation s = c1\<lparr>cv_identity := cv_identity (ws_conversation s)\<rparr>"
    by (auto simp: planned_def runs_def sp)
  have same: "plan'\<lparr>tp_identity := i\<rparr> = plan\<lparr>tp_identity := i\<rparr>" using prep(2) by simp
  show ?thesis
  proof (cases "cv_identity (ws_conversation s) = None")
    case True
    then have "share_identity i sp = (s, plan\<lparr>tp_identity := i\<rparr>)" by (simp add: sp share_identity_def same Let_def)
    with plannedI [OF run prep(1,3)] show ?thesis by simp
  next
    case False
    let ?s = "s\<lparr>ws_conversation := (ws_conversation s)\<lparr>cv_identity := Some i\<rparr>\<rparr>"
    have share: "share_identity i sp = (?s, plan\<lparr>tp_identity := i\<rparr>)" using False by (simp add: sp share_identity_def same Let_def)
    have "(ws_conversation s)\<lparr>cv_identity := Some i\<rparr> = c1\<lparr>cv_identity := Some i\<rparr>" by (subst prep(3)) simp
    then have "ws_conversation ?s = c1\<lparr>cv_identity := cv_identity (ws_conversation ?s)\<rparr>" by simp
    moreover have "conversation_run limit (ws_conversation ?s) turns"
      using conversation_run.identified [OF run False] by simp
    ultimately show ?thesis unfolding share using plannedI [OF _ prep(1)] by blast
  qed
qed

lemma commit_runs:
  assumes "planned limit (s, plan)" "commit_turn sz (ws_conversation s) plan e g = Inr c"
  shows "runs limit (s\<lparr>ws_conversation := c\<rparr>)"
proof -
  from assms(1) obtain turns tc c0 raw c1 plan0 i where run: "conversation_run limit (ws_conversation s) turns"
    and prep: "prepare tc c0 raw = Some (c1, Inr plan0)" "plan = plan0\<lparr>tp_identity := i\<rparr>"
      "ws_conversation s = c1\<lparr>cv_identity := cv_identity (ws_conversation s)\<rparr>"
    by (auto simp: planned_def runs_def)
  from assms(2) obtain ev where "e = Some ev" by (auto simp: commit_turn_def split: option.splits)
  with assms(2) prep(2) have "commit_turn sz (ws_conversation s) (plan0\<lparr>tp_identity := i\<rparr>) (Some ev) g = Inr c" by simp
  from conversation_run.committed [OF run prep(1,3) this] show ?thesis by (auto simp: runs_def)
qed

lemma close_conversation:
  "closeUpstream s = (s', es) \<Longrightarrow> ws_conversation s' = ws_conversation s"
  "invalidateUpstream s = (s', es) \<Longrightarrow> ws_conversation s' = ws_conversation s"
  by (auto simp: closeUpstream_def invalidateUpstream_def split: option.splits)

lemma same_runs: "ws_conversation s' = ws_conversation s \<Longrightarrow> runs limit s \<Longrightarrow> runs limit s'"
  by (simp add: runs_def)

lemma forward_runs:
  "forwardWebSocketTurn sc plan g ending room events s r = (s', r', es) \<Longrightarrow> planned limit (s, plan) \<Longrightarrow> runs limit s'"
proof (induction sc plan g ending room events s r arbitrary: s' r' es rule: forwardWebSocketTurn.induct)
  case (1 sc plan g ending room s r)
  then have "ws_conversation s' = ws_conversation s"
    by (auto simp: forward_ended_def Let_def dest: close_conversation split: upstream_end.splits prod.splits if_splits)
  with 1 planned_runs same_runs show ?case by fastforce
next
  case (2 sc plan g ending room ms raw rest s r0)
  let ?p = "normalizeWebSocketTerminal (sc_json sc) raw"
  let ?kind = "webSocketEventType (sc_json sc) ?p"
  let ?commit = "commit_turn (sc_json_size sc) (ws_conversation s) plan (sl_terminal (sc_json sc) ?p) g"
  note here = planned_runs [OF "2.prems"(2), simplified]
  consider "\<not> takes room" | "takes room" "is_completed ?kind" | "takes room" "\<not> is_completed ?kind" "is_failed ?kind"
    | "takes room" "\<not> is_completed ?kind" "\<not> is_failed ?kind" by blast
  then show ?case
  proof cases
    case 1
    with "2.prems"(1) here show ?thesis by (simp add: Let_def)
  next
    case 2
    show ?thesis
    proof (cases ?commit)
      case (Inl e)
      with 2 "2.prems"(1) here show ?thesis by (simp add: Let_def)
    next
      case (Inr c)
      with 2 "2.prems"(1) have "s' = s\<lparr>ws_conversation := c\<rparr>" by (simp add: Let_def)
      with commit_runs [OF "2.prems"(2) Inr] show ?thesis by simp
    qed
  next
    case 3
    with "2.prems"(1) obtain closed where "invalidateUpstream s = (s', closed)" by (auto simp: Let_def split: prod.splits)
    with close_conversation(2) same_runs here show ?thesis by blast
  next
    case 4
    with "2.prems"(1) obtain r2 es2 where "forwardWebSocketTurn sc plan g ending (used_up room) rest s (observe sc ms ?p r0) = (s', r2, es2)"
      by (auto simp: Let_def split: prod.splits)
    moreover have "\<not> \<not> takes room" using 4(1) by simp
    ultimately show ?thesis using "2.IH" [OF refl refl refl refl refl _ 4(2,3) _ "2.prems"(2)] by auto
  qed
qed

lemma fallback_runs:
  "fallback_events sc plan ending room events s r = (s', r', es) \<Longrightarrow> planned limit (s, plan) \<Longrightarrow> runs limit s'"
proof (induction sc plan ending room events s r arbitrary: s' r' es rule: fallback_events.induct)
  case (1 sc plan ending room s r)
  with planned_runs show ?case by (fastforce simp: fallback_ended_def Let_def)
next
  case (2 sc plan ending room ms raw rest s r0)
  note here = planned_runs [OF "2.prems"(2), simplified]
  show ?case
  proof (cases "is_data raw")
    case False
    with "2.prems" "2.IH"(1) show ?thesis by simp
  next
    case data: True
    let ?p = "normalizeWebSocketTerminal (sc_json sc) raw"
    let ?kind = "webSocketEventType (sc_json sc) ?p"
    let ?commit = "commit_turn (sc_json_size sc) (ws_conversation s) plan (sl_terminal (sc_json sc) ?p) 0"
    consider "\<not> takes room" | "takes room" "is_completed ?kind" | "takes room" "\<not> is_completed ?kind" "is_failed ?kind"
      | "takes room" "\<not> is_completed ?kind" "\<not> is_failed ?kind" by blast
    then show ?thesis
    proof cases
      case 2
      show ?thesis
      proof (cases ?commit)
        case (Inl e)
        with 2 "2.prems"(1) data here show ?thesis by (simp add: Let_def)
      next
        case (Inr c)
        with 2 "2.prems"(1) data have "s' = s\<lparr>ws_conversation := c\<rparr>" by (simp add: Let_def)
        with commit_runs [OF "2.prems"(2) Inr] show ?thesis by simp
      qed
    next
      case 4
      with "2.prems"(1) data obtain r2 es2 where "fallback_events sc plan ending (used_up room) rest s (observe sc ms ?p r0) = (s', r2, es2)"
        by (auto simp: Let_def split: prod.splits)
      moreover have "\<not> \<not> takes room" "\<not> \<not> is_data raw" using 4(1) data by simp_all
      ultimately show ?thesis using "2.IH"(2) [OF _ refl refl refl refl refl _ 4(2,3) _ "2.prems"(2)] by auto
    qed (use "2.prems"(1) data here in \<open>simp_all add: Let_def\<close>)
  qed
qed

lemma ensure_planned: "ensureUpstream sc w credential sp = (sp', r, es) \<Longrightarrow> planned limit sp \<Longrightarrow> planned limit sp'"
proof -
  assume e: "ensureUpstream sc w credential sp = (sp', r, es)" and p: "planned limit sp"
  obtain s0 plan where sp: "sp = (s0, plan)" by (cases sp)
  obtain s1 closed where c: "closeUpstream s0 = (s1, closed)" by (cases "closeUpstream s0")
  obtain i h where a: "applyHeaders (cl_identity (sc_lib sc)) (copyCodexContextHeaders [] (sc_headers sc)) (sc_headers sc) True
      (tp_identity plan) = (i, h)"
    by fastforce
  obtain s2 plan2 where sh: "share_identity i (s1, plan) = (s2, plan2)" by fastforce
  have one: "planned limit (s1, plan)" using p close_conversation(1) [OF c] planned_same by (simp add: sp)
  then have two: "planned limit (s2, plan2)" using share_planned [of limit "(s1, plan)" i] by (simp add: sh)
  have "planned limit (s2\<lparr>ws_webSocketRetryAt := t\<rparr>, plan2)"
    "planned limit (s2\<lparr>ws_nextGeneration := g, ws_upstream := u, ws_webSocketRetryAt := t\<rparr>, plan2)" for t g u
    by (rule planned_same [OF two]; simp)+
  with p one two show ?thesis
    using e by (auto simp: ensureUpstream_def sp c a sh Let_def split: option.splits sum.splits if_splits prod.splits)
qed

lemma request_planned: "fallback_request sc credential sp = Some (sp', q) \<Longrightarrow> planned limit sp \<Longrightarrow> planned limit sp'"
  by (auto simp: fallback_request_def Let_def intro: share_planned split: option.splits sum.splits prod.splits)

lemma answer_runs: "fallback_answer sc w failure sp r = (s', r', es) \<Longrightarrow> planned limit sp \<Longrightarrow> runs limit s'"
  by (cases sp) (auto simp: fallback_answer_def Let_def dest: fallback_runs planned_runs
      split: http_outcome.splits if_splits prod.splits)

lemma http_runs:
  assumes "executeHTTPFallback sc w credential failure sp r = Some (s', r', es)" "planned limit sp"
  shows "runs limit s'"
proof -
  from assms obtain sp1 q where q: "fallback_request sc credential sp = Some (sp1, q)" by (auto simp: executeHTTPFallback_def)
  note p = request_planned [OF q assms(2)]
  with assms q show ?thesis
    by (auto simp: executeHTTPFallback_def dest: answer_runs planned_runs split: sum.splits prod.splits)
qed

lemma run_plan_runs:
  assumes "run_plan sc w credential sp r = Some (s', r', es)" "planned limit sp"
  shows "runs limit s'"
proof -
  obtain sp1 out es1 where e: "ensureUpstream sc w credential sp = (sp1, out, es1)" by (cases "ensureUpstream sc w credential sp")
  obtain s1 plan where sp1: "sp1 = (s1, plan)" by (cases sp1)
  note p = ensure_planned [OF e assms(2), unfolded sp1]
  show ?thesis
  proof (cases out)
    case (Inl failure)
    with assms(1) e p sp1 planned_runs [OF p] show ?thesis
      by (auto simp: run_plan_def Let_def dest: http_runs split: if_splits)
  next
    case (Inr g)
    show ?thesis
    proof (cases "tw_written w")
      case True
      with assms(1) e Inr sp1 obtain es2 where "forwardWebSocketTurn sc plan g (tw_end w) (tw_room w) (tw_events w) s1 r = (s', r', es2)"
        by (auto simp: run_plan_def Let_def split: prod.splits)
      with forward_runs p show ?thesis by blast
    next
      case False
      with assms(1) e Inr sp1 obtain closed where "invalidateUpstream s1 = (s', closed)"
        by (auto simp: run_plan_def Let_def split: prod.splits)
      with close_conversation(2) same_runs planned_runs [OF p] show ?thesis by (metis fst_conv)
    qed
  qed
qed

lemma turn_runs:
  assumes "handleTurn sc w raw (db, s) = Some ((db', s'), r, es)" "runs limit s"
  shows "runs limit s'"
proof -
  obtain db1 r1 es1 ok where auth: "authorizeTurn sc w db new_result = (db1, r1, es1, ok)"
    by (cases "authorizeTurn sc w db new_result")
  show ?thesis
  proof (cases ok)
    case False
    with assms auth show ?thesis by (simp add: handleTurn_def)
  next
    case ok: True
    show ?thesis
    proof (cases "tw_credential w")
      case (Inl e)
      obtain s1 closed where c: "closeUpstream s = (s1, closed)" by (cases "closeUpstream s")
      with assms(1) auth ok Inl have "s' = s1" by (simp add: handleTurn_def)
      with same_runs [OF close_conversation(1) [OF c] assms(2)] show ?thesis by simp
    next
      case (Inr credential)
      with assms(1) auth ok obtain c p where p: "prepare (turn_context_of sc credential) (ws_conversation s) raw = Some (c, p)"
        by (auto simp: handleTurn_def split: option.splits)
      from assms(2) obtain turns where "conversation_run limit (ws_conversation s) turns" by (auto simp: runs_def)
      then have run: "conversation_run limit c turns" using p by (rule conversation_run.prepared)
      show ?thesis
      proof (cases p)
        case (Inl e)
        with assms(1) auth ok Inr p have "s' = s\<lparr>ws_conversation := c\<rparr>" by (auto simp: handleTurn_def)
        with run show ?thesis by (auto simp: runs_def)
      next
        case plan: (Inr plan)
        have self: "plan\<lparr>tp_identity := tp_identity plan\<rparr> = plan" "c = c\<lparr>cv_identity := cv_identity c\<rparr>" by simp_all
        have "planned limit (s\<lparr>ws_conversation := c\<rparr>, plan)"
          using plannedI [of limit "s\<lparr>ws_conversation := c\<rparr>" turns _ _ _ c plan "tp_identity plan"] run p plan by simp
        moreover obtain r2 where "run_plan sc w credential (s\<lparr>ws_conversation := c\<rparr>, plan) r2 = Some (s', r, es)"
          using assms(1) auth ok Inr p plan by (auto simp: handleTurn_def)
        ultimately show ?thesis using run_plan_runs by blast
      qed
    qed
  qed
qed

lemma loop_runs: "session_loop sc ts (db, s) = Some ((db', s'), trace) \<Longrightarrow> runs limit s \<Longrightarrow> runs limit s'"
proof (induction ts arbitrary: db s trace)
  case (Cons x ts)
  from Cons.prems(1) obtain db1 s1 r es where
    h: "handleTurn sc (ti_world x) (ti_message x) (final db_step db (ti_statements x), s) = Some ((db1, s1), r, es)"
    by (auto split: option.splits prod.splits if_splits)
  note here = turn_runs [OF h Cons.prems(2)]
  show ?case
  proof (cases "tn_fatal r")
    case True
    with Cons.prems(1) h here show ?thesis by simp
  next
    case False
    with Cons.prems(1) h obtain rest where "session_loop sc ts (db1, s1) = Some ((db', s'), rest)" by auto
    with Cons.IH here show ?thesis by blast
  qed
qed simp

text \<open>C26.
  Every session refines the conversation machine: whatever the connection to the upstream does, and on every error
  path, the conversation a session holds is one reached by preparing requests and committing prepared turns. So the
  invariants of the machine hold in every session.
\<close>

theorem session_refines_conversation:
  assumes "session_loop sc ts (db, new_session limit) = Some ((db', s'), trace)"
  shows "\<exists>turns. conversation_run limit (ws_conversation s') turns"
proof -
  have "runs limit (new_session limit)"
    using conversation_run.start by (auto simp: runs_def new_session_def)
  from loop_runs [OF assms this] show ?thesis by (simp add: runs_def)
qed

subsection \<open>Revoked keys\<close>

lemma refused_authorization:
  assumes "sc_key sc = Some k" "FindActiveAPIKeyByID (tw_found w) k db = Inl e"
  shows "\<exists>r es. authorizeTurn sc w db r0 = (db, r, es, False) \<and> (\<exists>code m status. es = [ClientError code m status])
    \<and> (IsNotFound e \<longrightarrow> tn_fatal r \<and> tn_status r = 401 \<and> tn_closeCode r = 1008)"
  using assms by (simp add: authorizeTurn_def Let_def policy_violation_def writeClientError_def)

lemma refused_turn:
  assumes "sc_key sc = Some k" "FindActiveAPIKeyByID (tw_found w) k db = Inl e"
  obtains r es where "handleTurn sc w raw (db, s) = Some ((db, s), r, es)" "\<exists>code m status. es = [ClientError code m status]"
    "IsNotFound e \<longrightarrow> tn_fatal r \<and> tn_status r = 401 \<and> tn_closeCode r = 1008"
  using refused_authorization [of sc k w db e new_result, OF assms] by (fastforce simp: handleTurn_def Let_def)

text \<open>C27.
  A session whose API key was revoked gets no further turn, whatever happened to the database since: the turn changes
  nothing, nothing is dialled or submitted, the client is told, and unless the database cannot be read the session is closed
  with a policy violation.
\<close>

theorem revoked_key_ends_session:
  assumes "k \<in> set (db_keys (final db_step empty_database hist))" "sc_key sc = Some (dk_id k)"
    and "db = final db_step (snd (RevokeAPIKey True (dk_id k) now (final db_step empty_database hist))) ops"
    and "handleTurn sc w raw (db, s) = Some ((db', s'), r, es)"
  shows "db' = db \<and> s' = s \<and> (\<exists>code m status. es = [ClientError code m status])
    \<and> (tw_found w \<longrightarrow> tn_fatal r \<and> tn_status r = 401 \<and> tn_closeCode r = 1008)"
proof -
  have "FindActiveAPIKeyByID (tw_found w) (dk_id k) db = Inl (if tw_found w then NotFound else Unavailable)"
    unfolding assms(3) by (rule revoked_not_found(2) [OF revoked_reached [OF assms(1)]])
  from refused_turn [OF assms(2) this, of raw s] obtain r' es' where h: "handleTurn sc w raw (db, s) = Some ((db, s), r', es')"
    and "\<exists>code m status. es' = [ClientError code m status]"
    "IsNotFound (if tw_found w then NotFound else Unavailable) \<longrightarrow> tn_fatal r' \<and> tn_status r' = 401 \<and> tn_closeCode r' = 1008" .
  with assms(4) show ?thesis by (auto simp: IsNotFound_def)
qed

subsection \<open>A session of two turns\<close>

definition sample_json :: session_lib where
  "sample_json = \<lparr>sl_object = (\<lambda>t. None), sl_encode = (\<lambda>m. []), sl_Type = (\<lambda>t. ''response.completed''), sl_observed = (\<lambda>t. None),
     sl_failure = (\<lambda>t. \<lparr>ff_statuses = [], ff_codes = [], ff_types = [], ff_messages = []\<rparr>),
     sl_terminal = (\<lambda>t. Some sample_terminal), sl_StatusText = (\<lambda>n. [])\<rparr>"

definition sample_settings :: session_config where
  "sample_settings = \<lparr>sc_lib = tc_lib sample_context, sc_json = sample_json, sc_key = Some ''k'', sc_headers = [], sc_remap = False,
     sc_fallback = False, sc_url = Inr ''wss://up'', sc_http_error = None, sc_UserAgent = ''ua'', sc_ClientVersion = ''1'',
     sc_json_size = (\<lambda>ob. int (length ob))\<rparr>"

definition sample_credential :: Credential where
  "sample_credential = \<lparr>cr_Email = [], cr_AccountID = ''a'', cr_PlanType = ''free'', cr_AccessToken = ''t'', cr_RefreshToken = [],
     cr_IDToken = [], cr_ExpiresAt = 0, cr_UpdatedAt = 0\<rparr>"

definition sample_world :: turn_world where
  "sample_world = \<lparr>tw_found = True, tw_touched = False, tw_now = 0, tw_credential = Inr sample_credential, tw_alive = True,
     tw_dialed = None, tw_dial_time = 0, tw_written = True, tw_events = [(1, ''e'')], tw_end = ClientDone, tw_room = None,
     tw_http = HttpFailed []\<rparr>"

definition session_database :: database where
  "session_database = empty_database\<lparr>db_keys := [sample_key\<lparr>dk_id := ''k''\<rparr>]\<rparr>"

lemma sample_authorized:
  "authorizeTurn sample_settings sample_world session_database new_result = (session_database, new_result, [], True)"
proof -
  have "TrimSpace ''k'' = ''k''" by (rule sample_clean(3))
  then show ?thesis
    by (simp add: authorizeTurn_def sample_settings_def sample_world_def FindActiveAPIKeyByID_def find_active_def session_database_def
        sample_key_def TouchAPIKey_def Let_def)
qed

definition connected_session :: "webSocketConversation \<Rightarrow> responsesWebSocketSession" where
  "connected_session c = \<lparr>ws_conversation = c, ws_upstream = Some \<lparr>uw_generation = 1, uw_accountID = ''a''\<rparr>,
     ws_nextGeneration = 1, ws_webSocketRetryAt = None\<rparr>"

lemma sample_tc: "turn_context_of sample_settings sample_credential = sample_context"
  by (simp add: turn_context_of_def sample_settings_def sample_context_def sample_credential_def)

lemma sample_json_terminal: "sl_terminal sample_json t = Some sample_terminal"
  by (simp add: sample_json_def)

lemma completed_word: "TrimSpace ''response.completed'' = ''response.completed''"
  by (rule TrimSpace_printable) (simp_all add: printable_def)

lemma sample_payload:
  "normalizeWebSocketTerminal sample_json t = t" "is_completed (webSocketEventType sample_json t)"
  by (simp_all add: normalizeWebSocketTerminal_def webSocketEventType_def sample_json_def completed_word is_completed_def)

lemma first_turn:
  "\<exists>r h t. handleTurn sample_settings sample_world (Some (JObj first_request)) (session_database, new_session 0) =
     Some ((session_database, connected_session answered_conversation), r,
       [Dial ''wss://up'' h, Submit 1 (filled first_request), ToClient t]) \<and> \<not> tn_fatal r"
proof -
  have conv: "ws_conversation (new_session 0) = (fresh_conversation 0)" "new_session 0\<lparr>ws_conversation := (fresh_conversation 0)\<rparr> = new_session 0"
    by (simp_all add: new_session_def)
  obtain h where h: "applyHeaders sample_il (copyCodexContextHeaders [] []) [] True sample_identity = (sample_identity, Inr h)"
    by (simp add: applyHeaders_def sample_identity_def mappingError_def Let_def)
  have plan: "tp_identity first_plan = sample_identity" "first_plan\<lparr>tp_identity := sample_identity\<rparr> = first_plan"
    "\<not> tp_continuation first_plan" "tp_replay first_plan = filled first_request"
    by (simp_all add: first_plan_def)
  obtain h' where ensure: "ensureUpstream sample_settings sample_world sample_credential (new_session 0, first_plan) =
      ((connected_session (fresh_conversation 0), first_plan), Inr 1, [Dial ''wss://up'' h'])"
    using h by (simp add: ensureUpstream_def closeUpstream_def sample_settings_def sample_world_def new_session_def share_identity_def
        sample_context_def plan sample_credential_def connected_session_def fresh_conversation_def Let_def)
  have body: "bodyFor (fresh_conversation 0) first_plan g False = filled first_request" for g by (simp add: bodyFor_def plan)
  let ?r0 = "new_result\<lparr>tn_model := tp_model first_plan, tn_telemetry := (tn_telemetry new_result)\<lparr>ReasoningEffort := tp_reasoning first_plan\<rparr>\<rparr>"
  have "tw_events sample_world = [(1, ''e'')]" "tw_room sample_world = None" "tw_end sample_world = ClientDone"
    "tw_written sample_world" "tw_credential sample_world = Inr sample_credential"
    "sc_json sample_settings = sample_json" "sc_json_size sample_settings = (\<lambda>ob. int (length ob))"
    by (simp_all add: sample_world_def sample_settings_def)
  note facts = this
  have conn: "ws_conversation (connected_session c) = c"
    "connected_session c\<lparr>ws_conversation := c'\<rparr> = connected_session c'" for c c'
    by (simp_all add: connected_session_def)
  have forward: "forwardWebSocketTurn sample_settings first_plan 1 ClientDone None [(1, ''e'')] (connected_session (fresh_conversation 0)) ?r0 =
      (connected_session answered_conversation, merge_usage (observe sample_settings 1 ''e'' ?r0),
        [ToClient (exposePayload (cl_identity (sc_lib sample_settings)) (identityFor (fresh_conversation 0) first_plan) ''e'')])"
    by (simp add: facts conn sample_payload first_committed sample_json_terminal takes_def Let_def)
  have "run_plan sample_settings sample_world sample_credential (new_session 0, first_plan) ?r0 =
      Some (connected_session answered_conversation, merge_usage (observe sample_settings 1 ''e'' ?r0),
        [Dial ''wss://up'' h', Submit 1 (filled first_request),
         ToClient (exposePayload (cl_identity (sc_lib sample_settings)) (identityFor (fresh_conversation 0) first_plan) ''e'')])"
    using forward by (simp add: run_plan_def ensure facts conn body Let_def del: forwardWebSocketTurn.simps)
  moreover have "\<not> tn_fatal (merge_usage (observe sample_settings 1 ''e'' ?r0))"
    by (simp add: merge_usage_def observe_def new_result_def split_beta)
  ultimately show ?thesis
    by (simp add: handleTurn_def sample_authorized sample_tc facts conv first_prepared)
qed

lemma second_turn:
  "\<exists>s r es. handleTurn sample_settings sample_world (Some (JObj second_request)) (session_database, connected_session answered_conversation) =
     Some ((session_database, s), r, es) \<and> Submit 1 second_ready \<in> set es"
proof -
  obtain plan where prep: "prepare sample_context answered_conversation (Some (JObj second_request)) =
     Some (answered_conversation, Inr plan)" "tp_continuation plan" "tp_incremental plan = second_ready"
    using second_prepared by blast
  have facts: "tw_written sample_world" "tw_credential sample_world = Inr sample_credential" "tw_alive sample_world"
    by (simp_all add: sample_world_def)
  have conn: "ws_conversation (connected_session answered_conversation) = answered_conversation"
    "connected_session answered_conversation\<lparr>ws_conversation := answered_conversation\<rparr> = connected_session answered_conversation"
    by (simp_all add: connected_session_def)
  have ensure: "ensureUpstream sample_settings sample_world sample_credential (connected_session answered_conversation, plan) =
      ((connected_session answered_conversation, plan), Inr 1, [])"
    by (simp add: ensureUpstream_def connected_session_def sample_credential_def facts)
  have "bodyFor answered_conversation plan (Suc 0) False = second_ready"
    using prep(2,3) by (simp add: bodyFor_def answered_conversation_def)
  then have "\<exists>s r' es. run_plan sample_settings sample_world sample_credential (connected_session answered_conversation, plan) r =
      Some (s, r', Submit 1 second_ready # es)" for r
    by (auto simp: run_plan_def ensure facts conn Let_def split_beta simp del: forwardWebSocketTurn.simps)
  then show ?thesis
    using prep(1) by (fastforce simp: handleTurn_def sample_authorized sample_tc facts conn)
qed


theorem submitted_once_witness:
  "\<exists>dbs' r es. handleTurn sample_settings sample_world (Some (JObj first_request)) (session_database, new_session 0) = Some (dbs', r, es)
     \<and> length (filter is_submission es) \<le> 1 \<and> Submit 1 (filled first_request) \<in> set es"
proof -
  obtain r h t where one: "handleTurn sample_settings sample_world (Some (JObj first_request)) (session_database, new_session 0) =
     Some ((session_database, connected_session answered_conversation), r,
       [Dial ''wss://up'' h, Submit 1 (filled first_request), ToClient t])"
    using first_turn by blast
  from submitted_once [OF one] one show ?thesis by fastforce
qed

theorem session_refines_conversation_witness:
  "\<exists>s' trace turns. session_loop sample_settings [\<lparr>ti_statements = [], ti_world = sample_world, ti_message = Some (JObj first_request)\<rparr>]
       (session_database, new_session 0) = Some ((session_database, s'), trace)
     \<and> cv_lastResponseID (ws_conversation s') = ''r1'' \<and> conversation_run 0 (ws_conversation s') turns"
proof -
  obtain r h t where one: "handleTurn sample_settings sample_world (Some (JObj first_request)) (session_database, new_session 0) =
     Some ((session_database, connected_session answered_conversation), r,
       [Dial ''wss://up'' h, Submit 1 (filled first_request), ToClient t])" "\<not> tn_fatal r"
    using first_turn by blast
  have loop: "session_loop sample_settings [\<lparr>ti_statements = [], ti_world = sample_world, ti_message = Some (JObj first_request)\<rparr>]
       (session_database, new_session 0) = Some ((session_database, connected_session answered_conversation),
         [(r, [Dial ''wss://up'' h, Submit 1 (filled first_request), ToClient t])])"
    using one by simp
  moreover have "cv_lastResponseID (ws_conversation (connected_session answered_conversation)) = ''r1''"
    by (simp add: connected_session_def answered_conversation_def)
  ultimately show ?thesis using session_refines_conversation [OF loop] by blast
qed

theorem revoked_key_ends_session_witness:
  "\<exists>r es. handleTurn sample_settings sample_world None
       (final db_step (snd (RevokeAPIKey True ''k'' 7 (final db_step empty_database [(True, OpCreateKey (sample_key\<lparr>dk_id := ''k''\<rparr>))]))) [],
        new_session 0) = Some ((final db_step (snd (RevokeAPIKey True ''k'' 7
          (final db_step empty_database [(True, OpCreateKey (sample_key\<lparr>dk_id := ''k''\<rparr>))]))) [], new_session 0), r, es) \<and> tn_fatal r"
proof -
  let ?k = "sample_key\<lparr>dk_id := ''k'', dk_last_used_at := None, dk_revoked_at := None\<rparr>"
  let ?hist = "[(True, OpCreateKey (sample_key\<lparr>dk_id := ''k''\<rparr>))]"
  let ?db = "final db_step (snd (RevokeAPIKey True ''k'' 7 (final db_step empty_database ?hist))) []"
  have k: "?k \<in> set (db_keys (final db_step empty_database ?hist))" "dk_id ?k = ''k''"
    by (simp_all add: CreateAPIKey_def empty_database_def)
  have key: "sc_key sample_settings = Some (dk_id ?k)" by (simp add: sample_settings_def)
  have found: "tw_found sample_world" by (simp add: sample_world_def)
  have "FindActiveAPIKeyByID (tw_found sample_world) (dk_id ?k) ?db = Inl NotFound"
    using revoked_not_found(2) [OF revoked_reached [OF k(1), of 7 "[]"], of True] k(2) found by simp
  from refused_turn [OF key this, of None "new_session 0"] obtain r es where
    h: "handleTurn sample_settings sample_world None (?db, new_session 0) = Some ((?db, new_session 0), r, es)" .
  with revoked_key_ends_session [OF k(1) key _ h, of 7 "[]"] found k(2) show ?thesis by simp
qed

end
