(* ===== verification/ProxyHandlers.thy ===== *)
theory ProxyHandlers
  imports ChatConvert WebSocketSession WebServer
begin

text \<open>
  The HTTP handlers of the proxy (\<^verbatim>\<open>service.go\<close>, \<^verbatim>\<open>ChatCompletions\<close> of \<^verbatim>\<open>chat.go\<close>): one run reads the request, prepares
  it, takes the credential of the account, sends one request upstream, answers the client and writes one row of the
  request log. The translations are those of the other theories of the proxy. What the client, the upstream and the clock
  do is a record; the statements other requests run meanwhile are lists. A result is \<open>None\<close> only where the search for a
  fresh item id does not end.
\<close>

subsection \<open>Requests, answers and settings\<close>

record proxy_request =
  pq_method :: gostring
  pq_path :: gostring
  pq_headers :: headers
  pq_key :: "gostring option"
  pq_body :: gostring
  pq_body_end :: stream_end

datatype proxy_body =
    ProxyErrorJSON gostring gostring gostring
  | JSONBytes gostring
  | ChatJSON chat_completion
  | ModelsJSON "gostring list"
  | EventLines "gostring list"
  | ChatChunks "chunk list"

record proxy_reply =
  pr_status :: int
  pr_headers :: headers
  pr_body :: proxy_body

text \<open>The answer of the upstream: its body in the pieces that \<^verbatim>\<open>ReadBytes\<close> returns, each with its time.\<close>

record upstream_answer =
  ua_status :: int
  ua_headers :: headers
  ua_lines :: "(int \<times> gostring) list"
  ua_end :: stream_end

datatype upstream_outcome = Unreached gostring | Reached upstream_answer

text \<open>\<^verbatim>\<open>json\<close>: decoders into the structs of the code, encoders, and the texts of their errors; \<^verbatim>\<open>%q\<close>.\<close>

record proxy_lib =
  px_compat :: compat_lib
  px_oauth :: oauth_lib
  px_decode :: "gostring \<Rightarrow> gj option"
  px_error_text :: "gostring \<Rightarrow> gostring"
  px_quote :: "gostring \<Rightarrow> gostring"
  px_model :: "gostring \<Rightarrow> gostring"
  px_chat :: "gostring \<Rightarrow> chat_body"
  px_marshal :: "gj \<Rightarrow> gostring"
  px_collected :: "gostring \<Rightarrow> collected_event option"
  px_observed :: "gostring \<Rightarrow> observed_event option"
  px_chat_event :: "gostring \<Rightarrow> chat_event option"
  px_answer :: "gostring \<Rightarrow> chat_answer option"
  px_models :: "gostring \<Rightarrow> gostring + (gostring \<times> gostring \<times> gostring) list option"

text \<open>\<open>xc_url_error\<close>: whether \<^verbatim>\<open>http.NewRequest\<close> refuses a URL. \<open>xc_models_url\<close>: the URL with its query.\<close>

record proxy_config =
  xc_MaxRequestBytes :: int
  xc_UpstreamBaseURL :: gostring
  xc_remap :: bool
  xc_UserAgent :: gostring
  xc_ClientVersion :: gostring
  xc_url_error :: "gostring \<Rightarrow> gostring option"
  xc_models_url :: gostring

text \<open>
  What happens during one run. \<open>wd_before_refresh\<close> and \<open>wd_before_log\<close> are the statements of others between the two
  reads of the credential and before the row of the log; \<open>wd_room\<close> is how many writes the client takes.
\<close>

record proxy_world =
  wd_request_id :: gostring
  wd_log_id :: gostring
  wd_up :: bool
  wd_now :: int
  wd_before_refresh :: "(bool \<times> db_op) list"
  wd_refresh :: refresh_world
  wd_upstream :: upstream_outcome
  wd_flusher :: bool
  wd_room :: "nat option"
  wd_unix :: int
  wd_before_log :: "(bool \<times> db_op) list"
  wd_log_up :: bool
  wd_duration_ms :: int
  wd_log_at :: int

datatype proxy_effect =
    PostUpstream gostring headers gobj
  | GetUpstream gostring headers

subsection \<open>Texts of errors\<close>

fun identity_text :: "identity_error \<Rightarrow> gostring" where
  "identity_text NotAnObject = ''request body must be a JSON object''"
| "identity_text (MustBeString name) = name @ '' must be a string''"
| "identity_text (InvalidOrTooLong name) = name @ '' is invalid or too long''"
| "identity_text SessionInvalid = ''session identity is invalid or too long''"
| "identity_text CacheKeyChanged = ''prompt_cache_key cannot change on an active WebSocket''"
| "identity_text MappingCollision = ''identity mapping collision; start a new request''"
| "identity_text MappingBudget = ''identity mapping budget exceeded; reconnect with a compact transcript''"
| "identity_text ValueNotObject = ''value must be a JSON object''"
| "identity_text (Inside place e) = place @ '': '' @ identity_text e"

text \<open>The argument is the text of the decoder's own error.\<close>

fun normalize_text :: "gostring \<Rightarrow> normalize_error \<Rightarrow> gostring" where
  "normalize_text e MalformedBody = ''invalid Responses request: body must contain one JSON value''"
| "normalize_text e normalize_error.NotAnObject = ''invalid Responses request: '' @ e"
| "normalize_text e ModelRequired = ''model is required''"
| "normalize_text e InputRequired = ''input is required''"

fun chat_text :: "(gostring \<Rightarrow> gostring) \<Rightarrow> gostring \<Rightarrow> chat_error \<Rightarrow> gostring" where
  "chat_text quote e NotOneValue = ''invalid Chat Completions request: body must contain one JSON value''"
| "chat_text quote e (DecodeFailed t) = ''invalid Chat Completions request: '' @ t"
| "chat_text quote e NoModel = ''model is required''"
| "chat_text quote e NoMessages = ''messages is required''"
| "chat_text quote e NoToolCallID = ''tool message is missing tool_call_id''"
| "chat_text quote e (UnsupportedRole role) = ''unsupported message role '' @ quote role"
| "chat_text quote e NoUsableInput = ''messages did not contain any usable input''"
| "chat_text quote e (NotNormalizable n) = normalize_text e n"

fun collect_text :: "collect_error \<Rightarrow> gostring" where
  "collect_text (UpstreamFailure f) = ''upstream error: '' @ ue_Message f"
| "collect_text (ReadFailed e) = ''read upstream stream: '' @ e"
| "collect_text NoCompletedResponse = ''upstream stream ended without a completed response''"

subsection \<open>Writing answers\<close>

definition header_add :: "gostring \<Rightarrow> gostring \<Rightarrow> headers \<Rightarrow> headers" where
  "header_add name val h =
     AList.update (canonical_key name) ((case map_of h (canonical_key name) of Some vs \<Rightarrow> vs | None \<Rightarrow> []) @ [val]) h"

definition header_del :: "gostring \<Rightarrow> headers \<Rightarrow> headers" where
  "header_del name h = filter (\<lambda>(key, vs). key \<noteq> canonical_key name) h"

definition is_quota_header :: "(gostring \<Rightarrow> gostring) \<Rightarrow> gostring \<Rightarrow> bool" where
  "is_quota_header lower name =
     (let lowered = lower name
      in has_prefix lowered ''x-codex-'' \<or> has_prefix lowered ''x-ratelimit-'' \<or> lowered = ''retry-after''
         \<or> lowered = ''openai-request-id'')"

definition copyQuotaHeaders :: "(gostring \<Rightarrow> gostring) \<Rightarrow> headers \<Rightarrow> headers \<Rightarrow> headers" where
  "copyQuotaHeaders lower target source =
     fold (\<lambda>(name, vals) t. if is_quota_header lower name then fold (header_add name) vals (header_del name t) else t)
       source target"

definition writeJSONBytes :: "int \<Rightarrow> proxy_body \<Rightarrow> gostring \<Rightarrow> headers \<Rightarrow> proxy_reply" where
  "writeJSONBytes status payload requestID h =
     \<lparr>pr_status = status,
      pr_headers = header_set ''X-Request-Id'' requestID (header_set ''Content-Type'' ''application/json; charset=utf-8'' h),
      pr_body = payload\<rparr>"

definition writeProxyError :: "int \<Rightarrow> gostring \<Rightarrow> gostring \<Rightarrow> gostring \<Rightarrow> headers \<Rightarrow> proxy_reply" where
  "writeProxyError status code message requestID h =
     writeJSONBytes status (ProxyErrorJSON message code code) requestID h"

definition writeUpstreamResponseFailure ::
  "(gostring \<Rightarrow> gostring) \<Rightarrow> upstreamResponseError \<Rightarrow> gostring \<Rightarrow> headers \<Rightarrow> proxy_reply" where
  "writeUpstreamResponseFailure lower failure requestID h =
     (let errorType = firstNonEmpty [ue_Type failure, ''upstream_response_failed''];
          errorCode = firstNonEmpty [ue_Code failure, errorType]
      in writeJSONBytes (HTTPStatus lower failure)
           (ProxyErrorJSON (trimText (ue_Message failure) 500) errorType errorCode) requestID h)"

text \<open>The headers of an answer whose body is the upstream's.\<close>

definition upstream_content :: "headers \<Rightarrow> gostring \<Rightarrow> headers \<Rightarrow> headers" where
  "upstream_content source requestID h =
     header_set ''X-Request-Id'' requestID
       (header_set ''Content-Type'' (firstNonEmpty [header_get source ''Content-Type'', ''application/json'']) h)"

definition writeUpstreamError ::
  "(gostring \<Rightarrow> gostring) \<Rightarrow> upstream_answer \<Rightarrow> gostring \<Rightarrow> gostring \<Rightarrow> headers \<Rightarrow> proxy_reply" where
  "writeUpstreamError lower answer raw requestID h =
     \<lparr>pr_status = ua_status answer,
      pr_headers = copyQuotaHeaders lower (upstream_content (ua_headers answer) requestID h) (ua_headers answer),
      pr_body = JSONBytes raw\<rparr>"

definition event_stream_headers :: "gostring \<Rightarrow> headers \<Rightarrow> headers" where
  "event_stream_headers requestID h =
     header_set ''X-Request-Id'' requestID (header_set ''X-Accel-Buffering'' ''no''
       (header_set ''Cache-Control'' ''no-cache'' (header_set ''Content-Type'' ''text/event-stream'' h)))"

text \<open>\<^verbatim>\<open>io.ReadAll\<close> of \<^verbatim>\<open>http.MaxBytesReader\<close>: the body of the request, or nothing.\<close>

definition read_body :: "proxy_config \<Rightarrow> proxy_request \<Rightarrow> gostring option" where
  "read_body xc r =
     (if pq_body_end r = EOF \<and> int (length (pq_body r)) \<le> max 0 (xc_MaxRequestBytes xc) then Some (pq_body r) else None)"

text \<open>\<^verbatim>\<open>io.ReadAll\<close> of \<^verbatim>\<open>io.LimitReader\<close>: what was read, and the error if the limit was not reached before it.\<close>

definition read_limited :: "nat \<Rightarrow> upstream_answer \<Rightarrow> gostring \<times> gostring option" where
  "read_limited limit answer =
     (let raw = concat (map snd (ua_lines answer))
      in if length raw \<ge> limit then (take limit raw, None)
         else (raw, case ua_end answer of EOF \<Rightarrow> None | ReadError e \<Rightarrow> Some e))"

definition is_2xx :: "int \<Rightarrow> bool" where
  "is_2xx status \<longleftrightarrow> status \<ge> 200 \<and> status < 300"

subsection \<open>Results of a run\<close>

text \<open>The variables that the deferred \<^verbatim>\<open>record\<close> reads, and the answer.\<close>

record handled =
  hd_model :: gostring
  hd_status :: int
  hd_err :: gostring
  hd_input :: int
  hd_output :: int
  hd_telemetry :: requestTelemetry
  hd_reply :: proxy_reply

definition answered_ok :: "gostring \<Rightarrow> requestTelemetry \<Rightarrow> proxy_reply \<Rightarrow> handled" where
  "answered_ok model t rp =
     \<lparr>hd_model = model, hd_status = 200, hd_err = [], hd_input = 0, hd_output = 0, hd_telemetry = t, hd_reply = rp\<rparr>"

text \<open>\<open>message\<close> is what the client reads, \<open>e\<close> what the log keeps.\<close>

definition failed_with ::
  "proxy_world \<Rightarrow> headers \<Rightarrow> gostring \<Rightarrow> requestTelemetry \<Rightarrow> int \<Rightarrow> gostring \<Rightarrow> gostring \<Rightarrow> gostring \<Rightarrow> handled" where
  "failed_with w h model t status code e message =
     \<lparr>hd_model = model, hd_status = status, hd_err = e, hd_input = 0, hd_output = 0, hd_telemetry = t,
      hd_reply = writeProxyError status code message (wd_request_id w) h\<rparr>"

definition accountUnavailableClientMessage :: gostring where
  "accountUnavailableClientMessage = ''Codex account is unavailable; reconnect it in the admin dashboard''"

text \<open>\<^verbatim>\<open>FreshCredential\<close> of a run: its result, and the database after it and the statements of others.\<close>

definition run_credential ::
  "proxy_lib \<Rightarrow> proxy_world \<Rightarrow> database \<Rightarrow> (auth_error + Credential) \<times> database" where
  "run_credential px w db =
     (let (result, db', sent) = FreshCredential (ol_auth (px_oauth px)) (wd_up w) (wd_now w) db (wd_refresh w)
            (final db_step db (wd_before_refresh w))
      in (result, db'))"

text \<open>The request to the upstream; on an error the status, the code and the text.\<close>

definition upstream_headers ::
  "proxy_lib \<Rightarrow> proxy_config \<Rightarrow> gostring \<Rightarrow> gostring \<Rightarrow> Credential \<Rightarrow> headers \<Rightarrow> codexIdentity \<Rightarrow>
     codexIdentity \<times> ((int \<times> gostring \<times> gostring) + headers)" where
  "upstream_headers px xc url accept credential client i =
     (case xc_url_error xc url of
        Some e \<Rightarrow> (i, Inl (500, ''request_failed'', e))
      | None \<Rightarrow>
          (case applyHeaders (cl_identity (px_compat px))
                  (copyCodexContextHeaders (header_set ''Content-Type'' ''application/json'' []) client) client False i of
             (i', Inl e) \<Rightarrow> (i', Inl (400, ''invalid_request'', identity_text e))
           | (i', Inr h) \<Rightarrow>
               (i', Inr (ApplyCodexHeaders (xc_UserAgent xc) (xc_ClientVersion xc) credential accept h))))"

subsection \<open>Responses and chat completions\<close>

text \<open>
  The two handlers share what follows their own reading of the request: \<open>kind\<close> has the parts in which they differ.
  \<open>rk_prepare\<close> is the last change of the body, \<open>rk_stream\<close> the answer with its headers and result as a stream, \<open>rk_final\<close> the
  answer for a collected response.
\<close>

record responses_kind =
  rk_prepare :: "gj \<Rightarrow> gostring \<Rightarrow> gostring \<Rightarrow> headers \<Rightarrow> codexIdentity \<Rightarrow> (codexIdentity \<times> (identity_error + gobj)) option"
  rk_stream :: "codexIdentity \<Rightarrow> upstream_answer \<Rightarrow> proxy_body \<times> stream_result"
  rk_final :: "gostring \<Rightarrow> gostring + proxy_body"

definition stream_answer ::
  "proxy_world \<Rightarrow> headers \<Rightarrow> gostring \<Rightarrow> requestTelemetry \<Rightarrow> proxy_body \<times> stream_result \<Rightarrow> handled" where
  "stream_answer w h model t br =
     (if \<not> wd_flusher w
      then (answered_ok model (mergeResponse no_telemetry no_usage t)
              (writeProxyError 500 ''streaming_unsupported'' ''server does not support streaming'' (wd_request_id w) h))
             \<lparr>hd_status := 500, hd_err := ''streaming unsupported''\<rparr>
      else (let (payload, r) = br
            in \<lparr>hd_model = model, hd_status = sr_status r, hd_err = sr_errText r, hd_input = InputTokens (sr_usage r),
                hd_output = OutputTokens (sr_usage r), hd_telemetry = mergeResponse (sr_telemetry r) (sr_usage r) t,
                hd_reply = \<lparr>pr_status = 200, pr_headers = event_stream_headers (wd_request_id w) h, pr_body = payload\<rparr>\<rparr>))"

definition collected_answer ::
  "proxy_lib \<Rightarrow> proxy_world \<Rightarrow> responses_kind \<Rightarrow> headers \<Rightarrow> gostring \<Rightarrow> requestTelemetry \<Rightarrow> codexIdentity \<Rightarrow> upstream_answer \<Rightarrow> handled" where
  "collected_answer px w kind h model t i answer =
     (case collectResponse (cl_lower (px_compat px)) (px_collected px) (exposePayload (cl_identity (px_compat px)) i)
             (ua_end answer) (map snd (ua_lines answer)) of
        (Inl (UpstreamFailure f), u) \<Rightarrow>
          (let status = HTTPStatus (cl_lower (px_compat px)) f
           in (answered_ok model t (writeUpstreamResponseFailure (cl_lower (px_compat px)) f (wd_request_id w) h))
                \<lparr>hd_status := status, hd_err := collect_text (UpstreamFailure f)\<rparr>)
      | (Inl e, u) \<Rightarrow> failed_with w h model t 502 ''upstream_stream_failed'' (collect_text e) (collect_text e)
      | (Inr final_response, u) \<Rightarrow>
          (let t' = mergeResponse no_telemetry u t
           in (case rk_final kind final_response of
                 Inl e \<Rightarrow> failed_with w h model t' 502 ''invalid_upstream_response'' e e
               | Inr payload \<Rightarrow> answered_ok model t' (writeJSONBytes 200 payload (wd_request_id w) h))
                \<lparr>hd_input := InputTokens u, hd_output := OutputTokens u\<rparr>))"

definition answer_responses ::
  "proxy_lib \<Rightarrow> proxy_world \<Rightarrow> responses_kind \<Rightarrow> bool \<Rightarrow> gostring \<Rightarrow> requestTelemetry \<Rightarrow> codexIdentity \<Rightarrow> upstream_answer \<Rightarrow> handled" where
  "answer_responses px w kind streaming model t i answer =
     (let h = copyQuotaHeaders (cl_lower (px_compat px)) [] (ua_headers answer)
      in if \<not> is_2xx (ua_status answer)
         then (let raw = exposePayload (cl_identity (px_compat px)) i (fst (read_limited (2 * 1024 * 1024) answer))
               in (answered_ok model t (writeUpstreamError (cl_lower (px_compat px)) answer raw (wd_request_id w) h))
                    \<lparr>hd_status := ua_status answer, hd_err := compactError raw\<rparr>)
         else if streaming then stream_answer w h model t (rk_stream kind i answer)
         else collected_answer px w kind h model t i answer)"

definition send_responses ::
  "proxy_lib \<Rightarrow> proxy_config \<Rightarrow> proxy_world \<Rightarrow> responses_kind \<Rightarrow> bool \<Rightarrow> gostring \<Rightarrow> requestTelemetry \<Rightarrow> headers \<Rightarrow> Credential \<Rightarrow>
     gobj \<times> codexIdentity \<Rightarrow> (handled \<times> proxy_effect list) option" where
  "send_responses px xc w kind streaming model t client credential bi =
     (case rk_prepare kind (JObj (fst bi)) model (cr_PlanType credential) client (snd bi) of
        None \<Rightarrow> None
      | Some (i1, Inl e) \<Rightarrow> Some (failed_with w [] model t 400 ''invalid_request'' (identity_text e) (identity_text e), [])
      | Some (i1, Inr body) \<Rightarrow>
          (let url = xc_UpstreamBaseURL xc @ ''/backend-api/codex/responses''
           in case upstream_headers px xc url ''text/event-stream'' credential client i1 of
                (i2, Inl (status, code, e)) \<Rightarrow> Some (failed_with w [] model t status code e e, [])
              | (i2, Inr h) \<Rightarrow>
                  Some (case wd_upstream w of
                          Unreached e \<Rightarrow> failed_with w [] model t 502 ''upstream_unavailable'' e e
                        | Reached answer \<Rightarrow> answer_responses px w kind streaming model t i2 answer,
                        [PostUpstream url h body])))"

text \<open>From the body that the reading of the request made: identity, credential, upstream.\<close>

definition run_responses ::
  "proxy_lib \<Rightarrow> proxy_config \<Rightarrow> proxy_world \<Rightarrow> proxy_request \<Rightarrow> responses_kind \<Rightarrow> bool \<Rightarrow> gostring \<Rightarrow> gobj \<Rightarrow> database \<Rightarrow>
     (handled \<times> database \<times> proxy_effect list) option" where
  "run_responses px xc w r kind streaming model body db =
     (case prepareRequestIdentity (cl_identity (px_compat px)) (pq_key r) (pq_headers r) (JObj body) (xc_remap xc) of
        Inl e \<Rightarrow> Some (failed_with w [] model no_telemetry 400 ''invalid_request'' (identity_text e) (identity_text e), db, [])
      | Inr bi \<Rightarrow>
          (let t = no_telemetry\<lparr>ReasoningEffort :=
                 reasoningEffortFromBody (cl_lower (px_compat px)) (effort_fields (fst bi))\<rparr>
           in case run_credential px w db of
                (Inl e, db') \<Rightarrow>
                  Some (failed_with w [] model t 503 ''account_unavailable'' (error_message (px_oauth px) e)
                    accountUnavailableClientMessage, db', [])
              | (Inr credential, db') \<Rightarrow>
                  map_option (\<lambda>(res, es). (res, db', es))
                    (send_responses px xc w kind streaming model t (pq_headers r) credential bi)))"

definition responses_kind_of :: "proxy_lib \<Rightarrow> proxy_world \<Rightarrow> responses_kind" where
  "responses_kind_of px w =
     \<lparr>rk_prepare = prepareCodexHTTPBody (px_compat px),
      rk_stream = (\<lambda>i answer.
        let (lines, r) = streamResponse (cl_lower (px_compat px)) (px_observed px) (exposePayload (cl_identity (px_compat px)) i)
              (ua_end answer) (wd_room w) (no_usage, no_telemetry) (ua_lines answer)
        in (EventLines lines, r)),
      rk_final = (\<lambda>raw. Inr (JSONBytes raw))\<rparr>"

definition handleResponsesPath ::
  "proxy_lib \<Rightarrow> proxy_config \<Rightarrow> proxy_world \<Rightarrow> proxy_request \<Rightarrow> database \<Rightarrow> (handled \<times> database \<times> proxy_effect list) option" where
  "handleResponsesPath px xc w r db =
     (let refuse = (\<lambda>e. Some (failed_with w [] [] no_telemetry 400 ''invalid_request'' e e, db, []))
      in case read_body xc r of
           None \<Rightarrow> refuse ''request body is too large or unreadable''
         | Some raw \<Rightarrow>
             (case normalizeResponsesRequest (cl_lower (px_compat px)) (px_decode px raw) of
                Inl e \<Rightarrow> refuse (normalize_text (px_error_text px raw) e)
              | Inr (body, requestedStream, model) \<Rightarrow>
                  run_responses px xc w r (responses_kind_of px w) requestedStream model body db))"

definition chat_kind :: "proxy_lib \<Rightarrow> proxy_world \<Rightarrow> bool \<Rightarrow> gostring \<Rightarrow> responses_kind" where
  "chat_kind px w includeUsage model =
     \<lparr>rk_prepare = prepareCodexChatBody (px_compat px),
      rk_stream = (\<lambda>i answer.
        let (chunks, r) = streamChatResponse (cl_lower (px_compat px)) (px_chat_event px)
              (exposePayload (cl_identity (px_compat px)) i) model includeUsage (wd_unix w) (ua_end answer) (wd_room w)
              (ua_lines answer)
        in (ChatChunks chunks, r)),
      rk_final = (\<lambda>raw.
        case convertChatResponse (wd_unix w) (px_answer px raw) of
          None \<Rightarrow> Inl (''decode completed response: '' @ px_error_text px raw)
        | Some c \<Rightarrow> Inr (ChatJSON c))\<rparr>"

definition handleChat ::
  "proxy_lib \<Rightarrow> proxy_config \<Rightarrow> proxy_world \<Rightarrow> proxy_request \<Rightarrow> database \<Rightarrow> (handled \<times> database \<times> proxy_effect list) option" where
  "handleChat px xc w r db =
     (case read_body xc r of
        None \<Rightarrow>
          (let e = ''request body is too large or unreadable''
           in Some (failed_with w [] [] no_telemetry 400 ''invalid_request'' e e, db, []))
      | Some raw \<Rightarrow>
          (case convertChatRequest (cl_lower (px_compat px)) (px_marshal px) (px_chat px raw) of
             (model, Inl ce) \<Rightarrow>
               (let e = chat_text (px_quote px) (px_error_text px raw) ce
                in Some (failed_with w [] model no_telemetry 400 ''invalid_request'' e e, db, []))
           | (model, Inr (body, stream, includeUsage)) \<Rightarrow>
               run_responses px xc w r (chat_kind px w includeUsage model) stream model body db))"

subsection \<open>Passing JSON through\<close>

definition passthrough_answer ::
  "proxy_lib \<Rightarrow> proxy_world \<Rightarrow> gostring \<Rightarrow> codexIdentity \<Rightarrow> upstream_answer \<Rightarrow> handled" where
  "passthrough_answer px w model i answer =
     (case read_limited (32 * 1024 * 1024) answer of
        (read, Some e) \<Rightarrow> failed_with w [] model no_telemetry 502 ''upstream_read_failed'' e e
      | (read, None) \<Rightarrow>
          (let raw = exposePayload (cl_identity (px_compat px)) i read;
               h = copyQuotaHeaders (cl_lower (px_compat px)) [] (ua_headers answer)
           in (answered_ok model no_telemetry
                 \<lparr>pr_status = ua_status answer, pr_headers = upstream_content (ua_headers answer) (wd_request_id w) h,
                  pr_body = JSONBytes raw\<rparr>)
                \<lparr>hd_status := ua_status answer, hd_err := (if \<not> is_2xx (ua_status answer) then compactError raw else [])\<rparr>))"

definition send_passthrough ::
  "proxy_lib \<Rightarrow> proxy_config \<Rightarrow> proxy_world \<Rightarrow> gostring \<Rightarrow> gostring \<Rightarrow> headers \<Rightarrow> Credential \<Rightarrow> gobj \<times> codexIdentity \<Rightarrow>
     handled \<times> proxy_effect list" where
  "send_passthrough px xc w upstreamPath model client credential bi =
     (let url = xc_UpstreamBaseURL xc @ upstreamPath
      in case upstream_headers px xc url ''application/json'' credential client (snd bi) of
           (i, Inl (status, code, e)) \<Rightarrow> (failed_with w [] model no_telemetry status code e e, [])
         | (i, Inr h) \<Rightarrow>
             (case wd_upstream w of
                Unreached e \<Rightarrow> failed_with w [] model no_telemetry 502 ''upstream_unavailable'' e e
              | Reached answer \<Rightarrow> passthrough_answer px w model i answer,
              [PostUpstream url h (fst bi)]))"

text \<open>Here the body is prepared before the credential is asked for.\<close>

definition handlePassthroughJSON ::
  "proxy_lib \<Rightarrow> proxy_config \<Rightarrow> gostring \<Rightarrow> proxy_world \<Rightarrow> proxy_request \<Rightarrow> database \<Rightarrow>
     (handled \<times> database \<times> proxy_effect list) option" where
  "handlePassthroughJSON px xc upstreamPath w r db =
     (case Option.bind (read_body xc r) (\<lambda>raw. map_option (\<lambda>v. (px_model px raw, v)) (px_decode px raw)) of
        None \<Rightarrow>
          (let e = ''request body must be valid JSON''
           in Some (failed_with w [] [] no_telemetry 400 ''invalid_request'' e e, db, []))
      | Some (model, v) \<Rightarrow>
          (let refuse = (\<lambda>e. (failed_with w [] model no_telemetry 400 ''invalid_request'' (identity_text e) (identity_text e), db, []))
           in case prepareRequestIdentity (cl_identity (px_compat px)) (pq_key r) (pq_headers r) v (xc_remap xc) of
                Inl e \<Rightarrow> Some (refuse e)
              | Inr (b, i) \<Rightarrow>
                  map_option (\<lambda>(i1, prepared_body).
                      case prepared_body of
                        Inl e \<Rightarrow> refuse e
                      | Inr body \<Rightarrow>
                          (case run_credential px w db of
                             (Inl e, db') \<Rightarrow>
                               (failed_with w [] model no_telemetry 503 ''account_unavailable'' (error_message (px_oauth px) e)
                                  accountUnavailableClientMessage, db', [])
                           | (Inr credential, db') \<Rightarrow>
                               (let (res, es) = send_passthrough px xc w upstreamPath model (pq_headers r) credential (body, i1)
                                in (res, db', es))))
                    (prepareCodexPassthroughBody (px_compat px) (JObj b) i)))"

subsection \<open>The list of models\<close>

fun model_ids :: "gostring list \<Rightarrow> (gostring \<times> gostring \<times> gostring) list \<Rightarrow> gostring list" where
  "model_ids seen [] = []"
| "model_ids seen ((slug, identifier, name) # rest) =
     (let i = firstNonEmpty [slug, identifier, name]
      in if i = [] then model_ids seen rest
         else if i \<in> set seen then model_ids seen rest
         else i # model_ids (i # seen) rest)"

definition convertModels :: "proxy_lib \<Rightarrow> gostring \<Rightarrow> gostring + gostring list" where
  "convertModels px raw =
     (case px_models px raw of
        Inl e \<Rightarrow> Inl (''decode Codex model catalog: '' @ e)
      | Inr None \<Rightarrow> Inl ''Codex model catalog has no models array''
      | Inr (Some models) \<Rightarrow> Inr (model_ids [] models))"

text \<open>\<^verbatim>\<open>models\<close> and \<^verbatim>\<open>modelsAt\<close>; the converted list is never empty as bytes.\<close>

type_synonym modelsCache = "(gostring list \<times> int) option"

definition cached_models :: "int \<Rightarrow> modelsCache \<Rightarrow> gostring list option" where
  "cached_models now c =
     (case c of None \<Rightarrow> None | Some (models, since) \<Rightarrow> if now - since < minutes 10 then Some models else None)"

text \<open>What follows a miss; the last component is the list that is stored.\<close>

definition models_answer :: "proxy_lib \<Rightarrow> proxy_world \<Rightarrow> upstream_answer \<Rightarrow> handled \<times> gostring list option" where
  "models_answer px w answer =
     (case read_limited (8 * 1024 * 1024) answer of
        (raw, Some e) \<Rightarrow> (failed_with w [] [] no_telemetry 502 ''upstream_read_failed'' e e, None)
      | (raw, None) \<Rightarrow>
          if \<not> is_2xx (ua_status answer)
          then ((answered_ok [] no_telemetry (writeUpstreamError (cl_lower (px_compat px)) answer raw (wd_request_id w) []))
                  \<lparr>hd_status := ua_status answer, hd_err := compactError raw\<rparr>, None)
          else (case convertModels px raw of
                  Inl e \<Rightarrow> (failed_with w [] [] no_telemetry 502 ''invalid_upstream_response'' e e, None)
                | Inr models \<Rightarrow>
                    (answered_ok [] no_telemetry (writeJSONBytes 200 (ModelsJSON models) (wd_request_id w) []), Some models)))"

definition fetch_models ::
  "proxy_lib \<Rightarrow> proxy_config \<Rightarrow> proxy_world \<Rightarrow> database \<Rightarrow> (handled \<times> gostring list option) \<times> database \<times> proxy_effect list" where
  "fetch_models px xc w db =
     (case run_credential px w db of
        (Inl e, db') \<Rightarrow>
          ((failed_with w [] [] no_telemetry 503 ''account_unavailable'' (error_message (px_oauth px) e)
              accountUnavailableClientMessage, None), db', [])
      | (Inr credential, db') \<Rightarrow>
          (case xc_url_error xc (xc_models_url xc) of
             Some e \<Rightarrow> ((failed_with w [] [] no_telemetry 500 ''request_failed'' e e, None), db', [])
           | None \<Rightarrow>
               ((case wd_upstream w of
                   Unreached e \<Rightarrow> (failed_with w [] [] no_telemetry 502 ''upstream_unavailable'' e e, None)
                 | Reached answer \<Rightarrow> models_answer px w answer),
                db', [GetUpstream (xc_models_url xc)
                  (ApplyCodexHeaders (xc_UserAgent xc) (xc_ClientVersion xc) credential ''application/json'' [])])))"

definition handleModels ::
  "proxy_lib \<Rightarrow> proxy_config \<Rightarrow> proxy_world \<Rightarrow> modelsCache \<Rightarrow> database \<Rightarrow>
     (handled \<times> gostring list option) \<times> database \<times> proxy_effect list" where
  "handleModels px xc w c db =
     (case cached_models (wd_now w) c of
        Some models \<Rightarrow>
          ((answered_ok [] no_telemetry (writeJSONBytes 200 (ModelsJSON models) (wd_request_id w) []), None), db, [])
      | None \<Rightarrow> fetch_models px xc w db)"

subsection \<open>The request log\<close>

definition log_entry :: "proxy_world \<Rightarrow> proxy_request \<Rightarrow> handled \<Rightarrow> RequestLog" where
  "log_entry w r res =
     \<lparr>lg_id = wd_log_id w, lg_request_id = wd_request_id w,
      lg_api_key_id = (case pq_key r of Some k \<Rightarrow> k | None \<Rightarrow> []), lg_api_key_name = [],
      lg_method = pq_method r, lg_path = pq_path r, lg_model = hd_model res, lg_status = hd_status res,
      lg_duration_ms = wd_duration_ms w, lg_input_tokens = hd_input res, lg_output_tokens = hd_output res,
      lg_reasoning_tokens = TelReasoningTokens (hd_telemetry res), lg_reasoning_effort = ReasoningEffort (hd_telemetry res),
      lg_upstream_reasoning_effort = UpstreamReasoningEffort (hd_telemetry res),
      lg_first_reasoning_ms = FirstReasoningMS (hd_telemetry res), lg_first_output_ms = FirstOutputMS (hd_telemetry res),
      lg_error = trimText (hd_err res) 500, lg_created_at = wd_log_at w\<rparr>"

definition record_request :: "proxy_world \<Rightarrow> proxy_request \<Rightarrow> handled \<Rightarrow> database \<Rightarrow> database" where
  "record_request w r res db = snd (InsertRequestLog (wd_log_up w) (log_entry w r res) (final db_step db (wd_before_log w)))"

subsection \<open>The routes\<close>

datatype proxy_call = PostResponses | PostCompact | PostInputTokens | PostChatCompletions | GetModels

fun proxy_run ::
  "proxy_lib \<Rightarrow> proxy_config \<Rightarrow> proxy_call \<Rightarrow> proxy_world \<Rightarrow> proxy_request \<Rightarrow> modelsCache \<Rightarrow> database \<Rightarrow>
     ((handled \<times> gostring list option) \<times> database \<times> proxy_effect list) option" where
  "proxy_run px xc PostResponses w r c db = map_option (\<lambda>(res, x). ((res, None), x)) (handleResponsesPath px xc w r db)"
| "proxy_run px xc PostCompact w r c db =
     map_option (\<lambda>(res, x). ((res, None), x)) (handlePassthroughJSON px xc ''/backend-api/codex/responses/compact'' w r db)"
| "proxy_run px xc PostInputTokens w r c db =
     map_option (\<lambda>(res, x). ((res, None), x)) (handlePassthroughJSON px xc ''/backend-api/codex/responses/input_tokens'' w r db)"
| "proxy_run px xc PostChatCompletions w r c db = map_option (\<lambda>(res, x). ((res, None), x)) (handleChat px xc w r db)"
| "proxy_run px xc GetModels w r c db = Some (handleModels px xc w c db)"

text \<open>The answer, the list of models that was stored, the database and what was sent upstream.\<close>

record proxy_outcome =
  po_reply :: proxy_reply
  po_stored :: "gostring list option"
  po_db :: database
  po_sent :: "proxy_effect list"

definition shutting_down :: "proxy_world \<Rightarrow> proxy_reply" where
  "shutting_down w =
     writeProxyError 503 ''server_shutting_down'' ''CodexOne is shutting down; retry shortly'' (wd_request_id w)
       (header_set ''Retry-After'' ''5'' [])"

text \<open>\<open>accepted\<close> is what \<^verbatim>\<open>beginRequest\<close> returned. The row is written when the handler returns, whatever happened in it.\<close>

definition proxy_serve ::
  "proxy_lib \<Rightarrow> proxy_config \<Rightarrow> bool \<Rightarrow> proxy_call \<Rightarrow> proxy_world \<Rightarrow> proxy_request \<Rightarrow> modelsCache \<Rightarrow> database \<Rightarrow> proxy_outcome option" where
  "proxy_serve px xc accepted call w r c db =
     (if \<not> accepted then Some \<lparr>po_reply = shutting_down w, po_stored = None, po_db = db, po_sent = []\<rparr>
      else map_option (\<lambda>((res, stored), db', es).
             \<lparr>po_reply = hd_reply res, po_stored = stored, po_db = record_request w r res db', po_sent = es\<rparr>)
           (proxy_run px xc call w r c db))"

end
