(* ===== verification/ProxyRuns.thy ===== *)
theory ProxyRuns
  imports ProxyHandlers
begin

text \<open>
  What the handlers of the proxy guarantee: what a run does to the database, what it sends upstream with whose
  credential, what the row of the log says, and that a run is one of the calls behind the API keys of the web server.
\<close>

subsection \<open>The database\<close>

definition saves_account :: "bool \<times> db_op \<Rightarrow> bool" where
  "saves_account x = (case snd x of OpSaveAccount a t \<Rightarrow> True | _ \<Rightarrow> False)"

lemma saved_step:
  "\<exists>ops. list_all saves_account ops \<and> snd (saveCredential al sw credential db) = final db_step db ops"
proof -
  obtain n1 n2 n3 where n: "sw_nonces sw = (n1, n2, n3)" by (cases "sw_nonces sw") auto
  have "snd (saveCredential al sw credential db) = db \<or>
    (\<exists>up a t. snd (saveCredential al sw credential db) = snd (SaveAccount up a t db))"
    by (auto simp: saveCredential_def n split: sum.split prod.split) (metis snd_conv)+
  then show ?thesis
  proof (elim disjE exE)
    assume "snd (saveCredential al sw credential db) = db"
    then show ?thesis by (intro exI [of _ "[]"]) simp
  next
    fix up a t assume "snd (saveCredential al sw credential db) = snd (SaveAccount up a t db)"
    then show ?thesis by (intro exI [of _ "[(up, OpSaveAccount a t)]"]) (simp add: saves_account_def)
  qed
qed

lemma refreshed_step:
  "\<exists>ops. list_all saves_account ops \<and> fst (snd (FreshCredential al up now db_read rw db)) = final db_step db ops"
proof -
  have "fst (snd (FreshCredential al up now db_read rw db)) = db \<or>
    (\<exists>c. fst (snd (FreshCredential al up now db_read rw db)) = snd (saveCredential al (fw_save rw) c db))"
    by (auto simp: FreshCredential_def refresh_locked_def split: sum.split prod.split option.split) (metis snd_conv)+
  then show ?thesis using saved_step by (metis exec.simps(1) fst_conv list.pred_inject(1))
qed

text \<open>The database a credential is taken from: that of the run, after statements of others and the refresh.\<close>

lemma credential_step:
  "\<exists>ops. list_all saves_account ops \<and> snd (run_credential px w db) = final db_step db (wd_before_refresh w @ ops)"
  using refreshed_step [of "ol_auth (px_oauth px)" "wd_up w" "wd_now w" db "wd_refresh w" "final db_step db (wd_before_refresh w)"]
  by (auto simp: run_credential_def final_append split: prod.split)

subsection \<open>The shape of a run\<close>

definition context_names :: "gostring list" where
  "context_names = map canonical_key
     [''Content-Type'', ''X-Codex-Beta-Features'', ''X-Codex-Turn-Metadata'', ''X-Client-Request-Id'', ''X-Codex-Window-Id'',
      ''X-Codex-Turn-State'', ''X-ResponsesAPI-Include-Timing-Metrics'', ''Thread-Id'', ''Session-Id'',
      ''Session_id'', ''Conversation_id'', ''X-OpenAI-Internal-Codex-Responses-Lite'']"

fun sent_headers :: "proxy_effect \<Rightarrow> headers" where
  "sent_headers (PostUpstream url h body) = h"
| "sent_headers (GetUpstream url h) = h"

definition of_account :: "proxy_config \<Rightarrow> Credential \<Rightarrow> proxy_effect \<Rightarrow> bool" where
  "of_account xc credential e \<longleftrightarrow> (\<exists>h accept. sent_headers e = ApplyCodexHeaders (xc_UserAgent xc) (xc_ClientVersion xc) credential accept h
     \<and> fst ` set h \<subseteq> set context_names)"

definition run_shape :: "proxy_lib \<Rightarrow> proxy_config \<Rightarrow> proxy_world \<Rightarrow> database \<Rightarrow> database \<Rightarrow> proxy_effect list \<Rightarrow> bool" where
  "run_shape px xc w db db' es \<longleftrightarrow>
     db' = db \<and> es = [] \<or>
     db' = snd (run_credential px w db) \<and>
       (es = [] \<or> (\<exists>credential e. es = [e] \<and> fst (run_credential px w db) = Inr credential \<and> of_account xc credential e))"

lemma names_update: "fst ` set (AList.update k v xs) = insert k (fst ` set xs)"
  by (simp add: update_conv' flip: dom_map_of_conv_image_fst)

lemma names_set: "fst ` set (header_set n v h) = insert (canonical_key n) (fst ` set h)"
  by (simp add: header_set_def names_update)

lemma fold_subset: "(\<And>x t. x \<in> set xs \<Longrightarrow> fst ` set t \<subseteq> S \<Longrightarrow> fst ` set (f x t) \<subseteq> S) \<Longrightarrow> fst ` set t \<subseteq> S \<Longrightarrow>
    fst ` set (fold f xs t) \<subseteq> (S :: gostring set)"
  by (induction xs arbitrary: t) auto

lemma context_copied:
  "fst ` set (copyCodexContextHeaders (header_set ''Content-Type'' ''application/json'' []) source) \<subseteq> set context_names"
  unfolding copyCodexContextHeaders_def
  by (rule fold_subset) (auto simp: names_set context_names_def Let_def)

lemma header_field_names:
  "header_field mapper source n i t = (i', Inr t') \<Longrightarrow> fst ` set t' \<subseteq> insert (canonical_key n) (fst ` set t)"
proof -
  assume "header_field mapper source n i t = (i', Inr t')"
  then have "t' = t \<or> (\<exists>v. t' = header_set n v t)"
    by (auto simp: header_field_def Let_def and_then_def split: if_splits sum.splits)
  then show ?thesis using names_set by blast
qed

lemma delete_names: "fst ` set (fold (deleteHeaderFold il) ns h) \<subseteq> fst ` set h"
  by (auto simp: delete_all)

lemma context_members:
  "canonical_key ''Session-Id'' \<in> set context_names" "''Conversation_id'' \<in> set context_names"
  "canonical_key ''X-Client-Request-Id'' \<in> set context_names" "canonical_key ''Thread-Id'' \<in> set context_names"
  "canonical_key ''X-Codex-Window-Id'' \<in> set context_names" "canonical_key ''X-Codex-Turn-Metadata'' \<in> set context_names"
proof -
  have "canonical_key ''Conversation_id'' = ''Conversation_id''"
    by (simp add: canonical_key_def upper_char_def lower_char_def within_bytes_def byte_def)
  moreover have "canonical_key ''Conversation_id'' \<in> set context_names" by (simp add: context_names_def)
  ultimately show "''Conversation_id'' \<in> set context_names" by (simp only:)
qed (simp_all add: context_names_def)

lemma names_grow: "fst ` set t \<subseteq> S \<Longrightarrow> k \<in> S \<Longrightarrow> fst ` set (AList.update k v t) \<subseteq> S"
  by (simp add: names_update)

lemma session_names_sent:
  assumes "fst ` set target \<subseteq> set context_names"
  shows "fst ` set (session_headers il False source i target) \<subseteq> set context_names"
proof -
  have deleted: "fst ` set (fold (deleteHeaderFold il) ns target) \<subseteq> set context_names" for ns
    using delete_names assms by (rule subset_trans)
  show ?thesis
    unfolding session_headers_def Let_def header_set_def if_False
    by (simp only: split: if_split) (intro conjI impI names_grow deleted context_members assms)
qed

lemma applied_names:
  assumes "applyHeaders il target source False i = (i', Inr h)" "fst ` set target \<subseteq> set context_names"
  shows "fst ` set h \<subseteq> set context_names"
proof -
  note start = session_names_sent [OF assms(2), of il source i]
  show ?thesis
  proof (cases "ci_remap i")
    case False
    with assms(1) start show ?thesis by (simp add: applyHeaders_def Let_def mappingError_Inr)
  next
    case True
    obtain i1 t1 i2 t2 i3 t3 i4 where
      "header_field (cleaned (mapValue il ''request'') ''X-Client-Request-Id'') source ''X-Client-Request-Id'' i
         (session_headers il False source i target) = (i1, Inr t1)"
      "header_field (cleaned (mapValue il ''thread'') ''Thread-Id'') source ''Thread-Id'' i1 t1 = (i2, Inr t2)"
      "header_field (cleaned (mapWindow il) ''X-Codex-Window-Id'') source ''X-Codex-Window-Id'' i2 t2 = (i3, Inr t3)"
      "header_field (metadata_header il) source ''X-Codex-Turn-Metadata'' i3 t3 = (i4, Inr h)"
      using assms(1) True by (auto simp: applyHeaders_def Let_def and_then_Inr mappingError_Inr)
    note steps = this [THEN header_field_names]
    have grown: "X \<subseteq> set context_names" if "X \<subseteq> insert k Y" "Y \<subseteq> set context_names" "k \<in> set context_names" for k and X Y :: "gostring set"
      using that by blast
    note grown [OF steps(1) start context_members(3)]
    note grown [OF steps(2) this context_members(4)]
    note grown [OF steps(3) this context_members(5)]
    from grown [OF steps(4) this context_members(6)] show ?thesis .
  qed
qed

lemma upstream_headers_sent:
  assumes "upstream_headers px xc url accept credential client i = (i', Inr h)"
  shows "of_account xc credential (PostUpstream url' h body)"
  using assms applied_names [OF _ context_copied]
  by (auto simp: upstream_headers_def of_account_def split: option.splits prod.splits sum.splits) blast

subsection \<open>Every handler has this shape\<close>

lemma send_responses_shape:
  assumes "send_responses px xc w kind streaming model t client credential bi = Some (res, es)"
  shows "es = [] \<or> (\<exists>e. es = [e] \<and> of_account xc credential e)"
  using assms
  by (auto simp: send_responses_def Let_def intro: upstream_headers_sent split: option.splits prod.splits sum.splits)

lemma run_responses_shape:
  assumes "run_responses px xc w r kind streaming model body db = Some (res, db', es)"
  shows "run_shape px xc w db db' es"
proof (cases "prepareRequestIdentity (cl_identity (px_compat px)) (pq_key r) (pq_headers r) (JObj body) (xc_remap xc)")
  case (Inl e)
  with assms show ?thesis by (simp add: run_responses_def run_shape_def)
next
  case (Inr bi)
  obtain c db1 where c: "run_credential px w db = (c, db1)" by (cases "run_credential px w db")
  show ?thesis
  proof (cases c)
    case (Inl e)
    with assms Inr c show ?thesis by (auto simp: run_responses_def run_shape_def Let_def)
  next
    case (Inr credential)
    with assms \<open>prepareRequestIdentity _ _ _ _ _ = Inr bi\<close> c
    obtain t where s: "send_responses px xc w kind streaming model t (pq_headers r) credential bi = Some (res, es)" "db' = db1"
      by (auto simp: run_responses_def Let_def)
    with send_responses_shape [OF s(1)] Inr c show ?thesis by (auto simp: run_shape_def)
  qed
qed

lemma run_shape_refused [simp]: "run_shape px xc w db db []"
  by (simp add: run_shape_def)

lemma responses_shape: "handleResponsesPath px xc w r db = Some (res, db', es) \<Longrightarrow> run_shape px xc w db db' es"
  by (auto simp: handleResponsesPath_def Let_def intro: run_responses_shape split: option.splits sum.splits)

lemma chat_shape: "handleChat px xc w r db = Some (res, db', es) \<Longrightarrow> run_shape px xc w db db' es"
  by (auto simp: handleChat_def Let_def intro: run_responses_shape split: option.splits sum.splits prod.splits)

lemma send_passthrough_shape:
  "send_passthrough px xc w path model client credential bi = (res, es) \<Longrightarrow> es = [] \<or> (\<exists>e. es = [e] \<and> of_account xc credential e)"
  by (auto simp: send_passthrough_def Let_def intro: upstream_headers_sent split: prod.splits sum.splits)

text \<open>The three ends of a run that passes JSON through.\<close>

lemma passthrough_obtains:
  assumes "handlePassthroughJSON px xc path w r db = Some (res, db', es)" "run_credential px w db = (c, db1)"
  obtains (invalid) model code e m where "db' = db" "es = []" "res = failed_with w [] model no_telemetry 400 code e m"
    | (no_account) model code e m where "db' = db1" "es = []" "res = failed_with w [] model no_telemetry 503 code e m"
    | (passed) credential model bi where "c = Inr credential" "db' = db1"
        "send_passthrough px xc w path model (pq_headers r) credential bi = (res, es)"
proof (cases "Option.bind (read_body xc r) (\<lambda>raw. map_option (\<lambda>v. (px_model px raw, v)) (px_decode px raw))")
  case None
  with assms(1) that(1) show ?thesis by (auto simp: handlePassthroughJSON_def Let_def)
next
  case (Some mv)
  obtain model v where mv: "mv = (model, v)" by (cases mv)
  show ?thesis
  proof (cases "prepareRequestIdentity (cl_identity (px_compat px)) (pq_key r) (pq_headers r) v (xc_remap xc)")
    case (Inl e)
    with assms(1) that(1) Some mv show ?thesis by (auto simp: handlePassthroughJSON_def Let_def)
  next
    case (Inr bi)
    obtain b i where bi: "bi = (b, i)" by (cases bi)
    from assms(1) Some mv Inr bi obtain i1 pb where p: "prepareCodexPassthroughBody (px_compat px) (JObj b) i = Some (i1, pb)"
      by (auto simp: handlePassthroughJSON_def Let_def)
    show ?thesis
    proof (cases pb)
      case (Inl e)
      with assms(1) Some mv Inr bi p that(1) show ?thesis by (auto simp: handlePassthroughJSON_def Let_def)
    next
      case (Inr body)
      with assms(1) Some mv \<open>prepareRequestIdentity _ _ _ _ _ = Inr bi\<close> bi p that(2,3) assms(2) show ?thesis
        by (cases c) (auto simp: handlePassthroughJSON_def Let_def split: prod.splits)
    qed
  qed
qed

lemma passthrough_shape:
  assumes "handlePassthroughJSON px xc path w r db = Some (res, db', es)"
  shows "run_shape px xc w db db' es"
proof -
  obtain c db1 where c: "run_credential px w db = (c, db1)" by (cases "run_credential px w db")
  from assms c show ?thesis
  proof (cases rule: passthrough_obtains)
    case (passed credential model bi)
    with c send_passthrough_shape [OF passed(3)] show ?thesis by (auto simp: run_shape_def)
  qed (use c in \<open>simp_all add: run_shape_def\<close>)
qed

lemma models_shape: "handleModels px xc w c db = (x, db', es) \<Longrightarrow> run_shape px xc w db db' es"
proof -
  obtain cr db1 where cr: "run_credential px w db = (cr, db1)" by (cases "run_credential px w db")
  have "of_account xc credential (GetUpstream url (ApplyCodexHeaders (xc_UserAgent xc) (xc_ClientVersion xc) credential accept []))"
    for credential url accept by (auto simp: of_account_def)
  then show "handleModels px xc w c db = (x, db', es) \<Longrightarrow> run_shape px xc w db db' es"
    using cr by (auto simp: handleModels_def fetch_models_def run_shape_def split: option.splits sum.splits)
qed

lemma run_has_shape: "proxy_run px xc call w r c db = Some (x, db', es) \<Longrightarrow> run_shape px xc w db db' es"
  by (cases call) (auto intro: responses_shape chat_shape passthrough_shape models_shape)

subsection \<open>What the log says\<close>

text \<open>
  The logged status is the status the client got; only of a stream that was begun and broke off it is another one.
\<close>

definition is_stream :: "proxy_body \<Rightarrow> bool" where
  "is_stream payload = (case payload of EventLines lines \<Rightarrow> True | ChatChunks chunks \<Rightarrow> True | _ \<Rightarrow> False)"

definition truthful :: "handled \<Rightarrow> bool" where
  "truthful res \<longleftrightarrow>
     (hd_status res = pr_status (hd_reply res)
       \<or> is_stream (pr_body (hd_reply res)) \<and> pr_status (hd_reply res) = 200 \<and> hd_status res \<in> {499, 502})
     \<and> (is_2xx (hd_status res) \<longrightarrow> hd_err res = [])"

definition ended_well :: "stream_result \<Rightarrow> bool" where
  "ended_well r \<longleftrightarrow> sr_status r = 200 \<and> sr_errText r = [] \<or> sr_status r \<in> {499, 502}"

lemma ends [simp]: "ended_well (stream_ended ending ut)" "ended_well (client_gone ut)"
  by (auto simp: ended_well_def stream_ended_def client_gone_def split: stream_end.split)

lemma streamed_well: "ended_well (snd (streamResponse lower decode expose ending room ut lines))"
  by (induction lines arbitrary: room ut) (auto simp: Let_def split_beta, metis prod.collapse)

lemma chat_streamed_well: "ended_well (snd (chat_lines lower decode expose iu ending room s lines))"
proof (induction lower decode expose iu ending room s lines rule: chat_lines.induct)
  case (1 lower decode expose iu ending room s)
  then show ?case by (cases ending) simp_all
next
  case (2 lower decode expose iu ending room s ms line rest)
  obtain s1 cs where t: "translateChatEvent lower iu ms (line_event decode (expose line)) s = (s1, cs)" by fastforce
  obtain written room' ok where w: "write_chunks room cs = (written, room', ok)" by (cases "write_chunks room cs")
  show ?case using 2 [OF t [symmetric] _ w [symmetric]] by (cases ok) (auto simp: t w split: prod.split)
qed

lemma wrote [simp]:
  "pr_status (writeProxyError status code message i h) = status" "pr_status (writeJSONBytes status payload i h) = status"
  "pr_status (writeUpstreamResponseFailure lower f i h) = HTTPStatus lower f"
  "pr_status (writeUpstreamError lower answer raw i h) = ua_status answer"
  by (simp_all add: writeProxyError_def writeJSONBytes_def writeUpstreamResponseFailure_def writeUpstreamError_def Let_def)

lemma truthful_failed [simp]: "\<not> is_2xx status \<Longrightarrow> truthful (failed_with w h model t status code e message)"
  by (simp add: truthful_def failed_with_def)

lemma truthful_ok [simp]: "pr_status rp = 200 \<Longrightarrow> truthful (answered_ok model t rp)"
  by (simp add: truthful_def answered_ok_def)

lemma truthful_counts [simp]: "truthful (res\<lparr>hd_input := a, hd_output := b\<rparr>) = truthful res"
  by (simp add: truthful_def)

lemma no_success [simp]: "\<not> is_2xx 400" "\<not> is_2xx 500" "\<not> is_2xx 502" "\<not> is_2xx 503" "\<not> is_2xx 499"
  by (simp_all add: is_2xx_def)

lemma failure_no_success [simp]: "\<not> is_2xx (HTTPStatus lower f)"
  by (simp add: HTTPStatus_def is_2xx_def Let_def)

lemma truthful_status:
  "pr_status rp = status \<Longrightarrow> (is_2xx status \<Longrightarrow> e = []) \<Longrightarrow> truthful (answered_ok model t rp \<lparr>hd_status := status, hd_err := e\<rparr>)"
  by (simp add: truthful_def answered_ok_def)

lemma stream_truthful:
  "is_stream (fst br) \<Longrightarrow> ended_well (snd br) \<Longrightarrow> truthful (stream_answer w h model t br)"
  by (cases br) (auto simp: stream_answer_def truthful_status truthful_def ended_well_def is_2xx_def Let_def answered_ok_def)

lemma collected_truthful: "truthful (collected_answer px w kind h model t i answer)"
  by (auto simp: collected_answer_def Let_def intro!: truthful_status split: prod.split sum.split collect_error.split)

text \<open>The two kinds of answers stream what \<open>is_stream\<close> says.\<close>

definition streams_well :: "responses_kind \<Rightarrow> bool" where
  "streams_well kind \<longleftrightarrow> (\<forall>i answer. is_stream (fst (rk_stream kind i answer)) \<and> ended_well (snd (rk_stream kind i answer)))"

lemma kinds_stream: "streams_well (responses_kind_of px w)" "streams_well (chat_kind px w iu model)"
  using streamed_well chat_streamed_well
  by (simp_all add: streams_well_def responses_kind_of_def chat_kind_def is_stream_def streamChatResponse_def split_beta)

lemma answer_truthful: "streams_well kind \<Longrightarrow> truthful (answer_responses px w kind streaming model t i answer)"
  by (auto simp: answer_responses_def Let_def stream_truthful collected_truthful streams_well_def intro!: truthful_status)

lemma headers_refused: "upstream_headers px xc url accept credential client i = (i', Inl (status, code, e)) \<Longrightarrow> \<not> is_2xx status"
  by (auto simp: upstream_headers_def split: option.splits prod.splits sum.splits)

lemma send_truthful:
  "streams_well kind \<Longrightarrow> send_responses px xc w kind streaming model t client credential bi = Some (res, es) \<Longrightarrow> truthful res"
  by (auto simp: send_responses_def Let_def answer_truthful dest: headers_refused
      split: option.splits prod.splits sum.splits upstream_outcome.splits)

lemma run_truthful:
  assumes "streams_well kind" "run_responses px xc w r kind streaming model body db = Some (res, db', es)"
  shows "truthful res"
  using assms(2) send_truthful [OF assms(1)]
  by (auto simp: run_responses_def Let_def split: sum.splits prod.splits)

lemma responses_truthful: "handleResponsesPath px xc w r db = Some (res, db', es) \<Longrightarrow> truthful res"
  by (auto simp: handleResponsesPath_def Let_def dest: run_truthful [OF kinds_stream(1)] split: option.splits sum.splits)

lemma chat_truthful: "handleChat px xc w r db = Some (res, db', es) \<Longrightarrow> truthful res"
  by (auto simp: handleChat_def Let_def dest: run_truthful [OF kinds_stream(2)] split: option.splits sum.splits prod.splits)

lemma passthrough_answer_truthful: "truthful (passthrough_answer px w model i answer)"
  by (auto simp: passthrough_answer_def Let_def intro!: truthful_status split: prod.split option.split)

lemma send_passthrough_truthful: "truthful (fst (send_passthrough px xc w path model client credential bi))"
  by (auto simp: send_passthrough_def Let_def passthrough_answer_truthful dest: headers_refused
      split: prod.split sum.split upstream_outcome.split)

lemma models_truthful: "truthful (fst (fst (handleModels px xc w c db)))"
  by (auto simp: handleModels_def fetch_models_def models_answer_def intro!: truthful_status
      split: option.split sum.split prod.split upstream_outcome.split)

lemma passthrough_truthful:
  assumes "handlePassthroughJSON px xc path w r db = Some (res, db', es)"
  shows "truthful res"
proof -
  obtain c db1 where c: "run_credential px w db = (c, db1)" by (cases "run_credential px w db")
  from assms c show ?thesis
  proof (cases rule: passthrough_obtains)
    case (passed credential model bi)
    with send_passthrough_truthful [of px xc w path model "pq_headers r" credential bi] show ?thesis by simp
  qed simp_all
qed

lemma run_truthful_all: "proxy_run px xc call w r c db = Some ((res, stored), db', es) \<Longrightarrow> truthful res"
  using models_truthful [of px xc w c db]
  by (cases call) (auto intro: responses_truthful chat_truthful passthrough_truthful)

subsection \<open>Properties\<close>

lemma shape_statements:
  assumes "run_shape px xc w db db' es"
  obtains seen saves where "seen = [] \<or> seen = wd_before_refresh w" "list_all saves_account saves"
    "db' = final db_step db (seen @ saves)"
proof -
  consider "db' = db" | "db' = snd (run_credential px w db)" using assms by (auto simp: run_shape_def)
  then show thesis
  proof cases
    case 1
    with that [of "[]" "[]"] show thesis by simp
  next
    case 2
    with credential_step [of px w db] that show thesis by (metis list.pred_inject(1))
  qed
qed

lemma recorded: "record_request w r res db = final db_step db (wd_before_log w @ [(wd_log_up w, OpInsertLog (log_entry w r res))])"
  by (simp add: record_request_def)

lemma serve_obtains:
  assumes "proxy_serve px xc True call w r c db = Some out"
  obtains res db' where "proxy_run px xc call w r c db = Some ((res, po_stored out), db', po_sent out)"
    "po_reply out = hd_reply res" "po_db out = record_request w r res db'"
  using assms by (auto simp: proxy_serve_def)

text \<open>C13.
  What a run of the proxy does to the database. Besides the statements of others it stores the refreshed account, if it
  refreshed it, and at the end it writes exactly one row of the request log, whatever failed before. The row names the API
  key, the method and the path; its status is the status the client was answered with, or 499 or 502 for a stream that was begun
  and broke off; a row with a success has no error text, and no error text is longer than 500 bytes.
\<close>

theorem one_log_row_per_request:
  assumes "proxy_serve px xc True call w r c db = Some out"
  shows "\<exists>seen saves row. (seen = [] \<or> seen = wd_before_refresh w) \<and> list_all saves_account saves
    \<and> po_db out = final db_step db (seen @ saves @ wd_before_log w @ [(wd_log_up w, OpInsertLog row)])
    \<and> lg_id row = wd_log_id w \<and> lg_request_id row = wd_request_id w
    \<and> lg_api_key_id row = (case pq_key r of Some k \<Rightarrow> k | None \<Rightarrow> []) \<and> lg_method row = pq_method r \<and> lg_path row = pq_path r
    \<and> (lg_status row = pr_status (po_reply out)
        \<or> is_stream (pr_body (po_reply out)) \<and> pr_status (po_reply out) = 200 \<and> lg_status row \<in> {499, 502})
    \<and> (is_success row \<longrightarrow> lg_error row = []) \<and> length (lg_error row) \<le> 500"
proof -
  obtain res db' where run: "proxy_run px xc call w r c db = Some ((res, po_stored out), db', po_sent out)"
    and out: "po_reply out = hd_reply res" "po_db out = record_request w r res db'"
    by (rule serve_obtains [OF assms])
  obtain seen saves where db': "seen = [] \<or> seen = wd_before_refresh w" "list_all saves_account saves" "db' = final db_step db (seen @ saves)"
    by (rule shape_statements [OF run_has_shape [OF run]])
  have "po_db out = final db_step db (seen @ saves @ wd_before_log w @ [(wd_log_up w, OpInsertLog (log_entry w r res))])"
    by (simp add: out(2) recorded db'(3) final_append)
  with db' out(1) run_truthful_all [OF run] show ?thesis
    by (intro exI [of _ seen] exI [of _ saves] exI [of _ "log_entry w r res"])
      (simp add: log_entry_def truthful_def is_success_def is_2xx_def trimText_def)
qed

lemma account_keys:
  "canonical_key ''Authorization'' = ''Authorization''" "canonical_key ''Chatgpt-Account-Id'' = ''Chatgpt-Account-Id''"
  "canonical_key ''User-Agent'' = ''User-Agent''" "canonical_key ''Originator'' = ''Originator''"
  "canonical_key ''Version'' = ''Version''" "canonical_key ''Accept'' = ''Accept''"
  by (simp_all add: canonical_key_def upper_char_def lower_char_def within_bytes_def byte_def)

text \<open>C12.
  What leaves for the upstream. A run sends at most one request; it is sent with the token and the account of the credential that
  the run took from the database, and its headers are those of the code and of a fixed list of context headers: the client's own
  authorization, its API key and its cookies never reach the upstream. A request refused during a shutdown sends nothing.
\<close>

theorem upstream_request_is_ours:
  assumes "proxy_serve px xc accepted call w r c db = Some out"
  shows "po_sent out = [] \<or> (\<exists>e credential. po_sent out = [e] \<and> accepted \<and> fst (run_credential px w db) = Inr credential
    \<and> map_of (sent_headers e) ''Authorization'' = Some [''Bearer '' @ cr_AccessToken credential]
    \<and> map_of (sent_headers e) ''Chatgpt-Account-Id'' = Some [cr_AccountID credential]
    \<and> fst ` set (sent_headers e) \<subseteq>
        set context_names \<union> {''Authorization'', ''Chatgpt-Account-Id'', ''User-Agent'', ''Originator'', ''Version'', ''Accept''})"
proof (cases accepted)
  case False
  with assms show ?thesis by (auto simp: proxy_serve_def)
next
  case True
  obtain res db' where "proxy_run px xc call w r c db = Some ((res, po_stored out), db', po_sent out)"
    using serve_obtains assms True by metis
  then have "run_shape px xc w db db' (po_sent out)" by (rule run_has_shape)
  then consider "po_sent out = []"
    | e credential h accept where "po_sent out = [e]" "fst (run_credential px w db) = Inr credential"
      "sent_headers e = ApplyCodexHeaders (xc_UserAgent xc) (xc_ClientVersion xc) credential accept h" "fst ` set h \<subseteq> set context_names"
    by (auto simp: run_shape_def of_account_def)
  then show ?thesis
  proof cases
    case 2
    have "fst ` set (sent_headers e) =
        fst ` set h \<union> {''Authorization'', ''Chatgpt-Account-Id'', ''User-Agent'', ''Originator'', ''Version'', ''Accept''}"
      by (auto simp: 2(3) ApplyCodexHeaders_def names_set account_keys)
    moreover have "map_of (sent_headers e) ''Authorization'' = Some [''Bearer '' @ cr_AccessToken credential]"
      "map_of (sent_headers e) ''Chatgpt-Account-Id'' = Some [cr_AccountID credential]"
      by (simp_all add: 2(3) ApplyCodexHeaders_def header_set_def update_conv' account_keys)
    ultimately show ?thesis using 2 True by blast
  qed simp
qed

subsection \<open>The body and the session of what is sent\<close>

lemma object_grows:
  "sanitize_object il sha256 reserved item z = Some z' \<Longrightarrow> grows (sz_identity z) (sz_identity z')"
  by (auto simp: sanitize_object_def append_item_def Let_def remember_grows split: if_splits bind_splits)

lemma value_grows: "sanitize_value il sha256 store reserved val z = Some z' \<Longrightarrow> grows (sz_identity z) (sz_identity z')"
  using object_grows by (auto simp: sanitize_value_def append_item_def split: option.splits prod.splits if_splits)

lemma values_grow: "sanitize_values il sha256 store reserved vals z = Some z' \<Longrightarrow> grows (sz_identity z) (sz_identity z')"
proof (induction vals arbitrary: z)
  case (Cons val vals)
  then show ?case using value_grows grows_trans by (auto simp: bind_eq_Some_conv) blast
qed simp

lemma sanitize_grows: "sanitizeCodexInputItems il sha256 object i = Some (i', r) \<Longrightarrow> grows i i'"
  using values_grow by (fastforce simp: sanitizeCodexInputItems_def mappingError_def split: option.splits)

definition upstream_fields :: "gostring list" where
  "upstream_fields = [''previous_response_id'', ''generate'', ''safety_identifier'', ''stream_options'']"

lemma http_body:
  assumes "prepareCodexHTTPBodyWithImageTool cl (JObj b) model planType h with_tool i = Some (i', Inr b')"
  shows "grows i i'" "k \<in> set upstream_fields \<Longrightarrow> map_of b' k = None"
    "k \<notin> {''input'', ''tools'', ''parallel_tool_calls''} \<union> set upstream_fields \<Longrightarrow> map_of b' k = map_of b k"
proof -
  let ?il = "cl_identity cl"
  let ?b0 = "fold del [''previous_response_id'', ''generate'', ''safety_identifier'', ''stream_options''] b"
  let ?b1 = "if with_tool then ensureCodexImageGenerationTool ?il (cl_lower cl) ?b0 model planType h else ?b0"
  from assms obtain r where r: "sanitizeCodexInputItems ?il (cl_sha256 cl) ?b1 i = Some r"
    and then_r: "and_then r (\<lambda>i' o'. (i', Inr (normalizeCodexParallelToolCalls ?il o' h False))) = (i', Inr b')"
    by (auto simp: prepareCodexHTTPBodyWithImageTool_def obj_of_def prepareCodexInferenceObject_def Let_def simp del: fold.simps)
  from then_r obtain b2 where r_eq: "r = (i', Inr b2)" and b': "b' = normalizeCodexParallelToolCalls ?il b2 h False"
    by (cases r) (auto simp: and_then_def split: sum.splits)
  have b2: "sanitizeCodexInputItems ?il (cl_sha256 cl) ?b1 i = Some (i', Inr b2)" using r r_eq by simp
  show "grows i i'" by (rule sanitize_grows [OF b2])
  have b0: "map_of ?b0 k = (if k \<in> set upstream_fields then None else map_of b k)" for k
    by (simp add: upstream_fields_def)
  have b1: "k \<noteq> ''tools'' \<Longrightarrow> map_of ?b1 k = map_of ?b0 k" for k
    by (simp add: ensureCodexImageGenerationTool_def split: option.split del: fold.simps)
  have b3: "k \<noteq> ''parallel_tool_calls'' \<Longrightarrow> map_of b' k = map_of b2 k" for k
    by (simp add: b' normalizeCodexParallelToolCalls_def)
  have other: "''input'' \<notin> set upstream_fields" "''tools'' \<notin> set upstream_fields" "''parallel_tool_calls'' \<notin> set upstream_fields"
    by (simp_all add: upstream_fields_def)
  have same: "map_of b' k = map_of ?b0 k" if "k \<noteq> ''input''" "k \<noteq> ''tools''" "k \<noteq> ''parallel_tool_calls''" for k
    by (simp only: b3 [OF that(3)] sanitize_fields(2) [OF b2 that(1)] b1 [OF that(2)])
  show "map_of b' k = None" if k: "k \<in> set upstream_fields"
  proof -
    from k other have "k \<noteq> ''input''" "k \<noteq> ''tools''" "k \<noteq> ''parallel_tool_calls''" by auto
    from same [OF this] k show ?thesis by (simp only: b0 if_True)
  qed
  show "map_of b' k = map_of b k" if "k \<notin> {''input'', ''tools'', ''parallel_tool_calls''} \<union> set upstream_fields"
  proof -
    from that have "k \<noteq> ''input''" "k \<noteq> ''tools''" "k \<noteq> ''parallel_tool_calls''" "k \<notin> set upstream_fields" by auto
    from same [OF this(1-3)] this(4) show ?thesis by (simp only: b0 if_False)
  qed
qed

lemma session_given:
  assumes "newCodexIdentity il (Some k) h body remap = Inr i" "TrimSpace k \<noteq> []"
  shows "ci_upstreamSessionID i \<noteq> []"
proof -
  have uuid: "identityUUID il s kind v \<noteq> []" for s kind v
    using uuid_length [of il s kind v] by auto
  from assms(1) obtain client where i: "i = fresh_identity il remap (TrimSpace k) client" "client \<noteq> [] \<longrightarrow> validIdentityValue client"
    by (auto simp: newCodexIdentity_def Let_def split: option.splits sum.splits if_splits)
  show ?thesis
  proof (cases "client = []")
    case True
    with assms(2) i uuid show ?thesis by (simp add: fresh_identity_def stableSessionID_def Let_def)
  next
    case False
    with i have "cleanIdentityValue client \<noteq> []" by (simp add: cleanIdentityValue_def validIdentityValue_def Let_def TrimSpace_idem)
    with False i(1) uuid show ?thesis by (simp add: fresh_identity_def mapValue_def Let_def split: prod.split)
  qed
qed

lemma session_kept:
  assumes "session_ok fd sid ''Session-Id'' h" "case_folding fd"
  shows "session_ok fd sid ''Session-Id'' (ApplyCodexHeaders ua version credential accept h)"
proof -
  have "n \<noteq> ''Session-Id'' \<and> fd n \<notin> session_names fd"
    if "n \<in> {''Authorization'', ''Chatgpt-Account-Id'', ''User-Agent'', ''Originator'', ''Version'', ''Accept''}" for n
    using that case_folding.fold_ascii [OF assms(2)]
    by (auto simp: session_names_def ascii_def within_bytes_def byte_def lower_char_def)
  with assms(1) show ?thesis by (simp add: ApplyCodexHeaders_def header_set_def account_keys session_ok_update)
qed

lemma sent_obtains:
  assumes "send_responses px xc w kind streaming model t client credential bi = Some (res, [PostUpstream url h body])"
  obtains i1 i2 where "rk_prepare kind (JObj (fst bi)) model (cr_PlanType credential) client (snd bi) = Some (i1, Inr body)"
    "upstream_headers px xc url ''text/event-stream'' credential client i1 = (i2, Inr h)"
  using assms that by (auto simp: send_responses_def Let_def split: option.splits prod.splits sum.splits)

lemma run_sent_obtains:
  assumes "run_responses px xc w r kind streaming model b0 db = Some (res, db', [PostUpstream url h body])"
  obtains b i credential i1 i2 where
    "prepareRequestIdentity (cl_identity (px_compat px)) (pq_key r) (pq_headers r) (JObj b0) (xc_remap xc) = Inr (b, i)"
    "rk_prepare kind (JObj b) model (cr_PlanType credential) (pq_headers r) i = Some (i1, Inr body)"
    "upstream_headers px xc url ''text/event-stream'' credential (pq_headers r) i1 = (i2, Inr h)"
proof -
  from assms obtain bi credential t where bi:
    "prepareRequestIdentity (cl_identity (px_compat px)) (pq_key r) (pq_headers r) (JObj b0) (xc_remap xc) = Inr bi"
    "send_responses px xc w kind streaming model t (pq_headers r) credential bi = Some (res, [PostUpstream url h body])"
    by (auto simp: run_responses_def Let_def split: sum.splits prod.splits)
  from sent_obtains [OF bi(2)] obtain i1 i2 where
    "rk_prepare kind (JObj (fst bi)) model (cr_PlanType credential) (pq_headers r) (snd bi) = Some (i1, Inr body)"
    "upstream_headers px xc url ''text/event-stream'' credential (pq_headers r) i1 = (i2, Inr h)" .
  with bi(1) that show thesis by (cases bi) simp
qed

text \<open>Both handlers send what \<open>normalize_body\<close> made of some object, prepared with or without the image tool.\<close>

lemma posted_obtains:
  assumes "proxy_serve px xc accepted call w r c db = Some out" "po_sent out = [PostUpstream url h body]"
    and "call = PostResponses \<or> call = PostChatCompletions"
  obtains b0 b i credential i1 i2 model with_tool where
    "prepareRequestIdentity (cl_identity (px_compat px)) (pq_key r) (pq_headers r)
       (JObj (normalize_body (cl_lower (px_compat px)) b0)) (xc_remap xc) = Inr (b, i)"
    "prepareCodexHTTPBodyWithImageTool (px_compat px) (JObj b) model (cr_PlanType credential) (pq_headers r) with_tool i =
       Some (i1, Inr body)"
    "upstream_headers px xc url ''text/event-stream'' credential (pq_headers r) i1 = (i2, Inr h)"
proof -
  have accepted using assms(1,2) by (cases accepted) (auto simp: proxy_serve_def)
  with assms(1) obtain res db' where run: "proxy_run px xc call w r c db = Some ((res, po_stored out), db', po_sent out)"
    using serve_obtains by metis
  have normal: "body0 = normalize_body lower b" if "normalizeResponsesRequest lower v = Inr (body0, s, m)"
    "v = Some (JObj b)" for lower v body0 s m b
    using that accepted by simp
  from assms(3) obtain kind streaming model b0 with_tool where
    sent: "run_responses px xc w r kind streaming model (normalize_body (cl_lower (px_compat px)) b0) db =
      Some (res, db', [PostUpstream url h body])"
    and kind: "\<And>v m plan client i. rk_prepare kind v m plan client i =
      prepareCodexHTTPBodyWithImageTool (px_compat px) v m plan client with_tool i"
  proof
    assume "call = PostResponses"
    with run assms(2) obtain raw body0 streaming model where
      n: "normalizeResponsesRequest (cl_lower (px_compat px)) (px_decode px raw) = Inr (body0, streaming, model)"
      and r: "run_responses px xc w r (responses_kind_of px w) streaming model body0 db = Some (res, db', [PostUpstream url h body])"
      by (auto simp: handleResponsesPath_def Let_def split: option.splits sum.splits)
    from n obtain b0 where "body0 = normalize_body (cl_lower (px_compat px)) b0"
      by (auto simp: normalizeResponsesRequest_def Let_def split: option.splits gj.splits if_splits)
    with r that [of "responses_kind_of px w" streaming model b0 True] show thesis
      by (simp add: responses_kind_of_def prepareCodexHTTPBody_def)
  next
    assume "call = PostChatCompletions"
    with run assms(2) obtain raw body0 streaming usage model where
      n: "convertChatRequest (cl_lower (px_compat px)) (px_marshal px) (px_chat px raw) = (model, Inr (body0, streaming, usage))"
      and r: "run_responses px xc w r (chat_kind px w usage model) streaming model body0 db = Some (res, db', [PostUpstream url h body])"
      by (auto simp: handleChat_def Let_def split: option.splits sum.splits prod.splits)
    from n obtain b0 where "body0 = normalize_body (cl_lower (px_compat px)) b0"
      by (auto simp: convertChatRequest_def accepted Let_def split: chat_body.splits sum.splits if_splits prod.splits)
    with r that [of "chat_kind px w usage model" streaming model b0 False] show thesis
      by (simp add: chat_kind_def prepareCodexChatBody_def)
  qed
  from run_sent_obtains [OF sent] that show thesis by (metis kind)
qed

lemma posted_session:
  assumes "upstream_headers px xc url accept credential client i = (i', Inr h)" "ci_upstreamSessionID i \<noteq> []"
    and "case_folding (il_fold (cl_identity (px_compat px)))"
  shows "session_ok (il_fold (cl_identity (px_compat px))) (ci_upstreamSessionID i) ''Session-Id'' h"
proof -
  obtain target target' where out: "applyHeaders (cl_identity (px_compat px)) target client False i = (i', Inr target')"
    "h = ApplyCodexHeaders (xc_UserAgent xc) (xc_ClientVersion xc) credential accept target'"
    using assms(1) by (auto simp: upstream_headers_def split: option.splits prod.splits sum.splits)
  have "session_ok (il_fold (cl_identity (px_compat px))) (ci_upstreamSessionID i) ''Session-Id'' target'"
    by (rule applyHeaders_session [OF out(1) assms(3) session_headers_ok(1) [OF assms(3,2)]]) simp
  then show ?thesis unfolding out(2) by (rule session_kept [OF _ assms(3)])
qed

lemma posted_body:
  assumes "prepareBody il False (JObj (normalize_body lower b0)) i0 = (i, Inr b)" "ci_upstreamSessionID i0 \<noteq> []"
    and "prepareCodexHTTPBodyWithImageTool cl (JObj b) model planType client with_tool i = Some (i1, Inr body)"
  shows "map_of body ''stream'' = Some (JBool True)" "map_of body ''store'' = Some (JBool False)"
    "map_of body ''include'' = Some (JArr [JStr ''reasoning.encrypted_content''])"
    "list_all (\<lambda>f. map_of body f = None) (''reasoning_effort'' # upstream_fields @ stripped_fields)"
    "map_of body ''prompt_cache_key'' = Some (JStr (ci_upstreamSessionID i0))"
    "ci_upstreamSessionID i1 = ci_upstreamSessionID i0"
proof -
  have kept: "map_of body f = map_of (normalize_body lower b0) f"
    if "f \<notin> {''input'', ''tools'', ''parallel_tool_calls'', ''prompt_cache_key'', ''client_metadata''} \<union> set upstream_fields" for f
    using http_body(3) [OF assms(3), of f] prepareBody_field [OF assms(1), of f] that by auto
  then show "map_of body ''stream'' = Some (JBool True)" "map_of body ''store'' = Some (JBool False)"
    "map_of body ''include'' = Some (JArr [JStr ''reasoning.encrypted_content''])"
    by (simp_all add: forced_present upstream_fields_def)
  show "map_of body ''prompt_cache_key'' = Some (JStr (ci_upstreamSessionID i0))"
    using http_body(3) [OF assms(3), of "''prompt_cache_key''"] prepareBody_session [OF assms(1,2)] by (simp add: upstream_fields_def)
  have gone: "map_of body f = None" if "f \<in> set (''reasoning_effort'' # upstream_fields @ stripped_fields)" for f
  proof (cases "f \<in> set upstream_fields")
    case True
    with http_body(2) [OF assms(3)] show ?thesis by blast
  next
    case False
    with that have f: "f = ''reasoning_effort'' \<or> f \<in> set stripped_fields" by auto
    have "list_all (\<lambda>f. f \<notin> {''input'', ''tools'', ''parallel_tool_calls'', ''prompt_cache_key'', ''client_metadata''})
        (''reasoning_effort'' # stripped_fields)" by (simp add: stripped_fields_def)
    moreover have "f \<in> set (''reasoning_effort'' # stripped_fields)" using f by (simp only: list.set insert_iff)
    ultimately have "f \<notin> {''input'', ''tools'', ''parallel_tool_calls'', ''prompt_cache_key'', ''client_metadata''}"
      unfolding list_all_iff by (rule bspec)
    with False have "map_of body f = map_of (normalize_body lower b0) f" by (intro kept) blast
    with f show ?thesis using stripped_absent [of f lower b0] forced_present(5) [of lower b0] by (elim disjE) (simp_all only:)
  qed
  then show "list_all (\<lambda>f. map_of body f = None) (''reasoning_effort'' # upstream_fields @ stripped_fields)"
    by (simp only: list_all_iff) blast
  show "ci_upstreamSessionID i1 = ci_upstreamSessionID i0"
    using grows_same(1) [OF prepareBody_grows [of i0 il False "JObj (normalize_body lower b0)"]] assms(1)
      grows_same(1) [OF http_body(1) [OF assms(3)]] by simp
qed

text \<open>C11.
  What the upstream receives for a Responses or chat request, from the bytes of the client to the request on the wire. Whatever the
  client sent, the body is an unstored stream without the fields that identify or configure the client; and for a client with an API
  key there is one session: it is the prompt cache key of the body, the session header has the same value, and no other
  spelling of a session or conversation header says anything else.
\<close>

theorem proxied_request:
  assumes "case_folding (il_fold (cl_identity (px_compat px)))"
    and "proxy_serve px xc accepted call w r c db = Some out" "po_sent out = [PostUpstream url h body]"
    and "call = PostResponses \<or> call = PostChatCompletions" "pq_key r = Some k" "TrimSpace k \<noteq> []"
  shows "map_of body ''stream'' = Some (JBool True) \<and> map_of body ''store'' = Some (JBool False)
    \<and> map_of body ''include'' = Some (JArr [JStr ''reasoning.encrypted_content''])
    \<and> list_all (\<lambda>f. map_of body f = None) (''reasoning_effort'' # upstream_fields @ stripped_fields)
    \<and> (\<exists>sid. sid \<noteq> [] \<and> map_of body ''prompt_cache_key'' = Some (JStr sid) \<and> map_of h ''Session-Id'' = Some [sid]
        \<and> (\<forall>(n, vs) \<in> set h. il_fold (cl_identity (px_compat px)) n \<in> session_names (il_fold (cl_identity (px_compat px))) \<longrightarrow> vs = [sid]))"
proof -
  let ?il = "cl_identity (px_compat px)"
  obtain b0 b i credential i1 i2 model with_tool where
    identity: "prepareRequestIdentity ?il (pq_key r) (pq_headers r) (JObj (normalize_body (cl_lower (px_compat px)) b0)) (xc_remap xc) = Inr (b, i)"
    and prep: "prepareCodexHTTPBodyWithImageTool (px_compat px) (JObj b) model (cr_PlanType credential) (pq_headers r) with_tool i =
       Some (i1, Inr body)"
    and hs: "upstream_headers px xc url ''text/event-stream'' credential (pq_headers r) i1 = (i2, Inr h)"
    by (rule posted_obtains [OF assms(2-4)])
  obtain i0 where i0: "newCodexIdentity ?il (Some k) (pq_headers r) (JObj (normalize_body (cl_lower (px_compat px)) b0)) (xc_remap xc) = Inr i0"
    and pb: "prepareBody ?il False (JObj (normalize_body (cl_lower (px_compat px)) b0)) i0 = (i, Inr b)"
    by (rule Identity.prepared [OF identity [unfolded assms(5)]])
  have sid: "ci_upstreamSessionID i0 \<noteq> []" by (rule session_given [OF i0 assms(6)])
  note body = posted_body [OF pb sid prep]
  from posted_session [OF hs _ assms(1)] body(6) sid
  have "session_ok (il_fold ?il) (ci_upstreamSessionID i0) ''Session-Id'' h" by simp
  then have "map_of h ''Session-Id'' = Some [ci_upstreamSessionID i0]"
    "\<forall>(n, vs) \<in> set h. il_fold ?il n \<in> session_names (il_fold ?il) \<longrightarrow> vs = [ci_upstreamSessionID i0]"
    by (simp_all add: session_ok_def)
  with body(1-5) sid show ?thesis by blast
qed

subsection \<open>The handlers behind the API keys\<close>

lemma refused_settings: "list_all saves_account ops \<Longrightarrow> no_settings ops = ops"
  by (induction ops) (auto simp: no_settings_def saves_account_def split: db_op.splits)

lemma no_settings_simps [simp]:
  "no_settings [] = []" "no_settings (xs @ ys) = no_settings xs @ no_settings ys"
  "no_settings [(up, OpInsertLog e)] = [(up, OpInsertLog e)]"
  by (simp_all add: no_settings_def)

lemma run_without_settings:
  assumes "proxy_serve px xc accepted call w r c db = Some out"
    and "no_settings (wd_before_refresh w) = wd_before_refresh w" "no_settings (wd_before_log w) = wd_before_log w"
  shows "\<exists>ops. no_settings ops = ops \<and> po_db out = final db_step db ops"
proof (cases accepted)
  case False
  with assms(1) show ?thesis by (intro exI [of _ "[]"]) (auto simp: proxy_serve_def)
next
  case True
  obtain res db' where run: "proxy_run px xc call w r c db = Some ((res, po_stored out), db', po_sent out)"
    and out: "po_db out = record_request w r res db'"
    using serve_obtains assms(1) True by metis
  obtain seen saves where db': "seen = [] \<or> seen = wd_before_refresh w" "list_all saves_account saves" "db' = final db_step db (seen @ saves)"
    by (rule shape_statements [OF run_has_shape [OF run]])
  let ?ops = "seen @ saves @ wd_before_log w @ [(wd_log_up w, OpInsertLog (log_entry w r res))]"
  have "no_settings ?ops = ?ops" using db'(1) assms(2,3) refused_settings [OF db'(2)] by auto
  moreover have "po_db out = final db_step db ?ops" by (simp add: out recorded db'(3) final_append)
  ultimately show ?thesis by blast
qed


subsection \<open>The list of models\<close>

definition model_name :: "gostring \<times> gostring \<times> gostring \<Rightarrow> gostring" where
  "model_name m = (case m of (slug, i, name) \<Rightarrow> firstNonEmpty [slug, i, name])"

definition named_models :: "(gostring \<times> gostring \<times> gostring) list \<Rightarrow> gostring set" where
  "named_models catalog = model_name ` set catalog - {[]}"

lemma model_ids_Cons:
  "model_ids seen (m # rest) =
     (if model_name m = [] \<or> model_name m \<in> set seen then model_ids seen rest else model_name m # model_ids (model_name m # seen) rest)"
  by (cases m) (simp add: model_name_def Let_def del: firstNonEmpty.simps)

lemma ids_set: "set (model_ids seen ms) = named_models ms - set seen"
  by (induction ms arbitrary: seen) (auto simp: model_ids_Cons named_models_def simp del: model_ids.simps(2))

lemma ids_distinct: "distinct (model_ids seen ms)"
  by (induction ms arbitrary: seen) (auto simp: model_ids_Cons ids_set simp del: model_ids.simps(2))

text \<open>
  The handlers of \<^verbatim>\<open>GET /v1/models\<close> that run at the same time: a look at the cache and the store of a fetched list are each one
  step under the lock, in any order; a fetch has its own clock for the store.
\<close>

datatype models_event = Lookup int | Fetch proxy_world database int

definition stored_by :: "proxy_lib \<Rightarrow> proxy_config \<Rightarrow> models_event \<Rightarrow> (gostring list \<times> int) option" where
  "stored_by px xc e =
     (case e of Lookup now \<Rightarrow> None | Fetch w db t \<Rightarrow> map_option (\<lambda>models. (models, t)) (snd (fst (fetch_models px xc w db))))"

definition models_step :: "proxy_lib \<Rightarrow> proxy_config \<Rightarrow> modelsCache \<Rightarrow> models_event \<Rightarrow> modelsCache \<times> gostring list list" where
  "models_step px xc c e =
     (case e of
        Lookup now \<Rightarrow> (c, case cached_models now c of Some models \<Rightarrow> [models] | None \<Rightarrow> [])
      | Fetch w db t \<Rightarrow>
          (case stored_by px xc e of Some (models, t') \<Rightarrow> (Some (models, t'), [models]) | None \<Rightarrow> (c, [])))"

lemma step_stores:
  "fst (models_step px xc c e) = (case stored_by px xc e of Some x \<Rightarrow> Some x | None \<Rightarrow> c)"
  by (auto simp: models_step_def stored_by_def split: models_event.split option.split)

interpretation catalogue: gated_machine "models_step px xc" "\<lambda>c. True" "\<lambda>c. c = Some kept"
  "\<lambda>c e. stored_by px xc e = Some kept" "\<lambda>c e. stored_by px xc e \<noteq> None" for px xc kept
  by unfold_locales (auto simp: step_stores split: option.splits)

text \<open>What a fetch stores is what a successful answer of the upstream lists.\<close>

lemma stored_is_catalogue:
  assumes "stored_by px xc (Fetch w db t) = Some (models, t')"
  shows "t' = t \<and> (\<exists>answer catalog. wd_upstream w = Reached answer \<and> is_2xx (ua_status answer)
    \<and> px_models px (fst (read_limited (8 * 1024 * 1024) answer)) = Inr (Some catalog) \<and> models = model_ids [] catalog)"
  using assms
  by (auto simp: stored_by_def fetch_models_def models_answer_def convertModels_def
      split: prod.splits sum.splits option.splits upstream_outcome.splits if_splits)

text \<open>
  The list of models. What a client is shown from the cache was listed by the upstream in a successful answer that was stored
  less than ten minutes before, and no list was stored since; it names each model of that answer once. Failed, unreadable and
  undecodable answers are never kept, whatever requests run at the same time.
\<close>

lemma cached_models_fresh:
  assumes "cached_models now (final (models_step px xc) None es) = Some models"
  shows "\<exists>xs w db t ys answer catalog. es = xs @ Fetch w db t # ys \<and> now - t < minutes 10
    \<and> wd_upstream w = Reached answer \<and> is_2xx (ua_status answer)
    \<and> px_models px (fst (read_limited (8 * 1024 * 1024) answer)) = Inr (Some catalog)
    \<and> distinct models \<and> set models = named_models catalog
    \<and> none_of (models_step px xc) (\<lambda>c e. stored_by px xc e \<noteq> None) (final (models_step px xc) None (xs @ [Fetch w db t])) ys"
proof -
  obtain t where t: "final (models_step px xc) None es = Some (models, t)" "now - t < minutes 10"
    using assms by (auto simp: cached_models_def split: option.splits if_splits)
  from catalogue.gate_trace [OF t(1)] obtain xs e ys where e: "es = xs @ e # ys" "stored_by px xc e = Some (models, t)"
    "none_of (models_step px xc) (\<lambda>c e. stored_by px xc e \<noteq> None) (final (models_step px xc) None (xs @ [e])) ys"
    by auto
  obtain w db t' where "e = Fetch w db t'" using e(2) by (cases e) (auto simp: stored_by_def)
  with e stored_is_catalogue [of px xc w db t' models t] t(2) ids_distinct ids_set [of "[]"] show ?thesis
    by (fastforce simp: named_models_def)
qed

subsection \<open>A run\<close>

definition run_lib :: proxy_lib where
  "run_lib = \<lparr>px_compat = tc_lib sample_context, px_oauth = sample_oauth, px_decode = (\<lambda>t. Some (JObj first_request)),
     px_error_text = (\<lambda>t. []), px_quote = id, px_model = (\<lambda>t. ''m''), px_chat = (\<lambda>t. NotJSON), px_marshal = (\<lambda>v. []),
     px_collected = (\<lambda>t. None), px_observed = (\<lambda>t. None), px_chat_event = (\<lambda>t. None), px_answer = (\<lambda>t. None),
     px_models = (\<lambda>t. Inr (Some [(''m'', [], []), ([], ''m'', []), ([], [], [])]))\<rparr>"

definition run_config :: proxy_config where
  "run_config = \<lparr>xc_MaxRequestBytes = 100, xc_UpstreamBaseURL = ''https://up'', xc_remap = False, xc_UserAgent = ''ua'',
     xc_ClientVersion = ''1'', xc_url_error = (\<lambda>u. None), xc_models_url = ''https://up/m''\<rparr>"

definition run_world :: proxy_world where
  "run_world = \<lparr>wd_request_id = ''q'', wd_log_id = ''l'', wd_up = True, wd_now = - minutes 3, wd_before_refresh = [],
     wd_refresh = sample_refresh, wd_upstream = Reached \<lparr>ua_status = 200, ua_headers = [], ua_lines = [], ua_end = EOF\<rparr>,
     wd_flusher = True, wd_room = None, wd_unix = 0, wd_before_log = [], wd_log_up = True, wd_duration_ms = 1, wd_log_at = 1\<rparr>"

definition run_request :: proxy_request where
  "run_request = \<lparr>pq_method = ''POST'', pq_path = ''/v1/responses'', pq_headers = [], pq_key = Some ''k'', pq_body = ''{}'',
     pq_body_end = EOF\<rparr>"

definition run_keys :: database where
  "run_keys = empty_database\<lparr>db_keys := [sample_key\<lparr>dk_id := ''k''\<rparr>]\<rparr>"

lemma run_account:
  obtains db :: database where "db_keys db = db_keys run_keys"
    "\<And>db' :: database. db_account db' = db_account db \<Longrightarrow> \<exists>c. run_credential run_lib run_world db' = (Inr c, db')"
proof -
  obtain db where db: "saveCredential sample_auth sample_save stale_credential run_keys = (None, db)"
    using saves [of sample_save stale_credential sample_auth run_keys] by (auto simp: sample_save_def stale_credential_def)
  have ok: "aead_ok (al_aead sample_auth)" by (simp add: sample_auth_def sample_aead_ok)
  have auth: "ol_auth (px_oauth run_lib) = sample_auth" by (simp add: run_lib_def sample_oauth_def)
  have stored: "stored_credential sample_auth True db' = stored_credential sample_auth True db" if "db_account db' = db_account db" for db'
    by (simp add: stored_credential_def GetAccount_def that)
  have "\<exists>c. run_credential run_lib run_world db' = (Inr c, db')" if "db_account db' = db_account db" for db' :: database
    using saved_read [OF ok sample_nonces(2) db] stored [OF that]
    by (simp add: run_credential_def auth FreshCredential_def run_world_def usable_def in_milliseconds_def stale_credential_def
        sample_save_def)
  moreover have "db_keys db = db_keys run_keys"
    using db by (auto simp: saveCredential_def sample_save_def SaveAccount_def Let_def split: sum.splits if_splits)
  ultimately show thesis using that [of db] by blast
qed

lemma run_prepared:
  "\<exists>b. prepareCodexHTTPBody (tc_lib sample_context) (JObj (filled first_request)) ''m'' plan [] sample_identity = Some (sample_identity, Inr b)"
proof -
  let ?b0 = "fold del [''previous_response_id'', ''generate'', ''safety_identifier'', ''stream_options''] (filled first_request)"
  let ?b1 = "ensureCodexImageGenerationTool sample_il to_lower ?b0 ''m'' plan []"
  have "map_of ?b1 ''input'' = map_of ?b0 ''input''"
    by (simp add: ensureCodexImageGenerationTool_def split: option.split del: fold.simps)
  then have "arr_of (index_nil ?b1 ''input'') = Some []"
    by (simp add: index_nil_def arr_of_def filled_def first_request_def)
  then obtain b2 where "sanitizeCodexInputItems sample_il sample_sha ?b1 sample_identity = Some (sample_identity, Inr b2)"
    by (simp add: sanitizeCodexInputItems_def mappingError_def) (simp add: sample_identity_def)
  then show ?thesis
    by (simp add: prepareCodexHTTPBody_def prepareCodexHTTPBodyWithImageTool_def obj_of_def prepareCodexInferenceObject_def
        sample_context_def and_then_def Let_def)
qed

lemma run_headers: "\<exists>h. upstream_headers run_lib run_config url accept credential [] sample_identity = (sample_identity, Inr h)"
  by (simp add: upstream_headers_def run_lib_def run_config_def sample_context_def applyHeaders_def mappingError_def Let_def)
    (simp add: sample_identity_def)

lemma run_served:
  assumes "run_credential run_lib run_world db = (Inr c, db)"
  shows "\<exists>out url h body. proxy_serve run_lib run_config True PostResponses run_world run_request None db = Some out
    \<and> po_sent out = [PostUpstream url h body]"
proof -
  have "read_body run_config run_request = Some ''{}''"
    by (simp add: read_body_def run_config_def run_request_def)
  moreover have "prepareRequestIdentity (cl_identity (px_compat run_lib)) (pq_key run_request) (pq_headers run_request)
      (JObj (filled first_request)) (xc_remap run_config) = Inr (filled first_request, sample_identity)"
    using sample_identified(1) by (simp add: run_lib_def run_request_def run_config_def sample_context_fields)
  moreover obtain body where "prepareCodexHTTPBody (tc_lib sample_context) (JObj (filled first_request)) ''m'' (cr_PlanType c) [] sample_identity =
      Some (sample_identity, Inr body)" using run_prepared by blast
  moreover obtain h where "upstream_headers run_lib run_config (xc_UpstreamBaseURL run_config @ ''/backend-api/codex/responses'')
      ''text/event-stream'' c [] sample_identity = (sample_identity, Inr h)" using run_headers by blast
  moreover have "px_decode run_lib ''{}'' = Some (JObj first_request)" "cl_lower (px_compat run_lib) = to_lower"
    "rk_prepare (responses_kind_of run_lib run_world) = prepareCodexHTTPBody (tc_lib sample_context)" "pq_headers run_request = []"
    by (simp_all add: run_lib_def sample_context_fields responses_kind_of_def run_request_def)
  ultimately show ?thesis
    using assms sample_normalized(1)
    by (simp add: proxy_serve_def handleResponsesPath_def run_responses_def send_responses_def Let_def)
qed

theorem one_log_row_per_request_witness:
  "\<exists>db out row ops. proxy_serve run_lib run_config True PostResponses run_world run_request None db = Some out
     \<and> po_db out = final db_step db (ops @ [(True, OpInsertLog row)]) \<and> lg_api_key_id row = ''k'' \<and> lg_path row = ''/v1/responses''"
proof -
  obtain db c where "run_credential run_lib run_world db = (Inr c, db)" using run_account by metis
  from run_served [OF this] obtain out where out:
    "proxy_serve run_lib run_config True PostResponses run_world run_request None db = Some out" by blast
  from one_log_row_per_request [OF out] obtain seen saves row where
    "po_db out = final db_step db (seen @ saves @ wd_before_log run_world @ [(wd_log_up run_world, OpInsertLog row)])"
    "lg_api_key_id row = ''k''" "lg_path row = ''/v1/responses''"
    by (auto simp: run_request_def)
  with out show ?thesis
    by (intro exI [of _ db] exI [of _ out] exI [of _ row] exI [of _ "seen @ saves"]) (simp add: run_world_def)
qed

theorem upstream_request_is_ours_witness:
  "\<exists>db c out e. proxy_serve run_lib run_config True PostResponses run_world run_request None db = Some out \<and> po_sent out = [e]
     \<and> fst (run_credential run_lib run_world db) = Inr c
     \<and> map_of (sent_headers e) ''Authorization'' = Some [''Bearer '' @ cr_AccessToken c]"
proof -
  obtain db c where "run_credential run_lib run_world db = (Inr c, db)" using run_account by metis
  from run_served [OF this] obtain out e where out:
    "proxy_serve run_lib run_config True PostResponses run_world run_request None db = Some out" "po_sent out = [e]" by blast
  from upstream_request_is_ours [OF out(1)] out show ?thesis by auto
qed

theorem proxied_request_witness:
  "\<exists>db out url h body sid. proxy_serve run_lib run_config True PostResponses run_world run_request None db = Some out
     \<and> po_sent out = [PostUpstream url h body] \<and> map_of body ''store'' = Some (JBool False)
     \<and> map_of body ''prompt_cache_key'' = Some (JStr sid) \<and> map_of h ''Session-Id'' = Some [sid]"
proof -
  obtain db c where "run_credential run_lib run_world db = (Inr c, db)" using run_account by metis
  from run_served [OF this] obtain out url h body where out:
    "proxy_serve run_lib run_config True PostResponses run_world run_request None db = Some out"
    "po_sent out = [PostUpstream url h body]" by blast
  have "case_folding (il_fold (cl_identity (px_compat run_lib)))"
    using ascii_case.case_folding_axioms by (simp add: run_lib_def sample_context_fields sample_il_def)
  moreover have "pq_key run_request = Some ''k''" "TrimSpace ''k'' \<noteq> []"
    by (simp_all add: run_request_def sample_clean(3))
  ultimately show ?thesis using proxied_request [OF _ out] out by blast
qed


lemma cached_models_fresh_witness:
  "\<exists>db w models. cached_models 5 (final (models_step run_lib run_config) None [Lookup 1, Fetch w db 2, Lookup 3]) = Some models
     \<and> distinct models \<and> models = [''m'']"
proof -
  obtain db c where db: "run_credential run_lib run_world db = (Inr c, db)" using run_account by metis
  have "TrimSpace ''m'' = ''m''" by (rule TrimSpace_printable) (simp_all add: printable_def)
  then have "model_ids [] [(''m'', [], []), ([], ''m'', []), ([], [], [])] = [''m'']" by (simp add: Let_def)
  moreover have "px_models run_lib [] = Inr (Some [(''m'', [], []), ([], ''m'', []), ([], [], [])])"
    "xc_url_error run_config u = None" "wd_upstream run_world = Reached \<lparr>ua_status = 200, ua_headers = [], ua_lines = [], ua_end = EOF\<rparr>" for u
    by (simp_all add: run_lib_def run_config_def run_world_def)
  ultimately have "stored_by run_lib run_config (Fetch run_world db 2) = Some ([''m''], 2)"
    using db by (simp add: stored_by_def fetch_models_def models_answer_def read_limited_def is_2xx_def convertModels_def del: model_ids.simps)
  then have kept: "cached_models 5 (final (models_step run_lib run_config) None [Lookup 1, Fetch run_world db 2, Lookup 3]) = Some [''m'']"
    by (simp add: step_stores cached_models_def) (simp add: stored_by_def)
  from cached_models_fresh [OF kept] have "distinct [''m'']" by blast
  with kept show ?thesis by blast
qed

end
