(* ===== verification/Configuration.thy ===== *)
theory Configuration
  imports "HOL-Library.Word" ClientAddress Compat
begin

text \<open>
  \<^verbatim>\<open>internal/config/config.go\<close>: the configuration that the server reads from its environment, with every check
  \<^verbatim>\<open>Load\<close> makes. The environment is a function that is empty where a variable is not set. Go's \<^verbatim>\<open>int\<close>,
  \<^verbatim>\<open>int64\<close> and \<^verbatim>\<open>time.Duration\<close> are words of 64 bits, whose products wrap around. \<^verbatim>\<open>url.Parse\<close>, the
  time zones, \<^verbatim>\<open>netip\<close>, \<^verbatim>\<open>filepath\<close> and the case tables of Unicode are arguments.
\<close>

subsection \<open>Numbers and flags as text\<close>

type_synonym goint = "64 word"

fun decimal :: "nat \<Rightarrow> gostring \<Rightarrow> nat option" where
  "decimal n [] = Some n"
| "decimal n (c # s) =
     (let d = of_char c
      in if 48 \<le> d \<and> d \<le> (57 :: nat) then decimal (10 * n + (d - 48)) s else None)"

text \<open>\<^verbatim>\<open>strconv.Atoi\<close>: a sign, at least one digit, and a value that fits.\<close>

definition Atoi :: "gostring \<Rightarrow> goint option" where
  "Atoi s =
     (let negative = take 1 s = ''-'';
          digits = (if take 1 s = ''-'' \<or> take 1 s = ''+'' then drop 1 s else s)
      in if digits = [] then None
         else (case decimal 0 digits of
                 None \<Rightarrow> None
               | Some n \<Rightarrow>
                   (let i = (if negative then - int n else int n)
                    in if - (2 ^ 63) \<le> i \<and> i < 2 ^ 63 then Some (word_of_int i) else None)))"

definition ParseBool :: "gostring \<Rightarrow> bool option" where
  "ParseBool s =
     (if s \<in> {''1'', ''t'', ''T'', ''true'', ''TRUE'', ''True''} then Some True
      else if s \<in> {''0'', ''f'', ''F'', ''false'', ''FALSE'', ''False''} then Some False
      else None)"

subsection \<open>Variables\<close>

definition env :: "(gostring \<Rightarrow> gostring) \<Rightarrow> gostring \<Rightarrow> gostring \<Rightarrow> gostring" where
  "env os name fallback = (if TrimSpace (os name) \<noteq> [] then TrimSpace (os name) else fallback)"

definition envInt :: "(gostring \<Rightarrow> gostring) \<Rightarrow> gostring \<Rightarrow> goint \<Rightarrow> goint" where
  "envInt os name fallback =
     (let raw = TrimSpace (os name)
      in if raw = [] then fallback
         else (case Atoi raw of
                 None \<Rightarrow> fallback
               | Some v \<Rightarrow> if sint v \<le> 0 then fallback else v))"

definition envBool :: "(gostring \<Rightarrow> gostring) \<Rightarrow> gostring \<Rightarrow> bool \<Rightarrow> bool" where
  "envBool os name fallback =
     (let raw = TrimSpace (os name)
      in if raw = [] then fallback else (case ParseBool raw of None \<Rightarrow> fallback | Some v \<Rightarrow> v))"

subsection \<open>The configuration\<close>

text \<open>What \<^verbatim>\<open>Load\<close> reads of a parsed URL.\<close>

record config_url =
  gu_Scheme :: gostring
  gu_Host :: gostring
  gu_Hostname :: gostring

text \<open>Addresses \<open>'a\<close>, prefixes \<open>'p\<close> and time zones \<open>'l\<close> are those of the libraries.\<close>

record ('a, 'p, 'l) config_lib =
  gl_ParseURL :: "gostring \<Rightarrow> config_url option"
  gl_fold :: "gostring \<Rightarrow> gostring"
  gl_ToLower :: "gostring \<Rightarrow> gostring"
  gl_Dir :: "gostring \<Rightarrow> gostring"
  gl_Join :: "gostring \<Rightarrow> gostring \<Rightarrow> gostring"
  gl_ParsePrefix :: "gostring \<Rightarrow> 'p option"
  gl_ParseAddr :: "gostring \<Rightarrow> 'a option"
  gl_Unmap :: "'a \<Rightarrow> 'a"
  gl_BitLen :: "'a \<Rightarrow> int"
  gl_PrefixFrom :: "'a \<Rightarrow> int \<Rightarrow> 'p"
  gl_Masked :: "'p \<Rightarrow> 'p"
  gl_LoadLocation :: "gostring \<Rightarrow> gostring + 'l"

record ('p, 'l) Config =
  cg_Addr :: gostring
  cg_PublicURL :: gostring
  cg_StorageDriver :: gostring
  cg_SQLitePath :: gostring
  cg_DatabaseURL :: gostring
  cg_RedisURL :: gostring
  cg_MasterKey :: gostring
  cg_MasterKeyFile :: gostring
  cg_AdminPassword :: gostring
  cg_LogPath :: gostring
  cg_CodexClientVersion :: gostring
  cg_CodexUserAgent :: gostring
  cg_CodexChromeTLS :: bool
  cg_CodexIdentityRemap :: bool
  cg_CodexWSHTTPFallback :: bool
  cg_UpstreamBaseURL :: gostring
  cg_RequestRetentionDays :: goint
  cg_MaxRequestBytes :: goint
  cg_SessionTTL :: goint
  cg_Location :: "'l option"
  cg_CookieSecure :: bool
  cg_TrustedProxyCIDRs :: "'p list"

datatype config_error =
    PublicURLNotAbsolute
  | PublicURLExample
  | InvalidProxyEntry gostring
  | UpstreamNotHTTPS
  | InvalidTimezone gostring gostring
  | SQLitePathRequired
  | DatabaseURLRequired
  | RedisURLRequired
  | MasterKeyRequired
  | UnknownDriver

text \<open>The text of an error; \<open>quote\<close> is the verb \<^verbatim>\<open>%q\<close>.\<close>

fun config_message :: "(gostring \<Rightarrow> gostring) \<Rightarrow> config_error \<Rightarrow> gostring" where
  "config_message quote PublicURLNotAbsolute = ''PUBLIC_URL must be an absolute URL''"
| "config_message quote PublicURLExample = ''PUBLIC_URL still contains the example hostname xxx.xxx.com''"
| "config_message quote (InvalidProxyEntry entry) = ''invalid TRUSTED_PROXY_CIDRS entry '' @ quote entry"
| "config_message quote UpstreamNotHTTPS = ''OPENAI_UPSTREAM_BASE_URL must be an absolute HTTPS URL''"
| "config_message quote (InvalidTimezone zone e) = ''invalid APP_TIMEZONE '' @ quote zone @ '': '' @ e"
| "config_message quote SQLitePathRequired = ''SQLITE_PATH is required''"
| "config_message quote DatabaseURLRequired = ''DATABASE_URL is required in postgres mode''"
| "config_message quote RedisURLRequired = ''REDIS_URL is required in postgres mode''"
| "config_message quote MasterKeyRequired = ''MASTER_KEY is required in postgres mode''"
| "config_message quote UnknownDriver = ''STORAGE_DRIVER must be sqlite or postgres''"

definition trim_slashes :: "gostring \<Rightarrow> gostring" where
  "trim_slashes s = rev (dropWhile (\<lambda>c. c = CHR ''/'') (rev s))"

text \<open>\<^verbatim>\<open>parseTrustedProxyCIDRs\<close>: one entry, and the loop over the entries.\<close>

definition proxy_entry :: "('a, 'p, 'l) config_lib \<Rightarrow> gostring \<Rightarrow> config_error + 'p" where
  "proxy_entry cl entry =
     (case gl_ParsePrefix cl entry of
        Some p \<Rightarrow> Inr (gl_Masked cl p)
      | None \<Rightarrow>
          (case gl_ParseAddr cl entry of
             None \<Rightarrow> Inl (InvalidProxyEntry entry)
           | Some address0 \<Rightarrow>
               (let address = gl_Unmap cl address0
                in Inr (gl_Masked cl (gl_PrefixFrom cl address (gl_BitLen cl address))))))"

fun proxy_loop :: "('a, 'p, 'l) config_lib \<Rightarrow> gostring list \<Rightarrow> 'p list \<Rightarrow> config_error + 'p list" where
  "proxy_loop cl [] ps = Inr ps"
| "proxy_loop cl (e # es) ps =
     (let entry = TrimSpace e
      in if entry = [] then proxy_loop cl es ps
         else (case proxy_entry cl entry of
                 Inl err \<Rightarrow> Inl err
               | Inr p \<Rightarrow> proxy_loop cl es (ps @ [p])))"

definition parseTrustedProxyCIDRs :: "('a, 'p, 'l) config_lib \<Rightarrow> gostring \<Rightarrow> config_error + 'p list" where
  "parseTrustedProxyCIDRs cl raw = proxy_loop cl (split_on (CHR '','') raw) []"

text \<open>The composite literal at the start of \<^verbatim>\<open>Load\<close>; the last three fields still have their zero value.\<close>

definition default_user_agent :: "gostring \<Rightarrow> gostring" where
  "default_user_agent version =
     ''codex-tui/'' @ version @ '' (Mac OS 26.5.0; arm64) iTerm.app/3.6.10 (codex-tui; '' @ version @ '')''"

definition read_config :: "('a, 'p, 'l) config_lib \<Rightarrow> (gostring \<Rightarrow> gostring) \<Rightarrow> ('p, 'l) Config" where
  "read_config cl os =
     (let version = env os ''CODEX_CLIENT_VERSION'' ''0.146.0'';
          sqlitePath = env os ''SQLITE_PATH'' ''./data/codexone.db''
      in \<lparr>cg_Addr = env os ''LISTEN_ADDR'' '':8080'',
          cg_PublicURL = trim_slashes (env os ''PUBLIC_URL'' ''http://localhost:8080''),
          cg_StorageDriver = gl_ToLower cl (env os ''STORAGE_DRIVER'' ''sqlite''),
          cg_SQLitePath = sqlitePath,
          cg_DatabaseURL = TrimSpace (os ''DATABASE_URL''),
          cg_RedisURL = TrimSpace (os ''REDIS_URL''),
          cg_MasterKey = TrimSpace (os ''MASTER_KEY''),
          cg_MasterKeyFile = env os ''MASTER_KEY_FILE'' (gl_Join cl (gl_Dir cl sqlitePath) ''master.key''),
          cg_AdminPassword = os ''ADMIN_PASSWORD'',
          cg_LogPath = env os ''LOG_PATH'' ''./data/codexone.log'',
          cg_CodexClientVersion = version,
          cg_CodexUserAgent = env os ''CODEX_USER_AGENT'' (default_user_agent version),
          cg_CodexChromeTLS = envBool os ''CODEX_CHROME_TLS'' True,
          cg_CodexIdentityRemap = envBool os ''CODEX_IDENTITY_REMAP'' True,
          cg_CodexWSHTTPFallback = envBool os ''CODEX_WEBSOCKET_HTTP_FALLBACK'' True,
          cg_UpstreamBaseURL = trim_slashes (env os ''OPENAI_UPSTREAM_BASE_URL'' ''https://chatgpt.com''),
          cg_RequestRetentionDays = envInt os ''REQUEST_RETENTION_DAYS'' 30,
          cg_MaxRequestBytes = push_bit 20 (envInt os ''MAX_REQUEST_MIB'' 32),
          cg_SessionTTL = envInt os ''SESSION_TTL_HOURS'' 24 * 3600000000000,
          cg_Location = None, cg_CookieSecure = False, cg_TrustedProxyCIDRs = []\<rparr>)"

text \<open>The last check, of what the storage needs.\<close>

definition storage_error :: "('p, 'l) Config \<Rightarrow> config_error option" where
  "storage_error cfg =
     (if cg_StorageDriver cfg = ''sqlite'' then
        (if cg_SQLitePath cfg = [] then Some SQLitePathRequired else None)
      else if cg_StorageDriver cfg = ''postgres'' then
        (if cg_DatabaseURL cfg = [] then Some DatabaseURLRequired
         else if cg_RedisURL cfg = [] then Some RedisURLRequired
         else if cg_MasterKey cfg = [] then Some MasterKeyRequired else None)
      else Some UnknownDriver)"

definition Load :: "('a, 'p, 'l) config_lib \<Rightarrow> (gostring \<Rightarrow> gostring) \<Rightarrow> config_error + ('p, 'l) Config" where
  "Load cl os =
     (let cfg0 = read_config cl os
      in case gl_ParseURL cl (cg_PublicURL cfg0) of
           None \<Rightarrow> Inl PublicURLNotAbsolute
         | Some publicURL \<Rightarrow>
             if gu_Scheme publicURL = [] \<or> gu_Host publicURL = [] then Inl PublicURLNotAbsolute
             else if gl_fold cl (gu_Hostname publicURL) = gl_fold cl ''xxx.xxx.com'' then Inl PublicURLExample
             else
               (let cfg1 = cfg0\<lparr>cg_CookieSecure := gl_fold cl (gu_Scheme publicURL) = gl_fold cl ''https''\<rparr>
                in case parseTrustedProxyCIDRs cl (os ''TRUSTED_PROXY_CIDRS'') of
                     Inl e \<Rightarrow> Inl e
                   | Inr cidrs \<Rightarrow>
                       (let cfg2 = cfg1\<lparr>cg_TrustedProxyCIDRs := cidrs\<rparr>
                        in case gl_ParseURL cl (cg_UpstreamBaseURL cfg2) of
                             None \<Rightarrow> Inl UpstreamNotHTTPS
                           | Some upstreamURL \<Rightarrow>
                               if gu_Scheme upstreamURL \<noteq> ''https'' \<or> gu_Host upstreamURL = [] then Inl UpstreamNotHTTPS
                               else
                                 (let timezone = env os ''APP_TIMEZONE'' ''Asia/Shanghai''
                                  in case gl_LoadLocation cl timezone of
                                       Inl e \<Rightarrow> Inl (InvalidTimezone timezone e)
                                     | Inr location \<Rightarrow>
                                         (let cfg3 = cfg2\<lparr>cg_Location := Some location\<rparr>
                                          in case storage_error cfg3 of
                                               Some e \<Rightarrow> Inl e
                                             | None \<Rightarrow> Inr cfg3)))))"

subsection \<open>Lemmas\<close>

abbreviation proxy_entries :: "gostring \<Rightarrow> gostring list" where
  "proxy_entries raw \<equiv> filter (\<lambda>e. e \<noteq> []) (map TrimSpace (split_on (CHR '','') raw))"

lemma proxy_loop_Inr:
  "proxy_loop cl es ps = Inr qs \<longleftrightarrow>
     (\<exists>rs. qs = ps @ rs \<and> map (proxy_entry cl) (filter (\<lambda>e. e \<noteq> []) (map TrimSpace es)) = map Inr rs)"
proof (induction es arbitrary: ps)
  case (Cons e es)
  then show ?case
    by (cases "proxy_entry cl (TrimSpace e)") (auto simp: Let_def map_eq_Cons_conv Cons_eq_map_conv)
qed auto

lemma trusted_proxies:
  "parseTrustedProxyCIDRs cl raw = Inr ps \<longleftrightarrow> map (proxy_entry cl) (proxy_entries raw) = map Inr ps"
  by (simp add: parseTrustedProxyCIDRs_def proxy_loop_Inr)

lemma proxy_loop_Inl:
  "proxy_loop cl es ps = Inl err \<Longrightarrow>
     \<exists>entry \<in> set (filter (\<lambda>e. e \<noteq> []) (map TrimSpace es)). proxy_entry cl entry = Inl err \<and> err = InvalidProxyEntry entry"
proof (induction es arbitrary: ps)
  case (Cons e es)
  then show ?case
    by (auto simp: Let_def proxy_entry_def split: if_splits sum.splits option.splits)
qed simp

text \<open>What an accepted configuration has passed.\<close>

lemma Load_Inr:
  assumes "Load cl os = Inr cfg"
  obtains u v ps l where
    "gl_ParseURL cl (cg_PublicURL cfg) = Some u" "gu_Scheme u \<noteq> []" "gu_Host u \<noteq> []"
    "gl_fold cl (gu_Hostname u) \<noteq> gl_fold cl ''xxx.xxx.com''"
    "parseTrustedProxyCIDRs cl (os ''TRUSTED_PROXY_CIDRS'') = Inr ps"
    "gl_ParseURL cl (cg_UpstreamBaseURL cfg) = Some v" "gu_Scheme v = ''https''" "gu_Host v \<noteq> []"
    "gl_LoadLocation cl (env os ''APP_TIMEZONE'' ''Asia/Shanghai'') = Inr l"
    "storage_error cfg = None"
    "cfg = (read_config cl os)\<lparr>cg_CookieSecure := gl_fold cl (gu_Scheme u) = gl_fold cl ''https'',
       cg_TrustedProxyCIDRs := ps, cg_Location := Some l\<rparr>"
  using assms
  by (auto simp: Load_def Let_def split: option.splits if_splits sum.splits)

lemma trim_slashes_last: "trim_slashes s \<noteq> [] \<Longrightarrow> last (trim_slashes s) \<noteq> CHR ''/''"
  using hd_dropWhile [of "\<lambda>c. c = CHR ''/''" "rev s"] by (simp add: trim_slashes_def last_rev)

lemma env_fallback_not_Nil: "fallback \<noteq> [] \<Longrightarrow> env os name fallback \<noteq> []"
  by (simp add: env_def)

lemma envInt_positive: "0 < sint fallback \<Longrightarrow> 0 < sint (envInt os name fallback)"
  by (auto simp: envInt_def Let_def split: option.split)

text \<open>The check of the path is redundant: a blank \<^verbatim>\<open>SQLITE_PATH\<close> takes the default.\<close>

lemma read_config_path: "cg_SQLitePath (read_config cl os) \<noteq> []"
  unfolding read_config_def Let_def Config.select_convs by (rule env_fallback_not_Nil) simp

lemma storage_error_path:
  "storage_error ((read_config cl os)\<lparr>cg_CookieSecure := b, cg_TrustedProxyCIDRs := ps, cg_Location := l\<rparr>) \<noteq> Some SQLitePathRequired"
  using read_config_path [of cl os] by (simp add: storage_error_def)

lemma trusted_proxies_error: "parseTrustedProxyCIDRs cl raw = Inl e \<Longrightarrow> \<exists>entry \<in> set (proxy_entries raw). e = InvalidProxyEntry entry"
  unfolding parseTrustedProxyCIDRs_def by (drule proxy_loop_Inl) blast

lemma sqlite_path_never_required: "Load cl os \<noteq> Inl SQLitePathRequired"
  by (auto simp: Load_def Let_def storage_error_path dest!: trusted_proxies_error
      split: option.splits sum.splits if_splits)

text \<open>\<^verbatim>\<open>Atoi\<close> reads what \<^verbatim>\<open>Itoa\<close> writes.\<close>

lemma decimal_itoa: "decimal m (itoa n @ s) = decimal (m * 10 ^ length (itoa n) + n) s"
proof (induction n arbitrary: m s rule: itoa.induct)
  case (1 n)
  show ?case
  proof (cases "n < 10")
    case True
    then have "itoa n = [char_of (48 + n)]" by (subst itoa.simps) simp
    with True show ?thesis by (simp add: Let_def mult.commute)
  next
    case False
    have digit: "n mod 10 \<le> 9" by presburger
    have step: "itoa n = itoa (n div 10) @ [char_of (48 + n mod 10)]"
      using False by (subst itoa.simps) simp
    have "decimal m (itoa n @ s) = decimal (m * 10 ^ length (itoa (n div 10)) + n div 10) (char_of (48 + n mod 10) # s)"
      using 1 [OF False] by (simp add: step)
    also have "\<dots> = decimal (10 * (m * 10 ^ length (itoa (n div 10)) + n div 10) + n mod 10) s"
      using digit by (simp add: Let_def)
    also have "10 * (m * 10 ^ length (itoa (n div 10)) + n div 10) + n mod 10 = m * 10 ^ length (itoa n) + n"
      by (simp add: step)
    finally show ?thesis .
  qed
qed

lemma itoa_digits: "itoa n \<noteq> [] \<and> (\<forall>c \<in> set (itoa n). 48 \<le> (of_char c :: nat) \<and> (of_char c :: nat) \<le> 57)"
proof (induction n rule: itoa.induct)
  case (1 n)
  show ?case
  proof (cases "n < 10")
    case False
    with 1 have "itoa n = itoa (n div 10) @ [char_of (48 + n mod 10)]" by (subst itoa.simps) simp
    moreover have "n mod 10 < 10" by simp
    ultimately show ?thesis using 1 [OF False] by auto
  qed (subst itoa.simps, simp)+
qed

lemma Atoi_itoa:
  assumes "n < 2 ^ 63"
  shows "Atoi (itoa n) = Some (word_of_int (int n))"
proof -
  obtain c cs where c: "itoa n = c # cs" using itoa_digits by (cases "itoa n") auto
  then have "48 \<le> (of_char c :: nat)" using itoa_digits [of n] by auto
  then have "c \<noteq> CHR ''-''" "c \<noteq> CHR ''+''" by auto
  moreover have "int n < 2 ^ 63" using assms by (metis of_nat_less_iff of_nat_numeral of_nat_power)
  ultimately show ?thesis
    using decimal_itoa [of 0 n "[]"] by (simp add: Atoi_def c)
qed

lemma sint_small: "- (2 ^ 63) \<le> k \<Longrightarrow> k < 2 ^ 63 \<Longrightarrow> sint (word_of_int k :: goint) = k"
  by (simp add: sint_sbintrunc' signed_take_bit_int_eq_self)

lemma sint_nat:
  assumes "n < 2 ^ 63"
  shows "sint (word_of_int (int n) :: goint) = int n"
proof (rule sint_small)
  show "- (2 ^ 63) \<le> int n" by (rule order.trans [of _ 0]) simp_all
  show "int n < 2 ^ 63" using assms by (metis of_nat_less_iff of_nat_numeral of_nat_power)
qed

lemma envInt_number:
  assumes "TrimSpace (os name) = itoa n" "0 < n" "n < 2 ^ 63"
  shows "envInt os name fallback = word_of_int (int n)"
  using assms itoa_digits [of n] Atoi_itoa [of n] sint_nat [of n] by (simp add: envInt_def)

text \<open>The values of the two products, as the 64 bits keep them.\<close>

lemma sint_product: "sint (word_of_int k * word_of_int j :: goint) = signed_take_bit 63 (k * j)"
  by (simp only: wi_hom_mult sint_sbintrunc') simp

lemma read_config_ttl: "cg_SessionTTL (read_config cl os) = envInt os ''SESSION_TTL_HOURS'' 24 * word_of_int 3600000000000"
  and read_config_bytes: "cg_MaxRequestBytes (read_config cl os) = envInt os ''MAX_REQUEST_MIB'' 32 * word_of_int 1048576"
  and read_config_days: "cg_RequestRetentionDays (read_config cl os) = envInt os ''REQUEST_RETENTION_DAYS'' 30"
  by (simp_all add: read_config_def Let_def push_bit_eq_mult)

lemma Load_numbers:
  assumes "Load cl os = Inr cfg"
  shows "cg_SessionTTL cfg = cg_SessionTTL (read_config cl os)"
    and "cg_MaxRequestBytes cfg = cg_MaxRequestBytes (read_config cl os)"
    and "cg_RequestRetentionDays cfg = cg_RequestRetentionDays (read_config cl os)"
  using assms by (auto elim!: Load_Inr)

lemma session_ttl_value:
  assumes "Load cl os = Inr cfg" "TrimSpace (os ''SESSION_TTL_HOURS'') = itoa n" "0 < n" "n < 2 ^ 63"
  shows "sint (cg_SessionTTL cfg) = signed_take_bit 63 (int n * 3600000000000)"
  using envInt_number [of os "''SESSION_TTL_HOURS''", OF assms(2-4)]
  by (simp only: Load_numbers [OF assms(1)] read_config_ttl sint_product)

lemma request_bytes_value:
  assumes "Load cl os = Inr cfg" "TrimSpace (os ''MAX_REQUEST_MIB'') = itoa n" "0 < n" "n < 2 ^ 63"
  shows "sint (cg_MaxRequestBytes cfg) = signed_take_bit 63 (int n * 1048576)"
  using envInt_number [of os "''MAX_REQUEST_MIB''", OF assms(2-4)]
  by (simp only: Load_numbers [OF assms(1)] read_config_bytes sint_product)

text \<open>A number below the bound is kept, the least one above it becomes negative.\<close>

lemma product_kept: "0 < n \<Longrightarrow> n * k < 2 ^ 63 \<Longrightarrow> signed_take_bit 63 (int n * int k) = int n * int k"
proof -
  assume "0 < n" and "n * k < 2 ^ 63"
  then have "int (n * k) < 2 ^ 63" by (metis of_nat_less_iff of_nat_numeral of_nat_power)
  moreover have "- (2 ^ 63) \<le> int n * int k" by (rule order.trans [of _ 0]) simp_all
  ultimately show ?thesis by (intro signed_take_bit_int_eq_self) simp_all
qed

subsection \<open>Properties\<close>

text \<open>C36. A configuration the server starts with has passed every check: the upstream is an absolute
  HTTPS address, so that the credential of the account never leaves over plain HTTP, the public address is absolute, is not
  the one of the example and decides whether the cookie is secure, every entry for a trusted proxy was understood, and
  the storage that was chosen has what it needs.\<close>

theorem accepted_configuration:
  assumes "Load cl os = Inr cfg"
  shows "(\<exists>v. gl_ParseURL cl (cg_UpstreamBaseURL cfg) = Some v \<and> gu_Scheme v = ''https'' \<and> gu_Host v \<noteq> []) \<and>
    (\<exists>u. gl_ParseURL cl (cg_PublicURL cfg) = Some u \<and> gu_Scheme u \<noteq> [] \<and> gu_Host u \<noteq> [] \<and>
       gl_fold cl (gu_Hostname u) \<noteq> gl_fold cl ''xxx.xxx.com'' \<and>
       cg_CookieSecure cfg = (gl_fold cl (gu_Scheme u) = gl_fold cl ''https'')) \<and>
    map (proxy_entry cl) (proxy_entries (os ''TRUSTED_PROXY_CIDRS'')) = map Inr (cg_TrustedProxyCIDRs cfg) \<and>
    (\<exists>l. gl_LoadLocation cl (env os ''APP_TIMEZONE'' ''Asia/Shanghai'') = Inr l \<and> cg_Location cfg = Some l) \<and>
    (cg_StorageDriver cfg = ''sqlite'' \<and> cg_SQLitePath cfg \<noteq> [] \<or>
     cg_StorageDriver cfg = ''postgres'' \<and> cg_DatabaseURL cfg \<noteq> [] \<and> cg_RedisURL cfg \<noteq> [] \<and> cg_MasterKey cfg \<noteq> [])"
proof -
  from assms obtain u v ps l where c:
    "gl_ParseURL cl (cg_PublicURL cfg) = Some u" "gu_Scheme u \<noteq> []" "gu_Host u \<noteq> []"
    "gl_fold cl (gu_Hostname u) \<noteq> gl_fold cl ''xxx.xxx.com''"
    "parseTrustedProxyCIDRs cl (os ''TRUSTED_PROXY_CIDRS'') = Inr ps"
    "gl_ParseURL cl (cg_UpstreamBaseURL cfg) = Some v" "gu_Scheme v = ''https''" "gu_Host v \<noteq> []"
    "gl_LoadLocation cl (env os ''APP_TIMEZONE'' ''Asia/Shanghai'') = Inr l"
    "storage_error cfg = None"
    and cfg: "cfg = (read_config cl os)\<lparr>cg_CookieSecure := gl_fold cl (gu_Scheme u) = gl_fold cl ''https'',
       cg_TrustedProxyCIDRs := ps, cg_Location := Some l\<rparr>"
    by (rule Load_Inr)
  have final: "cg_CookieSecure cfg = (gl_fold cl (gu_Scheme u) = gl_fold cl ''https'')"
    "cg_TrustedProxyCIDRs cfg = ps" "cg_Location cfg = Some l"
    by (simp_all add: cfg)
  from c(5) have "map (proxy_entry cl) (proxy_entries (os ''TRUSTED_PROXY_CIDRS'')) = map Inr ps"
    by (simp add: trusted_proxies)
  moreover from c(10) have "cg_StorageDriver cfg = ''sqlite'' \<and> cg_SQLitePath cfg \<noteq> [] \<or>
     cg_StorageDriver cfg = ''postgres'' \<and> cg_DatabaseURL cfg \<noteq> [] \<and> cg_RedisURL cfg \<noteq> [] \<and> cg_MasterKey cfg \<noteq> []"
    by (simp add: storage_error_def split: if_splits)
  ultimately show ?thesis using c(1-4,6-9) final by blast
qed

text \<open>The limits mean what they say up to a bound: a session of up to 2562047 hours, a request of up to
  8796093022207 MiB and any number of days. One hour or one MiB more wraps around: the lifetime of a session or the
  largest request becomes negative.\<close>

lemma configured_limits:
  assumes "Load cl os = Inr cfg"
    and "TrimSpace (os ''SESSION_TTL_HOURS'') = itoa hours" "0 < hours" "hours \<le> 2562048"
    and "TrimSpace (os ''MAX_REQUEST_MIB'') = itoa mib" "0 < mib" "mib \<le> 8796093022208"
    and "TrimSpace (os ''REQUEST_RETENTION_DAYS'') = itoa days" "0 < days" "days < 2 ^ 63"
  shows "sint (cg_SessionTTL cfg) = (if hours = 2562048 then - 9223371273709551616 else int hours * 3600000000000) \<and>
    sint (cg_MaxRequestBytes cfg) = (if mib = 8796093022208 then - 9223372036854775808 else int mib * 1048576) \<and>
    sint (cg_RequestRetentionDays cfg) = int days"
proof -
  have "sint (cg_SessionTTL cfg) = signed_take_bit 63 (int hours * 3600000000000)"
    using assms(4) by (intro session_ttl_value [OF assms(1-3)]) simp
  moreover have "sint (cg_MaxRequestBytes cfg) = signed_take_bit 63 (int mib * 1048576)"
    using assms(7) by (intro request_bytes_value [OF assms(1,5,6)]) simp
  moreover have "signed_take_bit 63 (int hours * 3600000000000) =
      (if hours = 2562048 then - 9223371273709551616 else int hours * 3600000000000)"
    using assms(3,4) product_kept [of hours 3600000000000] by auto
  moreover have "signed_take_bit 63 (int mib * 1048576) =
      (if mib = 8796093022208 then - 9223372036854775808 else int mib * 1048576)"
    using assms(6,7) product_kept [of mib 1048576] by auto
  moreover have "sint (cg_RequestRetentionDays cfg) = int days"
    using sint_nat [OF assms(10)] envInt_number [of os "''REQUEST_RETENTION_DAYS''", OF assms(8-10)]
    by (simp add: Load_numbers [OF assms(1)] read_config_days)
  ultimately show ?thesis by simp
qed

text \<open>An environment in which the numbers and nothing else are set.\<close>

definition sample_environment :: "gostring \<Rightarrow> gostring" where
  "sample_environment =
     (\<lambda>name. [])(''SESSION_TTL_HOURS'' := ''24'', ''MAX_REQUEST_MIB'' := ''32'', ''REQUEST_RETENTION_DAYS'' := ''30'')"

definition sample_config_lib :: "(nat, nat, nat) config_lib" where
  "sample_config_lib =
     \<lparr>gl_ParseURL = (\<lambda>s. Some \<lparr>gu_Scheme = takeWhile (\<lambda>c. c \<noteq> CHR '':'') s, gu_Host = ''host'', gu_Hostname = ''host''\<rparr>),
      gl_fold = (\<lambda>s. s), gl_ToLower = (\<lambda>s. s), gl_Dir = (\<lambda>p. ''./data''), gl_Join = (\<lambda>d f. d @ ''/'' @ f),
      gl_ParsePrefix = (\<lambda>s. None), gl_ParseAddr = (\<lambda>s. Some (length s)), gl_Unmap = (\<lambda>a. a), gl_BitLen = (\<lambda>a. 32),
      gl_PrefixFrom = (\<lambda>a n. a), gl_Masked = (\<lambda>p. p), gl_LoadLocation = (\<lambda>z. Inr (length z))\<rparr>"


lemma sample_load: "\<exists>cfg. Load sample_config_lib sample_environment = Inr cfg"
proof -
  let ?r = "read_config sample_config_lib sample_environment"
  have url: "cg_PublicURL ?r = ''http://localhost:8080''" "cg_UpstreamBaseURL ?r = ''https://chatgpt.com''"
    and storage: "cg_StorageDriver ?r = ''sqlite''"
    by (simp_all add: read_config_def Let_def sample_environment_def env_def trim_slashes_def sample_config_lib_def)
  have "parseTrustedProxyCIDRs sample_config_lib (sample_environment ''TRUSTED_PROXY_CIDRS'') = Inr []"
    by (simp add: parseTrustedProxyCIDRs_def sample_environment_def)
  moreover have "gl_LoadLocation sample_config_lib (env sample_environment ''APP_TIMEZONE'' ''Asia/Shanghai'') = Inr 13"
    by (simp add: sample_config_lib_def env_def sample_environment_def)
  moreover have "\<And>s. gl_ParseURL sample_config_lib s =
      Some \<lparr>gu_Scheme = takeWhile (\<lambda>c. c \<noteq> CHR '':'') s, gu_Host = ''host'', gu_Hostname = ''host''\<rparr>"
    by (simp add: sample_config_lib_def)
  moreover have "\<And>s. gl_fold sample_config_lib s = s" by (simp add: sample_config_lib_def)
  ultimately show ?thesis
    using read_config_path [of sample_config_lib sample_environment]
    by (simp add: Load_def Let_def url storage storage_error_def)
qed

theorem accepted_configuration_witness:
  "\<exists>cfg. Load sample_config_lib sample_environment = Inr cfg \<and>
     (\<exists>v. gl_ParseURL sample_config_lib (cg_UpstreamBaseURL cfg) = Some v \<and> gu_Scheme v = ''https'')"
proof -
  obtain cfg where "Load sample_config_lib sample_environment = Inr cfg" using sample_load by blast
  with accepted_configuration [OF this] show ?thesis by blast
qed

lemma sample_numbers:
  "TrimSpace (sample_environment ''SESSION_TTL_HOURS'') = itoa 24"
  "TrimSpace (sample_environment ''MAX_REQUEST_MIB'') = itoa 32"
  "TrimSpace (sample_environment ''REQUEST_RETENTION_DAYS'') = itoa 30"
  by (simp_all add: sample_environment_def TrimSpace_printable printable_def itoa.simps char_of_def bit_0)

lemma configured_limits_witness:
  "\<exists>cfg. Load sample_config_lib sample_environment = Inr cfg \<and>
     sint (cg_SessionTTL cfg) = 86400000000000 \<and> sint (cg_MaxRequestBytes cfg) = 33554432 \<and>
     sint (cg_RequestRetentionDays cfg) = 30"
proof -
  obtain cfg where "Load sample_config_lib sample_environment = Inr cfg" using sample_load by blast
  with configured_limits [OF this sample_numbers(1) _ _ sample_numbers(2) _ _ sample_numbers(3)] show ?thesis by simp
qed

end
