(* ===== verification/Migrations.thy ===== *)
theory Migrations
  imports Configuration Database
begin

text \<open>
  How \<^verbatim>\<open>internal/store/store.go\<close> opens the database: the choice of the driver, the migration of the
  schema and the numbering of placeholders. A table is its columns and rows; a statement is the function on the schema
  that its SQL describes, \<open>None\<close> where the database refuses it. A call that fails for another reason (no
  connection, a cancelled context) is an argument, so that a start may be interrupted at every statement.
\<close>

subsection \<open>Schemas and statements\<close>

datatype sqlval = SqlNull | SqlInt int | SqlText gostring

record sqltable =
  tb_columns :: "gostring list"
  tb_rows :: "(gostring \<rightharpoonup> sqlval) list"

record schema =
  sm_tables :: "gostring \<rightharpoonup> sqltable"
  sm_indexes :: "gostring list"

text \<open>The two definitions a telemetry column can have.\<close>

datatype coldef = BigIntDefaultZero | TextDefaultEmpty

fun coldef_text :: "coldef \<Rightarrow> gostring" where
  "coldef_text BigIntDefaultZero = ''BIGINT NOT NULL DEFAULT 0''"
| "coldef_text TextDefaultEmpty = ''TEXT NOT NULL DEFAULT '' @ [CHR 0x27, CHR 0x27]"

fun coldef_default :: "coldef \<Rightarrow> sqlval" where
  "coldef_default BigIntDefaultZero = SqlInt 0"
| "coldef_default TextDefaultEmpty = SqlText []"

datatype sqlstatement =
    CreateTable gostring "gostring list"
  | CreateIndex gostring gostring "gostring list"
  | AddColumn bool gostring gostring coldef

text \<open>\<^verbatim>\<open>CREATE ... IF NOT EXISTS\<close> and \<^verbatim>\<open>ALTER TABLE ... ADD COLUMN\<close>, the latter with or without \<^verbatim>\<open>IF NOT EXISTS\<close>;
  the rows there are get the default of the new column.\<close>

fun exec_sql :: "sqlstatement \<Rightarrow> schema \<Rightarrow> schema option" where
  "exec_sql (CreateTable t cs) s =
     (case sm_tables s t of
        Some _ \<Rightarrow> Some s
      | None \<Rightarrow> Some (s\<lparr>sm_tables := (sm_tables s)(t \<mapsto> \<lparr>tb_columns = cs, tb_rows = []\<rparr>)\<rparr>))"
| "exec_sql (CreateIndex i t cs) s =
     (if i \<in> set (sm_indexes s) then Some s
      else (case sm_tables s t of
              None \<Rightarrow> None
            | Some tb \<Rightarrow> if set cs \<subseteq> set (tb_columns tb) then Some (s\<lparr>sm_indexes := sm_indexes s @ [i]\<rparr>) else None))"
| "exec_sql (AddColumn if_missing t c d) s =
     (case sm_tables s t of
        None \<Rightarrow> None
      | Some tb \<Rightarrow>
          if c \<in> set (tb_columns tb) then (if if_missing then Some s else None)
          else Some (s\<lparr>sm_tables := (sm_tables s)
            (t \<mapsto> \<lparr>tb_columns = tb_columns tb @ [c], tb_rows = map (\<lambda>r. r(c \<mapsto> coldef_default d)) (tb_rows tb)\<rparr>)\<rparr>))"

subsection \<open>The migration\<close>

definition request_log_columns :: "gostring list" where
  "request_log_columns =
     [''id'', ''request_id'', ''api_key_id'', ''method'', ''path'', ''model'', ''status'', ''duration_ms'',
      ''input_tokens'', ''output_tokens'', ''reasoning_tokens'', ''reasoning_effort'', ''upstream_reasoning_effort'',
      ''first_reasoning_ms'', ''first_output_ms'', ''error'', ''created_at'']"

definition migration_statements :: "sqlstatement list" where
  "migration_statements =
     [CreateTable ''settings'' [''key'', ''value'', ''updated_at''],
      CreateTable ''codex_account'' [''id'', ''email'', ''chatgpt_account_id'', ''plan_type'', ''access_token_enc'',
        ''refresh_token_enc'', ''id_token_enc'', ''expires_at'', ''updated_at''],
      CreateTable ''api_keys'' [''id'', ''name'', ''key_hash'', ''prefix'', ''created_at'', ''last_used_at'', ''revoked_at''],
      CreateTable ''request_logs'' request_log_columns,
      CreateIndex ''idx_request_logs_created_at'' ''request_logs'' [''created_at''],
      CreateIndex ''idx_request_logs_api_key'' ''request_logs'' [''api_key_id'', ''created_at''],
      CreateTable ''quota_snapshot'' [''id'', ''payload'', ''fetched_at'']]"

definition telemetry_columns :: "(gostring \<times> coldef) list" where
  "telemetry_columns =
     [(''reasoning_tokens'', BigIntDefaultZero), (''reasoning_effort'', TextDefaultEmpty),
      (''upstream_reasoning_effort'', TextDefaultEmpty), (''first_reasoning_ms'', BigIntDefaultZero),
      (''first_output_ms'', BigIntDefaultZero)]"

text \<open>
  What happens to the calls of a migration: \<open>mw_statement i\<close> and \<open>mw_alter i\<close> say whether the \<open>i\<close>-th call is
  carried out. A commit whose answer is lost may still have taken place.
\<close>

datatype commit_outcome = Committed | CommitRefused | CommitLost

datatype migrate_error =
    BeginMigration
  | RunMigration
  | CommitMigration
  | InspectColumns
  | ScanColumn
  | ReadColumns
  | CloseScan
  | AddTelemetryColumn gostring

record migration_world =
  mw_begin :: bool
  mw_statement :: "nat \<Rightarrow> bool"
  mw_commit :: commit_outcome
  mw_inspect :: "migrate_error option"
  mw_alter :: "nat \<Rightarrow> bool"

fun run_migration :: "(nat \<Rightarrow> bool) \<Rightarrow> nat \<Rightarrow> sqlstatement list \<Rightarrow> schema \<Rightarrow> schema option" where
  "run_migration up i [] s = Some s"
| "run_migration up i (st # sts) s =
     (if up i then (case exec_sql st s of None \<Rightarrow> None | Some s' \<Rightarrow> run_migration up (Suc i) sts s') else None)"

text \<open>The loop over the columns: each statement is a transaction of its own.\<close>

fun add_columns :: "(nat \<Rightarrow> bool) \<Rightarrow> bool \<Rightarrow> gostring set \<Rightarrow> nat \<Rightarrow> (gostring \<times> coldef) list \<Rightarrow> schema
    \<Rightarrow> migrate_error option \<times> schema" where
  "add_columns up postgres existing i [] s = (None, s)"
| "add_columns up postgres existing i ((c, d) # cs) s =
     (if \<not> postgres \<and> c \<in> existing then add_columns up postgres existing i cs s
      else if \<not> up i then (Some (AddTelemetryColumn c), s)
      else (case exec_sql (AddColumn postgres ''request_logs'' c d) s of
              None \<Rightarrow> (Some (AddTelemetryColumn c), s)
            | Some s' \<Rightarrow> add_columns up postgres existing (Suc i) cs s'))"

text \<open>\<^verbatim>\<open>PRAGMA table_info\<close> lists the columns of a table, none for a table that does not exist.\<close>

definition table_info :: "gostring \<Rightarrow> schema \<Rightarrow> gostring set" where
  "table_info t s = (case sm_tables s t of None \<Rightarrow> {} | Some tb \<Rightarrow> set (tb_columns tb))"

definition ensureRequestLogTelemetryColumns :: "migration_world \<Rightarrow> bool \<Rightarrow> schema \<Rightarrow> migrate_error option \<times> schema" where
  "ensureRequestLogTelemetryColumns w postgres s =
     (if postgres then add_columns (mw_alter w) True {} 0 telemetry_columns s
      else (case mw_inspect w of
              Some e \<Rightarrow> (Some e, s)
            | None \<Rightarrow> add_columns (mw_alter w) False (table_info ''request_logs'' s) 0 telemetry_columns s))"

definition migrate :: "migration_world \<Rightarrow> bool \<Rightarrow> schema \<Rightarrow> migrate_error option \<times> schema" where
  "migrate w postgres s =
     (if \<not> mw_begin w then (Some BeginMigration, s)
      else (case run_migration (mw_statement w) 0 migration_statements s of
              None \<Rightarrow> (Some RunMigration, s)
            | Some s' \<Rightarrow>
                (case mw_commit w of
                   CommitRefused \<Rightarrow> (Some CommitMigration, s)
                 | CommitLost \<Rightarrow> (Some CommitMigration, s')
                 | Committed \<Rightarrow> ensureRequestLogTelemetryColumns w postgres s')))"

fun migrate_message :: "migrate_error \<Rightarrow> gostring" where
  "migrate_message BeginMigration = ''begin migration: ''"
| "migrate_message RunMigration = ''run migration: ''"
| "migrate_message CommitMigration = ''commit migration: ''"
| "migrate_message InspectColumns = ''inspect request log columns: ''"
| "migrate_message ScanColumn = ''scan request log column: ''"
| "migrate_message ReadColumns = ''read request log columns: ''"
| "migrate_message CloseScan = ''close request log column scan: ''"
| "migrate_message (AddTelemetryColumn c) = ''add request telemetry column '' @ c @ '': ''"

subsection \<open>Opening\<close>

text \<open>Driver and data source; \<open>ToSlash\<close> of \<^verbatim>\<open>filepath\<close> is an argument.\<close>

definition data_source :: "(gostring \<Rightarrow> gostring) \<Rightarrow> ('p, 'l) Config \<Rightarrow> gostring \<times> gostring" where
  "data_source ToSlash cfg =
     (if cg_StorageDriver cfg = ''postgres'' then (''pgx'', cg_DatabaseURL cfg)
      else (''sqlite'', ''file:'' @ ToSlash (cg_SQLitePath cfg) @
        ''?_pragma=busy_timeout(5000)&_pragma=journal_mode(WAL)&_pragma=foreign_keys(ON)''))"

text \<open>Limits of the pool of connections; the lifetime in nanoseconds.\<close>

record pool =
  pl_MaxOpenConns :: nat
  pl_MaxIdleConns :: nat
  pl_ConnMaxLifetime :: "int option"

definition pool_of :: "bool \<Rightarrow> pool" where
  "pool_of postgres =
     (if postgres then \<lparr>pl_MaxOpenConns = 20, pl_MaxIdleConns = 5, pl_ConnMaxLifetime = Some (minutes 30)\<rparr>
      else \<lparr>pl_MaxOpenConns = 8, pl_MaxIdleConns = 4, pl_ConnMaxLifetime = None\<rparr>)"

datatype open_error =
    CreateDirectory gostring
  | OpenDatabase gostring
  | PingDatabase gostring
  | MigrateDatabase migrate_error

record open_world =
  ow_mkdir :: "gostring option"
  ow_open :: "gostring option"
  ow_ping :: "gostring option"
  ow_migration :: migration_world

text \<open>The error or the pool of the opened database, whether a handle was closed again, and the schema.\<close>

definition Open :: "open_world \<Rightarrow> ('p, 'l) Config \<Rightarrow> schema \<Rightarrow> (open_error + pool) \<times> bool \<times> schema" where
  "Open w cfg s =
     (let postgres = (cg_StorageDriver cfg = ''postgres'')
      in if \<not> postgres \<and> ow_mkdir w \<noteq> None then (Inl (CreateDirectory (the (ow_mkdir w))), False, s)
         else (case ow_open w of
                 Some e \<Rightarrow> (Inl (OpenDatabase e), False, s)
               | None \<Rightarrow>
                   (case ow_ping w of
                      Some e \<Rightarrow> (Inl (PingDatabase e), True, s)
                    | None \<Rightarrow>
                        (case migrate (ow_migration w) postgres s of
                           (Some e, s') \<Rightarrow> (Inl (MigrateDatabase e), True, s')
                         | (None, s') \<Rightarrow> (Inr (pool_of postgres), False, s')))))"

subsection \<open>Placeholders\<close>

text \<open>\<^verbatim>\<open>query\<close> on the statements of the package, which are ASCII.\<close>

fun placeholders :: "nat \<Rightarrow> gostring \<Rightarrow> gostring" where
  "placeholders i [] = []"
| "placeholders i (c # cs) =
     (if c = CHR ''?'' then ''$'' @ itoa i @ placeholders (Suc i) cs else c # placeholders i cs)"

definition query :: "bool \<Rightarrow> gostring \<Rightarrow> gostring" where
  "query postgres raw = (if \<not> postgres then raw else placeholders 1 raw)"

subsection \<open>What a migration leads to\<close>

text \<open>The reference: every table and index that was missing, and every telemetry column that was missing.\<close>

definition created :: "schema \<Rightarrow> schema option" where
  "created s = run_migration (\<lambda>i. True) 0 migration_statements s"

fun add_missing :: "gostring \<times> coldef \<Rightarrow> sqltable \<Rightarrow> sqltable" where
  "add_missing (c, d) tb =
     (if c \<in> set (tb_columns tb) then tb
      else \<lparr>tb_columns = tb_columns tb @ [c], tb_rows = map (\<lambda>r. r(c \<mapsto> coldef_default d)) (tb_rows tb)\<rparr>)"

definition with_columns :: "(gostring \<times> coldef) list \<Rightarrow> schema \<Rightarrow> schema" where
  "with_columns cs s =
     s\<lparr>sm_tables := (sm_tables s)(''request_logs'' := map_option (fold add_missing cs) (sm_tables s ''request_logs''))\<rparr>"

definition migrated :: "schema \<Rightarrow> schema option" where
  "migrated s = map_option (with_columns telemetry_columns) (created s)"

text \<open>A statement whose table or index is there already has nothing left to do.\<close>

fun satisfied :: "schema \<Rightarrow> sqlstatement \<Rightarrow> bool" where
  "satisfied s (CreateTable t cs) \<longleftrightarrow> t \<in> dom (sm_tables s)"
| "satisfied s (CreateIndex i t cs) \<longleftrightarrow> i \<in> set (sm_indexes s)"
| "satisfied s (AddColumn if_missing t c d) \<longleftrightarrow> if_missing \<and> c \<in> table_info t s"

lemma exec_satisfied: "satisfied s st \<Longrightarrow> exec_sql st s = Some s"
  by (cases st) (auto simp: table_info_def split: option.splits)

lemma exec_satisfies:
  "exec_sql st s = Some s' \<Longrightarrow> \<forall>b t c d. st \<noteq> AddColumn b t c d \<Longrightarrow> satisfied s' st"
  by (cases st) (auto split: option.splits if_splits)

lemma exec_keeps:
  "exec_sql st s = Some s' \<Longrightarrow> dom (sm_tables s) \<subseteq> dom (sm_tables s') \<and> set (sm_indexes s) \<subseteq> set (sm_indexes s')"
  by (cases st) (auto split: option.splits if_splits)

lemma satisfied_mono:
  assumes "satisfied s st" "\<forall>b t c d. st \<noteq> AddColumn b t c d"
    and "dom (sm_tables s) \<subseteq> dom (sm_tables s')" "set (sm_indexes s) \<subseteq> set (sm_indexes s')"
  shows "satisfied s' st"
  using assms by (cases st) auto

lemma run_keeps:
  "run_migration up i sts s = Some s' \<Longrightarrow>
     dom (sm_tables s) \<subseteq> dom (sm_tables s') \<and> set (sm_indexes s) \<subseteq> set (sm_indexes s')"
proof (induction sts arbitrary: i s)
  case (Cons st sts)
  then obtain u where "exec_sql st s = Some u" "run_migration up (Suc i) sts u = Some s'"
    by (auto split: if_splits option.splits)
  with Cons.IH [of "Suc i" u] exec_keeps [of st s u] show ?case by (meson order.trans)
qed simp

lemma run_satisfies:
  assumes "run_migration up i sts s = Some s'" "\<forall>st \<in> set sts. \<forall>b t c d. st \<noteq> AddColumn b t c d"
  shows "\<forall>st \<in> set sts. satisfied s' st"
  using assms
proof (induction sts arbitrary: i s)
  case (Cons st sts)
  then obtain u where u: "exec_sql st s = Some u" "run_migration up (Suc i) sts u = Some s'"
    by (auto split: if_splits option.splits)
  have plain: "\<forall>b t c d. st \<noteq> AddColumn b t c d" using Cons.prems(2) by simp
  have "satisfied u st" by (rule exec_satisfies [OF u(1) plain])
  then have "satisfied s' st" using run_keeps [OF u(2)] plain by (auto intro: satisfied_mono)
  with Cons u show ?case by auto
qed simp

lemma run_satisfied: "\<forall>st \<in> set sts. satisfied s st \<Longrightarrow> run_migration (\<lambda>i. True) n sts s = Some s"
  by (induction sts arbitrary: n) (simp_all add: exec_satisfied)

lemma run_whatever: "run_migration up i sts s = Some s' \<Longrightarrow> run_migration (\<lambda>i. True) j sts s = Some s'"
  by (induction sts arbitrary: i j s) (auto split: if_splits option.splits)

lemma migration_statements_plain: "\<forall>st \<in> set migration_statements. \<forall>b t c d. st \<noteq> AddColumn b t c d"
  by (simp add: migration_statements_def)

text \<open>Columns: adding is idempotent, also after an interruption.\<close>

lemma add_missing_columns: "set (tb_columns (fold add_missing cs tb)) = set (tb_columns tb) \<union> fst ` set cs"
  by (induction cs arbitrary: tb) (auto split: prod.splits if_splits)

lemma add_missing_done: "fst ` set cs \<subseteq> set (tb_columns tb) \<Longrightarrow> fold add_missing cs tb = tb"
  by (induction cs arbitrary: tb) auto

lemma add_missing_resumed: "fold add_missing cs (fold add_missing (take k cs) tb) = fold add_missing cs tb"
proof -
  let ?t = "fold add_missing (take k cs) tb"
  have "fold add_missing cs ?t = fold add_missing (drop k cs) (fold add_missing (take k cs) ?t)"
    by (metis append_take_drop_id fold_append o_apply)
  also have "fold add_missing (take k cs) ?t = ?t"
    by (rule add_missing_done) (simp add: add_missing_columns)
  also have "fold add_missing (drop k cs) ?t = fold add_missing cs tb"
    by (metis append_take_drop_id fold_append o_apply)
  finally show ?thesis .
qed

lemma with_columns_Nil [simp]: "with_columns [] s = s"
proof -
  have "map_option id (sm_tables s t) = sm_tables s t" for t by (cases "sm_tables s t") simp_all
  then show ?thesis by (simp add: with_columns_def)
qed

lemma with_columns_resumed: "with_columns cs (with_columns (take k cs) s) = with_columns cs s"
  by (cases "sm_tables s ''request_logs''") (simp_all add: with_columns_def add_missing_resumed)

lemma with_columns_keeps:
  "dom (sm_tables (with_columns cs s)) = dom (sm_tables s)" "sm_indexes (with_columns cs s) = sm_indexes s"
  by (auto simp: with_columns_def split: if_splits)

text \<open>Both drivers add a first part of the columns, and all of them when they report no error.\<close>

lemma add_columns_stage:
  assumes "add_columns up postgres existing i cs s = (e, t)" "sm_tables s ''request_logs'' = Some tb"
    and "\<not> postgres \<longrightarrow> (\<forall>c \<in> fst ` set cs. c \<in> existing \<longleftrightarrow> c \<in> set (tb_columns tb))" "distinct (map fst cs)"
  shows "\<exists>k. t = with_columns (take k cs) s \<and> (e = None \<longrightarrow> take k cs = cs)"
  using assms
proof (induction cs arbitrary: i s tb)
  case Nil
  then show ?case by simp
next
  case (Cons p cs)
  obtain c d where p: "p = (c, d)" by (cases p)
  have none: "with_columns (take 0 (p # cs)) s = s" by simp
  let ?s = "with_columns [p] s" and ?tb = "add_missing p tb"
  have next': "\<exists>k. t = with_columns (take k (p # cs)) s \<and> (e = None \<longrightarrow> take k (p # cs) = p # cs)"
    if rest: "add_columns up postgres existing j cs ?s = (e, t)" for j
  proof -
    have "sm_tables ?s ''request_logs'' = Some ?tb" using Cons.prems(2) by (simp add: with_columns_def)
    moreover have "\<not> postgres \<longrightarrow> (\<forall>c \<in> fst ` set cs. c \<in> existing \<longleftrightarrow> c \<in> set (tb_columns ?tb))"
      using Cons.prems(3,4) p by auto
    ultimately obtain k where "t = with_columns (take k cs) ?s" "e = None \<longrightarrow> take k cs = cs"
      using Cons.IH [OF rest] Cons.prems(4) by auto
    moreover have "with_columns (take k cs) ?s = with_columns (take (Suc k) (p # cs)) s"
      using Cons.prems(2) by (simp add: with_columns_def)
    ultimately show ?thesis by (metis take_Suc_Cons)
  qed
  show ?case
  proof (cases "\<not> postgres \<and> c \<in> existing")
    case True
    then have "?s = s" using Cons.prems(2,3) p by (auto simp: with_columns_def fun_upd_idem)
    then show ?thesis using next' [of i] Cons.prems(1) True p by simp
  next
    case False
    show ?thesis
    proof (cases "up i")
      case True
      have "exec_sql (AddColumn postgres ''request_logs'' c d) s = Some ?s"
        using False Cons.prems(2,3) p by (auto simp: with_columns_def fun_upd_idem)
      then show ?thesis using next' [of "Suc i"] Cons.prems(1) False True p by simp
    next
      case down: False
      then have "t = s" "e \<noteq> None" using Cons.prems(1) False p by auto
      then show ?thesis using none by (intro exI [of _ 0]) simp
    qed
  qed
qed


text \<open>Every start leaves one of these stages behind.\<close>

definition stage :: "schema \<Rightarrow> schema \<Rightarrow> bool" where
  "stage s t \<longleftrightarrow> t = s \<or> (\<exists>u k. created s = Some u \<and> t = with_columns (take k telemetry_columns) u)"

lemma created_complete: "created s = Some u \<Longrightarrow> created (with_columns cs u) = Some (with_columns cs u)"
proof -
  assume "created s = Some u"
  then have "\<forall>st \<in> set migration_statements. satisfied u st"
    using migration_statements_plain by (auto simp: created_def dest: run_satisfies)
  then have "\<forall>st \<in> set migration_statements. satisfied (with_columns cs u) st"
    using migration_statements_plain satisfied_mono [of u _ "with_columns cs u"] by (simp add: with_columns_keeps)
  then show ?thesis unfolding created_def by (rule run_satisfied)
qed

lemma created_request_logs: "created s = Some u \<Longrightarrow> \<exists>tb. sm_tables u ''request_logs'' = Some tb"
proof -
  assume "created s = Some u"
  then have "\<forall>st \<in> set migration_statements. satisfied u st"
    using migration_statements_plain by (auto simp: created_def dest: run_satisfies)
  then show ?thesis by (auto simp: migration_statements_def)
qed

lemma telemetry_distinct: "distinct (map fst telemetry_columns)"
  by (simp add: telemetry_columns_def)

lemma telemetry_stage:
  assumes "ensureRequestLogTelemetryColumns w postgres u = (e, t)" "sm_tables u ''request_logs'' = Some tb"
  shows "\<exists>k. t = with_columns (take k telemetry_columns) u \<and> (e = None \<longrightarrow> take k telemetry_columns = telemetry_columns)"
proof (cases "postgres \<or> mw_inspect w = None")
  case True
  from True assms(1) have "add_columns (mw_alter w) postgres
      (if postgres then {} else table_info ''request_logs'' u) 0 telemetry_columns u = (e, t)"
    by (auto simp: ensureRequestLogTelemetryColumns_def split: if_splits)
  from add_columns_stage [OF this assms(2) _ telemetry_distinct] assms(2) show ?thesis
    by (simp add: table_info_def)
next
  case False
  then obtain err where "mw_inspect w = Some err" "\<not> postgres" by auto
  then have "(e, t) = (Some err, u)" using assms(1) by (simp add: ensureRequestLogTelemetryColumns_def)
  then show ?thesis by (intro exI [of _ 0]) simp
qed

lemma migrate_stage:
  assumes "migrate w postgres s = (e, t)"
  shows "stage s t \<and> (e = None \<longrightarrow> migrated s = Some t)"
proof (cases "run_migration (mw_statement w) 0 migration_statements s")
  case None
  with assms show ?thesis by (auto simp: migrate_def stage_def split: if_splits)
next
  case (Some u)
  then have u: "created s = Some u" by (auto simp: created_def intro: run_whatever)
  obtain tb where tb: "sm_tables u ''request_logs'' = Some tb" using created_request_logs [OF u] by blast
  have "t = s \<and> e \<noteq> None \<or> t = with_columns (take 0 telemetry_columns) u \<and> e \<noteq> None \<or>
      ensureRequestLogTelemetryColumns w postgres u = (e, t)"
    using assms Some by (auto simp: migrate_def split: if_splits commit_outcome.splits)
  then consider "t = s" "e \<noteq> None" | "t = with_columns (take 0 telemetry_columns) u" "e \<noteq> None"
    | "ensureRequestLogTelemetryColumns w postgres u = (e, t)" by blast
  then show ?thesis
  proof cases
    case 2
    with u show ?thesis unfolding stage_def by blast
  next
    case 3
    from telemetry_stage [OF this tb] u show ?thesis by (auto simp: stage_def migrated_def)
  qed (use u in \<open>auto simp: stage_def\<close>)
qed

lemma stage_migrated: "stage s t \<Longrightarrow> migrated t = migrated s"
  by (auto simp: stage_def migrated_def created_complete with_columns_resumed)

text \<open>A series of starts.\<close>

fun starts :: "bool \<Rightarrow> migration_world list \<Rightarrow> schema \<Rightarrow> schema" where
  "starts postgres [] s = s"
| "starts postgres (w # ws) s = starts postgres ws (snd (migrate w postgres s))"

lemma starts_migrated: "migrated (starts postgres ws s) = migrated s"
proof (induction ws arbitrary: s)
  case (Cons w ws)
  have "stage s (snd (migrate w postgres s))" by (cases "migrate w postgres s") (auto dest: migrate_stage)
  with Cons show ?case by (simp add: stage_migrated)
qed simp

text \<open>The rows of a table keep what they had.\<close>

lemma add_missing_rows:
  "length (tb_rows (fold add_missing cs tb)) = length (tb_rows tb) \<and>
   (\<forall>i < length (tb_rows tb). \<forall>c \<in> set (tb_columns tb). (tb_rows (fold add_missing cs tb) ! i) c = (tb_rows tb ! i) c)"
  by (induction cs arbitrary: tb) (auto split: prod.splits)

lemma exec_keeps_table:
  "exec_sql st s = Some u \<Longrightarrow> \<forall>b t c d. st \<noteq> AddColumn b t c d \<Longrightarrow> sm_tables s n = Some tb \<Longrightarrow> sm_tables u n = Some tb"
  by (cases st) (auto split: option.splits if_splits)

lemma run_keeps_table:
  assumes "run_migration up i sts s = Some u" "\<forall>st \<in> set sts. \<forall>b t c d. st \<noteq> AddColumn b t c d" "sm_tables s n = Some tb"
  shows "sm_tables u n = Some tb"
  using assms
proof (induction sts arbitrary: i s)
  case (Cons st sts)
  then obtain v where v: "exec_sql st s = Some v" "run_migration up (Suc i) sts v = Some u"
    by (auto split: if_splits option.splits)
  have "sm_tables v n = Some tb" using exec_keeps_table [OF v(1)] Cons.prems(2,3) by simp
  with Cons.IH [OF v(2)] Cons.prems(2) show ?case by simp
qed simp

definition row_kept :: "sqltable \<Rightarrow> sqltable \<Rightarrow> bool" where
  "row_kept tb tb' \<longleftrightarrow> length (tb_rows tb') = length (tb_rows tb) \<and>
     (\<forall>i < length (tb_rows tb). \<forall>c \<in> set (tb_columns tb). (tb_rows tb' ! i) c = (tb_rows tb ! i) c)"

lemma migrated_table:
  assumes "migrated s = Some t"
  shows "\<exists>tb'. sm_tables t ''request_logs'' = Some tb' \<and> fst ` set telemetry_columns \<subseteq> set (tb_columns tb')"
    and "sm_tables s n = Some tb \<Longrightarrow> \<exists>tb'. sm_tables t n = Some tb' \<and> row_kept tb tb' \<and> set (tb_columns tb) \<subseteq> set (tb_columns tb')"
    and "dom (sm_tables t) \<supseteq> {''settings'', ''codex_account'', ''api_keys'', ''request_logs'', ''quota_snapshot''}"
proof -
  from assms obtain u where u: "created s = Some u" "t = with_columns telemetry_columns u" by (auto simp: migrated_def)
  obtain tb0 where "sm_tables u ''request_logs'' = Some tb0" using created_request_logs [OF u(1)] by blast
  then show "\<exists>tb'. sm_tables t ''request_logs'' = Some tb' \<and> fst ` set telemetry_columns \<subseteq> set (tb_columns tb')"
    by (simp add: u(2) with_columns_def add_missing_columns)
  have plain: "\<forall>st \<in> set migration_statements. \<forall>b t c d. st \<noteq> AddColumn b t c d"
    by (rule migration_statements_plain)
  show "\<exists>tb'. sm_tables t n = Some tb' \<and> row_kept tb tb' \<and> set (tb_columns tb) \<subseteq> set (tb_columns tb')"
    if "sm_tables s n = Some tb"
  proof -
    have "sm_tables u n = Some tb" using u(1) that by (auto simp: created_def intro: run_keeps_table [OF _ plain])
    then show ?thesis
      using add_missing_rows [of telemetry_columns tb] add_missing_columns [of telemetry_columns tb]
      by (cases "n = ''request_logs''") (auto simp: u(2) with_columns_def row_kept_def)
  qed
  have "\<forall>st \<in> set migration_statements. satisfied u st"
    using u(1) plain by (auto simp: created_def dest: run_satisfies)
  then show "dom (sm_tables t) \<supseteq> {''settings'', ''codex_account'', ''api_keys'', ''request_logs'', ''quota_snapshot''}"
    unfolding u(2) with_columns_keeps by (simp add: migration_statements_def)
qed

text \<open>A start that is not disturbed succeeds on a new database and on one of an older version.\<close>

definition undisturbed :: "migration_world \<Rightarrow> bool" where
  "undisturbed w \<longleftrightarrow> mw_begin w \<and> mw_statement w = (\<lambda>i. True) \<and> mw_commit w = Committed \<and> mw_inspect w = None \<and>
     mw_alter w = (\<lambda>i. True)"

definition supported :: "schema \<Rightarrow> bool" where
  "supported s \<longleftrightarrow>
     (case sm_tables s ''request_logs'' of None \<Rightarrow> True
      | Some tb \<Rightarrow> {''api_key_id'', ''created_at''} \<subseteq> set (tb_columns tb))"

text \<open>The statements are in an order in which every index finds its columns.\<close>

fun indexed_in_order :: "bool \<Rightarrow> sqlstatement list \<Rightarrow> bool" where
  "indexed_in_order there [] = True"
| "indexed_in_order there (CreateTable t cs # sts) =
     ((t = ''request_logs'' \<longrightarrow> {''api_key_id'', ''created_at''} \<subseteq> set cs) \<and> indexed_in_order (there \<or> t = ''request_logs'') sts)"
| "indexed_in_order there (CreateIndex i t cs # sts) =
     (there \<and> t = ''request_logs'' \<and> set cs \<subseteq> {''api_key_id'', ''created_at''} \<and> indexed_in_order there sts)"
| "indexed_in_order there (AddColumn b t c d # sts) = False"

lemma run_in_order:
  assumes "supported s" "there \<longrightarrow> sm_tables s ''request_logs'' \<noteq> None" "indexed_in_order there sts"
  shows "\<exists>u. run_migration (\<lambda>i. True) i sts s = Some u \<and> supported u"
  using assms
proof (induction there sts arbitrary: i s rule: indexed_in_order.induct)
  case (2 there t cs sts)
  have "\<exists>u. exec_sql (CreateTable t cs) s = Some u \<and> supported u \<and>
      (there \<or> t = ''request_logs'' \<longrightarrow> sm_tables u ''request_logs'' \<noteq> None)"
    using 2(2-) by (cases "sm_tables s t") (auto simp: supported_def)
  then obtain u where "exec_sql (CreateTable t cs) s = Some u" "supported u"
    "there \<or> t = ''request_logs'' \<longrightarrow> sm_tables u ''request_logs'' \<noteq> None" by blast
  with 2(1) [of u "Suc i"] 2(4) show ?case by simp
next
  case (3 there j t cs sts)
  have "\<exists>u. exec_sql (CreateIndex j t cs) s = Some u \<and> supported u \<and> sm_tables u ''request_logs'' \<noteq> None"
    using 3(2-) by (cases "sm_tables s t") (auto simp: supported_def)
  then obtain u where "exec_sql (CreateIndex j t cs) s = Some u" "supported u" "sm_tables u ''request_logs'' \<noteq> None"
    by blast
  with 3(1) [of u "Suc i"] 3(4) show ?case by (cases there) simp_all
qed simp_all

lemma created_supported: "supported s \<Longrightarrow> \<exists>u. created s = Some u \<and> supported u"
  unfolding created_def by (rule run_in_order [of _ False])
    (simp_all add: migration_statements_def request_log_columns_def)

lemma stage_supported: "supported s \<Longrightarrow> stage s t \<Longrightarrow> supported t"
proof -
  assume s: "supported s" "stage s t"
  obtain u where "created s = Some u" "supported u" using created_supported [OF s(1)] by blast
  moreover have "supported (with_columns cs u)" if "supported u" for cs
    using that by (auto simp: supported_def with_columns_def add_missing_columns split: option.splits)
  ultimately show ?thesis using s by (auto simp: stage_def)
qed

lemma starts_supported: "supported s \<Longrightarrow> supported (starts postgres ws s)"
proof (induction ws arbitrary: s)
  case (Cons w ws)
  have "stage s (snd (migrate w postgres s))" by (cases "migrate w postgres s") (auto dest: migrate_stage)
  with Cons show ?case by (simp add: stage_supported)
qed simp

lemma add_columns_succeeds:
  assumes "sm_tables s ''request_logs'' = Some tb" "distinct (map fst cs)"
    and "\<not> postgres \<longrightarrow> (\<forall>c \<in> fst ` set cs. c \<notin> existing \<longrightarrow> c \<notin> set (tb_columns tb))"
  shows "fst (add_columns (\<lambda>i. True) postgres existing i cs s) = None"
  using assms
proof (induction cs arbitrary: i s tb)
  case (Cons p cs)
  obtain c d where p: "p = (c, d)" by (cases p)
  show ?case
  proof (cases "c \<in> set (tb_columns tb)")
    case True
    with Cons p show ?thesis by (auto simp: ball_Un)
  next
    case False
    let ?tb = "\<lparr>tb_columns = tb_columns tb @ [c], tb_rows = map (\<lambda>r. r(c \<mapsto> coldef_default d)) (tb_rows tb)\<rparr>"
    let ?s = "s\<lparr>sm_tables := (sm_tables s)(''request_logs'' \<mapsto> ?tb)\<rparr>"
    have "fst (add_columns (\<lambda>i. True) postgres existing j cs ?s) = None" for j
      using Cons.prems p by (intro Cons.IH [of ?s ?tb]) auto
    moreover have "fst (add_columns (\<lambda>i. True) postgres existing j cs s) = None" for j
      using Cons p by auto
    ultimately show ?thesis using p False Cons.prems(1) by (cases postgres) simp_all
  qed
qed simp

lemma migration_succeeds:
  assumes "undisturbed w" "supported s"
  shows "fst (migrate w postgres s) = None"
proof -
  obtain u where u: "created s = Some u" using created_supported [OF assms(2)] by blast
  obtain tb where tb: "sm_tables u ''request_logs'' = Some tb" using created_request_logs [OF u] by blast
  have "fst (ensureRequestLogTelemetryColumns w postgres u) = None"
    using assms(1) add_columns_succeeds [OF tb telemetry_distinct] tb
    by (auto simp: ensureRequestLogTelemetryColumns_def undisturbed_def table_info_def)
  with assms(1) u show ?thesis by (simp add: migrate_def undisturbed_def created_def)
qed

text \<open>Placeholders are numbered from 1 in their order, and no \<^verbatim>\<open>?\<close> is left.\<close>

fun numbered_parts :: "nat \<Rightarrow> gostring list \<Rightarrow> gostring" where
  "numbered_parts i [] = []"
| "numbered_parts i [p] = p"
| "numbered_parts i (p # q # ps) = p @ ''$'' @ itoa i @ numbered_parts (Suc i) (q # ps)"

lemma placeholders_numbered: "placeholders i raw = numbered_parts i (split_on (CHR ''?'') raw)"
proof (induction raw arbitrary: i)
  case (Cons c cs)
  obtain p ps where p: "split_on (CHR ''?'') cs = p # ps" using split_on_not_Nil by (metis list.exhaust)
  show ?case using Cons p by (cases ps) auto
qed simp

lemma placeholders_gone: "CHR ''?'' \<notin> set (placeholders i raw)"
proof (induction raw arbitrary: i)
  case (Cons c cs)
  have "CHR ''?'' \<notin> set (itoa i)"
  proof
    assume "CHR ''?'' \<in> set (itoa i)"
    then have "(of_char (CHR ''?'') :: nat) \<le> 57" using itoa_digits by blast
    then show False by simp
  qed
  with Cons show ?case by auto
qed simp

subsection \<open>Properties\<close>

text \<open>C38. Whatever interrupted earlier starts, at whichever statement, the start that completes the
  migration leaves the schema that one undisturbed migration would have made of the first one: every table is there, the
  telemetry columns are there, and every row of every older table still has all its values. A start that is not
  disturbed does complete it.\<close>

theorem interrupted_migration_resumes:
  assumes "supported s" "migrate w postgres (starts postgres ws s) = (e, t)"
  shows "(undisturbed w \<longrightarrow> e = None) \<and>
    (e = None \<longrightarrow>
      migrated s = Some t \<and>
      {''settings'', ''codex_account'', ''api_keys'', ''request_logs'', ''quota_snapshot''} \<subseteq> dom (sm_tables t) \<and>
      (\<exists>tb. sm_tables t ''request_logs'' = Some tb \<and> fst ` set telemetry_columns \<subseteq> set (tb_columns tb)) \<and>
      (\<forall>n tb. sm_tables s n = Some tb \<longrightarrow>
         (\<exists>tb'. sm_tables t n = Some tb' \<and> row_kept tb tb' \<and> set (tb_columns tb) \<subseteq> set (tb_columns tb'))))"
proof (intro conjI impI)
  show "e = None" if "undisturbed w"
    using migration_succeeds [OF that starts_supported [OF assms(1)]] assms(2) by (metis fst_conv)
  assume "e = None"
  with migrate_stage [OF assms(2)] have m: "migrated s = Some t" by (simp add: starts_migrated)
  from m show "migrated s = Some t" .
  from migrated_table(3) [OF m]
  show "{''settings'', ''codex_account'', ''api_keys'', ''request_logs'', ''quota_snapshot''} \<subseteq> dom (sm_tables t)" .
  from migrated_table(1) [OF m]
  show "\<exists>tb. sm_tables t ''request_logs'' = Some tb \<and> fst ` set telemetry_columns \<subseteq> set (tb_columns tb)" .
  from migrated_table(2) [OF m]
  show "\<forall>n tb. sm_tables s n = Some tb \<longrightarrow>
    (\<exists>tb'. sm_tables t n = Some tb' \<and> row_kept tb tb' \<and> set (tb_columns tb) \<subseteq> set (tb_columns tb'))" by blast
qed

text \<open>A database of the version before the telemetry, with one row, whose first migration stopped at the third column.\<close>

definition legacy_table :: sqltable where
  "legacy_table = \<lparr>tb_columns = [''id'', ''api_key_id'', ''created_at''], tb_rows = [[''id'' \<mapsto> SqlText ''a'']]\<rparr>"

definition legacy_schema :: schema where
  "legacy_schema = \<lparr>sm_tables = [''request_logs'' \<mapsto> legacy_table], sm_indexes = []\<rparr>"

definition calm_start :: migration_world where
  "calm_start = \<lparr>mw_begin = True, mw_statement = (\<lambda>i. True), mw_commit = Committed, mw_inspect = None, mw_alter = (\<lambda>i. True)\<rparr>"

theorem interrupted_migration_resumes_witness:
  "\<exists>t tb. migrate calm_start False (starts False [calm_start\<lparr>mw_alter := (\<lambda>i. i < 2)\<rparr>] legacy_schema) = (None, t) \<and>
     sm_tables t ''request_logs'' = Some tb \<and> (tb_rows tb ! 0) ''id'' = Some (SqlText ''a'')"
proof -
  let ?s = "starts False [calm_start\<lparr>mw_alter := (\<lambda>i. i < 2)\<rparr>] legacy_schema"
  obtain e t where run: "migrate calm_start False ?s = (e, t)" by (cases "migrate calm_start False ?s")
  have "supported legacy_schema" by (simp add: supported_def legacy_schema_def legacy_table_def)
  moreover have "undisturbed calm_start" by (simp add: undisturbed_def calm_start_def)
  moreover have "sm_tables legacy_schema ''request_logs'' = Some legacy_table" by (simp add: legacy_schema_def)
  ultimately obtain tb' where "e = None" "sm_tables t ''request_logs'' = Some tb'" "row_kept legacy_table tb'"
    using interrupted_migration_resumes [OF _ run] by blast
  with run show ?thesis by (auto simp: row_kept_def legacy_table_def)
qed

end
