(* ===== verification/Startup.thy ===== *)
theory Startup
  imports Migrations WebServer
begin

text \<open>
  The process of \<^verbatim>\<open>cmd/server/main.go\<close>: from the configuration to the signal that ends it, with what it opens on the
  way (\<^verbatim>\<open>logging.New\<close>, \<^verbatim>\<open>store.Open\<close>, \<^verbatim>\<open>session.New\<close>, \<^verbatim>\<open>cryptox.New\<close>), the first password of the
  administrator (\<^verbatim>\<open>EnsureAdminPassword\<close> of \<^verbatim>\<open>internal/web/admin.go\<close>) and the removal of old request logs. A run is
  the list of its events; what the operating system and the libraries answer is a record of arguments, and so is what the
  requests served do to the database (they are the machine of \<^verbatim>\<open>WebServer\<close>).
\<close>

subsection \<open>The first password\<close>

text \<open>\<open>pw_token\<close>: the random password or the error of the random source; \<open>pw_bcrypt\<close>: what bcrypt makes of a password.\<close>

record password_world =
  pw_up_read :: bool
  pw_token :: "gostring + gostring"
  pw_bcrypt :: "gostring \<Rightarrow> gostring + gostring"
  pw_up_write :: bool
  pw_now :: int

datatype ensure_error = EnsureDatabase db_error | EnsureText gostring

definition EnsureAdminPassword :: "password_world \<Rightarrow> gostring \<Rightarrow> database \<Rightarrow> (ensure_error + gostring \<times> bool) \<times> database" where
  "EnsureAdminPassword w configured db =
     (case GetSetting (pw_up_read w) adminPasswordSetting db of
        Inr hash \<Rightarrow> (Inr ([], False), db)
      | Inl e \<Rightarrow>
          if \<not> IsNotFound e then (Inl (EnsureDatabase e), db)
          else
            (let generated = (configured = []);
                 chosen = (if generated then pw_token w else Inr configured)
             in case chosen of
                  Inl e \<Rightarrow> (Inl (EnsureText e), db)
                | Inr password \<Rightarrow>
                    (case HashPassword (pw_bcrypt w password) password of
                       Inl e \<Rightarrow> (Inl (EnsureText e), db)
                     | Inr hash \<Rightarrow>
                         (case SetSetting (pw_up_write w) adminPasswordSetting hash (pw_now w) db of
                            (Some e, db') \<Rightarrow> (Inl (EnsureDatabase e), db')
                          | (None, db') \<Rightarrow> (Inr (password, generated), db')))))"

subsection \<open>Sessions and the log file\<close>

text \<open>\<^verbatim>\<open>session.New\<close>: the memory store, or \<open>None\<close> for the one in Redis. The flag: a client was opened and closed again.\<close>

datatype session_error = ParseRedisURL gostring | ConnectRedis gostring

record redis_world =
  rd_parse :: "gostring \<Rightarrow> gostring option"
  rd_ping :: "gostring option"

definition NewSessions :: "redis_world \<Rightarrow> ('p, 'l) Config \<Rightarrow> (session_error + memoryStore option) \<times> bool" where
  "NewSessions w cfg =
     (if cg_StorageDriver cfg = ''postgres'' then
        (case rd_parse w (cg_RedisURL cfg) of
           Some e \<Rightarrow> (Inl (ParseRedisURL e), False)
         | None \<Rightarrow>
             (case rd_ping w of
                Some e \<Rightarrow> (Inl (ConnectRedis e), True)
              | None \<Rightarrow> (Inr None, False)))
      else (Inr (Some (newMemoryStore defaultMemoryStoreCapacity)), False))"

record log_world =
  lw_mkdir :: "gostring option"
  lw_open :: "gostring option"

text \<open>\<^verbatim>\<open>logging.New\<close>: whether the log is also written to a file.\<close>

definition NewLogging :: "log_world \<Rightarrow> gostring \<Rightarrow> gostring + bool" where
  "NewLogging w path =
     (if path \<noteq> [] then
        (case lw_mkdir w of
           Some e \<Rightarrow> Inl e
         | None \<Rightarrow> (case lw_open w of Some e \<Rightarrow> Inl e | None \<Rightarrow> Inr True))
      else Inr False)"

subsection \<open>Removal of old request logs\<close>

text \<open>\<open>AddDate now d\<close> is \<^verbatim>\<open>now.AddDate(0, 0, d).UnixMilli()\<close>.\<close>

datatype cleanup_line = CleanupFailed db_error | OldLogsRemoved nat

record cleanup_call =
  cc_now :: int
  cc_up :: bool
  cc_canceled :: bool

definition cleanupRequestLogs :: "(int \<Rightarrow> int \<Rightarrow> int) \<Rightarrow> goint \<Rightarrow> cleanup_call \<Rightarrow> database \<Rightarrow> cleanup_line list \<times> database" where
  "cleanupRequestLogs AddDate retentionDays c db =
     (let retentionBefore = AddDate (cc_now c) (sint (- retentionDays))
      in case DeleteOldRequestLogs (cc_up c) retentionBefore db of
           (Inl e, db') \<Rightarrow> (if cc_canceled c then [] else [CleanupFailed e], db')
         | (Inr count, db') \<Rightarrow> (if count > 0 then [OldLogsRemoved count] else [], db'))"

text \<open>What the \<^verbatim>\<open>select\<close> of the loop receives, one after the other.\<close>

datatype cleanup_event = CleanupDone | TicksClosed | Tick cleanup_call

fun runRequestLogCleanup :: "(int \<Rightarrow> int \<Rightarrow> int) \<Rightarrow> goint \<Rightarrow> cleanup_event list \<Rightarrow> database \<Rightarrow> cleanup_line list \<times> database" where
  "runRequestLogCleanup AddDate days [] db = ([], db)"
| "runRequestLogCleanup AddDate days (CleanupDone # es) db = ([], db)"
| "runRequestLogCleanup AddDate days (TicksClosed # es) db = ([], db)"
| "runRequestLogCleanup AddDate days (Tick c # es) db =
     (let (lines, db1) = cleanupRequestLogs AddDate days c db;
          (rest, db2) = runRequestLogCleanup AddDate days es db1
      in (lines @ rest, db2))"

subsection \<open>A run of the process\<close>

record disk =
  ds_schema :: schema
  ds_database :: database
  ds_key_file :: "gostring option"

datatype resource = LogFile | DatabaseHandle | SessionHandle | CleanupLoop

datatype run_event =
    Opened resource
  | Closed resource
  | ShowPassword gostring
  | Serving gostring gostring disk
  | ShutdownRequested gostring
  | BeginShutdown
  | ShutdownServer
  | CloseServer
  | WaitForIdle

datatype run_error =
    ConfigRefused config_error
  | LoggingFailed gostring
  | OpenFailed open_error
  | SessionsFailed session_error
  | CipherFailed key_error
  | PasswordFailed ensure_error
  | ServeFailed gostring
  | NotIdle gostring
  | ShutdownFailed gostring

text \<open>How serving ends: with a signal, or with an error of the server (\<open>None\<close> for \<^verbatim>\<open>http.ErrServerClosed\<close>).\<close>

datatype server_end = SignalReceived gostring | ServerStopped "gostring option"

datatype shutdown_error = DeadlineExceeded | OtherShutdownError gostring

record process_world =
  rw_os :: "gostring \<Rightarrow> gostring"
  rw_log :: log_world
  rw_open :: open_world
  rw_redis :: redis_world
  rw_key :: key_world
  rw_password :: password_world
  rw_AddDate :: "int \<Rightarrow> int \<Rightarrow> int"
  rw_cleanup :: cleanup_call
  rw_served :: "disk \<Rightarrow> disk"
  rw_end :: server_end
  rw_shutdown :: "shutdown_error option"
  rw_idle :: "gostring option"

text \<open>A \<^verbatim>\<open>defer\<close> right after a resource was opened: it is closed however the rest ends.\<close>

definition scoped :: "resource \<Rightarrow> run_error option \<times> run_event list \<times> disk \<Rightarrow> run_error option \<times> run_event list \<times> disk" where
  "scoped r body = (case body of (e, evs, d) \<Rightarrow> (e, Opened r # evs @ [Closed r], d))"

definition tried :: "bool \<Rightarrow> resource \<Rightarrow> run_event list" where
  "tried opened r = (if opened then [Opened r, Closed r] else [])"

text \<open>From the signal on.\<close>

definition shut_down :: "process_world \<Rightarrow> run_error option \<times> run_event list" where
  "shut_down w =
     (let evs = [BeginShutdown, ShutdownServer] @ (if rw_shutdown w \<noteq> None then [CloseServer] else []) @ [WaitForIdle]
      in case rw_idle w of
           Some e \<Rightarrow> (Some (NotIdle e), evs)
         | None \<Rightarrow>
             (case rw_shutdown w of
                Some (OtherShutdownError e) \<Rightarrow> (Some (ShutdownFailed e), evs)
              | _ \<Rightarrow> (None, evs)))"

definition run_serving :: "process_world \<Rightarrow> ('p, 'l) Config \<Rightarrow> gostring \<Rightarrow> disk \<Rightarrow> run_error option \<times> run_event list \<times> disk" where
  "run_serving w cfg key d =
     (case rw_end w of
        SignalReceived name \<Rightarrow>
          (let (e, evs) = shut_down w
           in (e, Serving (cg_Addr cfg) key d # ShutdownRequested name # evs, rw_served w d))
      | ServerStopped (Some err) \<Rightarrow> (Some (ServeFailed err), [Serving (cg_Addr cfg) key d], rw_served w d)
      | ServerStopped None \<Rightarrow> (None, [Serving (cg_Addr cfg) key d], rw_served w d))"

definition run_password :: "process_world \<Rightarrow> ('p, 'l) Config \<Rightarrow> gostring \<Rightarrow> disk \<Rightarrow> run_error option \<times> run_event list \<times> disk" where
  "run_password w cfg key d =
     (case EnsureAdminPassword (rw_password w) (cg_AdminPassword cfg) (ds_database d) of
        (Inl e, db) \<Rightarrow> (Some (PasswordFailed e), [], d\<lparr>ds_database := db\<rparr>)
      | (Inr (initialPassword, generated), db) \<Rightarrow>
          (let (lines, db1) = cleanupRequestLogs (rw_AddDate w) (cg_RequestRetentionDays cfg) (rw_cleanup w) db;
               (e, evs, d') = scoped CleanupLoop (run_serving w cfg key (d\<lparr>ds_database := db1\<rparr>))
           in (e, (if generated then [ShowPassword initialPassword] else []) @ evs, d')))"

definition run_sessions :: "process_world \<Rightarrow> ('p, 'l) Config \<Rightarrow> disk \<Rightarrow> run_error option \<times> run_event list \<times> disk" where
  "run_sessions w cfg d =
     (case NewSessions (rw_redis w) cfg of
        (Inl e, reclosed) \<Rightarrow> (Some (SessionsFailed e), tried reclosed SessionHandle, d)
      | (Inr sessions, _) \<Rightarrow>
          scoped SessionHandle
            (case loadKey (cg_MasterKey cfg) (cg_StorageDriver cfg) (rw_key w) (ds_key_file d) of
               (Inl e, f) \<Rightarrow> (Some (CipherFailed e), [], d\<lparr>ds_key_file := f\<rparr>)
             | (Inr key, f) \<Rightarrow> run_password w cfg key (d\<lparr>ds_key_file := f\<rparr>)))"

definition run_database :: "process_world \<Rightarrow> ('p, 'l) Config \<Rightarrow> disk \<Rightarrow> run_error option \<times> run_event list \<times> disk" where
  "run_database w cfg d =
     (case Open (rw_open w) cfg (ds_schema d) of
        (Inl e, reclosed, s) \<Rightarrow> (Some (OpenFailed e), tried reclosed DatabaseHandle, d\<lparr>ds_schema := s\<rparr>)
      | (Inr connections, _, s) \<Rightarrow> scoped DatabaseHandle (run_sessions w cfg (d\<lparr>ds_schema := s\<rparr>)))"

definition run :: "('a, 'p, 'l) config_lib \<Rightarrow> process_world \<Rightarrow> disk \<Rightarrow> run_error option \<times> run_event list \<times> disk" where
  "run cl w d =
     (case Load cl (rw_os w) of
        Inl e \<Rightarrow> (Some (ConfigRefused e), [], d)
      | Inr cfg \<Rightarrow>
          (case NewLogging (rw_log w) (cg_LogPath cfg) of
             Inl e \<Rightarrow> (Some (LoggingFailed e), [], d)
           | Inr file \<Rightarrow> scoped LogFile (run_database w cfg d)))"

text \<open>What the handlers of the administrator use of the configuration.\<close>

definition server_config_of :: "('p, 'l) Config \<Rightarrow> server_config" where
  "server_config_of cfg =
     \<lparr>sc_session_ttl = sint (cg_SessionTTL cfg), sc_public_url = cg_PublicURL cfg,
      sc_storage_driver = cg_StorageDriver cfg, sc_client_version = cg_CodexClientVersion cfg\<rparr>"


subsection \<open>Lemmas\<close>

text \<open>Reading the events as a stack: a resource may be closed only when it is the last one still open.\<close>

fun closes :: "resource list \<Rightarrow> run_event list \<Rightarrow> resource list option" where
  "closes st [] = Some st"
| "closes st (Opened r # es) = closes (r # st) es"
| "closes st (Closed r # es) = (if st \<noteq> [] \<and> hd st = r then closes (tl st) es else None)"
| "closes st (ev # es) = closes st es"

text \<open>What is open at every moment at which requests are served.\<close>

fun open_while_serving :: "resource list \<Rightarrow> run_event list \<Rightarrow> resource list list" where
  "open_while_serving st [] = []"
| "open_while_serving st (Opened r # es) = open_while_serving (r # st) es"
| "open_while_serving st (Closed r # es) = open_while_serving (tl st) es"
| "open_while_serving st (Serving a k d # es) = st # open_while_serving st es"
| "open_while_serving st (ev # es) = open_while_serving st es"

text \<open>Events that close what they open, and serve only while exactly \<open>l\<close> was opened by themselves.\<close>

definition balanced :: "resource list \<Rightarrow> run_event list \<Rightarrow> bool" where
  "balanced l evs \<longleftrightarrow>
     (\<forall>st es. closes st (evs @ es) = closes st es \<and>
        set (open_while_serving st (evs @ es)) \<subseteq> {l @ st} \<union> set (open_while_serving st es))"

lemma balanced_Nil [simp]: "balanced l []"
  by (auto simp: balanced_def)

lemma balanced_tried [simp]: "balanced l (tried opened r)"
  by (auto simp: balanced_def tried_def)

lemma balanced_ShowPassword [simp]: "balanced l (ShowPassword p # evs) = balanced l evs"
  by (simp add: balanced_def)

lemma balanced_scoped:
  assumes "balanced l (fst (snd body))"
  shows "balanced (l @ [r]) (fst (snd (scoped r body)))"
proof -
  obtain e evs d where body: "body = (e, evs, d)" by (cases body)
  have "closes (r # st) (evs @ Closed r # es) = closes st es" for st es
    using assms by (simp add: balanced_def body)
  moreover have "set (open_while_serving (r # st) (evs @ Closed r # es)) \<subseteq>
      {l @ r # st} \<union> set (open_while_serving st es)" for st es
  proof -
    have "set (open_while_serving (r # st) (evs @ Closed r # es)) \<subseteq>
        {l @ r # st} \<union> set (open_while_serving (r # st) (Closed r # es))"
      using assms unfolding balanced_def body fst_conv snd_conv by blast
    then show ?thesis by simp
  qed
  ultimately show ?thesis by (simp add: balanced_def scoped_def body)
qed

lemma balanced_serving: "balanced [] (fst (snd (run_serving w cfg key d)))"
proof -
  have "closes st (snd (shut_down w) @ es) = closes st es"
    "open_while_serving st (snd (shut_down w) @ es) = open_while_serving st es" for st es
    by (auto simp: shut_down_def Let_def split: option.splits shutdown_error.splits)
  then show ?thesis
    by (auto simp: balanced_def run_serving_def Let_def split_beta split: server_end.split option.split)
qed

lemma balanced_password: "balanced [CleanupLoop] (fst (snd (run_password w cfg key d)))"
proof -
  have "balanced [CleanupLoop] (fst (snd (scoped CleanupLoop (run_serving w cfg key d1))))" for d1
    using balanced_scoped [OF balanced_serving] by simp
  then show ?thesis
    by (auto simp: run_password_def Let_def split_beta split: sum.split prod.split)
qed

lemma balanced_sessions: "balanced [CleanupLoop, SessionHandle] (fst (snd (run_sessions w cfg d)))"
proof -
  have "balanced ([CleanupLoop] @ [SessionHandle]) (fst (snd (scoped SessionHandle
      (case loadKey mk sd kw f of (Inl e, f) \<Rightarrow> (Some (CipherFailed e), [], d\<lparr>ds_key_file := f\<rparr>)
       | (Inr key, f) \<Rightarrow> run_password w cfg key (d\<lparr>ds_key_file := f\<rparr>)))))" for mk sd kw f
    by (rule balanced_scoped) (simp add: balanced_password split: prod.split sum.split)
  then show ?thesis by (auto simp: run_sessions_def split: sum.split prod.split)
qed

lemma balanced_database: "balanced [CleanupLoop, SessionHandle, DatabaseHandle] (fst (snd (run_database w cfg d)))"
  using balanced_scoped [OF balanced_sessions, where r = DatabaseHandle]
  by (auto simp: run_database_def split: sum.split prod.split)

lemma balanced_run: "balanced [CleanupLoop, SessionHandle, DatabaseHandle, LogFile] (fst (snd (run cl w d)))"
  using balanced_scoped [OF balanced_database, where r = LogFile]
  by (auto simp: run_def split: sum.split)

text \<open>What must have happened before requests are served.\<close>

lemma in_scoped: "scoped r body = (e, evs, d) \<Longrightarrow> Serving a k d1 \<in> set evs \<Longrightarrow> Serving a k d1 \<in> set (fst (snd body))"
  by (auto simp: scoped_def split: prod.splits)

lemma not_tried: "Serving a k d1 \<notin> set (tried opened r)"
  by (simp add: tried_def)

lemma serving_once: "Serving a k d1 \<in> set (fst (snd (run_serving w cfg key d))) \<Longrightarrow> a = cg_Addr cfg \<and> k = key \<and> d1 = d"
  by (auto simp: run_serving_def shut_down_def Let_def split_beta
      split: server_end.splits option.splits shutdown_error.splits if_splits)


lemma ensured:
  assumes "EnsureAdminPassword w configured db = (Inr (p, g), db')"
  obtains (kept) h where "GetSetting True adminPasswordSetting db = Inr h" "db' = db" "\<not> g"
  | (set) h where "GetSetting True adminPasswordSetting db = Inl NotFound" "g = (configured = [])"
      "if g then pw_token w = Inr p else p = configured" "ValidatePassword p = None" "pw_bcrypt w p = Inr h"
      "db' = db\<lparr>db_settings := (db_settings db)(adminPasswordSetting \<mapsto> (h, pw_now w))\<rparr>"
proof (cases "db_settings db adminPasswordSetting")
  case None
  have up: "pw_up_read w" and missing: "GetSetting True adminPasswordSetting db = Inl NotFound"
    using assms None by (auto simp: EnsureAdminPassword_def GetSetting_def IsNotFound_def split: if_splits)
  let ?chosen = "if configured = [] then pw_token w else Inr configured"
  obtain q where q: "?chosen = Inr q"
    using assms None up by (cases ?chosen) (auto simp: EnsureAdminPassword_def GetSetting_def IsNotFound_def)
  obtain h where h: "HashPassword (pw_bcrypt w q) q = Inr h"
    using assms None up q
    by (cases "HashPassword (pw_bcrypt w q) q") (auto simp: EnsureAdminPassword_def GetSetting_def IsNotFound_def Let_def)
  have res: "p = q" "g = (configured = [])" "db' = db\<lparr>db_settings := (db_settings db)(adminPasswordSetting \<mapsto> (h, pw_now w))\<rparr>"
    using assms None up q h
    by (auto simp: EnsureAdminPassword_def GetSetting_def SetSetting_def IsNotFound_def Let_def split: if_splits)
  have "ValidatePassword q = None" "pw_bcrypt w q = Inr h"
    using h by (auto simp: HashPassword_def split: option.splits)
  with res q missing show thesis by (intro set) (auto split: if_splits)
next
  case (Some v)
  then have "pw_up_read w" using assms by (auto simp: EnsureAdminPassword_def GetSetting_def IsNotFound_def split: if_splits)
  with Some assms show thesis
    by (intro kept [of "fst v"]) (auto simp: EnsureAdminPassword_def GetSetting_def split: prod.splits)
qed

lemma password_serving:
  assumes "Serving a k d1 \<in> set (fst (snd (run_password w cfg key d)))"
  shows "\<exists>p g db. EnsureAdminPassword (rw_password w) (cg_AdminPassword cfg) (ds_database d) = (Inr (p, g), db) \<and>
    a = cg_Addr cfg \<and> k = key \<and>
    d1 = d\<lparr>ds_database := snd (cleanupRequestLogs (rw_AddDate w) (cg_RequestRetentionDays cfg) (rw_cleanup w) db)\<rparr> \<and>
    (g \<longrightarrow> ShowPassword p \<in> set (fst (snd (run_password w cfg key d))))"
proof -
  obtain r db where en: "EnsureAdminPassword (rw_password w) (cg_AdminPassword cfg) (ds_database d) = (r, db)"
    by (cases "EnsureAdminPassword (rw_password w) (cg_AdminPassword cfg) (ds_database d)")
  then obtain p g where r: "r = Inr (p, g)"
    using assms by (cases r) (auto simp: run_password_def)
  let ?d = "d\<lparr>ds_database := snd (cleanupRequestLogs (rw_AddDate w) (cg_RequestRetentionDays cfg) (rw_cleanup w) db)\<rparr>"
  have evs: "fst (snd (run_password w cfg key d)) =
      (if g then [ShowPassword p] else []) @ fst (snd (scoped CleanupLoop (run_serving w cfg key ?d)))"
    by (simp add: run_password_def en r Let_def split_beta)
  with assms have "Serving a k d1 \<in> set (fst (snd (scoped CleanupLoop (run_serving w cfg key ?d))))"
    by (auto split: if_splits)
  then have "Serving a k d1 \<in> set (fst (snd (run_serving w cfg key ?d)))"
    by (auto simp: scoped_def split_beta)
  with serving_once [OF this] en r evs show ?thesis by auto
qed

lemma in_scoped_events: "ev \<in> set (fst (snd (scoped r body))) \<longleftrightarrow> ev = Opened r \<or> ev = Closed r \<or> ev \<in> set (fst (snd body))"
  by (auto simp: scoped_def split_beta)

lemma sessions_serving:
  assumes "Serving a k d1 \<in> set (fst (snd (run_sessions w cfg d)))"
  shows "\<exists>f. loadKey (cg_MasterKey cfg) (cg_StorageDriver cfg) (rw_key w) (ds_key_file d) = (Inr k, f) \<and>
    Serving a k d1 \<in> set (fst (snd (run_password w cfg k (d\<lparr>ds_key_file := f\<rparr>)))) \<and>
    set (fst (snd (run_password w cfg k (d\<lparr>ds_key_file := f\<rparr>)))) \<subseteq> set (fst (snd (run_sessions w cfg d)))"
proof -
  obtain q c where q: "NewSessions (rw_redis w) cfg = (q, c)" by (cases "NewSessions (rw_redis w) cfg")
  obtain r f where key: "loadKey (cg_MasterKey cfg) (cg_StorageDriver cfg) (rw_key w) (ds_key_file d) = (r, f)"
    by (cases "loadKey (cg_MasterKey cfg) (cg_StorageDriver cfg) (rw_key w) (ds_key_file d)")
  obtain ss where ss: "q = Inr ss"
    using assms by (cases q) (auto simp: run_sessions_def q tried_def)
  obtain key' where "r = Inr key'"
    using assms by (cases r) (auto simp: run_sessions_def q ss key in_scoped_events)
  with assms have "Serving a k d1 \<in> set (fst (snd (run_password w cfg key' (d\<lparr>ds_key_file := f\<rparr>))))"
    by (simp add: run_sessions_def q ss key in_scoped_events)
  with password_serving [OF this] \<open>r = Inr key'\<close> show ?thesis
    by (auto simp: run_sessions_def q ss key in_scoped_events)
qed

lemma database_serving:
  assumes "Serving a k d1 \<in> set (fst (snd (run_database w cfg d)))"
  shows "\<exists>pl b s. Open (rw_open w) cfg (ds_schema d) = (Inr pl, b, s) \<and>
    Serving a k d1 \<in> set (fst (snd (run_sessions w cfg (d\<lparr>ds_schema := s\<rparr>)))) \<and>
    set (fst (snd (run_sessions w cfg (d\<lparr>ds_schema := s\<rparr>)))) \<subseteq> set (fst (snd (run_database w cfg d)))"
proof -
  obtain r b s where op: "Open (rw_open w) cfg (ds_schema d) = (r, b, s)" by (cases "Open (rw_open w) cfg (ds_schema d)")
  obtain pl where "r = Inr pl"
    using assms by (cases r) (auto simp: run_database_def op tried_def)
  with assms op show ?thesis by (auto simp: run_database_def in_scoped_events)
qed

lemma Open_migrates: "Open w cfg s = (Inr pl, b, t) \<Longrightarrow> migrated s = Some t"
  by (auto simp: Open_def Let_def dest: migrate_stage split: option.splits prod.splits if_splits)

lemma loaded_key_length:
  assumes "loadKey mk sd kw f = (Inr key, f')" "\<forall>k. kw_random kw = Inr k \<longrightarrow> length k = 32"
  shows "length key = 32"
proof (cases "kw_random kw = Inr key")
  case False
  with assms(1) have "\<exists>raw. decodeKey raw = Inr key"
    by (auto simp: loadKey_def split: if_splits option.splits sum.splits)
  then show ?thesis by (auto dest: decodeKey_length)
qed (use assms(2) in simp)

lemma run_serving_after:
  assumes "Serving a k d1 \<in> set (fst (snd (run cl w d)))"
  shows "\<exists>cfg f p g db. Load cl (rw_os w) = Inr cfg \<and> a = cg_Addr cfg \<and>
    migrated (ds_schema d) = Some (ds_schema d1) \<and>
    loadKey (cg_MasterKey cfg) (cg_StorageDriver cfg) (rw_key w) (ds_key_file d) = (Inr k, f) \<and> ds_key_file d1 = f \<and>
    EnsureAdminPassword (rw_password w) (cg_AdminPassword cfg) (ds_database d) = (Inr (p, g), db) \<and>
    ds_database d1 = snd (cleanupRequestLogs (rw_AddDate w) (cg_RequestRetentionDays cfg) (rw_cleanup w) db) \<and>
    (g \<longrightarrow> ShowPassword p \<in> set (fst (snd (run cl w d))))"
proof -
  obtain cfg where cfg: "Load cl (rw_os w) = Inr cfg"
    using assms by (cases "Load cl (rw_os w)") (auto simp: run_def)
  obtain lf where lf: "NewLogging (rw_log w) (cg_LogPath cfg) = Inr lf"
    using assms by (cases "NewLogging (rw_log w) (cg_LogPath cfg)") (auto simp: run_def cfg)
  have evs: "set (fst (snd (run_database w cfg d))) \<subseteq> set (fst (snd (run cl w d)))"
    "Serving a k d1 \<in> set (fst (snd (run_database w cfg d)))"
    using assms by (auto simp: run_def cfg lf in_scoped_events)
  obtain pl b s where s: "Open (rw_open w) cfg (ds_schema d) = (Inr pl, b, s)"
    "Serving a k d1 \<in> set (fst (snd (run_sessions w cfg (d\<lparr>ds_schema := s\<rparr>))))"
    "set (fst (snd (run_sessions w cfg (d\<lparr>ds_schema := s\<rparr>)))) \<subseteq> set (fst (snd (run_database w cfg d)))"
    using database_serving [OF evs(2)] by blast
  obtain f where f: "loadKey (cg_MasterKey cfg) (cg_StorageDriver cfg) (rw_key w) (ds_key_file d) = (Inr k, f)"
    "Serving a k d1 \<in> set (fst (snd (run_password w cfg k (d\<lparr>ds_schema := s, ds_key_file := f\<rparr>))))"
    "set (fst (snd (run_password w cfg k (d\<lparr>ds_schema := s, ds_key_file := f\<rparr>)))) \<subseteq>
       set (fst (snd (run_sessions w cfg (d\<lparr>ds_schema := s\<rparr>))))"
    using sessions_serving [OF s(2)] by auto
  from password_serving [OF f(2)] obtain p g db where
    "EnsureAdminPassword (rw_password w) (cg_AdminPassword cfg) (ds_database d) = (Inr (p, g), db)" "a = cg_Addr cfg"
    "d1 = d\<lparr>ds_schema := s, ds_key_file := f,
       ds_database := snd (cleanupRequestLogs (rw_AddDate w) (cg_RequestRetentionDays cfg) (rw_cleanup w) db)\<rparr>"
    "g \<longrightarrow> ShowPassword p \<in> set (fst (snd (run_password w cfg k (d\<lparr>ds_schema := s, ds_key_file := f\<rparr>))))"
    by auto
  with cfg f(1,3) s(3) evs(1) Open_migrates [OF s(1)] show ?thesis by auto
qed


text \<open>Every removal is the statement \<open>OpDeleteOld\<close> of the database, so that its invariants hold through them.\<close>

lemma cleanup_is_statement:
  "snd (cleanupRequestLogs AddDate days c db) =
     fst (db_step db (cc_up c, OpDeleteOld (AddDate (cc_now c) (sint (- days)))))"
  by (simp add: cleanupRequestLogs_def Let_def split: prod.split sum.split)

lemma cleanup_inv: "db_inv db \<Longrightarrow> db_inv (snd (cleanupRequestLogs AddDate days c db))"
  unfolding cleanup_is_statement by (rule tables.step_inv)

lemma cleanup_loop_inv: "db_inv db \<Longrightarrow> db_inv (snd (runRequestLogCleanup AddDate days es db))"
proof (induction es arbitrary: db)
  case (Cons ev es)
  then show ?case by (cases ev) (simp_all add: Let_def split_beta cleanup_inv)
qed simp

text \<open>Exactly the logs from before the retention go, and nothing else of the database.\<close>

lemma cleanup_exact:
  assumes "cc_up c"
  shows "snd (cleanupRequestLogs AddDate days c db) =
    db\<lparr>db_logs := filter (\<lambda>e. AddDate (cc_now c) (sint (- days)) \<le> lg_created_at e) (db_logs db)\<rparr>"
  using assms by (simp add: cleanupRequestLogs_def DeleteOldRequestLogs_def Let_def not_less)

lemma cleanup_settings: "db_settings (snd (cleanupRequestLogs AddDate days c db)) = db_settings db"
  by (simp add: cleanupRequestLogs_def DeleteOldRequestLogs_def Let_def)

lemma signed_in_first:
  assumes "EnsureAdminPassword w configured db = (Inr (p, g), db')"
    and "GetSetting True adminPasswordSetting db = Inl NotFound" "\<forall>q h. pw_bcrypt w q = Inr h \<longrightarrow> lb_bcrypt_ok lb h q"
    and "in_body i = Decoded p" "in_up i" "in_token i = Some tk" "in_stored i \<le> t"
  shows "rp_status (fst (loginHandler lb sc i (new_server db' defaultMemoryStoreCapacity))) = 200 \<and>
    (fst (adminSessionAuthenticated lb t True tk (snd (loginHandler lb sc i (new_server db' defaultMemoryStoreCapacity)))) = Inr True
       \<longleftrightarrow> t < in_stored i + sc_session_ttl sc)"
proof -
  from assms(1) obtain h where h: "GetSetting True adminPasswordSetting db' = Inr h" "pw_bcrypt w p = Inr h"
    by (rule ensured) (use assms(2) in \<open>auto simp: GetSetting_def\<close>)
  let ?s = "newMemoryStore defaultMemoryStoreCapacity"
  let ?put = "Put (in_stored i) (session_key lb tk) (adminSessionValue lb h) (sc_session_ttl sc) ?s"
  obtain r ss where put: "?put = (r, ss)" by (cases ?put)
  have r: "r = None"
    using put by (auto simp: Put_def newMemoryStore_def removeExpiredLocked_def defaultMemoryStoreCapacity_def Let_def)
  have live: "live t ss (session_key lb tk) = (if in_stored i + sc_session_ttl sc > t then Some (adminSessionValue lb h) else None)"
    using put_live [OF put [unfolded r] SessionStore.new_inv assms(7)] by (simp add: new_live)
  have sv: "snd (loginHandler lb sc i (new_server db' defaultMemoryStoreCapacity)) =
      \<lparr>sv_db = db', sv_sessions = ss, sv_login = Map.empty\<rparr>"
    and ok: "rp_status (fst (loginHandler lb sc i (new_server db' defaultMemoryStoreCapacity))) = 200"
    using h put r assms(3-6)
    by (simp_all add: loginHandler_def new_server_def newLoginLimiter_def limiter_defs decodeJSON_def CheckPassword_def
        writeJSON_def)
  show ?thesis using ok h(1) live by (simp add: sv authenticated_iff)
qed

lemma ensured_stored:
  assumes "EnsureAdminPassword w configured db = (Inr (p, g), db')"
  shows "\<exists>h. GetSetting True adminPasswordSetting db' = Inr h \<and>
    (case GetSetting True adminPasswordSetting db of
       Inr h0 \<Rightarrow> h = h0 \<and> \<not> g
     | Inl e \<Rightarrow> g = (configured = []) \<and> (if g then pw_token w = Inr p else p = configured) \<and>
         ValidatePassword p = None \<and> pw_bcrypt w p = Inr h)"
  using assms by (rule ensured) (auto simp: GetSetting_def)

subsection \<open>Properties\<close>

text \<open>C39. However a run of the process ends, in the middle of the start or by a signal, everything it
  opened has been closed, each resource once and in the reverse order of opening; and requests are served only
  while the log, the database, the sessions and the removal of old logs are all there.\<close>

theorem resources_released:
  "closes [] (fst (snd (run cl w d))) = Some [] \<and>
   set (open_while_serving [] (fst (snd (run cl w d)))) \<subseteq> {[CleanupLoop, SessionHandle, DatabaseHandle, LogFile]}"
proof -
  have "closes [] (fst (snd (run cl w d)) @ []) = closes [] [] \<and>
      set (open_while_serving [] (fst (snd (run cl w d)) @ [])) \<subseteq>
        {[CleanupLoop, SessionHandle, DatabaseHandle, LogFile] @ []} \<union> set (open_while_serving [] [])"
    using balanced_run [of cl w d] unfolding balanced_def by blast
  then show ?thesis by simp
qed

text \<open>C35. The server serves requests only when it is ready: its configuration was accepted, the key of the
  cipher has 32 bytes, the schema is fully migrated and a password of the administrator is stored. A password that was stored
  before is kept, whatever the environment now says; otherwise the stored hash is that of the configured password or of a
  random one that was shown, and the password obeys the rule for passwords.\<close>

theorem ready_before_serving:
  assumes "Serving address key d1 \<in> set (fst (snd (run cl w d)))"
    and "\<forall>k. kw_random (rw_key w) = Inr k \<longrightarrow> length k = 32"
  shows "\<exists>cfg h. Load cl (rw_os w) = Inr cfg \<and> address = cg_Addr cfg \<and> length key = 32 \<and>
    migrated (ds_schema d) = Some (ds_schema d1) \<and>
    GetSetting True adminPasswordSetting (ds_database d1) = Inr h \<and>
    (case GetSetting True adminPasswordSetting (ds_database d) of
       Inr h0 \<Rightarrow> h = h0
     | Inl e \<Rightarrow> \<exists>p. ValidatePassword p = None \<and> pw_bcrypt (rw_password w) p = Inr h \<and>
         (if cg_AdminPassword cfg = [] then ShowPassword p \<in> set (fst (snd (run cl w d))) else p = cg_AdminPassword cfg))"
proof -
  from run_serving_after [OF assms(1)] obtain cfg f p g db where r:
    "Load cl (rw_os w) = Inr cfg" "address = cg_Addr cfg" "migrated (ds_schema d) = Some (ds_schema d1)"
    "loadKey (cg_MasterKey cfg) (cg_StorageDriver cfg) (rw_key w) (ds_key_file d) = (Inr key, f)"
    "EnsureAdminPassword (rw_password w) (cg_AdminPassword cfg) (ds_database d) = (Inr (p, g), db)"
    "ds_database d1 = snd (cleanupRequestLogs (rw_AddDate w) (cg_RequestRetentionDays cfg) (rw_cleanup w) db)"
    "g \<longrightarrow> ShowPassword p \<in> set (fst (snd (run cl w d)))" by blast
  have len: "length key = 32" by (rule loaded_key_length [OF r(4) assms(2)])
  from ensured_stored [OF r(5)] obtain h where h: "GetSetting True adminPasswordSetting db = Inr h"
    "case GetSetting True adminPasswordSetting (ds_database d) of
       Inr h0 \<Rightarrow> h = h0 \<and> \<not> g
     | Inl e \<Rightarrow> g = (cg_AdminPassword cfg = []) \<and> (if g then pw_token (rw_password w) = Inr p else p = cg_AdminPassword cfg) \<and>
         ValidatePassword p = None \<and> pw_bcrypt (rw_password w) p = Inr h" by blast
  have "GetSetting True adminPasswordSetting (ds_database d1) = Inr h"
    using h(1) by (simp add: r(6) GetSetting_def cleanup_settings)
  with r(1-3,7) len h(2) show ?thesis by (auto split: sum.splits if_splits)
qed


text \<open>A lifetime of 2562048 hours: every sign-in succeeds and no session is ever accepted.\<close>

lemma oversized_ttl_locks_out:
  assumes "Load cl os = Inr cfg" "TrimSpace (os ''SESSION_TTL_HOURS'') = itoa 2562048"
    and "EnsureAdminPassword w configured db = (Inr (p, g), db')"
    and "GetSetting True adminPasswordSetting db = Inl NotFound" "\<forall>q h. pw_bcrypt w q = Inr h \<longrightarrow> lb_bcrypt_ok lb h q"
    and "in_body i = Decoded p" "in_up i" "in_token i = Some tk" "in_stored i \<le> t"
  shows "rp_status (fst (loginHandler lb (server_config_of cfg) i (new_server db' defaultMemoryStoreCapacity))) = 200 \<and>
    fst (adminSessionAuthenticated lb t True tk
        (snd (loginHandler lb (server_config_of cfg) i (new_server db' defaultMemoryStoreCapacity)))) \<noteq> Inr True"
proof -
  have "sc_session_ttl (server_config_of cfg) = - 9223371273709551616"
    using session_ttl_value [OF assms(1,2)] by (simp add: server_config_of_def)
  with signed_in_first [OF assms(3-9), of "server_config_of cfg"] assms(9) show ?thesis by simp
qed

text \<open>A configured password of more than 72 bytes obeys the rule, and stops the first start where bcrypt refuses it.\<close>

lemma long_password_stops_start:
  assumes "GetSetting True adminPasswordSetting db = Inl NotFound" "pw_up_read w"
    and "\<forall>q. 72 < length q \<longrightarrow> pw_bcrypt w q = Inl ''bcrypt: password length exceeds 72 bytes''"
    and "72 < length configured" "ValidatePassword configured = None"
  shows "EnsureAdminPassword w configured db = (Inl (EnsureText ''bcrypt: password length exceeds 72 bytes''), db)"
proof -
  have "configured \<noteq> []" using assms(4) by auto
  with assms show ?thesis
    by (simp add: EnsureAdminPassword_def IsNotFound_def HashPassword_def Let_def)
qed

subsection \<open>A first start\<close>

definition sample_password_world :: password_world where
  "sample_password_world = \<lparr>pw_up_read = True, pw_token = Inr ''generated-password'', pw_bcrypt = (\<lambda>p. Inr (''b:'' @ p)),
     pw_up_write = True, pw_now = 0\<rparr>"

definition sample_run_world :: process_world where
  "sample_run_world =
     \<lparr>rw_os = sample_environment, rw_log = \<lparr>lw_mkdir = None, lw_open = None\<rparr>,
      rw_open = \<lparr>ow_mkdir = None, ow_open = None, ow_ping = None, ow_migration = calm_start\<rparr>,
      rw_redis = \<lparr>rd_parse = (\<lambda>u. None), rd_ping = None\<rparr>,
      rw_key = \<lparr>kw_read_error = None, kw_random = Inr (replicate 32 (CHR ''k'')), kw_mkdir_error = None, kw_created = None,
        kw_open_error = None, kw_write_error = None\<rparr>,
      rw_password = sample_password_world, rw_AddDate = (\<lambda>now days. now + days),
      rw_cleanup = \<lparr>cc_now = 0, cc_up = True, cc_canceled = False\<rparr>, rw_served = (\<lambda>d. d),
      rw_end = SignalReceived ''terminated'', rw_shutdown = None, rw_idle = None\<rparr>"

definition sample_disk :: disk where
  "sample_disk = \<lparr>ds_schema = \<lparr>sm_tables = Map.empty, sm_indexes = []\<rparr>, ds_database = empty_database, ds_key_file = None\<rparr>"

lemma sample_cfg:
  obtains cfg where "Load sample_config_lib sample_environment = Inr cfg" "cg_StorageDriver cfg = ''sqlite''"
    "cg_MasterKey cfg = []" "cg_AdminPassword cfg = []" "cg_LogPath cfg \<noteq> []"
proof -
  obtain cfg where cfg: "Load sample_config_lib sample_environment = Inr cfg" using sample_load by blast
  have fields: "cg_StorageDriver (read_config sample_config_lib sample_environment) = ''sqlite''"
    "cg_MasterKey (read_config sample_config_lib sample_environment) = []"
    "cg_AdminPassword (read_config sample_config_lib sample_environment) = []"
    "cg_LogPath (read_config sample_config_lib sample_environment) \<noteq> []"
    by (simp_all add: read_config_def Let_def env_def sample_environment_def sample_config_lib_def)
  from cfg show thesis by (rule Load_Inr) (use that cfg fields in simp)
qed

lemma sample_valid: "ValidatePassword ''generated-password'' = None"
  by (simp add: ValidatePassword_def TrimSpace_printable printable_def)

lemma sample_ensured:
  "EnsureAdminPassword sample_password_world [] empty_database =
     (Inr (''generated-password'', True),
      empty_database\<lparr>db_settings := [adminPasswordSetting \<mapsto> (''b:generated-password'', 0)]\<rparr>)"
  by (simp add: EnsureAdminPassword_def sample_password_world_def GetSetting_def SetSetting_def empty_database_def
      IsNotFound_def HashPassword_def sample_valid)

lemma sample_serves:
  "\<exists>address key d1. Serving address key d1 \<in> set (fst (snd (run sample_config_lib sample_run_world sample_disk)))"
proof -
  obtain cfg where cfg: "Load sample_config_lib sample_environment = Inr cfg" "cg_StorageDriver cfg = ''sqlite''"
    "cg_MasterKey cfg = []" "cg_AdminPassword cfg = []" "cg_LogPath cfg \<noteq> []" by (rule sample_cfg)
  have "fst (migrate calm_start False (ds_schema sample_disk)) = None"
    by (rule migration_succeeds) (simp_all add: undisturbed_def calm_start_def supported_def sample_disk_def)
  then obtain s where m: "migrate calm_start False (ds_schema sample_disk) = (None, s)"
    by (cases "migrate calm_start False (ds_schema sample_disk)") auto
  have open': "Open (rw_open sample_run_world) cfg (ds_schema sample_disk) = (Inr (pool_of False), False, s)"
    by (simp add: Open_def sample_run_world_def cfg(2) m)
  have key: "\<exists>f. loadKey (cg_MasterKey cfg) (cg_StorageDriver cfg) (rw_key sample_run_world) None = (Inr (replicate 32 (CHR ''k'')), f)"
    by (simp add: loadKey_def cfg(2,3) sample_run_world_def)
  then obtain f where f: "loadKey (cg_MasterKey cfg) (cg_StorageDriver cfg) (rw_key sample_run_world) None =
      (Inr (replicate 32 (CHR ''k'')), f)" by blast
  let ?d = "sample_disk\<lparr>ds_schema := s, ds_key_file := f\<rparr>"
  have "\<exists>a k d1. Serving a k d1 \<in> set (fst (snd (run_serving sample_run_world cfg key d)))" for key d
    by (auto simp: run_serving_def sample_run_world_def Let_def split_beta)
  then have "\<exists>a k d1. Serving a k d1 \<in> set (fst (snd (run_password sample_run_world cfg key ?d)))" for key
    using sample_ensured
    by (auto simp: run_password_def cfg(4) sample_run_world_def sample_disk_def Let_def split_beta in_scoped_events)
  then have "\<exists>a k d1. Serving a k d1 \<in> set (fst (snd (run_sessions sample_run_world cfg (sample_disk\<lparr>ds_schema := s\<rparr>))))"
    using f by (simp add: run_sessions_def NewSessions_def cfg(2) in_scoped_events sample_disk_def)
  then have "\<exists>a k d1. Serving a k d1 \<in> set (fst (snd (run_database sample_run_world cfg sample_disk)))"
    by (simp add: run_database_def open' in_scoped_events)
  moreover have "Load sample_config_lib (rw_os sample_run_world) = Inr cfg" "rw_log sample_run_world = \<lparr>lw_mkdir = None, lw_open = None\<rparr>"
    by (simp_all add: sample_run_world_def cfg(1))
  ultimately show ?thesis by (simp add: run_def NewLogging_def cfg(5) in_scoped_events)
qed

theorem ready_before_serving_witness:
  "\<exists>address key d1 h. Serving address key d1 \<in> set (fst (snd (run sample_config_lib sample_run_world sample_disk))) \<and>
     length key = 32 \<and> GetSetting True adminPasswordSetting (ds_database d1) = Inr h"
proof -
  obtain address key d1 where
    s: "Serving address key d1 \<in> set (fst (snd (run sample_config_lib sample_run_world sample_disk)))"
    using sample_serves by blast
  have "\<forall>k. kw_random (rw_key sample_run_world) = Inr k \<longrightarrow> length k = 32"
    by (simp add: sample_run_world_def)
  from ready_before_serving [OF s this] s show ?thesis by blast
qed

definition sample_first_sign_in :: sign_in where
  "sample_first_sign_in = \<lparr>in_address = ''ip'', in_asked = 1, in_until = 1, in_failed = 1, in_stored = 1,
     in_body = Decoded ''generated-password'', in_up = True, in_token = Some ''tk''\<rparr>"


end
