(* ===== verification/Upstream.thy ===== *)
theory Upstream
  imports Base64 GoRuntime
begin

text \<open>
  \<^verbatim>\<open>internal/upstream/client.go\<close>: which transport a request of the server takes, and the connection that is built for
  the official host, directly or through a proxy. What the network, TLS and HTTP/2 libraries answer is a record of
  arguments; a run is its result and the list of the steps taken on the connection. A cancelled context is one of
  the errors any of these calls may return. \<^verbatim>\<open>net.SplitHostPort\<close> and the case tables of Unicode are arguments.
\<close>

subsection \<open>The choice of the transport\<close>

record outbound =
  ob_Scheme :: gostring
  ob_Host :: gostring
  ob_Hostname :: gostring
  ob_deadline :: "int option"

datatype transport = DefaultTransport | SelectiveTransport

record http_client =
  hc_transport :: transport
  hc_timeout :: int

definition NewHTTPClient :: "int \<Rightarrow> bool \<Rightarrow> http_client" where
  "NewHTTPClient timeout chromeTLS =
     \<lparr>hc_transport = (if chromeTLS then SelectiveTransport else DefaultTransport), hc_timeout = timeout\<rparr>"

text \<open>\<open>None\<close> stands for a request, or its URL, that is \<^verbatim>\<open>nil\<close>.\<close>

definition isChatGPTHTTPS :: "(gostring \<Rightarrow> gostring) \<Rightarrow> outbound option \<Rightarrow> bool" where
  "isChatGPTHTTPS fold_case request =
     (case request of None \<Rightarrow> False
      | Some r \<Rightarrow> fold_case (ob_Scheme r) = fold_case ''https'' \<and> fold_case (ob_Hostname r) = fold_case ''chatgpt.com'')"

datatype route = RouteError gostring | ChromeRoute | FallbackRoute

definition selective_route :: "(gostring \<Rightarrow> gostring) \<Rightarrow> outbound option \<Rightarrow> route" where
  "selective_route fold_case request =
     (if request = None then RouteError ''upstream transport: request is nil''
      else if isChatGPTHTTPS fold_case request then ChromeRoute else FallbackRoute)"

definition client_route :: "(gostring \<Rightarrow> gostring) \<Rightarrow> http_client \<Rightarrow> outbound option \<Rightarrow> route" where
  "client_route fold_case c request =
     (case hc_transport c of DefaultTransport \<Rightarrow> FallbackRoute | SelectiveTransport \<Rightarrow> selective_route fold_case request)"

subsection \<open>Addresses, deadlines and steps\<close>

record proxy_address =
  px_Scheme :: gostring
  px_Host :: gostring
  px_Hostname :: gostring
  px_User :: "(gostring \<times> gostring) option"

text \<open>\<^verbatim>\<open>net.JoinHostPort\<close>.\<close>

definition JoinHostPort :: "gostring \<Rightarrow> gostring \<Rightarrow> gostring" where
  "JoinHostPort host port = (if CHR '':'' \<in> set host then ''['' @ host @ '']:'' @ port else host @ '':'' @ port)"

text \<open>The earlier of a time limit from now on and the deadline of the context.\<close>

definition limited_by :: "int \<Rightarrow> int \<Rightarrow> int option \<Rightarrow> int" where
  "limited_by now timeout contextDeadline =
     (case contextDeadline of
        None \<Rightarrow> now + timeout
      | Some d \<Rightarrow> if d < now + timeout then d else now + timeout)"

definition chromeTLSHandshakeTimeout :: int where
  "chromeTLSHandshakeTimeout = 10000000000"

definition effectiveHandshakeTimeout :: "int \<Rightarrow> int" where
  "effectiveHandshakeTimeout configured = (if configured > 0 then configured else chromeTLSHandshakeTimeout)"

datatype conn_step =
    Dialed gostring
  | DialedSocks gostring
  | DeadlineSet "int option"
  | ProxyTLS gostring
  | ConnectSent gostring "(gostring \<times> gostring) list"
  | ChromeTLS gostring
  | HTTP2Opened
  | RequestSent
  | HTTP2Closed
  | ConnClosed

datatype socks_outcome = SocksInvalid gostring | SocksWithoutContext | SocksDial "gostring option"

text \<open>An error of a call is its text, no error is \<open>None\<close>; \<open>'r\<close> is a response with a body.\<close>

record 'r net_world =
  nw_splits :: "gostring \<Rightarrow> bool"
  nw_fold :: "gostring \<Rightarrow> gostring"
  nw_lower :: "gostring \<Rightarrow> gostring"
  nw_quote :: "gostring \<Rightarrow> gostring"
  nw_timeout :: int
  nw_resolve :: "gostring + proxy_address option"
  nw_dial :: "gostring option"
  nw_socks :: socks_outcome
  nw_proxy_now :: int
  nw_proxy_deadline :: "gostring option"
  nw_proxy_handshake :: "gostring option"
  nw_proxy_clear :: "gostring option"
  nw_connect_now :: int
  nw_connect_deadline :: "gostring option"
  nw_connect_write :: "gostring option"
  nw_connect_read :: "gostring + int \<times> gostring \<times> gostring"
  nw_connect_clear :: "gostring option"
  nw_now :: int
  nw_deadline :: "gostring option"
  nw_handshake :: "gostring option"
  nw_clear :: "gostring option"
  nw_protocol :: gostring
  nw_http2 :: "gostring option"
  nw_answer :: "gostring + 'r option"

subsection \<open>Through a proxy\<close>

definition proxy_is_https :: "'r net_world \<Rightarrow> proxy_address \<Rightarrow> bool" where
  "proxy_is_https w px \<longleftrightarrow> nw_fold w (px_Scheme px) = nw_fold w ''https''"

definition proxy_target :: "'r net_world \<Rightarrow> proxy_address \<Rightarrow> gostring" where
  "proxy_target w px =
     (if nw_splits w (px_Host px) then px_Host px
      else JoinHostPort (px_Hostname px) (if proxy_is_https w px then ''443'' else ''80''))"

definition connect_headers :: "proxy_address \<Rightarrow> (gostring \<times> gostring) list" where
  "connect_headers px =
     (''User-Agent'', ''CodexOne'') #
     (case px_User px of None \<Rightarrow> []
      | Some (username, password) \<Rightarrow>
          [(''Proxy-Authorization'', ''Basic '' @ EncodeToString StdEncoding (username @ '':'' @ password))])"

text \<open>The TLS connection to a proxy with the scheme \<^verbatim>\<open>https\<close>: an error or none, and the steps.\<close>

definition proxy_tls :: "'r net_world \<Rightarrow> outbound \<Rightarrow> proxy_address \<Rightarrow> gostring option \<times> conn_step list" where
  "proxy_tls w req px =
     (if \<not> proxy_is_https w px then (None, [])
      else
        (case nw_proxy_deadline w of
           Some e \<Rightarrow> (Some (''set ChatGPT upstream proxy TLS deadline: '' @ e), [])
         | None \<Rightarrow>
             (let deadline = DeadlineSet (Some (limited_by (nw_proxy_now w) (effectiveHandshakeTimeout (nw_timeout w)) (ob_deadline req)))
              in case nw_proxy_handshake w of
                   Some e \<Rightarrow> (Some (''handshake with ChatGPT upstream proxy: '' @ e), [deadline])
                 | None \<Rightarrow>
                     (case nw_proxy_clear w of
                        Some e \<Rightarrow> (Some (''clear ChatGPT upstream proxy TLS deadline: '' @ e), [deadline, ProxyTLS (px_Hostname px)])
                      | None \<Rightarrow> (None, [deadline, ProxyTLS (px_Hostname px), DeadlineSet None])))))"

text \<open>The request for the tunnel, on a connection to the proxy: an error or the bytes read ahead.\<close>

definition connect_tunnel :: "'r net_world \<Rightarrow> outbound \<Rightarrow> proxy_address \<Rightarrow> gostring \<Rightarrow> (gostring + gostring) \<times> conn_step list" where
  "connect_tunnel w req px address =
     (case nw_connect_deadline w of
        Some e \<Rightarrow> (Inl (''set ChatGPT upstream proxy deadline: '' @ e), [])
      | None \<Rightarrow>
          (let deadline = DeadlineSet (Some (limited_by (nw_connect_now w) 30000000000 (ob_deadline req)))
           in case nw_connect_write w of
                Some e \<Rightarrow> (Inl (''send ChatGPT upstream proxy CONNECT: '' @ e), [deadline])
              | None \<Rightarrow>
                  (let sent = [deadline, ConnectSent address (connect_headers px)]
                   in case nw_connect_read w of
                        Inl e \<Rightarrow> (Inl (''read ChatGPT upstream proxy CONNECT: '' @ e), sent)
                      | Inr (status, status_text, buffered) \<Rightarrow>
                          if status \<noteq> 200 then (Inl (''ChatGPT upstream proxy CONNECT returned '' @ status_text), sent)
                          else (case nw_connect_clear w of
                                  Some e \<Rightarrow> (Inl (''clear ChatGPT upstream proxy deadline: '' @ e), sent)
                                | None \<Rightarrow> (Inr buffered, sent @ [DeadlineSet None])))))"

definition dialHTTPConnectProxy :: "'r net_world \<Rightarrow> outbound \<Rightarrow> proxy_address \<Rightarrow> gostring \<Rightarrow> (gostring + gostring) \<times> conn_step list" where
  "dialHTTPConnectProxy w req px address =
     (case nw_dial w of
        Some e \<Rightarrow> (Inl (''dial ChatGPT upstream proxy: '' @ e), [])
      | None \<Rightarrow>
          (case proxy_tls w req px of
             (Some e, steps) \<Rightarrow> (Inl e, Dialed (proxy_target w px) # steps @ [ConnClosed])
           | (None, steps) \<Rightarrow>
               (case connect_tunnel w req px address of
                  (Inl e, more_steps) \<Rightarrow> (Inl e, Dialed (proxy_target w px) # steps @ more_steps @ [ConnClosed])
                | (Inr buffered, more_steps) \<Rightarrow> (Inr buffered, Dialed (proxy_target w px) # steps @ more_steps))))"

definition dialConnection :: "'r net_world \<Rightarrow> outbound \<Rightarrow> gostring \<Rightarrow> (gostring + gostring) \<times> conn_step list" where
  "dialConnection w req address =
     (case nw_resolve w of
        Inl e \<Rightarrow> (Inl (''resolve ChatGPT upstream proxy: '' @ e), [])
      | Inr None \<Rightarrow> (case nw_dial w of Some e \<Rightarrow> (Inl e, []) | None \<Rightarrow> (Inr [], [Dialed address]))
      | Inr (Some px) \<Rightarrow>
          if nw_lower w (px_Scheme px) \<in> {''http'', ''https''} then dialHTTPConnectProxy w req px address
          else if nw_lower w (px_Scheme px) \<in> {''socks5'', ''socks5h''}
          then (case nw_socks w of
                  SocksInvalid e \<Rightarrow> (Inl (''configure ChatGPT SOCKS proxy: '' @ e), [])
                | SocksWithoutContext \<Rightarrow> (Inl ''ChatGPT SOCKS proxy does not support context cancellation'', [])
                | SocksDial (Some e) \<Rightarrow> (Inl e, [])
                | SocksDial None \<Rightarrow> (Inr [], [DialedSocks address]))
          else (Inl (''unsupported ChatGPT upstream proxy scheme '' @ nw_quote w (px_Scheme px)), []))"

subsection \<open>A request over its own connection\<close>

text \<open>TLS to the host, on the dialed connection.\<close>

definition chrome_tls :: "'r net_world \<Rightarrow> outbound \<Rightarrow> gostring option \<times> conn_step list" where
  "chrome_tls w req =
     (case nw_deadline w of
        Some e \<Rightarrow> (Some (''set ChatGPT TLS handshake deadline: '' @ e), [])
      | None \<Rightarrow>
          (let deadline = DeadlineSet (Some (limited_by (nw_now w) (effectiveHandshakeTimeout (nw_timeout w)) (ob_deadline req)))
           in case nw_handshake w of
                Some e \<Rightarrow> (Some (''handshake with ChatGPT upstream: '' @ e), [deadline])
              | None \<Rightarrow>
                  (let done = [deadline, ChromeTLS (ob_Hostname req)]
                   in case nw_clear w of
                        Some e \<Rightarrow> (Some (''clear ChatGPT TLS handshake deadline: '' @ e), done)
                      | None \<Rightarrow>
                          if nw_protocol w \<noteq> ''h2''
                          then (Some (''ChatGPT upstream negotiated unsupported protocol '' @ nw_quote w (nw_protocol w)), done @ [DeadlineSet None])
                          else (None, done @ [DeadlineSet None]))))"

text \<open>The exchange over HTTP/2: an error or the response, and the steps.\<close>

definition http2_exchange :: "'r net_world \<Rightarrow> (gostring + 'r) \<times> conn_step list" where
  "http2_exchange w =
     (case nw_http2 w of
        Some e \<Rightarrow> (Inl (''initialize ChatGPT HTTP/2 connection: '' @ e), [])
      | None \<Rightarrow>
          (case nw_answer w of
             Inl e \<Rightarrow> (Inl (''send ChatGPT upstream request: '' @ e), [HTTP2Opened, RequestSent, HTTP2Closed])
           | Inr None \<Rightarrow> (Inl ''ChatGPT upstream returned an empty response'', [HTTP2Opened, RequestSent, HTTP2Closed])
           | Inr (Some response) \<Rightarrow> (Inr response, [HTTP2Opened, RequestSent])))"

definition chrome_RoundTrip :: "'r net_world \<Rightarrow> outbound \<Rightarrow> (gostring + 'r) \<times> conn_step list" where
  "chrome_RoundTrip w req =
     (let address = (if nw_splits w (ob_Host req) then ob_Host req else JoinHostPort (ob_Hostname req) ''443'')
      in case dialConnection w req address of
           (Inl e, steps) \<Rightarrow> (Inl (''dial ChatGPT upstream: '' @ e), steps)
         | (Inr buffered, steps) \<Rightarrow>
             (case chrome_tls w req of
                (Some e, tls_steps) \<Rightarrow> (Inl e, steps @ tls_steps @ [ConnClosed])
              | (None, tls_steps) \<Rightarrow>
                  (case http2_exchange w of
                     (Inl e, more_steps) \<Rightarrow> (Inl e, steps @ tls_steps @ more_steps @ [ConnClosed])
                   | (Inr response, more_steps) \<Rightarrow> (Inr response, steps @ tls_steps @ more_steps))))"

text \<open>Reading through \<^verbatim>\<open>bufferedConnection\<close>: first what was read ahead, then the connection.\<close>

definition tunnel_bytes :: "gostring \<Rightarrow> gostring \<Rightarrow> gostring" where
  "tunnel_bytes buffered rest = (if buffered \<noteq> [] then buffered @ rest else rest)"

text \<open>The body of the response: closing it closes the connection, once; the errors are joined and kept.\<close>

record connection_body =
  cb_closed :: bool
  cb_err :: "gostring list"

definition new_body :: connection_body where
  "new_body = \<lparr>cb_closed = False, cb_err = []\<rparr>"

definition close_body :: "gostring option \<Rightarrow> gostring option \<Rightarrow> connection_body \<Rightarrow> gostring list \<times> conn_step list \<times> connection_body" where
  "close_body bodyErr connectionErr b =
     (if cb_closed b then (cb_err b, [], b)
      else (let errs = List.map_filter (\<lambda>e. e) [bodyErr, connectionErr]
            in (errs, [HTTP2Closed], \<lparr>cb_closed = True, cb_err = errs\<rparr>)))"

subsection \<open>The order of steps\<close>

text \<open>
  What may happen on a connection, as an automaton: \<open>None\<close> is a step out of order. Every handshake and the
  request to the proxy run under a deadline, the request itself without one and only inside TLS to its own host.
\<close>

datatype phase = NoConnection | Tcp | ProxySecured | Tunnel | Secured gostring | Http2 gostring | Sent gostring | Over

datatype path = Direct | PlainProxy | SecureProxy | SocksProxy

fun next_phase :: "path \<Rightarrow> conn_step \<Rightarrow> phase \<times> int option \<Rightarrow> (phase \<times> int option) option" where
  "next_phase pa (Dialed a) (ph, dl) = (if ph = NoConnection \<and> pa \<noteq> SocksProxy then Some (Tcp, None) else None)"
| "next_phase pa (DialedSocks a) (ph, dl) = (if ph = NoConnection \<and> pa = SocksProxy then Some (Tunnel, None) else None)"
| "next_phase pa (DeadlineSet d) (ph, dl) = (if ph = NoConnection \<or> ph = Over then None else Some (ph, d))"
| "next_phase pa (ProxyTLS n) (ph, dl) = (if pa = SecureProxy \<and> ph = Tcp \<and> dl \<noteq> None then Some (ProxySecured, dl) else None)"
| "next_phase pa (ConnectSent a hs) (ph, dl) =
     (if (pa = PlainProxy \<and> ph = Tcp \<or> pa = SecureProxy \<and> ph = ProxySecured) \<and> dl \<noteq> None then Some (Tunnel, dl) else None)"
| "next_phase pa (ChromeTLS n) (ph, dl) =
     (if ph = (if pa = Direct then Tcp else Tunnel) \<and> dl \<noteq> None then Some (Secured n, dl) else None)"
| "next_phase pa HTTP2Opened (ph, dl) = (case ph of Secured n \<Rightarrow> if dl = None then Some (Http2 n, None) else None | _ \<Rightarrow> None)"
| "next_phase pa RequestSent (ph, dl) = (case ph of Http2 n \<Rightarrow> if dl = None then Some (Sent n, None) else None | _ \<Rightarrow> None)"
| "next_phase pa HTTP2Closed (ph, dl) = (case ph of Sent n \<Rightarrow> Some (Over, None) | _ \<Rightarrow> None)"
| "next_phase pa ConnClosed (ph, dl) = (if ph = NoConnection then None else Some (Over, None))"

fun phases :: "path \<Rightarrow> conn_step list \<Rightarrow> phase \<times> int option \<Rightarrow> (phase \<times> int option) option" where
  "phases pa [] ph = Some ph"
| "phases pa (st # sts) ph = (case next_phase pa st ph of None \<Rightarrow> None | Some ph' \<Rightarrow> phases pa sts ph')"

text \<open>The way to the host that the resolved proxy asks for.\<close>

definition path_of :: "'r net_world \<Rightarrow> path" where
  "path_of w =
     (case nw_resolve w of
        Inr (Some px) \<Rightarrow>
          if nw_lower w (px_Scheme px) \<in> {''http'', ''https''}
          then (if proxy_is_https w px then SecureProxy else PlainProxy)
          else SocksProxy
      | _ \<Rightarrow> Direct)"

subsection \<open>Lemmas\<close>

lemma phases_append: "phases pa (xs @ ys) ph = (case phases pa xs ph of None \<Rightarrow> None | Some ph' \<Rightarrow> phases pa ys ph')"
  by (induction xs arbitrary: ph) (auto split: option.split)

lemma phases_close: "phases pa xs ph = Some (ph', dl) \<Longrightarrow> ph' \<noteq> NoConnection \<Longrightarrow> phases pa (xs @ [ConnClosed]) ph = Some (Over, None)"
  by (simp add: phases_append)

lemma proxy_tls_phases:
  assumes "proxy_tls w req px = (r, steps)" "pa = (if proxy_is_https w px then SecureProxy else PlainProxy)"
  shows "\<exists>ph dl. phases pa steps (Tcp, None) = Some (ph, dl) \<and> ph \<noteq> NoConnection \<and>
    (r = None \<longrightarrow> dl = None \<and> ph = (if proxy_is_https w px then ProxySecured else Tcp))"
  using assms by (auto simp: proxy_tls_def Let_def split: if_splits option.splits)

lemma connect_tunnel_phases:
  assumes "connect_tunnel w req px address = (r, steps)"
    and "pa = PlainProxy \<and> ph0 = Tcp \<or> pa = SecureProxy \<and> ph0 = ProxySecured"
  shows "\<exists>ph dl. phases pa steps (ph0, None) = Some (ph, dl) \<and> ph \<noteq> NoConnection \<and>
    ((\<exists>b. r = Inr b) \<longrightarrow> dl = None \<and> ph = Tunnel)"
  using assms by (auto simp: connect_tunnel_def Let_def split: if_splits option.splits sum.splits prod.splits)

lemma dial_phases:
  assumes "dialConnection w req address = (r, steps)"
  shows "phases (path_of w) steps (NoConnection, None) =
    (case r of Inr b \<Rightarrow> Some (if path_of w = Direct then Tcp else Tunnel, None)
     | Inl e \<Rightarrow> Some (if steps = [] then NoConnection else Over, None))"
proof (cases "\<exists>px. nw_resolve w = Inr (Some px) \<and> nw_lower w (px_Scheme px) \<in> {''http'', ''https''}")
  case False
  with assms show ?thesis
    by (auto simp: dialConnection_def path_of_def split: sum.splits option.splits if_splits socks_outcome.splits)
next
  case True
  then obtain px where px: "nw_resolve w = Inr (Some px)" "nw_lower w (px_Scheme px) \<in> {''http'', ''https''}" by blast
  let ?pa = "if proxy_is_https w px then SecureProxy else PlainProxy"
  have pa: "path_of w = ?pa" using px by (simp add: path_of_def)
  have run: "dialHTTPConnectProxy w req px address = (r, steps)" using assms px by (simp add: dialConnection_def)
  show ?thesis
  proof (cases "nw_dial w")
    case (Some e)
    with run show ?thesis by (auto simp: dialHTTPConnectProxy_def)
  next
    case None
    obtain t ts where t: "proxy_tls w req px = (t, ts)" by (cases "proxy_tls w req px")
    obtain ph dl where ph: "phases ?pa ts (Tcp, None) = Some (ph, dl)" "ph \<noteq> NoConnection"
      "t = None \<longrightarrow> dl = None \<and> ph = (if proxy_is_https w px then ProxySecured else Tcp)"
      using proxy_tls_phases [OF t refl] by blast
    show ?thesis
    proof (cases t)
      case (Some e)
      then have "r = Inl e" "steps = Dialed (proxy_target w px) # ts @ [ConnClosed]"
        using run None t by (auto simp: dialHTTPConnectProxy_def)
      then show ?thesis using phases_close [OF ph(1,2)] by (auto simp: pa)
    next
      case ok: None
      obtain c cs where c: "connect_tunnel w req px address = (c, cs)" by (cases "connect_tunnel w req px address")
      have "?pa = PlainProxy \<and> ph = Tcp \<or> ?pa = SecureProxy \<and> ph = ProxySecured" using ph(3) ok by auto
      from connect_tunnel_phases [OF c this] obtain ph' dl' where ph':
        "phases ?pa cs (ph, None) = Some (ph', dl')" "ph' \<noteq> NoConnection" "(\<exists>b. c = Inr b) \<longrightarrow> dl' = None \<and> ph' = Tunnel"
        by blast
      have both: "phases ?pa (ts @ cs) (Tcp, None) = Some (ph', dl')"
        using ph ok ph'(1) by (simp add: phases_append)
      show ?thesis
      proof (cases c)
        case (Inl e)
        then have "r = Inl e" "steps = Dialed (proxy_target w px) # (ts @ cs) @ [ConnClosed]"
          using run None t ok c by (auto simp: dialHTTPConnectProxy_def)
        then show ?thesis using phases_close [OF both ph'(2)] by (auto simp: pa)
      next
        case (Inr b)
        then have "r = Inr b" "steps = Dialed (proxy_target w px) # ts @ cs"
          using run None t ok c by (auto simp: dialHTTPConnectProxy_def)
        then show ?thesis using both ph'(3) Inr by (auto simp: pa)
      qed
    qed
  qed
qed

lemma chrome_tls_phases:
  assumes "chrome_tls w req = (r, steps)"
  shows "\<exists>ph dl. phases pa steps (if pa = Direct then Tcp else Tunnel, None) = Some (ph, dl) \<and> ph \<noteq> NoConnection \<and>
    (r = None \<longrightarrow> dl = None \<and> ph = Secured (ob_Hostname req))"
  using assms by (auto simp: chrome_tls_def Let_def split: if_splits option.splits)

lemma exchange_phases:
  assumes "http2_exchange w = (r, steps)"
  shows "\<exists>ph dl. phases pa steps (Secured n, None) = Some (ph, dl) \<and> ph \<noteq> NoConnection \<and>
    ((\<exists>a. r = Inr a) \<longrightarrow> dl = None \<and> ph = Sent n)"
  using assms by (auto simp: http2_exchange_def split: option.splits sum.splits)

subsection \<open>Properties\<close>


text \<open>Closing the body of the answer ends the connection, and closing it again does nothing and gives the same errors.\<close>

lemma body_closed_once:
  assumes "phases pa steps (NoConnection, None) = Some (Sent n, None)" "close_body e1 e2 new_body = (errs, more_steps, b)"
  shows "phases pa (steps @ more_steps) (NoConnection, None) = Some (Over, None) \<and> close_body f1 f2 b = (errs, [], b)"
  using assms by (auto simp: close_body_def new_body_def phases_append Let_def)

text \<open>A handshake never runs past its time limit or the deadline of the request.\<close>

lemma limited_by_bound:
  "limited_by now timeout ctx \<le> now + timeout" "ctx = Some d \<Longrightarrow> limited_by now timeout ctx \<le> d"
  by (auto simp: limited_by_def split: option.split)

text \<open>Only requests to the official host over https leave the default transport.\<close>

lemma chrome_route_iff:
  "client_route fc (NewHTTPClient timeout chromeTLS) (Some r) =
     (if chromeTLS \<and> fc (ob_Scheme r) = fc ''https'' \<and> fc (ob_Hostname r) = fc ''chatgpt.com'' then ChromeRoute else FallbackRoute)"
  by (simp add: client_route_def NewHTTPClient_def selective_route_def isChatGPTHTTPS_def)

lemma tunnel_bytes_complete: "tunnel_bytes buffered rest = buffered @ rest"
  by (simp add: tunnel_bytes_def)

end
