(* ===== verification/WebEdge.thy ===== *)
theory WebEdge
  imports WebServer
begin

text \<open>
  What \<^verbatim>\<open>internal/web/server.go\<close> and \<^verbatim>\<open>middleware.go\<close> do around the handlers of \<open>WebServer\<close>: the headers every
  answer carries, the paths no route matches (the files of the console), the health check, and the days the overview
  asks for. The embedded files and the calendar of a time zone are arguments.
\<close>

subsection \<open>Headers\<close>

text \<open>A word between two quotation marks.\<close>

definition quoted :: "gostring \<Rightarrow> gostring" where
  "quoted s = [CHR 0x27] @ s @ [CHR 0x27]"

definition serverHeaders :: "gostring \<Rightarrow> (gostring \<times> gostring) list" where
  "serverHeaders path =
     [(''X-Content-Type-Options'', ''nosniff''),
      (''X-Frame-Options'', ''DENY''),
      (''Referrer-Policy'', ''same-origin''),
      (''Permissions-Policy'', ''camera=(), microphone=(), geolocation=()''),
      (''Content-Security-Policy'',
       ''default-src '' @ quoted ''self'' @ ''; script-src '' @ quoted ''self'' @ ''; style-src '' @ quoted ''self'' @ '' '' @
       quoted ''unsafe-inline'' @ ''; img-src '' @ quoted ''self'' @ '' data:; connect-src '' @ quoted ''self'' @
       ''; frame-ancestors '' @ quoted ''none'' @ ''; base-uri '' @ quoted ''self'' @ ''; form-action '' @ quoted ''self'')] @
     (if has_prefix path ''/api/'' then [(''Cache-Control'', ''no-store'')] else [])"

definition cors_headers :: "(gostring \<times> gostring) list" where
  "cors_headers =
     [(''Access-Control-Allow-Origin'', ''*''),
      (''Access-Control-Allow-Headers'', ''Authorization, Content-Type, X-API-Key, Session-Id, Thread-Id, X-Client-Request-Id''),
      (''Access-Control-Allow-Methods'', ''GET, POST, OPTIONS''),
      (''Access-Control-Expose-Headers'', ''X-Request-Id, OpenAI-Request-Id, Retry-After'')]"

subsection \<open>Paths without a route\<close>

datatype page =
    ErrorPage reply
  | FilePage gostring
  | IndexPage gostring "(gostring \<times> gostring) list"

definition trim_slash :: "gostring \<Rightarrow> gostring" where
  "trim_slash path = (if has_prefix path ''/'' then drop 1 path else path)"

text \<open>\<open>index\<close> is what reading \<^verbatim>\<open>index.html\<close> gives; \<open>FilePage\<close> is the file server.\<close>

definition notFound :: "gostring option \<Rightarrow> gostring \<Rightarrow> page" where
  "notFound index path =
     (if has_prefix path ''/api/'' \<or> has_prefix path ''/v1/''
      then ErrorPage (writeError 404 ''not_found'' ''route not found'')
      else if CHR ''.'' \<in> set (trim_slash path) then FilePage path
      else (case index of
              None \<Rightarrow> ErrorPage (writeError 500 ''frontend_unavailable'' ''frontend asset is unavailable'')
            | Some content \<Rightarrow>
                IndexPage content [(''Content-Type'', ''text/html; charset=utf-8''), (''Cache-Control'', ''no-cache'')]))"

subsection \<open>Health\<close>

text \<open>The database is asked first; the sessions in memory always answer, those in Redis may not.\<close>

definition health_check :: "bool \<Rightarrow> bool \<Rightarrow> reply" where
  "health_check database_up sessions_up =
     (if \<not> database_up then writeError 503 ''database_unavailable'' ''database health check failed''
      else if \<not> sessions_up then writeError 503 ''session_store_unavailable'' ''session storage health check failed''
      else writeJSON 200 OtherBody)"

subsection \<open>Days\<close>

text \<open>The calendar of the configured time zone: midnight of the day of a time, a date as text, one day later, and
  \<^verbatim>\<open>UnixMilli\<close>.\<close>

record calendar =
  ca_midnight :: "int \<Rightarrow> int"
  ca_parse :: "gostring \<Rightarrow> int option"
  ca_next_day :: "int \<Rightarrow> int"
  ca_millis :: "int \<Rightarrow> int"

definition dayRange :: "calendar \<Rightarrow> int \<Rightarrow> gostring \<Rightarrow> (int \<times> int) option" where
  "dayRange ca now raw =
     (if raw = [] then (let start = ca_midnight ca now in Some (start, ca_next_day ca start))
      else (case ca_parse ca raw of None \<Rightarrow> None | Some start \<Rightarrow> Some (start, ca_next_day ca start)))"

definition day_query :: "calendar \<Rightarrow> int \<Rightarrow> gostring \<Rightarrow> bool \<Rightarrow> bool \<Rightarrow> overview_query" where
  "day_query ca now raw up_stats up_logs =
     \<lparr>oq_range = map_option (\<lambda>(start, end'). (ca_millis ca start, ca_millis ca end')) (dayRange ca now raw),
      oq_up_stats = up_stats, oq_up_logs = up_logs\<rparr>"

subsection \<open>Lemmas\<close>

text \<open>A path below the two programming interfaces is never answered with a page of the console.\<close>

lemma interfaces_have_no_pages:
  "has_prefix path ''/api/'' \<or> has_prefix path ''/v1/'' \<Longrightarrow> notFound index path = ErrorPage (writeError 404 ''not_found'' ''route not found'')"
  by (auto simp: notFound_def)

text \<open>Every page of the console that is no file is the index, which is not cached without asking again.\<close>

lemma index_for_pages:
  assumes "\<not> has_prefix path ''/api/''" "\<not> has_prefix path ''/v1/''" "CHR ''.'' \<notin> set path"
  shows "notFound (Some content) path = IndexPage content [(''Content-Type'', ''text/html; charset=utf-8''), (''Cache-Control'', ''no-cache'')]"
proof -
  have "CHR ''.'' \<notin> set (trim_slash path)"
    using assms(3) by (auto simp: trim_slash_def dest: in_set_dropD)
  with assms(1,2) show ?thesis by (simp add: notFound_def)
qed

lemma api_not_stored: "(''Cache-Control'', ''no-store'') \<in> set (serverHeaders (''/api/'' @ rest))"
  by (simp add: serverHeaders_def has_prefix_def)

lemma health_agrees: "fst (health up sv) = health_check up True"
  by (simp add: health_def health_check_def)

text \<open>Adjacent days of the overview neither overlap nor leave a gap: a request of the time they cover is
  counted in exactly one of them.\<close>

lemma adjacent_days:
  assumes "ca_parse ca a = Some start" "ca_parse ca b = Some (ca_next_day ca start)" "a \<noteq> []" "b \<noteq> []"
    and "\<And>t. t \<le> ca_next_day ca t" "\<And>s t. s \<le> t \<Longrightarrow> ca_millis ca s \<le> ca_millis ca t"
    and "oq_range (day_query ca now a u1 l1) = Some (s1, e1)" "oq_range (day_query ca now b u2 l2) = Some (s2, e2)"
  shows "in_range s1 e2 e \<longleftrightarrow> in_range s1 e1 e \<noteq> in_range s2 e2 e"
proof -
  have "s1 = ca_millis ca start" "e1 = ca_millis ca (ca_next_day ca start)" "s2 = e1"
    "e2 = ca_millis ca (ca_next_day ca (ca_next_day ca start))"
    using assms(1-4,7,8) by (simp_all add: day_query_def dayRange_def)
  moreover from this have "s1 \<le> e1" "e1 \<le> e2" using assms(5,6) by simp_all
  ultimately show ?thesis by (auto simp: in_range_def)
qed

end
