(* ===== verification/Spec2Isabelle.thy ===== *)
theory Spec2Isabelle
  imports AppShell Account Overview Forms Keys Modal ClientAddress Lifecycle Inbox AccountLogin ProxyRuns Startup Upstream WebEdge
begin

text \<open>
  CodexOne is a private gateway: a Go server that passes requests of API clients on to one Codex
  account, with a web console (React, \<^verbatim>\<open>web/src\<close>) for its administrator. The console talks to the
  server through \<^verbatim>\<open>/api\<close> only; the server keeps its tables in SQLite or Postgres, sessions in
  memory or Redis. This development models the console completely and, of the server, who may do what
  (sessions, the sign-in limiter, API keys, the tables behind them, the middleware of the routes), how the
  Codex account is connected, kept and refreshed, and how requests and answers are translated on their way
  through the proxy, over HTTP and over WebSockets, and how the process starts, connects to the upstream and stops.

  \<^bold>\<open>The console.\<close> A component is an event machine: a record of its state, a datatype of events
  (clicks, answers of requests, timers) and a step function that returns the new state and the
  effects (requests, toasts, intervals). A handler that awaits a request is two events, so
  answers may arrive in any order, also after the component has changed.

  \<^item> \<open>JsRuntime\<close>, \<open>UriEncoding\<close>: strings as UTF-16 units, JSON values, \<^verbatim>\<open>??\<close>, \<^verbatim>\<open>||\<close>, \<^verbatim>\<open>trim\<close>,
    \<^verbatim>\<open>padStart\<close>, \<^verbatim>\<open>encodeURIComponent\<close>. \<open>WebTypes\<close>: \<^verbatim>\<open>types.ts\<close>. \<open>Messages\<close>: the texts.
  \<^item> \<open>ApiClient\<close>: \<^verbatim>\<open>api.ts\<close>. What \<^verbatim>\<open>fetch\<close> delivers is the argument; the result is the value or
    the rejection, with the sign-out event.
  \<^item> \<open>AppShell\<close>: \<^verbatim>\<open>App.tsx\<close>, \<^verbatim>\<open>Shell.tsx\<close>: session, page, hash, toast, and what is rendered.
  \<^item> \<open>Account\<close>: \<^verbatim>\<open>Account.tsx\<close>. Each run of the polling effect is a poller with its own closure;
    \<open>commit\<close> is React's cleanup and rerun of the effect. The lemmas on \<open>poller_inv\<close> show that
    at most the mounted poller acts.
  \<^item> \<open>Overview\<close>, \<open>Keys\<close>: \<^verbatim>\<open>Overview.tsx\<close> and \<^verbatim>\<open>Keys.tsx\<close>. \<open>Forms\<close>: the sign-in page and the dialogs that
    submit a request, each an instance of the contract \<open>async_form\<close>.
  \<^item> \<open>Modal\<close>: \<^verbatim>\<open>Modal.tsx\<close> in a document of numbered elements, with the closures of its effect,
    animation frames and the browser's own Tab.

  \<^bold>\<open>The server.\<close> A handler is a function from the server's state to a reply and the new state. The
  clock, random tokens, salted hashes and whether a statement runs are arguments of the call;
  every error branch of the source is a branch of the model. Operations under one lock, and
  single SQL statements or transactions, are one step.

  \<^item> \<open>GoRuntime\<close>: strings as bytes, \<^verbatim>\<open>strings.TrimSpace\<close> with all Unicode spaces.
  \<^item> \<open>SessionStore\<close>: \<^verbatim>\<open>internal/session/store.go\<close>, the store in memory. The locale
    \<open>session_store\<close> is the contract of the interface \<^verbatim>\<open>Store\<close>, in terms of the entries that are
    live at a time; the interpretation \<open>memory\<close> shows that sweeps, lazy removal and the capacity
    implement it.
  \<^item> \<open>LoginLimiter\<close>: \<^verbatim>\<open>loginLimiter\<close> of \<^verbatim>\<open>middleware.go\<close>. \<open>budget\<close> is the number of comparisons an
    address can still get; every comparison costs one.
  \<^item> \<open>Database\<close>: \<^verbatim>\<open>internal/store\<close>, each statement as a function on tables, with the constraints of
    the schema as the invariant \<open>db_inv\<close>.
  \<^item> \<open>AdminAuth\<close>: \<^verbatim>\<open>secret.go\<close>, the handlers of \<^verbatim>\<open>admin.go\<close> for sessions, the password and keys, and the
    middleware. \<open>WebServer\<close>: the routes of \<^verbatim>\<open>server.go\<close> with the middleware in front of them as
    one step (\<open>serve\<close>), and histories of requests. \<open>ClientAddress\<close>: \<^verbatim>\<open>clientAddress\<close>.
  \<^item> \<open>Base64\<close>: the encodings of \<^verbatim>\<open>encoding/base64\<close> and \<^verbatim>\<open>encoding/hex\<close> that the server stores and reads.
    \<open>Logging\<close>: \<^verbatim>\<open>internal/logging\<close>, the ring behind the log view.
  \<^item> \<open>Credentials\<close>: \<^verbatim>\<open>internal/cryptox/cipher.go\<close> with the key file, and of \<^verbatim>\<open>internal/codex/auth.go\<close> what makes a
    credential of tokens and how it is stored, read and refreshed under the lock. \<open>OAuthFlows\<close>: the rest of \<^verbatim>\<open>auth.go\<close>:
    device flow, browser flow, import, quota. \<open>AccountHandlers\<close>: the handlers of \<^verbatim>\<open>admin.go\<close> for them, each a run of
    the manager. \<open>AccountLogin\<close>: the browser login in histories of the whole server.

  \<^bold>\<open>The proxy\<close> (\<^verbatim>\<open>internal/proxy\<close>).

  \<^item> \<open>GoJson\<close>, \<open>Normalize\<close>: decoded JSON, and \<^verbatim>\<open>normalize.go\<close>, which turns a client's
    request into the one sent upstream. \<open>Compat\<close>: \<^verbatim>\<open>upstream_compat.go\<close>, the ids and types of the items of a request.
  \<^item> \<open>Identity\<close>: \<^verbatim>\<open>identity.go\<close>, the pseudonyms that replace what identifies a client and the way back in the answers.
  \<^item> \<open>ProxyEvents\<close>: the parts of \<^verbatim>\<open>service.go\<close> that read an event stream: lines, usage, telemetry, failures, the collected
    response. \<open>ChatStream\<close>, \<open>ChatConvert\<close>: \<^verbatim>\<open>chat.go\<close>, the stream of chat chunks, and the conversion of chat requests and of whole
    answers. \<open>ProxyHandlers\<close>: the HTTP handlers of \<^verbatim>\<open>service.go\<close> and \<^verbatim>\<open>chat.go\<close>, each run a function of the request and of what
    the upstream, the account and the clock do. \<open>ProxyRuns\<close>: what every run sends, logs and stores, and that it refines a
    call of the web server.
  \<^item> \<open>Conversation\<close>: \<^verbatim>\<open>websocket_state.go\<close>, what a WebSocket client may ask next and what is sent for it; its runs are
    turns prepared and committed. \<open>WebSocketSession\<close>: \<^verbatim>\<open>websocket.go\<close>, a session with all its error paths, which refines the
    runs of \<open>Conversation\<close>. \<open>Inbox\<close>: the two bounded queues of a session and the goroutines that fill them (locale
    \<open>bounded_feed\<close>, interpreted for both). \<open>Lifecycle\<close>: requests, connections and the shutdown as interleaved steps.

  \<^bold>\<open>The process.\<close>

  \<^item> \<open>Configuration\<close>: \<^verbatim>\<open>internal/config/config.go\<close>, with integers of 64 bits (\<open>goint\<close>). The case rule
    \<open>Load_Inr\<close> says what an accepted configuration has passed.
  \<^item> \<open>Migrations\<close>: how \<^verbatim>\<open>internal/store/store.go\<close> opens the database. A schema is tables of columns and rows; \<open>migrated\<close> is
    the reference, \<open>stage\<close> what an interrupted start may leave behind. \<^verbatim>\<open>query\<close> numbers placeholders.
  \<^item> \<open>Startup\<close>: \<^verbatim>\<open>cmd/server/main.go\<close>, \<^verbatim>\<open>EnsureAdminPassword\<close>, \<^verbatim>\<open>session.New\<close> and \<^verbatim>\<open>logging.New\<close>. A run is a list of
    events, \<open>scoped\<close> is \<^verbatim>\<open>defer\<close>; \<open>closes\<close> reads the events as a stack of what is open.
  \<^item> \<open>Upstream\<close>: \<^verbatim>\<open>internal/upstream/client.go\<close>; the automaton \<open>phases\<close> is the order in which a connection may be used.
  \<^item> \<open>WebEdge\<close>: headers, the paths of the console, the health check and the days of the overview (\<^verbatim>\<open>server.go\<close>,
    \<^verbatim>\<open>middleware.go\<close>).

  This theory joins the two sides: replies of the server as the console receives them, and the
  overview from the tables to the page.

  \<^bold>\<open>Shared structure.\<close> \<open>Prelude\<close> has the runs of event machines and two locales: \<open>event_machine\<close>
  (an invariant of every step holds in every run) and \<open>gated_machine\<close> (what holds at the end
  of a run was established by some event that nothing destroyed since). The session store behind the
  server, the browser logins, the console's session and the display of a new key's secret are instances of the latter.

  \<^bold>\<open>Arguments and their hypotheses.\<close> SHA-256 and HMAC (taken as injective where a theorem needs it), bcrypt, AES-GCM (what was
  sealed opens), \<^verbatim>\<open>net/url\<close>, JSON decoders and encoders, Unicode folding, the \<^verbatim>\<open>netip\<close> package, Intl's number and time
  formats. Where such an argument has to behave, the hypothesis has a name (\<open>aead_ok\<close>, \<open>flows_ok\<close>, \<open>item_ok\<close>) and the
  witness of the theorem an instance. Times are nanoseconds unless a field of the database holds milliseconds; generations
  of connections are unbounded where the code counts in 64 bits.

  \<^bold>\<open>Termination.\<close> Loops are structural recursions; \<open>trim_codes\<close> ends because every round shortens its string. The search
  for a fresh item id has no bound in the code: \<open>unique_from\<close> is a partial function, \<open>items_terminate\<close> shows when it
  returns, and what rests on it has an \<open>option\<close> for its result. No fuel is used.

  \<^bold>\<open>Not modelled.\<close> Static markup, icons and styles; the build and the bundle it generates; the
  Redis store, the matching of paths and the TLS of the WebSocket dialer, which are calls to libraries; the log messages of
  the proxy; several server processes on one database. The statements the
  handlers of the proxy run on the database are arbitrary in \<open>WebServer\<close>; \<open>ProxyRuns\<close> shows that those of the real
  handlers are such statements.
\<close>

subsection \<open>From the server to the console\<close>

text \<open>
  What the browser delivers for a reply that \<^verbatim>\<open>writeError\<close> made: the JSON of its body with the
  content type that \<^verbatim>\<open>writeJSON\<close> sets. The server's texts are ASCII, so their bytes are their
  UTF-16 code units.
\<close>

definition js_text :: "gostring \<Rightarrow> jstr" where
  "js_text s = map of_char s"

definition error_response :: "int \<Rightarrow> gostring \<Rightarrow> gostring \<Rightarrow> response" where
  "error_response status code message =
     \<lparr>rs_status = status, rs_content_type = Some (js ''application/json; charset=utf-8''),
      rs_json = Inr (Obj [(js ''error'',
        Obj [(js ''code'', Str (js_text code)), (js ''message'', Str (js_text message))])]),
      rs_text = Inl []\<rparr>"

definition delivered :: "reply \<Rightarrow> fetch_outcome option" where
  "delivered rp =
     (case rp_body rp of
        ErrorBody code message \<Rightarrow> Some (Responded (error_response (rp_status rp) code message))
      | _ \<Rightarrow> None)"

lemma json_content [simp]:
  "str_includes (js ''application/json; charset=utf-8'') (js ''application/json'')"
  by (simp add: js_def)

lemma read_error [simp]:
  "read_payload (error_response st code m) =
     Inr (Obj [(js ''error'', Obj [(js ''code'', Str (js_text code)), (js ''message'', Str (js_text m))])])"
  by (simp add: read_payload_def error_response_def)

lemma status_error [simp]: "rs_status (error_response st code m) = st"
  by (simp add: error_response_def)

lemma error_value_server:
  "error_value (Obj [(js ''error'', Obj [(js ''code'', c), (js ''message'', Str m)])]) = Str m"
  by (rule error_value_message) (simp add: js_def)+

lemma api_server_error:
  assumes "status \<ge> 400"
  shows "api nt (Responded (error_response status code message)) =
    (Inl (APIError (js_text message) status), if status = 401 then [UnauthorizedEvent] else [])"
  using assms by (simp add: api_error response_ok_def error_value_server)

text \<open>What the server says is what the console shows: the message of every error the server
  writes arrives unchanged as the message of the rejected call, with its status, so that every page shows
  the server's text and none its own fallback.\<close>

lemma server_error_reaches_page:
  assumes "status \<ge> 400"
  shows "\<exists>outcome c. delivered (writeError status code message) = Some outcome \<and>
    fst (api nt outcome) = Inl c \<and> cause_message fallback c = js_text message \<and>
    is_unauthorized c = (status = 401)"
  using api_server_error [OF assms, of nt code message]
  by (simp add: delivered_def writeError_def writeJSON_def)

lemma server_error_reaches_page_witness:
  "\<exists>outcome c. delivered (writeError 429 ''login_blocked'' ''too many failed attempts'') = Some outcome \<and>
    fst (api (\<lambda>_. []) outcome) = Inl c \<and>
    cause_message msg_login_failed c = js_text ''too many failed attempts'' \<and>
    is_unauthorized c = (429 = (401 :: int))"
  by (rule server_error_reaches_page) simp

text \<open>C34. A wrong current password in the password dialog signs the console out although the session
  is still accepted: the server answers with 401, the same status as for an expired session,
  the client takes it for one and shows the sign-in page, and the dialog with its message is gone; the server's session and its database are untouched.\<close>

theorem wrong_current_password_leaves_console:
  assumes "pc_body c = Decoded (current, next_password)"
    and "GetSetting (pc_up_read c) adminPasswordSetting (sv_db sv) = Inr h"
    and "\<not> CheckPassword lb h current"
    and "session s = Some info"
  shows "\<exists>outcome. delivered (fst (changePassword lb c sv)) = Some outcome \<and>
    snd (api nt outcome) = [UnauthorizedEvent] \<and>
    app_render (fst (app_step s Unauthorized)) = LoginScreen (shown_toast s) \<and>
    snd (changePassword lb c sv) = sv"
proof -
  have "changePassword lb c sv = (writeError 401 ''invalid_password'' ''current password is incorrect'', sv)"
    using assms(1-3) by (simp add: changePassword_def decodeJSON_def Let_def)
  moreover have "app_render (fst (app_step s Unauthorized)) = LoginScreen (shown_toast s)"
    using assms(4) by (simp add: on_unauthorized_def app_render_def shown_toast_def)
  ultimately show ?thesis
    using api_server_error [of 401 nt "''invalid_password''" "''current password is incorrect''"]
    by (simp add: delivered_def writeError_def writeJSON_def)
qed

theorem wrong_current_password_leaves_console_witness:
  "\<exists>outcome. delivered (fst (changePassword sample_library
       (sample_change\<lparr>pc_body := Decoded (''typo'', ''new-password'')\<rparr>) (new_server sample_database 4))) = Some outcome \<and>
     snd (api (\<lambda>_. []) outcome) = [UnauthorizedEvent]"
proof -
  have "\<exists>outcome. delivered (fst (changePassword sample_library
       (sample_change\<lparr>pc_body := Decoded (''typo'', ''new-password'')\<rparr>) (new_server sample_database 4))) = Some outcome \<and>
     snd (api (\<lambda>_. []) outcome) = [UnauthorizedEvent] \<and>
     app_render (fst (app_step ((app_init [])\<lparr>session := Some sample_session\<rparr>) Unauthorized)) =
       LoginScreen (shown_toast ((app_init [])\<lparr>session := Some sample_session\<rparr>)) \<and>
     snd (changePassword sample_library
       (sample_change\<lparr>pc_body := Decoded (''typo'', ''new-password'')\<rparr>) (new_server sample_database 4)) =
       new_server sample_database 4"
    by (rule wrong_current_password_leaves_console [where h = "''b:old''" and info = sample_session])
      (simp add: sample_change_def new_server_def sample_database_def GetSetting_def CheckPassword_def
        sample_library_def)+
  then show ?thesis by blast
qed

subsection \<open>The overview, from the tables to the page\<close>

text \<open>
  The JSON of the overview as the page reads it. \<^verbatim>\<open>omitempty\<close> leaves out empty strings and zeros;
  \<open>text\<close> decodes the UTF-8 of a Go string.
\<close>

definition omit_empty :: "(gostring \<Rightarrow> jstr) \<Rightarrow> gostring \<Rightarrow> jstr option" where
  "omit_empty text s = (if s = [] then None else Some (text s))"

definition omit_zero :: "int \<Rightarrow> int option" where
  "omit_zero n = (if n = 0 then None else Some n)"

definition entry_json :: "(gostring \<Rightarrow> jstr) \<Rightarrow> RequestLog \<Rightarrow> RequestEntry" where
  "entry_json text e =
     \<lparr>re_id = text (lg_id e), re_request_id = text (lg_request_id e),
      re_api_key_id = omit_empty text (lg_api_key_id e), re_api_key_name = omit_empty text (lg_api_key_name e),
      re_method = text (lg_method e), re_path = text (lg_path e), re_model = omit_empty text (lg_model e),
      re_status = lg_status e, re_duration_ms = lg_duration_ms e, re_input_tokens = lg_input_tokens e,
      re_output_tokens = lg_output_tokens e, re_reasoning_tokens = lg_reasoning_tokens e,
      re_reasoning_effort = omit_empty text (lg_reasoning_effort e),
      re_upstream_reasoning_effort = omit_empty text (lg_upstream_reasoning_effort e),
      re_first_reasoning_ms = omit_zero (lg_first_reasoning_ms e),
      re_first_output_ms = omit_zero (lg_first_output_ms e), re_error = omit_empty text (lg_error e),
      re_created_at = lg_created_at e\<rparr>"

definition stats_json :: "DayStats \<Rightarrow> TodayStats" where
  "stats_json st =
     \<lparr>ts_requests = st_requests st, ts_successes = st_successes st, ts_success_rate = st_success_rate st,
      ts_average_ms = st_average_ms st, ts_input_tokens = st_input_tokens st,
      ts_output_tokens = st_output_tokens st, ts_reasoning_tokens = st_reasoning_tokens st\<rparr>"

definition overview_json ::
  "(gostring \<Rightarrow> jstr) \<Rightarrow> gostring \<Rightarrow> gostring \<Rightarrow> bool \<Rightarrow> DayStats \<times> RequestLog list \<Rightarrow> OverviewData" where
  "overview_json text day base linked x =
     \<lparr>od_date = text day, od_stats = stats_json (fst x), od_requests = map (entry_json text) (snd x),
      od_base_url = text (base @ ''/v1''), od_account_connected = linked\<rparr>"

text \<open>C33. The line above the table tells the truth about the day: with \<open>n\<close> requests logged on it, the
  page says that there are \<open>n\<close> of which the latest 150 are shown when \<open>n\<close> is more than 150, and
  otherwise that there are \<open>n\<close>; the table then has exactly as many rows as the line says.\<close>

theorem summary_counts_the_day:
  "case overview_reply \<lparr>oq_range = Some (start, end'), oq_up_stats = True, oq_up_logs = True\<rparr> db of
     Inl r \<Rightarrow> False
   | Inr x \<Rightarrow>
       let data = overview_json text day base linked x;
           n = int (length (filter (in_range start end') (db_logs db)))
       in requestSummary formatNumber (Some data) =
            (if n > 150 then text_total @ formatNumber n @ text_only_latest @ formatNumber 150 @ text_entries
             else formatNumber n @ text_records) \<and>
          int (length (od_requests data)) = min 150 n"
proof -
  let ?es = "filter (in_range start end') (db_logs db)"
  obtain es where es: "ListRequestLogs True start end' 150 db = Inr es" "int (length es) = min 150 (int (length ?es))"
    by (simp add: ListRequestLogs_def)
  have st: "TodayStatsQuery True start end' db = Inr (DayStats_of ?es)"
    by (simp add: TodayStatsQuery_def)
  have n: "st_requests (DayStats_of ?es) = int (length ?es)" by (simp add: DayStats_of_def Let_def)
  show ?thesis
    by (simp add: overview_reply_def es(1) st requestSummary_def overview_json_def stats_json_def n Let_def
        es(2) min_def del: filter_filter)
qed

end
